(* ===== verification/Go_Prelude.thy ===== *)
theory Go_Prelude
  imports Main "HOL-Library.Char_ord" "HOL-Library.List_Lexorder" "HOL-Library.Sublist"
begin

text \<open>
  What every component of the adapter shares: Go strings as byte strings (a \<^typ>\<open>char\<close> is one
  byte, so \<^typ>\<open>string\<close> is Go's \<^verbatim>\<open>string\<close> and \<^verbatim>\<open>[]byte\<close>), the parts of package \<^verbatim>\<open>strings\<close> the source
  calls, signed 64-bit wrap-around, Go's error values and run-time panics.
\<close>

named_theorems go_str "rewriting of the Go string helpers"
named_theorems conv_step "what one handler of a stream processor does to its state"

section \<open>Byte strings\<close>

abbreviation byte_val :: "char \<Rightarrow> nat" where
  "byte_val c \<equiv> of_char c"

definition hasPrefix :: "string \<Rightarrow> string \<Rightarrow> bool" where
  "hasPrefix s p \<longleftrightarrow> take (length p) s = p"

lemma hasPrefix_iff [go_str]: "hasPrefix s p \<longleftrightarrow> (\<exists>r. s = p @ r)"
  by (auto simp: hasPrefix_def) (metis append_take_drop_id)

lemma hasPrefix_append [simp]: "hasPrefix (p @ r) p"
  by (simp add: hasPrefix_def)

lemma hasPrefix_mono: "hasPrefix t p \<Longrightarrow> hasPrefix (t @ u) p"
  by (auto simp: hasPrefix_iff)

text \<open>\<^verbatim>\<open>strings.Join\<close>\<close>

fun joinWith :: "string \<Rightarrow> string list \<Rightarrow> string" where
  "joinWith sep [] = []"
| "joinWith sep [x] = x"
| "joinWith sep (x # y # xs) = x @ sep @ joinWith sep (y # xs)"

text \<open>
  \<^verbatim>\<open>strings.TrimSpace\<close> and \<^verbatim>\<open>bytes.TrimSpace\<close> remove leading and trailing runes for which
  \<^verbatim>\<open>unicode.IsSpace\<close> holds. These are the UTF-8 encodings of those runes; none is a prefix of
  another.
\<close>

definition space_runes :: "string list" where
  "space_runes =
     [[CHR 0x09], [CHR 0x0A], [CHR 0x0B], [CHR 0x0C], [CHR 0x0D], [CHR 0x20],
      [CHR 0xC2, CHR 0x85], [CHR 0xC2, CHR 0xA0], [CHR 0xE1, CHR 0x9A, CHR 0x80],
      [CHR 0xE2, CHR 0x80, CHR 0x80], [CHR 0xE2, CHR 0x80, CHR 0x81],
      [CHR 0xE2, CHR 0x80, CHR 0x82], [CHR 0xE2, CHR 0x80, CHR 0x83],
      [CHR 0xE2, CHR 0x80, CHR 0x84], [CHR 0xE2, CHR 0x80, CHR 0x85],
      [CHR 0xE2, CHR 0x80, CHR 0x86], [CHR 0xE2, CHR 0x80, CHR 0x87],
      [CHR 0xE2, CHR 0x80, CHR 0x88], [CHR 0xE2, CHR 0x80, CHR 0x89],
      [CHR 0xE2, CHR 0x80, CHR 0x8A], [CHR 0xE2, CHR 0x80, CHR 0xA8],
      [CHR 0xE2, CHR 0x80, CHR 0xA9], [CHR 0xE2, CHR 0x80, CHR 0xAF],
      [CHR 0xE2, CHR 0x81, CHR 0x9F], [CHR 0xE3, CHR 0x80, CHR 0x80]]"

text \<open>The first entry of the table that the string starts with, removed.\<close>

fun stripOne :: "string list \<Rightarrow> string \<Rightarrow> string option" where
  "stripOne [] s = None"
| "stripOne (w # ws) s =
     (if w \<noteq> [] \<and> hasPrefix s w then Some (drop (length w) s) else stripOne ws s)"

lemma stripOne_shorter: "stripOne ws s = Some t \<Longrightarrow> length t < length s"
  by (induction ws) (auto simp: hasPrefix_iff split: if_splits)

function trimLeft :: "string list \<Rightarrow> string \<Rightarrow> string" where
  "trimLeft ws s = (case stripOne ws s of None \<Rightarrow> s | Some t \<Rightarrow> trimLeft ws t)"
  by pat_completeness auto
termination
  by (relation "measure (\<lambda>(ws, s). length s)") (auto dest: stripOne_shorter)

declare trimLeft.simps [simp del]

definition trimRight :: "string list \<Rightarrow> string \<Rightarrow> string" where
  "trimRight ws s = rev (trimLeft (map rev ws) (rev s))"

definition trimSpace :: "string \<Rightarrow> string" where
  "trimSpace s = trimRight space_runes (trimLeft space_runes s)"

definition isBlank :: "string \<Rightarrow> bool" where
  "isBlank s \<longleftrightarrow> trimSpace s = []"

lemma stripOne_None: "stripOne ws s = None \<longleftrightarrow> (\<forall>w\<in>set ws. w \<noteq> [] \<longrightarrow> \<not> hasPrefix s w)"
  by (induction ws) auto

lemma trimLeft_None [simp]: "stripOne ws s = None \<Longrightarrow> trimLeft ws s = s"
  by (simp add: trimLeft.simps [of ws s])

lemma trimLeft_Some [simp]: "stripOne ws s = Some t \<Longrightarrow> trimLeft ws s = trimLeft ws t"
  by (simp add: trimLeft.simps [of ws s])

lemma stripOne_trimLeft [simp]: "stripOne ws (trimLeft ws s) = None"
proof (induction ws s rule: trimLeft.induct)
  case (1 ws s)
  then show ?case by (cases "stripOne ws s") auto
qed

lemma stripOne_suffix: "stripOne ws s = Some t \<Longrightarrow> suffix t s"
  by (induction ws) (auto simp: suffix_drop split: if_splits)

lemma trimLeft_suffix: "suffix (trimLeft ws s) s"
proof (induction ws s rule: trimLeft.induct)
  case (1 ws s)
  show ?case
  proof (cases "stripOne ws s")
    case None
    then show ?thesis by simp
  next
    case (Some t)
    with 1 show ?thesis by (auto dest: stripOne_suffix intro: suffix_order.trans)
  qed
qed

lemma trimRight_prefix: "prefix (trimRight ws s) s"
  using trimLeft_suffix [of "map rev ws" "rev s"] by (simp add: trimRight_def suffix_to_prefix)

lemma trimLeft_Nil [simp]: "trimLeft ws [] = []"
  using trimLeft_suffix [of ws "[]"] by simp

lemma trimSpace_Nil [simp]: "trimSpace [] = []"
  by (simp add: trimSpace_def trimRight_def)

lemma isBlank_Nil [simp]: "isBlank []"
  by (simp add: isBlank_def)

lemma trimSpace_length: "length (trimSpace s) \<le> length s"
proof -
  have "length (trimSpace s) \<le> length (trimLeft space_runes s)"
    unfolding trimSpace_def by (rule prefix_length_le [OF trimRight_prefix])
  also have "\<dots> \<le> length s" by (rule suffix_length_le [OF trimLeft_suffix])
  finally show ?thesis .
qed

lemma stripOne_prefix: "prefix t s \<Longrightarrow> stripOne ws s = None \<Longrightarrow> stripOne ws t = None"
  by (auto simp: stripOne_None prefix_def hasPrefix_mono)

lemma trimSpace_idem [simp]: "trimSpace (trimSpace s) = trimSpace s"
proof -
  let ?l = "trimLeft space_runes s"
  have "stripOne space_runes (trimSpace s) = None"
    by (simp add: trimSpace_def stripOne_prefix [OF trimRight_prefix])
  then have "trimLeft space_runes (trimSpace s) = trimSpace s" by simp
  moreover have "trimRight space_runes (trimSpace s) = trimSpace s"
    by (simp add: trimSpace_def trimRight_def)
  ultimately show ?thesis by (simp add: trimSpace_def [of "trimSpace s"])
qed

lemma isBlank_trimSpace [simp]: "isBlank (trimSpace s) = isBlank s"
  by (simp add: isBlank_def)

text \<open>The helper \<^verbatim>\<open>nonEmpty\<close> of the protocol package.\<close>

definition nonEmpty :: "string \<Rightarrow> string \<Rightarrow> string" where
  "nonEmpty value fallback = (if value \<noteq> [] then value else fallback)"

lemma nonEmpty_simps [simp, go_str]:
  "nonEmpty [] f = f"
  "v \<noteq> [] \<Longrightarrow> nonEmpty v f = v"
  by (simp_all add: nonEmpty_def)

section \<open>Signed 64-bit integers\<close>

text \<open>
  Go's \<^verbatim>\<open>int\<close> on the 64-bit targets of the adapter. Values are kept as \<^typ>\<open>int\<close>; arithmetic whose
  overflow can matter is wrapped by \<open>i64\<close>.
\<close>

definition i64 :: "int \<Rightarrow> int" where
  "i64 x = (x + 2 ^ 63) mod 2 ^ 64 - 2 ^ 63"

definition in_i64 :: "int \<Rightarrow> bool" where
  "in_i64 x \<longleftrightarrow> - (2 ^ 63) \<le> x \<and> x < 2 ^ 63"

lemma i64_id [simp]: "in_i64 x \<Longrightarrow> i64 x = x"
  by (simp add: i64_def in_i64_def)

lemma in_i64_i64 [simp]: "in_i64 (i64 x)"
  using pos_mod_bound [of "2 ^ 64" "x + 2 ^ 63"] pos_mod_sign [of "2 ^ 64" "x + 2 ^ 63"]
  by (simp add: i64_def in_i64_def)

section \<open>Errors and panics\<close>

text \<open>
  Go errors as values. \<open>ErrNew\<close> is \<^verbatim>\<open>errors.New\<close>, \<open>ErrQuoted\<close> an \<^verbatim>\<open>fmt.Errorf\<close> whose last operand is
  printed with \<^verbatim>\<open>%q\<close>, \<open>ErrWrap\<close> an \<^verbatim>\<open>fmt.Errorf\<close> that wraps with \<^verbatim>\<open>%w\<close> (prefix first),
  \<open>ErrWrapQuoted\<close> one that prints an operand with \<^verbatim>\<open>%q\<close> before it wraps. An error of \<^verbatim>\<open>encoding/json\<close>, whose text no code
  reads, is \<open>ErrJson\<close>. The sentinels the code
  compares with \<^verbatim>\<open>errors.Is\<close> have constructors of their own, as have the two error types it looks for
  with \<^verbatim>\<open>errors.As\<close>; \<open>ReadError\<close> and \<open>OsError\<close> are any other errors of a connection and of the system.
\<close>

datatype go_error =
    ErrNew string
  | ErrQuoted string string
  | ErrWrap string go_error
  | ErrWrapQuoted string string string go_error
  | UpstreamResponseError string string
  | ErrMissingTerminalEvent
  | ErrSSEEventTooLarge
  | ErrResponsesDone
  | IoEOF
  | ReadError string
  | ErrJson
  | ErrSSEIdleTimeout
  | CtxCanceled
  | CtxDeadlineExceeded
  | MaxBytesError
  | ErrNotLoggedIn
  | OsNotExist
  | OsError string
  | ServerClosed

fun errorsIs :: "go_error \<Rightarrow> go_error \<Rightarrow> bool" where
  "errorsIs (ErrWrap p e) t \<longleftrightarrow> ErrWrap p e = t \<or> errorsIs e t"
| "errorsIs (ErrWrapQuoted p q s e) t \<longleftrightarrow> ErrWrapQuoted p q s e = t \<or> errorsIs e t"
| "errorsIs e t \<longleftrightarrow> e = t"

lemma errorsIs_refl [simp]: "errorsIs e e"
  by (cases e) auto

text \<open>A run-time panic (index out of range) is a value of its own, apart from returned errors.\<close>

datatype 'a go = Ret 'a | Panic string

definition bind_go :: "'a go \<Rightarrow> ('a \<Rightarrow> 'b go) \<Rightarrow> 'b go" where
  "bind_go m f = (case m of Ret x \<Rightarrow> f x | Panic p \<Rightarrow> Panic p)"

lemma bind_go_simps [simp]:
  "bind_go (Ret x) f = f x"
  "bind_go (Panic p) f = Panic p"
  by (simp_all add: bind_go_def)

lemma bind_go_Ret: "bind_go m f = Ret y \<longleftrightarrow> (\<exists>x. m = Ret x \<and> f x = Ret y)"
  by (cases m) auto

text \<open>Decimal text of a natural number, as \<^verbatim>\<open>%d\<close> prints it.\<close>

definition digit_char :: "nat \<Rightarrow> char" where
  "digit_char d = char_of (48 + d)"

fun show_nat :: "nat \<Rightarrow> string" where
  "show_nat n = (if n < 10 then [digit_char n] else show_nat (n div 10) @ [digit_char (n mod 10)])"

declare show_nat.simps [simp del]

lemma show_nat_ne [simp]: "show_nat n \<noteq> []"
  by (subst show_nat.simps) simp

text \<open>Results of fallible code: an error or a value.\<close>

type_synonym 'a result = "go_error + 'a"

text \<open>A loop over a slice that stops at the first error, with the index the source prints.\<close>

fun mapE_from :: "nat \<Rightarrow> (nat \<Rightarrow> 'a \<Rightarrow> 'b result) \<Rightarrow> 'a list \<Rightarrow> 'b list result" where
  "mapE_from i f [] = Inr []"
| "mapE_from i f (x # xs) =
     (case f i x of Inl e \<Rightarrow> Inl e
      | Inr y \<Rightarrow> (case mapE_from (Suc i) f xs of Inl e \<Rightarrow> Inl e | Inr ys \<Rightarrow> Inr (y # ys)))"

lemma mapE_from_Cons_Inr:
  "mapE_from i f (x # xs) = Inr ys \<longleftrightarrow>
     (\<exists>y zs. ys = y # zs \<and> f i x = Inr y \<and> mapE_from (Suc i) f xs = Inr zs)"
  by (auto split: sum.splits)

lemma mapE_from_Inr:
  "mapE_from i f xs = Inr ys \<longleftrightarrow>
     length ys = length xs \<and> (\<forall>k < length xs. f (i + k) (xs ! k) = Inr (ys ! k))"
proof (induction xs arbitrary: i ys)
  case Nil
  then show ?case by auto
next
  case (Cons x xs)
  show ?case
    by (cases ys)
      (auto simp: mapE_from_Cons_Inr Cons.IH All_less_Suc2 simp del: mapE_from.simps)
qed

lemma mapE_from_Inl:
  "mapE_from i f xs = Inl e \<Longrightarrow> \<exists>k < length xs. f (i + k) (xs ! k) = Inl e"
proof (induction xs arbitrary: i)
  case Nil
  then show ?case by simp
next
  case (Cons x xs)
  show ?case
  proof (cases "f i x")
    case (Inl e')
    with Cons.prems show ?thesis by auto
  next
    case (Inr y)
    with Cons.prems have "mapE_from (Suc i) f xs = Inl e" by (auto split: sum.splits)
    from Cons.IH [OF this] show ?thesis by (auto intro: exI [of _ "Suc k" for k])
  qed
qed

lemma mapE_from_map:
  assumes "\<And>i x y. f i x = Inr y \<Longrightarrow> g y = h x" "mapE_from i f xs = Inr ys"
  shows "map g ys = map h xs"
  using assms(2)
proof (induction xs arbitrary: i ys)
  case (Cons x xs)
  then show ?case using assms(1) by (auto simp: mapE_from_Cons_Inr simp del: mapE_from.simps)
qed simp

lemma mapE_from_ok:
  assumes "\<And>i x. (\<exists>y. f i x = Inr y) = P x"
  shows "(\<exists>ys. mapE_from i f xs = Inr ys) = list_all P xs"
proof (induction xs arbitrary: i)
  case (Cons x xs)
  show ?case
    by (simp add: mapE_from_Cons_Inr Cons.IH [of "Suc i", symmetric] assms [of i x, symmetric] del: mapE_from.simps)
qed simp

end
