(* ===== verification/Wire_Types.thy ===== *)
theory Wire_Types
  imports Go_Prelude
begin

text \<open>
  The wire types of \<^verbatim>\<open>internal/protocol/types.go\<close>, one record per struct, its fields in the
  source's order under the Go field names, with a two-letter prefix per struct because Isabelle
  selectors are global. A pointer is an option, a slice a list (nil and empty alike: the source only
  ever asks for the length), \<^verbatim>\<open>json.RawMessage\<close> the raw bytes, \<^verbatim>\<open>int\<close> an integer within 64 bits, and a
  \<^verbatim>\<open>*float64\<close> the number's literal, which no code reads. \<open>zeroT\<close> is Go's zero value of the struct
  \<open>T\<close>, from which composite literals are written.
\<close>

named_theorems zeros "Go's zero values of the wire types"

record AnthropicMessage =
  amRole :: string
  amContent :: string

definition zeroAnthropicMessage :: AnthropicMessage where
  "zeroAnthropicMessage = \<lparr>amRole = [], amContent = []\<rparr>"

record AnthropicCacheControl =
  ccType :: string
  ccTTL :: string

definition zeroAnthropicCacheControl :: AnthropicCacheControl where
  "zeroAnthropicCacheControl = \<lparr>ccType = [], ccTTL = []\<rparr>"

record AnthropicTool =
  atType :: string
  atName :: string
  atDescription :: string
  atInputSchema :: string
  atCacheControl :: "AnthropicCacheControl option"

definition zeroAnthropicTool :: AnthropicTool where
  "zeroAnthropicTool = \<lparr>atType = [], atName = [], atDescription = [], atInputSchema = [],
     atCacheControl = None\<rparr>"

record AnthropicThinking =
  thType :: string
  thBudgetTokens :: int

definition zeroAnthropicThinking :: AnthropicThinking where
  "zeroAnthropicThinking = \<lparr>thType = [], thBudgetTokens = 0\<rparr>"

record AnthropicOutputConfig =
  ocEffort :: string

definition zeroAnthropicOutputConfig :: AnthropicOutputConfig where
  "zeroAnthropicOutputConfig = \<lparr>ocEffort = []\<rparr>"

text \<open>\<open>arToolsNil\<close> tells a nil slice of tools from an empty one, which marshal differently.\<close>

record AnthropicRequest =
  arModel :: string
  arMaxTokens :: int
  arSystem :: string
  arMessages :: "AnthropicMessage list"
  arTools :: "AnthropicTool list"
  arToolsNil :: bool
  arStream :: bool
  arTemperature :: "string option"
  arTopP :: "string option"
  arStopSequences :: "string list"
  arThinking :: "AnthropicThinking option"
  arToolChoice :: string
  arMetadata :: string
  arOutputConfig :: "AnthropicOutputConfig option"

definition zeroAnthropicRequest :: AnthropicRequest where
  "zeroAnthropicRequest = \<lparr>arModel = [], arMaxTokens = 0, arSystem = [], arMessages = [],
     arTools = [], arToolsNil = True, arStream = False, arTemperature = None, arTopP = None, arStopSequences = [],
     arThinking = None, arToolChoice = [], arMetadata = [], arOutputConfig = None\<rparr>"

record AnthropicImageSource =
  imType :: string
  imMediaType :: string
  imData :: string

definition zeroAnthropicImageSource :: AnthropicImageSource where
  "zeroAnthropicImageSource = \<lparr>imType = [], imMediaType = [], imData = []\<rparr>"

record AnthropicContentBlock =
  cbType :: string
  cbCacheControl :: "AnthropicCacheControl option"
  cbText :: string
  cbThinking :: string
  cbSignature :: string
  cbSource :: "AnthropicImageSource option"
  cbID :: string
  cbName :: string
  cbInput :: string
  cbToolUseID :: string
  cbContent :: string
  cbIsError :: bool

definition zeroAnthropicContentBlock :: AnthropicContentBlock where
  "zeroAnthropicContentBlock = \<lparr>cbType = [], cbCacheControl = None, cbText = [],
     cbThinking = [], cbSignature = [], cbSource = None, cbID = [], cbName = [], cbInput = [],
     cbToolUseID = [], cbContent = [], cbIsError = False\<rparr>"

record AnthropicUsage =
  auInputTokens :: int
  auOutputTokens :: int
  auCacheCreationInputTokens :: int
  auCacheReadInputTokens :: int

definition zeroAnthropicUsage :: AnthropicUsage where
  "zeroAnthropicUsage = \<lparr>auInputTokens = 0, auOutputTokens = 0,
     auCacheCreationInputTokens = 0, auCacheReadInputTokens = 0\<rparr>"

record AnthropicResponse =
  rmID :: string
  rmType :: string
  rmRole :: string
  rmContent :: "AnthropicContentBlock list"
  rmModel :: string
  rmStopReason :: "string option"
  rmStopSequence :: "string option"
  rmUsage :: AnthropicUsage

definition zeroAnthropicResponse :: AnthropicResponse where
  "zeroAnthropicResponse = \<lparr>rmID = [], rmType = [], rmRole = [], rmContent = [], rmModel
     = [], rmStopReason = None, rmStopSequence = None, rmUsage = zeroAnthropicUsage\<rparr>"

record AnthropicDelta =
  adType :: string
  adText :: string
  adPartialJSON :: string
  adThinking :: string
  adSignature :: string
  adStopReason :: string
  adStopSequence :: "string option"

definition zeroAnthropicDelta :: AnthropicDelta where
  "zeroAnthropicDelta = \<lparr>adType = [], adText = [], adPartialJSON = [], adThinking = [],
     adSignature = [], adStopReason = [], adStopSequence = None\<rparr>"

record AnthropicError =
  aeType :: string
  aeMessage :: string

definition zeroAnthropicError :: AnthropicError where
  "zeroAnthropicError = \<lparr>aeType = [], aeMessage = []\<rparr>"

record AnthropicStreamEvent =
  seType :: string
  seMessage :: "AnthropicResponse option"
  seIndex :: "int option"
  seContentBlock :: "AnthropicContentBlock option"
  seDelta :: "AnthropicDelta option"
  seUsage :: "AnthropicUsage option"
  seError :: "AnthropicError option"

definition zeroAnthropicStreamEvent :: AnthropicStreamEvent where
  "zeroAnthropicStreamEvent = \<lparr>seType = [], seMessage = None, seIndex = None,
     seContentBlock = None, seDelta = None, seUsage = None, seError = None\<rparr>"

record ResponsesContentPart =
  cpType :: string
  cpText :: string
  cpImageURL :: string

definition zeroResponsesContentPart :: ResponsesContentPart where
  "zeroResponsesContentPart = \<lparr>cpType = [], cpText = [], cpImageURL = []\<rparr>"

record ResponsesInputItem =
  iiType :: string
  iiRole :: string
  iiContent :: "ResponsesContentPart list"
  iiEncryptedContent :: string
  iiCallID :: string
  iiName :: string
  iiArguments :: string
  iiOutput :: string

definition zeroResponsesInputItem :: ResponsesInputItem where
  "zeroResponsesInputItem = \<lparr>iiType = [], iiRole = [], iiContent = [], iiEncryptedContent
     = [], iiCallID = [], iiName = [], iiArguments = [], iiOutput = []\<rparr>"

record ResponsesTool =
  tlType :: string
  tlName :: string
  tlDescription :: string
  tlParameters :: string
  tlStrict :: "bool option"

definition zeroResponsesTool :: ResponsesTool where
  "zeroResponsesTool = \<lparr>tlType = [], tlName = [], tlDescription = [], tlParameters = [],
     tlStrict = None\<rparr>"

record ResponsesReasoning =
  rrEffort :: string
  rrSummary :: string

definition zeroResponsesReasoning :: ResponsesReasoning where
  "zeroResponsesReasoning = \<lparr>rrEffort = [], rrSummary = []\<rparr>"

record ResponsesText =
  rtVerbosity :: string

definition zeroResponsesText :: ResponsesText where
  "zeroResponsesText = \<lparr>rtVerbosity = []\<rparr>"

record ResponsesRequest =
  rqModel :: string
  rqInstructions :: string
  rqInput :: "ResponsesInputItem list"
  rqMaxOutputTokens :: "int option"
  rqStream :: bool
  rqTools :: "ResponsesTool list"
  rqInclude :: "string list"
  rqStore :: "bool option"
  rqParallelToolCalls :: "bool option"
  rqReasoning :: "ResponsesReasoning option"
  rqText :: "ResponsesText option"
  rqToolChoice :: string

definition zeroResponsesRequest :: ResponsesRequest where
  "zeroResponsesRequest = \<lparr>rqModel = [], rqInstructions = [], rqInput = [],
     rqMaxOutputTokens = None, rqStream = False, rqTools = [], rqInclude = [], rqStore = None,
     rqParallelToolCalls = None, rqReasoning = None, rqText = None, rqToolChoice = []\<rparr>"

record ResponsesInputTokensDetails =
  tdCachedTokens :: int
  tdCacheCreationTokens :: int
  tdCacheWriteTokens :: int

definition zeroResponsesInputTokensDetails :: ResponsesInputTokensDetails where
  "zeroResponsesInputTokensDetails = \<lparr>tdCachedTokens = 0, tdCacheCreationTokens = 0,
     tdCacheWriteTokens = 0\<rparr>"

record ResponsesUsage =
  ruInputTokens :: int
  ruOutputTokens :: int
  ruTotalTokens :: int
  ruCacheCreationInputTokens :: int
  ruInputTokensDetails :: "ResponsesInputTokensDetails option"

definition zeroResponsesUsage :: ResponsesUsage where
  "zeroResponsesUsage = \<lparr>ruInputTokens = 0, ruOutputTokens = 0, ruTotalTokens = 0,
     ruCacheCreationInputTokens = 0, ruInputTokensDetails = None\<rparr>"

record ResponsesSummary =
  rsType :: string
  rsText :: string

definition zeroResponsesSummary :: ResponsesSummary where
  "zeroResponsesSummary = \<lparr>rsType = [], rsText = []\<rparr>"

record ResponsesOutput =
  roType :: string
  roID :: string
  roRole :: string
  roStatus :: string
  roContent :: "ResponsesContentPart list"
  roEncryptedContent :: string
  roSummary :: "ResponsesSummary list"
  roCallID :: string
  roName :: string
  roArguments :: string
  roInput :: string

definition zeroResponsesOutput :: ResponsesOutput where
  "zeroResponsesOutput = \<lparr>roType = [], roID = [], roRole = [], roStatus = [], roContent =
     [], roEncryptedContent = [], roSummary = [], roCallID = [], roName = [], roArguments = [],
     roInput = []\<rparr>"

record ResponsesIncompleteDetails =
  rdReason :: string

definition zeroResponsesIncompleteDetails :: ResponsesIncompleteDetails where
  "zeroResponsesIncompleteDetails = \<lparr>rdReason = []\<rparr>"

record ResponsesError =
  reCode :: string
  reMessage :: string

definition zeroResponsesError :: ResponsesError where
  "zeroResponsesError = \<lparr>reCode = [], reMessage = []\<rparr>"

record ResponsesResponse =
  rpID :: string
  rpObject :: string
  rpModel :: string
  rpStatus :: string
  rpOutput :: "ResponsesOutput list"
  rpUsage :: "ResponsesUsage option"
  rpIncompleteDetails :: "ResponsesIncompleteDetails option"
  rpError :: "ResponsesError option"

definition zeroResponsesResponse :: ResponsesResponse where
  "zeroResponsesResponse = \<lparr>rpID = [], rpObject = [], rpModel = [], rpStatus = [],
     rpOutput = [], rpUsage = None, rpIncompleteDetails = None, rpError = None\<rparr>"

record ResponsesStreamEvent =
  evType :: string
  evResponse :: "ResponsesResponse option"
  evUsage :: "ResponsesUsage option"
  evItem :: "ResponsesOutput option"
  evOutputIndex :: int
  evContentIndex :: int
  evDelta :: string
  evText :: string
  evItemID :: string
  evCallID :: string
  evName :: string
  evArguments :: string
  evInput :: string
  evSummaryIndex :: int
  evCode :: string
  evMessage :: string
  evParam :: string
  evError :: "ResponsesError option"
  evSequenceNumber :: int

definition zeroResponsesStreamEvent :: ResponsesStreamEvent where
  "zeroResponsesStreamEvent = \<lparr>evType = [], evResponse = None, evUsage = None, evItem =
     None, evOutputIndex = 0, evContentIndex = 0, evDelta = [], evText = [], evItemID = [],
     evCallID = [], evName = [], evArguments = [], evInput = [], evSummaryIndex = 0, evCode =
     [], evMessage = [], evParam = [], evError = None, evSequenceNumber = 0\<rparr>"

lemmas zero_defs [zeros] =
  zeroAnthropicMessage_def zeroAnthropicCacheControl_def zeroAnthropicTool_def
  zeroAnthropicThinking_def zeroAnthropicOutputConfig_def zeroAnthropicRequest_def
  zeroAnthropicImageSource_def zeroAnthropicContentBlock_def zeroAnthropicUsage_def
  zeroAnthropicResponse_def zeroAnthropicDelta_def zeroAnthropicError_def
  zeroAnthropicStreamEvent_def zeroResponsesContentPart_def zeroResponsesInputItem_def
  zeroResponsesTool_def zeroResponsesReasoning_def zeroResponsesText_def zeroResponsesRequest_def
  zeroResponsesInputTokensDetails_def zeroResponsesUsage_def zeroResponsesSummary_def
  zeroResponsesOutput_def zeroResponsesIncompleteDetails_def zeroResponsesError_def
  zeroResponsesResponse_def zeroResponsesStreamEvent_def

end
