(* ===== verification/Json_Text.thy ===== *)
theory Json_Text
  imports Go_Prelude
begin

text \<open>
  The part of Go's \<^verbatim>\<open>encoding/json\<close> the adapter uses: the grammar (with the nesting limit), the
  decoding of string literals, the raw text of object members and array elements that a
  \<^verbatim>\<open>json.RawMessage\<close> keeps, the encoding of strings with HTML escaping, and \<^verbatim>\<open>json.Compact\<close>.
  A failed parse is \<open>None\<close>: every caller in the source discards what a failed decode stored.
\<close>

section \<open>UTF-8\<close>

text \<open>
  Length of the valid UTF-8 sequence at the head of a byte string, 0 if it is empty or starts with
  an invalid one (\<^verbatim>\<open>utf8.DecodeRune\<close> then yields U+FFFD with width 1).
\<close>

definition in_byte :: "nat \<Rightarrow> nat \<Rightarrow> char \<Rightarrow> bool" where
  "in_byte lo hi c \<longleftrightarrow> lo \<le> byte_val c \<and> byte_val c \<le> hi"

definition is_cont :: "char \<Rightarrow> bool" where
  "is_cont c \<longleftrightarrow> in_byte 0x80 0xBF c"

definition second_ok :: "char \<Rightarrow> char \<Rightarrow> bool" where
  "second_ok c d \<longleftrightarrow>
     (if byte_val c = 0xE0 then in_byte 0xA0 0xBF d
      else if byte_val c = 0xED then in_byte 0x80 0x9F d
      else if byte_val c = 0xF0 then in_byte 0x90 0xBF d
      else if byte_val c = 0xF4 then in_byte 0x80 0x8F d
      else is_cont d)"

definition seq_len :: "char \<Rightarrow> nat" where
  "seq_len c = (if byte_val c < 0x80 then 1 else if in_byte 0xC2 0xDF c then 2
     else if in_byte 0xE0 0xEF c then 3 else if in_byte 0xF0 0xF4 c then 4 else 0)"

fun rune_len :: "string \<Rightarrow> nat" where
  "rune_len [] = 0"
| "rune_len (c # s) =
     (if seq_len c = 0 then 0
      else if seq_len c = 1 then 1
      else (case s of [] \<Rightarrow> 0
        | d # u \<Rightarrow>
           (if second_ok c d \<and> seq_len c - 2 \<le> length u \<and> list_all is_cont (take (seq_len c - 2) u)
            then seq_len c else 0)))"

lemma rune_len_le: "rune_len s \<le> length s"
  by (cases s) (auto split: list.splits)

lemma rune_len_append: "rune_len s \<noteq> 0 \<Longrightarrow> rune_len (s @ t) = rune_len s"
  by (cases s) (auto split: list.splits if_splits)

lemma rune_len_take: "rune_len s \<noteq> 0 \<Longrightarrow> rune_len (take (rune_len s) s) = rune_len s"
  by (cases s) (auto split: list.splits if_splits simp: seq_len_def take_Cons' min_def)

text \<open>Valid UTF-8, and Go's replacement of each invalid byte by U+FFFD.\<close>

function utf8_valid :: "string \<Rightarrow> bool" where
  "utf8_valid s = (if s = [] then True else if rune_len s = 0 then False
     else utf8_valid (drop (rune_len s) s))"
  by pat_completeness auto
termination
  by (relation "measure length") auto

declare utf8_valid.simps [simp del]

lemma utf8_valid_Nil [simp]: "utf8_valid []"
  by (simp add: utf8_valid.simps [of "[]"])

definition replacement :: string where
  "replacement = [CHR 0xEF, CHR 0xBF, CHR 0xBD]"

function to_utf8 :: "string \<Rightarrow> string" where
  "to_utf8 s = (if s = [] then []
     else if rune_len s = 0 then replacement @ to_utf8 (tl s)
     else take (rune_len s) s @ to_utf8 (drop (rune_len s) s))"
  by pat_completeness auto
termination
  by (relation "measure length") auto

declare to_utf8.simps [simp del]

lemma to_utf8_Nil [simp]: "to_utf8 [] = []"
  by (simp add: to_utf8.simps [of "[]"])

lemma to_utf8_id: "utf8_valid s \<Longrightarrow> to_utf8 s = s"
proof (induction s rule: utf8_valid.induct)
  case (1 s)
  show ?case
  proof (cases "s = []")
    case False
    with "1.prems" have r: "rune_len s \<noteq> 0" and v: "utf8_valid (drop (rune_len s) s)"
      by (auto simp: utf8_valid.simps [of s] split: if_splits)
    from "1.IH" [OF False r v] False r show ?thesis
      by (simp add: to_utf8.simps [of s])
  qed simp
qed

section \<open>Values\<close>

text \<open>
  A parsed value. Members and elements carry the raw text of their value, the bytes a
  \<^verbatim>\<open>json.RawMessage\<close> would hold.
\<close>

datatype json =
    JNull
  | JBool bool
  | JNum string
  | JStr string
  | JArr "(string \<times> json) list"
  | JObj "(string \<times> string \<times> json) list"

section \<open>Scanning\<close>

definition json_space :: "char \<Rightarrow> bool" where
  "json_space c \<longleftrightarrow> c = CHR 0x20 \<or> c = CHR 0x09 \<or> c = CHR 0x0A \<or> c = CHR 0x0D"

definition skip_ws :: "string \<Rightarrow> string" where
  "skip_ws s = dropWhile json_space s"

lemma skip_ws_length: "length (skip_ws s) \<le> length s"
  by (simp add: skip_ws_def length_dropWhile_le)

definition is_digit :: "char \<Rightarrow> bool" where
  "is_digit c \<longleftrightarrow> in_byte 48 57 c"

definition hex_val :: "char \<Rightarrow> nat option" where
  "hex_val c = (if in_byte 48 57 c then Some (byte_val c - 48)
     else if in_byte 97 102 c then Some (byte_val c - 87)
     else if in_byte 65 70 c then Some (byte_val c - 55) else None)"

text \<open>
  The scanner inside a string literal: \<open>In\<close> the plain text, \<open>Esc\<close> after a backslash,
  \<open>EscU k\<close> with \<open>k\<close> hex digits of a \<^verbatim>\<open>\u\<close> escape still to come. The result is the raw body of
  the literal, without its quotes, and what follows the closing quote.
\<close>

datatype str_state = In | Esc | EscU nat

abbreviation quote_char :: char where "quote_char \<equiv> CHR 0x22"
abbreviation backslash :: char where "backslash \<equiv> CHR 0x5C"

definition simple_escape :: "char \<Rightarrow> char option" where
  "simple_escape c =
     (if c = quote_char \<or> c = backslash \<or> c = CHR ''/'' then Some c
      else if c = CHR ''b'' then Some (CHR 0x08) else if c = CHR ''f'' then Some (CHR 0x0C)
      else if c = CHR ''n'' then Some (CHR 0x0A) else if c = CHR ''r'' then Some (CHR 0x0D)
      else if c = CHR ''t'' then Some (CHR 0x09) else None)"

definition cons_fst :: "'a \<Rightarrow> ('a list \<times> 'b) option \<Rightarrow> ('a list \<times> 'b) option" where
  "cons_fst x r = (case r of None \<Rightarrow> None | Some (xs, y) \<Rightarrow> Some (x # xs, y))"

lemma cons_fst_simps [simp]:
  "cons_fst x None = None"
  "cons_fst x (Some (xs, y)) = Some (x # xs, y)"
  "cons_fst x r = Some (ys, y) \<longleftrightarrow> (\<exists>xs. ys = x # xs \<and> r = Some (xs, y))"
  by (auto simp: cons_fst_def split: option.splits)

fun scan_str :: "str_state \<Rightarrow> string \<Rightarrow> (string \<times> string) option" where
  "scan_str st [] = None"
| "scan_str In (c # t) =
     (if c = quote_char then Some ([], t)
      else if c = backslash then cons_fst c (scan_str Esc t)
      else if byte_val c < 0x20 then None
      else cons_fst c (scan_str In t))"
| "scan_str Esc (c # t) =
     (if c = CHR ''u'' then cons_fst c (scan_str (EscU 3) t)
      else if simple_escape c = None then None
      else cons_fst c (scan_str In t))"
| "scan_str (EscU k) (c # t) =
     (if hex_val c = None then None
      else cons_fst c (scan_str (if k = 0 then In else EscU (k - 1)) t))"

lemma scan_str_split: "scan_str st s = Some (b, r) \<Longrightarrow> s = b @ quote_char # r"
  by (induction st s arbitrary: b rule: scan_str.induct) (auto split: if_splits)

lemma scan_str_length: "scan_str st s = Some (b, r) \<Longrightarrow> length r < length s"
  by (drule scan_str_split) simp

section \<open>String literals\<close>

text \<open>\<^verbatim>\<open>utf8.EncodeRune\<close> for the code points an escape can name.\<close>

definition encode_rune :: "nat \<Rightarrow> string" where
  "encode_rune r =
     (if r < 0x80 then [char_of r]
      else if r < 0x800 then [char_of (0xC0 + r div 0x40), char_of (0x80 + r mod 0x40)]
      else if r < 0x10000 then
        [char_of (0xE0 + r div 0x1000), char_of (0x80 + r div 0x40 mod 0x40), char_of (0x80 + r mod 0x40)]
      else [char_of (0xF0 + r div 0x40000), char_of (0x80 + r div 0x1000 mod 0x40),
            char_of (0x80 + r div 0x40 mod 0x40), char_of (0x80 + r mod 0x40)])"

definition hex4 :: "string \<Rightarrow> nat option" where
  "hex4 s = (case map hex_val (take 4 s) of
       [Some a, Some b, Some c, Some d] \<Rightarrow> Some (((a * 16 + b) * 16 + c) * 16 + d)
     | _ \<Rightarrow> None)"

definition high_surrogate :: "nat \<Rightarrow> bool" where
  "high_surrogate r \<longleftrightarrow> 0xD800 \<le> r \<and> r < 0xDC00"

definition low_surrogate :: "nat \<Rightarrow> bool" where
  "low_surrogate r \<longleftrightarrow> 0xDC00 \<le> r \<and> r < 0xE000"

text \<open>The second half of a surrogate pair, if the text goes on with one.\<close>

definition paired :: "nat \<Rightarrow> string \<Rightarrow> nat option" where
  "paired r s =
     (if high_surrogate r \<and> hasPrefix s [backslash, CHR ''u''] then
        (case hex4 (drop 2 s) of
           None \<Rightarrow> None
         | Some r2 \<Rightarrow> if low_surrogate r2
             then Some (0x10000 + (r - 0xD800) * 0x400 + (r2 - 0xDC00)) else None)
      else None)"

text \<open>
  \<^verbatim>\<open>unquote\<close> of the body of a literal the scanner accepted. A lone surrogate and an invalid byte
  both become U+FFFD.
\<close>

function unquote :: "string \<Rightarrow> string" where
  "unquote s =
     (case s of [] \<Rightarrow> []
      | c # t \<Rightarrow>
         (if c = backslash then
            (case t of [] \<Rightarrow> []
             | e # u \<Rightarrow>
                (if e = CHR ''u'' then
                   (case hex4 u of None \<Rightarrow> []
                    | Some r \<Rightarrow>
                       (if high_surrogate r \<or> low_surrogate r then
                          (case paired r (drop 4 u) of
                             None \<Rightarrow> replacement @ unquote (drop 4 u)
                           | Some q \<Rightarrow> encode_rune q @ unquote (drop 10 u))
                        else encode_rune r @ unquote (drop 4 u)))
                 else (case simple_escape e of None \<Rightarrow> [] | Some x \<Rightarrow> x # unquote u)))
          else if rune_len s = 0 then replacement @ unquote t
          else take (rune_len s) s @ unquote (drop (rune_len s) s)))"
  by pat_completeness auto
termination
  by (relation "measure length") auto

declare unquote.simps [simp del]

lemma unquote_Nil [simp]: "unquote [] = []"
  by (simp add: unquote.simps [of "[]"])

lemma unquote_plain:
  "s \<noteq> [] \<Longrightarrow> hd s \<noteq> backslash \<Longrightarrow> rune_len s \<noteq> 0 \<Longrightarrow>
     unquote s = take (rune_len s) s @ unquote (drop (rune_len s) s)"
  by (cases s) (simp_all add: unquote.simps [of "c # t" for c t] del: rune_len.simps)

lemma unquote_simple:
  "simple_escape e = Some x \<Longrightarrow> unquote (backslash # e # u) = x # unquote u"
  by (subst unquote.simps) (auto simp: simple_escape_def split: if_splits)

lemma unquote_hex:
  "hex4 u = Some r \<Longrightarrow> \<not> high_surrogate r \<Longrightarrow> \<not> low_surrogate r \<Longrightarrow>
     unquote (backslash # CHR ''u'' # u) = encode_rune r @ unquote (drop 4 u)"
  by (subst unquote.simps) simp

section \<open>Numbers\<close>

definition scan_int :: "string \<Rightarrow> (string \<times> string) option" where
  "scan_int s = (case s of [] \<Rightarrow> None
     | c # t \<Rightarrow> if c = CHR ''0'' then Some ([c], t)
         else if is_digit c then Some (c # takeWhile is_digit t, dropWhile is_digit t)
         else None)"

definition scan_digits :: "string \<Rightarrow> string \<Rightarrow> (string \<times> string) option" where
  "scan_digits pre s = (if takeWhile is_digit s = [] then None
     else Some (pre @ takeWhile is_digit s, dropWhile is_digit s))"

definition scan_frac :: "string \<Rightarrow> (string \<times> string) option" where
  "scan_frac s = (case s of [] \<Rightarrow> Some ([], [])
     | c # t \<Rightarrow> if c = CHR ''.'' then scan_digits [c] t else Some ([], s))"

definition scan_exp :: "string \<Rightarrow> (string \<times> string) option" where
  "scan_exp s = (case s of [] \<Rightarrow> Some ([], [])
     | c # t \<Rightarrow> if c = CHR ''e'' \<or> c = CHR ''E'' then
           (case t of [] \<Rightarrow> None
            | g # u \<Rightarrow> if g = CHR ''+'' \<or> g = CHR ''-'' then scan_digits [c, g] u
                else scan_digits [c] t)
         else Some ([], s))"

definition scan_unsigned :: "string \<Rightarrow> (string \<times> string) option" where
  "scan_unsigned s = (case scan_int s of None \<Rightarrow> None
     | Some (i, r) \<Rightarrow> (case scan_frac r of None \<Rightarrow> None
        | Some (f, r1) \<Rightarrow> (case scan_exp r1 of None \<Rightarrow> None
           | Some (e, r2) \<Rightarrow> Some (i @ f @ e, r2))))"

definition scan_num :: "string \<Rightarrow> (string \<times> string) option" where
  "scan_num s = (if hasPrefix s ''-'' then
       (case scan_unsigned (tl s) of None \<Rightarrow> None | Some (l, r) \<Rightarrow> Some (CHR ''-'' # l, r))
     else scan_unsigned s)"

lemma scan_digits_split: "scan_digits p s = Some (l, r) \<Longrightarrow> p @ s = l @ r"
  by (auto simp: scan_digits_def split: if_splits)

lemma scan_int_split: "scan_int s = Some (l, r) \<Longrightarrow> s = l @ r \<and> l \<noteq> []"
  by (auto simp: scan_int_def split: list.splits if_splits)

lemma scan_frac_split: "scan_frac s = Some (l, r) \<Longrightarrow> s = l @ r"
  by (auto simp: scan_frac_def dest: scan_digits_split split: list.splits if_splits)

lemma scan_exp_split: "scan_exp s = Some (l, r) \<Longrightarrow> s = l @ r"
  by (auto simp: scan_exp_def dest: scan_digits_split split: list.splits if_splits)

lemma scan_unsigned_split: "scan_unsigned s = Some (l, r) \<Longrightarrow> s = l @ r \<and> l \<noteq> []"
  by (auto simp: scan_unsigned_def dest!: scan_int_split scan_frac_split scan_exp_split
      split: option.splits)

lemma scan_num_split: "scan_num s = Some (l, r) \<Longrightarrow> s = l @ r \<and> l \<noteq> []"
  by (cases s) (auto simp: scan_num_def hasPrefix_def dest!: scan_unsigned_split
      split: option.splits if_splits)

lemma scan_num_length: "scan_num s = Some (l, r) \<Longrightarrow> length r < length s"
  by (drule scan_num_split) auto

section \<open>The parser\<close>

text \<open>
  Recursive descent with fuel; \<open>d\<close> is the nesting still allowed. \<open>parse_fuel_enough\<close> below shows
  that the fuel \<open>json_parse\<close> starts with never runs out.
\<close>

definition max_nesting :: nat where
  "max_nesting = 10000"

fun parse_value :: "nat \<Rightarrow> nat \<Rightarrow> string \<Rightarrow> (json \<times> string) option"
and parse_elems :: "nat \<Rightarrow> nat \<Rightarrow> string \<Rightarrow> ((string \<times> json) list \<times> string) option"
and parse_members :: "nat \<Rightarrow> nat \<Rightarrow> string \<Rightarrow> ((string \<times> string \<times> json) list \<times> string) option" where
  "parse_value 0 d s = None"
| "parse_value (Suc n) d s = (case s of [] \<Rightarrow> None
     | c # t \<Rightarrow>
        if c = quote_char then
          (case scan_str In t of None \<Rightarrow> None | Some (b, r) \<Rightarrow> Some (JStr (unquote b), r))
        else if c = CHR ''{'' then
          (if d = 0 then None
           else (case skip_ws t of [] \<Rightarrow> None
             | c1 # t1 \<Rightarrow> if c1 = CHR ''}'' then Some (JObj [], t1)
                 else (case parse_members n (d - 1) (c1 # t1) of None \<Rightarrow> None
                   | Some (ms, r) \<Rightarrow> Some (JObj ms, r))))
        else if c = CHR ''['' then
          (if d = 0 then None
           else (case skip_ws t of [] \<Rightarrow> None
             | c1 # t1 \<Rightarrow> if c1 = CHR '']'' then Some (JArr [], t1)
                 else (case parse_elems n (d - 1) (c1 # t1) of None \<Rightarrow> None
                   | Some (es, r) \<Rightarrow> Some (JArr es, r))))
        else if hasPrefix s ''null'' then Some (JNull, drop 4 s)
        else if hasPrefix s ''true'' then Some (JBool True, drop 4 s)
        else if hasPrefix s ''false'' then Some (JBool False, drop 5 s)
        else (case scan_num s of None \<Rightarrow> None | Some (l, r) \<Rightarrow> Some (JNum l, r)))"
| "parse_elems 0 d s = None"
| "parse_elems (Suc n) d s = (case parse_value n d s of None \<Rightarrow> None
     | Some (v, r) \<Rightarrow> (case skip_ws r of [] \<Rightarrow> None
        | c # t \<Rightarrow>
           if c = CHR '','' then
             cons_fst (take (length s - length r) s, v) (parse_elems n d (skip_ws t))
           else if c = CHR '']'' then Some ([(take (length s - length r) s, v)], t)
           else None))"
| "parse_members 0 d s = None"
| "parse_members (Suc n) d s = (case s of [] \<Rightarrow> None
     | c # t \<Rightarrow>
        if c \<noteq> quote_char then None
        else (case scan_str In t of None \<Rightarrow> None
          | Some (b, r) \<Rightarrow> (case skip_ws r of [] \<Rightarrow> None
             | c1 # t1 \<Rightarrow>
                if c1 \<noteq> CHR '':'' then None
                else (case parse_value n d (skip_ws t1) of None \<Rightarrow> None
                  | Some (v, r2) \<Rightarrow> (case skip_ws r2 of [] \<Rightarrow> None
                     | c2 # t2 \<Rightarrow>
                        if c2 = CHR '','' then
                          cons_fst (unquote b, take (length (skip_ws t1) - length r2) (skip_ws t1), v)
                            (parse_members n d (skip_ws t2))
                        else if c2 = CHR ''}'' then
                          Some ([(unquote b, take (length (skip_ws t1) - length r2) (skip_ws t1), v)], t2)
                        else None)))))"

declare parse_value.simps [simp del] parse_elems.simps [simp del] parse_members.simps [simp del]

definition parse_prefix :: "string \<Rightarrow> (json \<times> string) option" where
  "parse_prefix s = parse_value (2 * length s + 1) max_nesting s"

definition json_parse :: "string \<Rightarrow> json option" where
  "json_parse s = (case parse_prefix (skip_ws s) of None \<Rightarrow> None
     | Some (v, r) \<Rightarrow> if skip_ws r = [] then Some v else None)"

lemma skip_ws_Cons: "skip_ws t = c # u \<Longrightarrow> length u < length t"
  using skip_ws_length [of t] by simp

lemma parse_shorter:
  "(\<forall>d s v r. parse_value n d s = Some (v, r) \<longrightarrow> length r < length s) \<and>
   (\<forall>d s es r. parse_elems n d s = Some (es, r) \<longrightarrow> length r < length s) \<and>
   (\<forall>d s ms r. parse_members n d s = Some (ms, r) \<longrightarrow> length r < length s)"
proof (induction n)
  case 0
  show ?case by (simp add: parse_value.simps parse_elems.simps parse_members.simps)
next
  case (Suc n)
  then have V: "\<And>d s v r. parse_value n d s = Some (v, r) \<Longrightarrow> length r < length s"
    and E: "\<And>d s es r. parse_elems n d s = Some (es, r) \<Longrightarrow> length r < length s"
    and M: "\<And>d s ms r. parse_members n d s = Some (ms, r) \<Longrightarrow> length r < length s"
    by blast+
  note trim = less_le_trans [OF _ skip_ws_length]
  note shorter = skip_ws_Cons scan_str_length scan_num_length V E M
  have "length r < length s" if "parse_value (Suc n) d s = Some (v, r)" for d s v r
    using that by (auto simp: parse_value.simps hasPrefix_def split: list.splits if_splits option.splits
        dest!: shorter)
  moreover have "length r < length s" if "parse_elems (Suc n) d s = Some (es, r)" for d s es r
    using that by (auto simp: parse_elems.simps split: list.splits if_splits option.splits
        dest!: shorter trim)
  moreover have "length r < length s" if "parse_members (Suc n) d s = Some (ms, r)" for d s ms r
    using that by (auto simp: parse_members.simps split: list.splits if_splits option.splits
        dest!: shorter trim)
  ultimately show ?case by blast
qed

lemma parse_fuel:
  "(\<forall>m d s. 2 * length s < n \<longrightarrow> 2 * length s < m \<longrightarrow> parse_value n d s = parse_value m d s) \<and>
   (\<forall>m d s. 2 * length s + 1 < n \<longrightarrow> 2 * length s + 1 < m \<longrightarrow> parse_elems n d s = parse_elems m d s) \<and>
   (\<forall>m d s. 2 * length s < n \<longrightarrow> 2 * length s < m \<longrightarrow> parse_members n d s = parse_members m d s)"
proof (induction n)
  case 0
  show ?case by simp
next
  case (Suc n)
  then have V: "\<And>m d s. 2 * length s < n \<Longrightarrow> 2 * length s < m \<Longrightarrow> parse_value n d s = parse_value m d s"
    and E: "\<And>m d s. 2 * length s + 1 < n \<Longrightarrow> 2 * length s + 1 < m \<Longrightarrow> parse_elems n d s = parse_elems m d s"
    and M: "\<And>m d s. 2 * length s < n \<Longrightarrow> 2 * length s < m \<Longrightarrow> parse_members n d s = parse_members m d s"
    by blast+
  note ws = skip_ws_Cons [THEN less_imp_le]
  have "parse_value (Suc n) d s = parse_value m d s"
    if A: "2 * length s < Suc n" "2 * length s < m" for m d s
  proof -
    obtain k where m: "m = Suc k" using A(2) by (cases m) auto
    have "parse_members n e (c1 # t1) = parse_members k e (c1 # t1) \<and>
        parse_elems n e (c1 # t1) = parse_elems k e (c1 # t1)"
      if "s = c # t" "skip_ws t = c1 # t1" for e c t c1 t1
      using that A m skip_ws_Cons [OF that(2)] by (intro conjI M E) auto
    then show ?thesis
      unfolding m by (auto simp: parse_value.simps split: list.split option.split)
  qed
  moreover have "parse_elems (Suc n) d s = parse_elems m d s"
    if A: "2 * length s + 1 < Suc n" "2 * length s + 1 < m" for m d s
  proof -
    obtain k where m: "m = Suc k" using A(2) by (cases m) auto
    have v: "parse_value n d s = parse_value k d s"
      using A m by (intro V) auto
    show ?thesis
    proof (cases "\<exists>x r c t. parse_value k d s = Some (x, r) \<and> skip_ws r = c # t")
      case True
      then obtain x r c t where x: "parse_value k d s = Some (x, r)" and w: "skip_ws r = c # t"
        by blast
      have "length r < length s" using parse_shorter [of k] x by blast
      with A m skip_ws_Cons [OF w] skip_ws_length [of t]
      have e: "parse_elems n d (skip_ws t) = parse_elems k d (skip_ws t)"
        by (intro E) auto
      show ?thesis by (simp add: m parse_elems.simps v x w e)
    next
      case False
      then show ?thesis
        by (auto simp: m parse_elems.simps v split: list.split option.split)
    qed
  qed
  moreover have "parse_members (Suc n) d s = parse_members m d s"
    if A: "2 * length s < Suc n" "2 * length s < m" for m d s
  proof -
    obtain k where m: "m = Suc k" using A(2) by (cases m) auto
    show ?thesis
    proof (cases "\<exists>t b r c t1. s = quote_char # t \<and> scan_str In t = Some (b, r) \<and> skip_ws r = c # t1")
      case True
      then obtain t b r c t1 where s: "s = quote_char # t" and st: "scan_str In t = Some (b, r)"
        and w1: "skip_ws r = c # t1" by blast
      have l1: "length (skip_ws t1) < length s - 1"
        using scan_str_length [OF st] skip_ws_Cons [OF w1] skip_ws_length [of t1] s by simp
      with A m have v: "parse_value n d (skip_ws t1) = parse_value k d (skip_ws t1)"
        by (intro V) auto
      show ?thesis
      proof (cases "\<exists>x r2 c2 t2. parse_value k d (skip_ws t1) = Some (x, r2) \<and> skip_ws r2 = c2 # t2")
        case True
        then obtain x r2 c2 t2 where x: "parse_value k d (skip_ws t1) = Some (x, r2)"
          and w2: "skip_ws r2 = c2 # t2" by blast
        have "length r2 < length (skip_ws t1)" using parse_shorter [of k] x by blast
        with A m l1 skip_ws_Cons [OF w2] skip_ws_length [of t2]
        have e: "parse_members n d (skip_ws t2) = parse_members k d (skip_ws t2)"
          by (intro M) auto
        show ?thesis by (simp add: m parse_members.simps s st w1 v x w2 e)
      next
        case False
        then show ?thesis
          by (auto simp: m parse_members.simps s st w1 v split: list.split option.split)
      qed
    next
      case False
      then show ?thesis
        by (auto simp: m parse_members.simps split: list.split option.split)
    qed
  qed
  ultimately show ?case by blast
qed

text \<open>More fuel than \<open>parse_prefix\<close> spends changes nothing.\<close>

lemma parse_fuel_enough:
  assumes "2 * length s < n"
  shows "parse_value n max_nesting s = parse_prefix s"
proof -
  have "2 * length s < 2 * length s + 1" by simp
  with assms show ?thesis
    unfolding parse_prefix_def using parse_fuel [of n] by blast
qed

lemma parse_prefix_shorter: "parse_prefix s = Some (v, r) \<Longrightarrow> length r < length s"
  unfolding parse_prefix_def using parse_shorter by blast

end
