(* ===== verification/Json_Encode.thy ===== *)
theory Json_Encode
  imports Json_Text
begin

text \<open>
  The encoding side of \<^verbatim>\<open>encoding/json\<close>: string literals as \<^verbatim>\<open>json.Marshal\<close> writes them (with HTML
  escaping), structs with \<^verbatim>\<open>omitempty\<close>, and \<^verbatim>\<open>json.Compact\<close>. The string encoder is proved to be
  inverted by the scanner and \<^verbatim>\<open>unquote\<close>, and to write no control character.
\<close>

section \<open>Escaping\<close>

definition hex_digit :: "nat \<Rightarrow> char" where
  "hex_digit n = (if n < 10 then char_of (48 + n) else char_of (87 + n))"

definition escape_byte :: "char \<Rightarrow> string" where
  "escape_byte c =
     (if c = quote_char \<or> c = backslash then [backslash, c]
      else if c = CHR 0x08 then [backslash, CHR ''b'']
      else if c = CHR 0x0C then [backslash, CHR ''f'']
      else if c = CHR 0x0A then [backslash, CHR ''n'']
      else if c = CHR 0x0D then [backslash, CHR ''r'']
      else if c = CHR 0x09 then [backslash, CHR ''t'']
      else if byte_val c < 0x20 \<or> c = CHR ''<'' \<or> c = CHR ''>'' \<or> c = CHR ''&'' then
        [backslash, CHR ''u'', CHR ''0'', CHR ''0'',
         hex_digit (byte_val c div 16), hex_digit (byte_val c mod 16)]
      else [c])"

definition line_separator :: "string \<Rightarrow> bool" where
  "line_separator w \<longleftrightarrow> w = [CHR 0xE2, CHR 0x80, CHR 0xA8] \<or> w = [CHR 0xE2, CHR 0x80, CHR 0xA9]"

definition escape_rune :: "string \<Rightarrow> string" where
  "escape_rune w =
     (if w = [CHR 0xE2, CHR 0x80, CHR 0xA8] then [backslash] @ ''u2028''
      else if w = [CHR 0xE2, CHR 0x80, CHR 0xA9] then [backslash] @ ''u2029''
      else w)"

function escape :: "string \<Rightarrow> string" where
  "escape s = (if s = [] then []
     else if rune_len s = 0 then [backslash] @ ''ufffd'' @ escape (tl s)
     else if rune_len s = 1 then escape_byte (hd s) @ escape (tl s)
     else escape_rune (take (rune_len s) s) @ escape (drop (rune_len s) s))"
  by pat_completeness auto
termination
  by (relation "measure length") auto

declare escape.simps [simp del]

lemma escape_Nil [simp]: "escape [] = []"
  by (simp add: escape.simps [of "[]"])

definition enc_string :: "string \<Rightarrow> string" where
  "enc_string s = quote_char # escape s @ [quote_char]"

section \<open>Scanning back\<close>

definition prepend :: "'a list \<Rightarrow> ('a list \<times> 'b) option \<Rightarrow> ('a list \<times> 'b) option" where
  "prepend w r = (case r of None \<Rightarrow> None | Some (b, y) \<Rightarrow> Some (w @ b, y))"

lemma prepend_simps [simp]:
  "prepend w None = None"
  "prepend w (Some (b, y)) = Some (w @ b, y)"
  "prepend [] r = r"
  "prepend v (prepend w r) = prepend (v @ w) r"
  "cons_fst c (prepend w r) = prepend (c # w) r"
  by (auto simp: prepend_def cons_fst_def split: option.splits)

lemma cons_fst_prepend: "cons_fst c r = prepend [c] r"
  by (auto simp: prepend_def cons_fst_def split: option.splits)

text \<open>Text the string scanner passes over whole, whatever follows.\<close>

definition lit_text :: "string \<Rightarrow> bool" where
  "lit_text w \<longleftrightarrow> (\<forall>t. scan_str In (w @ t) = prepend w (scan_str In t))"

definition plain_byte :: "char \<Rightarrow> bool" where
  "plain_byte c \<longleftrightarrow> c \<noteq> quote_char \<and> c \<noteq> backslash \<and> 0x20 \<le> byte_val c"

lemma lit_text_Nil [simp]: "lit_text []"
  by (simp add: lit_text_def)

lemma lit_text_append: "lit_text v \<Longrightarrow> lit_text w \<Longrightarrow> lit_text (v @ w)"
  by (simp add: lit_text_def)

lemma lit_text_plain: "plain_byte c \<Longrightarrow> lit_text [c]"
  by (auto simp: lit_text_def plain_byte_def cons_fst_prepend)

lemma lit_text_plains: "list_all plain_byte w \<Longrightarrow> lit_text w"
proof (induction w)
  case (Cons c w)
  then show ?case using lit_text_append [OF lit_text_plain [of c], of w] by simp
qed simp

lemma simple_escape_u [simp]: "simple_escape (CHR ''u'') = None"
  by (simp add: simple_escape_def)

lemma lit_text_simple:
  assumes "simple_escape e \<noteq> None"
  shows "lit_text [backslash, e]"
proof -
  from assms have "e \<noteq> CHR ''u''" by auto
  with assms show ?thesis by (auto simp: lit_text_def cons_fst_prepend)
qed

lemma lit_text_hex:
  "list_all (\<lambda>c. hex_val c \<noteq> None) [a, b, c, d] \<Longrightarrow> lit_text [backslash, CHR ''u'', a, b, c, d]"
  by (auto simp: lit_text_def cons_fst_prepend)

lemma hex_val_hex_digit [simp]: "n < 16 \<Longrightarrow> hex_val (hex_digit n) = Some n"
  by (auto simp: hex_val_def hex_digit_def in_byte_def)

lemma lit_text_escape_byte: "lit_text (escape_byte c)"
proof -
  have "byte_val c div 16 < 16" using nat_of_char_less_256 [of c] by linarith
  then have "lit_text [backslash, CHR ''u'', CHR ''0'', CHR ''0'',
      hex_digit (byte_val c div 16), hex_digit (byte_val c mod 16)]"
    by (intro lit_text_hex) (simp add: hex_val_def [of "CHR ''0''"] in_byte_def)
  moreover have "plain_byte c \<Longrightarrow> lit_text [c]"
    by (rule lit_text_plain)
  moreover have "lit_text [backslash, e]"
    if "e \<in> {quote_char, backslash, CHR ''b'', CHR ''f'', CHR ''n'', CHR ''r'', CHR ''t''}" for e
    using that by (intro lit_text_simple) (auto simp: simple_escape_def)
  ultimately show ?thesis
    by (auto simp: escape_byte_def plain_byte_def)
qed

lemma rune_len_many:
  assumes "rune_len (c # s) \<noteq> 0" "rune_len (c # s) \<noteq> 1"
  obtains d u where "s = d # u" "second_ok c d" "rune_len (c # s) = seq_len c" "2 \<le> seq_len c"
    "list_all is_cont (take (seq_len c - 2) u)"
proof -
  have n: "seq_len c \<noteq> 0" "seq_len c \<noteq> 1" using assms by (auto split: if_splits)
  then obtain d u where s: "s = d # u" using assms by (cases s) auto
  show thesis
    by (rule that [of d u]) (use n s assms in \<open>auto split: if_splits\<close>)
qed

lemma seq_len_high: "seq_len c \<noteq> 1 \<Longrightarrow> 0x80 \<le> byte_val c"
  by (auto simp: seq_len_def split: if_splits)

lemma second_ok_high: "second_ok c d \<Longrightarrow> 0x80 \<le> byte_val d"
  by (auto simp: second_ok_def is_cont_def in_byte_def split: if_splits)

lemma rune_len_high:
  assumes "rune_len s \<noteq> 0" "rune_len s \<noteq> 1" "c \<in> set (take (rune_len s) s)"
  shows "0x80 \<le> byte_val c"
proof -
  obtain e v where s: "s = e # v" using assms by (cases s) auto
  obtain d u where v: "v = d # u" and "second_ok e d" and n: "rune_len (e # v) = seq_len e"
    and ge: "2 \<le> seq_len e" and cont: "list_all is_cont (take (seq_len e - 2) u)"
    using assms(1,2) unfolding s by (rule rune_len_many)
  have "take (seq_len e) (e # d # u) = e # d # take (seq_len e - 2) u"
    using ge by (simp add: take_Cons' numeral_2_eq_2)
  with assms(3) have "c = e \<or> c = d \<or> c \<in> set (take (seq_len e - 2) u)"
    using s v n by simp
  then show ?thesis
    using cont ge seq_len_high [of e] second_ok_high [OF \<open>second_ok e d\<close>]
    by (auto simp: list_all_iff is_cont_def in_byte_def)
qed

lemma rune_len_one: 
  assumes "rune_len s = 1"
  shows "byte_val (hd s) < 0x80" and "s \<noteq> []"
proof -
  obtain c t where s: "s = c # t" using assms by (cases s) auto
  have "seq_len c = 1"
    using assms unfolding s
    by (cases "seq_len c = 0"; cases "seq_len c = 1"; cases t) (simp_all split: if_splits)
  then show "byte_val (hd s) < 0x80" by (auto simp: s seq_len_def split: if_splits)
  show "s \<noteq> []" by (simp add: s)
qed

lemma lit_text_escape_rune:
  assumes "\<And>c. c \<in> set w \<Longrightarrow> 0x80 \<le> byte_val c"
  shows "lit_text (escape_rune w)"
proof -
  have "list_all plain_byte w"
    using assms by (fastforce simp: list_all_iff plain_byte_def)
  moreover have "lit_text ([backslash] @ ''u2028'')" and "lit_text ([backslash] @ ''u2029'')"
    by (simp_all add: lit_text_hex hex_val_def in_byte_def)
  ultimately show ?thesis
    by (simp add: escape_rune_def lit_text_plains)
qed

lemma lit_text_replacement: "lit_text ([backslash] @ ''ufffd'')"
  by (simp add: lit_text_hex hex_val_def in_byte_def)

lemma lit_text_escape: "lit_text (escape s)"
proof (induction s rule: escape.induct)
  case (1 s)
  consider "s = []" | (bad) "s \<noteq> []" "rune_len s = 0" | (one) "s \<noteq> []" "rune_len s = 1"
    | (many) "s \<noteq> []" "rune_len s \<noteq> 0" "rune_len s \<noteq> 1" by blast
  then show ?case
  proof cases
    case bad
    with "1.IH"(1) show ?thesis
      using lit_text_append [OF lit_text_replacement] by (simp add: escape.simps [of s])
  next
    case one
    with "1.IH"(2) show ?thesis
      by (simp add: escape.simps [of s] lit_text_append lit_text_escape_byte)
  next
    case many
    have "lit_text (escape_rune (take (rune_len s) s))"
      using many rune_len_high by (intro lit_text_escape_rune) blast
    with many "1.IH"(3) show ?thesis
      by (simp add: escape.simps [of s] lit_text_append)
  qed simp
qed

lemma scan_enc_string [simp]:
  "scan_str In (escape s @ quote_char # t) = Some (escape s, t)"
  using lit_text_escape [of s] by (simp add: lit_text_def)

section \<open>Unquoting back\<close>

lemma hex4_Cons:
  "hex_val a = Some x \<Longrightarrow> hex_val b = Some y \<Longrightarrow> hex_val c = Some z \<Longrightarrow> hex_val d = Some w \<Longrightarrow>
     hex4 (a # b # c # d # t) = Some (((x * 16 + y) * 16 + z) * 16 + w)"
  by (simp add: hex4_def)

lemma unquote_ascii:
  "c \<noteq> backslash \<Longrightarrow> byte_val c < 0x80 \<Longrightarrow> unquote (c # t) = c # unquote t"
  by (subst unquote_plain) (simp_all add: seq_len_def)

lemma unquote_escape_byte:
  assumes "byte_val c < 0x80"
  shows "unquote (escape_byte c @ t) = c # unquote t"
proof -
  let ?v = "byte_val c"
  have v: "?v = ((0 * 16 + 0) * 16 + ?v div 16) * 16 + ?v mod 16" by simp
  have "hex4 (CHR ''0'' # CHR ''0'' # hex_digit (?v div 16) # hex_digit (?v mod 16) # t) = Some ?v"
    using assms by (subst v, intro hex4_Cons) (simp_all add: hex_val_def [of "CHR ''0''"] in_byte_def)
  moreover have "encode_rune ?v = [c]" using assms by (simp add: encode_rune_def)
  ultimately have "unquote (backslash # CHR ''u'' # CHR ''0'' # CHR ''0''
      # hex_digit (?v div 16) # hex_digit (?v mod 16) # t) = c # unquote t"
    using assms by (subst unquote_hex) (simp_all add: high_surrogate_def low_surrogate_def)
  moreover have "unquote (backslash # e # t) = x # unquote t"
    if "(e, x) \<in> {(quote_char, quote_char), (backslash, backslash), (CHR ''b'', CHR 0x08),
      (CHR ''f'', CHR 0x0C), (CHR ''n'', CHR 0x0A), (CHR ''r'', CHR 0x0D), (CHR ''t'', CHR 0x09)}" for e x
    using that by (intro unquote_simple) (auto simp: simple_escape_def)
  ultimately show ?thesis
    using assms by (auto simp: escape_byte_def unquote_ascii)
qed

lemma encode_separators:
  "encode_rune 0x2028 = [CHR 0xE2, CHR 0x80, CHR 0xA8]"
  "encode_rune 0x2029 = [CHR 0xE2, CHR 0x80, CHR 0xA9]"
  "encode_rune 0xFFFD = replacement"
  by (simp_all add: encode_rune_def replacement_def char_of_def bit_0)

lemma unquote_2028:
  "unquote (backslash # ''u2028'' @ t) = [CHR 0xE2, CHR 0x80, CHR 0xA8] @ unquote t"
  "unquote (backslash # ''u2029'' @ t) = [CHR 0xE2, CHR 0x80, CHR 0xA9] @ unquote t"
  "unquote (backslash # ''ufffd'' @ t) = replacement @ unquote t"
proof -
  have h: "hex4 (''2028'' @ t) = Some 0x2028" "hex4 (''2029'' @ t) = Some 0x2029"
      "hex4 (''fffd'' @ t) = Some 0xFFFD"
    by (simp_all add: hex4_def hex_val_def in_byte_def)
  have u: "unquote (backslash # CHR ''u'' # u) = encode_rune r @ unquote (drop 4 u)"
    if "hex4 u = Some r" "r \<in> {0x2028, 0x2029, 0xFFFD}" for u r
    using that by (intro unquote_hex) (auto simp: high_surrogate_def low_surrogate_def)
  show "unquote (backslash # ''u2028'' @ t) = [CHR 0xE2, CHR 0x80, CHR 0xA8] @ unquote t"
    "unquote (backslash # ''u2029'' @ t) = [CHR 0xE2, CHR 0x80, CHR 0xA9] @ unquote t"
    "unquote (backslash # ''ufffd'' @ t) = replacement @ unquote t"
    using u [OF h(1)] u [OF h(2)] u [OF h(3)] by (simp_all add: encode_separators)
qed

lemma unquote_escape_rune:
  assumes "rune_len w = length w" "1 < length w" "\<And>c. c \<in> set w \<Longrightarrow> 0x80 \<le> byte_val c"
  shows "unquote (escape_rune w @ t) = w @ unquote t"
proof -
  have "hd w \<noteq> backslash"
    using assms(2,3) by (cases w) force+
  moreover have "rune_len (w @ t) = length w"
    using assms(1,2) by (subst rune_len_append) auto
  moreover have "w \<noteq> []" using assms(2) by auto
  ultimately have "unquote (w @ t) = w @ unquote t"
    using assms(2) by (subst unquote_plain) simp_all
  with unquote_2028(1,2) [of t] show ?thesis
    by (simp add: escape_rune_def)
qed

text \<open>Decoding inverts encoding, up to the replacement of invalid bytes.\<close>

lemma unquote_escape: "unquote (escape s) = to_utf8 s"
proof (induction s rule: escape.induct)
  case (1 s)
  consider "s = []" | (bad) "s \<noteq> []" "rune_len s = 0" | (one) "s \<noteq> []" "rune_len s = 1"
    | (many) "s \<noteq> []" "rune_len s \<noteq> 0" "rune_len s \<noteq> 1" by blast
  then show ?case
  proof cases
    case bad
    with "1.IH"(1) show ?thesis
      using unquote_2028(3) by (simp add: escape.simps [of s] to_utf8.simps [of s])
  next
    case one
    then have "take 1 s = [hd s]" by (cases s) simp_all
    with one "1.IH"(2) rune_len_one [OF one(2)] show ?thesis
      by (simp add: escape.simps [of s] to_utf8.simps [of s] unquote_escape_byte drop_Suc)
  next
    case many
    let ?w = "take (rune_len s) s"
    have "rune_len ?w = length ?w" "1 < length ?w"
      using many rune_len_le [of s] by (simp_all add: rune_len_take)
    then have "unquote (escape_rune ?w @ t) = ?w @ unquote t" for t
      using many rune_len_high by (intro unquote_escape_rune) blast+
    with many "1.IH"(3) show ?thesis
      by (simp add: escape.simps [of s] to_utf8.simps [of s])
  qed simp
qed

lemma unquote_escape_valid: "utf8_valid s \<Longrightarrow> unquote (escape s) = s"
  by (simp add: unquote_escape to_utf8_id)

lemma parse_enc_string: "parse_prefix (enc_string s @ t) = Some (JStr (to_utf8 s), t)"
  by (simp add: parse_prefix_def enc_string_def parse_value.simps unquote_escape)

text \<open>No byte below U+0020 is written, so an encoded string stays on one line.\<close>

definition printable :: "string \<Rightarrow> bool" where
  "printable w \<longleftrightarrow> list_all (\<lambda>c. 0x20 \<le> byte_val c) w"

lemma printable_simps [simp]:
  "printable []"
  "printable (c # w) \<longleftrightarrow> 0x20 \<le> byte_val c \<and> printable w"
  "printable (v @ w) \<longleftrightarrow> printable v \<and> printable w"
  by (simp_all add: printable_def)

lemma printable_hex_digit [simp]: "n < 16 \<Longrightarrow> 0x20 \<le> byte_val (hex_digit n)"
  by (simp add: hex_digit_def)

lemma printable_escape [simp]: "printable (escape s)"
proof (induction s rule: escape.induct)
  case (1 s)
  have byte: "printable (escape_byte c)" for c
  proof -
    have "byte_val c div 16 < 16" using nat_of_char_less_256 [of c] by linarith
    then show ?thesis by (simp add: escape_byte_def)
  qed
  have "printable (escape_rune (take (rune_len s) s))" if "rune_len s \<noteq> 0" "rune_len s \<noteq> 1"
    using rune_len_high [OF that] by (force simp: escape_rune_def printable_def list_all_iff)
  with 1 byte show ?case
    by (cases "s = []"; cases "rune_len s = 0"; cases "rune_len s = 1")
      (simp_all add: escape.simps [of s])
qed

lemma printable_enc_string [simp]: "printable (enc_string s)"
  by (simp add: enc_string_def)

section \<open>Objects\<close>

text \<open>An object from its keys and the already encoded values, in the order given.\<close>

definition enc_member :: "string \<times> string \<Rightarrow> string" where
  "enc_member kv = enc_string (fst kv) @ '':'' @ snd kv"

definition enc_object :: "(string \<times> string) list \<Rightarrow> string" where
  "enc_object kvs = ''{'' @ joinWith '','' (map enc_member kvs) @ ''}''"

lemma printable_joinWith: "printable sep \<Longrightarrow> list_all printable ws \<Longrightarrow> printable (joinWith sep ws)"
  by (induction sep ws rule: joinWith.induct) auto

lemma printable_enc_object [simp]:
  "list_all (\<lambda>kv. printable (snd kv)) kvs \<Longrightarrow> printable (enc_object kvs)"
  by (auto simp: enc_object_def enc_member_def list_all_iff intro!: printable_joinWith)

text \<open>An object with a single string member is read back as such.\<close>

lemma skip_ws_enc_string [simp]: "skip_ws (enc_string s @ t) = enc_string s @ t"
  by (simp add: skip_ws_def enc_string_def json_space_def)

lemma parse_single_member:
  "json_parse (enc_object [(k, enc_string v)]) = Some (JObj [(to_utf8 k, enc_string v, JStr (to_utf8 v))])"
proof -
  define body where "body = enc_string v @ ''}''"
  have v: "parse_value (Suc n) d body = Some (JStr (to_utf8 v), ''}'')" for n d
    by (simp add: body_def enc_string_def parse_value.simps unquote_escape)
  have w: "skip_ws body = body" and t: "take (length body - Suc 0) body = enc_string v"
    by (simp_all add: body_def)
  have m: "parse_members (Suc (Suc n)) d (enc_string k @ CHR '':'' # body) =
      Some ([(to_utf8 k, enc_string v, JStr (to_utf8 v))], [])" for n d
    by (simp add: parse_members.simps [of "Suc n"] enc_string_def [of k] w v t unquote_escape)
      (simp add: skip_ws_def json_space_def w [unfolded skip_ws_def] v t unquote_escape)
  let ?s = "enc_object [(k, enc_string v)]"
  obtain t1 where mem: "enc_string k @ CHR '':'' # body = quote_char # t1"
    by (simp add: enc_string_def)
  have s: "?s = CHR ''{'' # quote_char # t1"
    by (simp add: enc_object_def enc_member_def body_def flip: mem)
  have sk: "skip_ws (quote_char # t1) = quote_char # t1"
    by (simp add: skip_ws_def json_space_def)
  have "parse_value (Suc (Suc (Suc n))) (Suc d) ?s = Some (JObj [(to_utf8 k, enc_string v, JStr (to_utf8 v))], [])" for n d
    using m [of n d] unfolding s mem by (simp add: parse_value.simps [of "Suc (Suc n)"] sk)
  moreover obtain d where "max_nesting = Suc d"
    by (cases max_nesting) (simp_all add: max_nesting_def)
  moreover have "parse_value (Suc (Suc (Suc (2 * length ?s)))) max_nesting ?s = parse_prefix ?s"
    by (rule parse_fuel_enough) simp
  ultimately have "parse_prefix ?s = Some (JObj [(to_utf8 k, enc_string v, JStr (to_utf8 v))], [])"
    by metis
  moreover have "skip_ws ?s = ?s" by (simp add: s skip_ws_def json_space_def)
  ultimately show ?thesis by (simp add: json_parse_def) (simp add: skip_ws_def)
qed

section \<open>Compact\<close>

text \<open>
  \<^verbatim>\<open>json.Marshal\<close> compacts the text of a \<^verbatim>\<open>json.RawMessage\<close>: white space between tokens goes, and inside
  strings the HTML characters and the two line separators are escaped. The flag says whether the scan is
  inside a string.
\<close>

function compact_from :: "bool \<Rightarrow> string \<Rightarrow> string" where
  "compact_from inside s =
     (case s of [] \<Rightarrow> []
      | c # t \<Rightarrow>
         if \<not> inside then
           (if c = quote_char then c # compact_from True t
            else if json_space c then compact_from False t
            else c # compact_from False t)
         else if c = quote_char then c # compact_from False t
         else if c = backslash then
           (case t of [] \<Rightarrow> [c] | e # u \<Rightarrow> c # e # compact_from True u)
         else if c = CHR ''<'' \<or> c = CHR ''>'' \<or> c = CHR ''&'' then escape_byte c @ compact_from True t
         else if hasPrefix s [CHR 0xE2, CHR 0x80, CHR 0xA8] then [backslash] @ ''u2028'' @ compact_from True (drop 2 t)
         else if hasPrefix s [CHR 0xE2, CHR 0x80, CHR 0xA9] then [backslash] @ ''u2029'' @ compact_from True (drop 2 t)
         else c # compact_from True t)"
  by pat_completeness auto
termination
  by (relation "measure (\<lambda>(inside, s). length s)") auto

declare compact_from.simps [simp del]

definition compact :: "string \<Rightarrow> string" where
  "compact s = compact_from False s"

end
