(* ===== verification/Response_Blocks.thy ===== *)
theory Response_Blocks
  imports Wire_Types Json_Encode
begin

text \<open>
  The non-streaming half of \<^verbatim>\<open>internal/protocol/responses_to_anthropic.go\<close>: output items to content
  blocks, token usage, stop reasons, and \<open>ResponsesToAnthropic\<close>, which puts them together.
\<close>

section \<open>Errors\<close>

text \<open>The text \<^verbatim>\<open>UpstreamResponseError.Error\<close> prints.\<close>

definition upstreamErrorText :: "string \<Rightarrow> string \<Rightarrow> string" where
  "upstreamErrorText code message =
     (if code = [] then ''upstream Responses error: '' @ message
      else ''upstream Responses error '' @ code @ '': '' @ message)"

definition responseError :: "ResponsesError option \<Rightarrow> go_error" where
  "responseError upstream =
     (case upstream of
        None \<Rightarrow> UpstreamResponseError ''api_error'' ''upstream response failed''
      | Some e \<Rightarrow> UpstreamResponseError (reCode e) (reMessage e))"

section \<open>Tool input\<close>

text \<open>
  \<^verbatim>\<open>json.Unmarshal\<close> into a \<^verbatim>\<open>map[string]json.RawMessage\<close> succeeds on an object and on \<^verbatim>\<open>null\<close>, and
  leaves a nil map for \<^verbatim>\<open>null\<close>.
\<close>

definition functionToolInput :: "string \<Rightarrow> string result" where
  "functionToolInput arguments =
     (if isBlank arguments then Inr ''{}''
      else (case json_parse arguments of
              Some (JObj ms) \<Rightarrow> Inr arguments
            | _ \<Rightarrow> Inl (ErrNew ''arguments must be a JSON object'')))"

definition customToolInput :: "string \<Rightarrow> string" where
  "customToolInput input = enc_object [(''input'', enc_string input)]"

definition json_object :: "string \<Rightarrow> bool" where
  "json_object s \<longleftrightarrow> (\<exists>ms. json_parse s = Some (JObj ms))"

lemma json_object_empty [simp]: "json_object ''{}''"
  by (simp add: json_object_def json_parse_def parse_prefix_def parse_value.simps max_nesting_def
      skip_ws_def json_space_def numeral_eq_Suc)

lemma json_object_customToolInput [simp]: "json_object (customToolInput input)"
  by (simp add: json_object_def customToolInput_def parse_single_member)

lemma functionToolInput_Inr:
  "functionToolInput a = Inr input \<longleftrightarrow>
     isBlank a \<and> input = ''{}'' \<or> \<not> isBlank a \<and> json_object a \<and> input = a"
  by (auto simp: functionToolInput_def json_object_def split: option.splits json.splits)

lemma functionToolInput_Inl:
  "functionToolInput a = Inl e \<longleftrightarrow>
     \<not> isBlank a \<and> \<not> json_object a \<and> e = ErrNew ''arguments must be a JSON object''"
  by (auto simp: functionToolInput_def json_object_def split: option.splits json.splits)

lemma functionToolInput_object: "functionToolInput a = Inr input \<Longrightarrow> json_object input"
  by (auto simp: functionToolInput_Inr)

section \<open>Output items to content blocks\<close>

definition summaryText :: "ResponsesSummary list \<Rightarrow> string" where
  "summaryText parts = concat (map rsText (filter (\<lambda>p. rsType p = ''summary_text'') parts))"

text \<open>One iteration of the loop of \<^verbatim>\<open>responseOutputToBlocks\<close>: the blocks it appends and whether it sets
  \<^verbatim>\<open>hasTool\<close>.\<close>

definition outputItemBlocks ::
  "nat \<Rightarrow> ResponsesOutput \<Rightarrow> (AnthropicContentBlock list \<times> bool) result" where
  "outputItemBlocks outputIndex item =
     (if roType item = ''reasoning'' then
        Inr (if summaryText (roSummary item) \<noteq> [] \<or> \<not> isBlank (roEncryptedContent item)
             then [zeroAnthropicContentBlock\<lparr>cbType := ''thinking'',
                     cbThinking := summaryText (roSummary item),
                     cbSignature := roEncryptedContent item\<rparr>]
             else [], False)
      else if roType item = ''message'' then
        Inr (map (\<lambda>part. zeroAnthropicContentBlock\<lparr>cbType := ''text'', cbText := cpText part\<rparr>)
               (filter (\<lambda>part. cpType part = ''output_text'' \<and> cpText part \<noteq> []) (roContent item)), False)
      else if roType item = ''function_call'' then
        (case functionToolInput (roArguments item) of
           Inl e \<Rightarrow> Inl (ErrWrap (''convert output '' @ show_nat outputIndex @ '' function_call: '') e)
         | Inr input \<Rightarrow>
             Inr ([zeroAnthropicContentBlock\<lparr>cbType := ''tool_use'', cbID := roCallID item,
                     cbName := roName item, cbInput := input\<rparr>], True))
      else if roType item = ''custom_tool_call'' then
        Inr ([zeroAnthropicContentBlock\<lparr>cbType := ''tool_use'', cbID := roCallID item,
                cbName := roName item, cbInput := customToolInput (roInput item)\<rparr>], True)
      else Inr ([], False))"

fun outputBlocksFrom ::
  "nat \<Rightarrow> ResponsesOutput list \<Rightarrow> (AnthropicContentBlock list \<times> bool) result" where
  "outputBlocksFrom i [] = Inr ([], False)"
| "outputBlocksFrom i (item # items) =
     (case outputItemBlocks i item of
        Inl e \<Rightarrow> Inl e
      | Inr (blocks, tool) \<Rightarrow>
          (case outputBlocksFrom (Suc i) items of
             Inl e \<Rightarrow> Inl e
           | Inr (blocks', tool') \<Rightarrow> Inr (blocks @ blocks', tool \<or> tool')))"

definition responseOutputToBlocks ::
  "ResponsesOutput list \<Rightarrow> (AnthropicContentBlock list \<times> bool) result" where
  "responseOutputToBlocks output = outputBlocksFrom 0 output"

section \<open>Usage and stop reason\<close>

definition cacheTokens :: "ResponsesUsage \<Rightarrow> int" where
  "cacheTokens usage =
     (case ruInputTokensDetails usage of
        None \<Rightarrow> ruCacheCreationInputTokens usage
      | Some d \<Rightarrow> if tdCacheWriteTokens d > 0 then tdCacheWriteTokens d
          else if tdCacheCreationTokens d > 0 then tdCacheCreationTokens d
          else ruCacheCreationInputTokens usage)"

definition anthropicUsage :: "ResponsesUsage option \<Rightarrow> AnthropicUsage" where
  "anthropicUsage usage =
     (case usage of
        None \<Rightarrow> zeroAnthropicUsage
      | Some u \<Rightarrow>
          (let cached = (case ruInputTokensDetails u of None \<Rightarrow> 0 | Some d \<Rightarrow> max (tdCachedTokens d) 0);
               cacheCreation = max (cacheTokens u) 0;
               input = max (i64 (i64 (ruInputTokens u - cached) - cacheCreation)) 0
           in \<lparr>auInputTokens = input, auOutputTokens = max (ruOutputTokens u) 0,
               auCacheCreationInputTokens = cacheCreation, auCacheReadInputTokens = cached\<rparr>))"

definition stopReasonFor :: "string \<Rightarrow> ResponsesIncompleteDetails option \<Rightarrow> bool \<Rightarrow> string" where
  "stopReasonFor status details hasTool =
     (if status = ''incomplete'' \<and> details \<noteq> None \<and> rdReason (the details) = ''max_output_tokens''
      then ''max_tokens''
      else if status = ''completed'' \<and> hasTool then ''tool_use''
      else ''end_turn'')"

section \<open>The whole conversion\<close>

definition ResponsesToAnthropic ::
  "ResponsesResponse option \<Rightarrow> string \<Rightarrow> AnthropicResponse result" where
  "ResponsesToAnthropic response model =
     (case response of
        None \<Rightarrow> Inl (ErrNew ''convert Responses response: nil response'')
      | Some r \<Rightarrow>
          if rpStatus r = ''failed'' \<or> rpError r \<noteq> None then Inl (responseError (rpError r))
          else (case responseOutputToBlocks (rpOutput r) of
             Inl e \<Rightarrow> Inl e
           | Inr (blocks, hasTool) \<Rightarrow>
               Inr \<lparr>rmID = rpID r, rmType = ''message'', rmRole = ''assistant'',
                    rmContent = (if blocks = []
                       then [zeroAnthropicContentBlock\<lparr>cbType := ''text'', cbText := []\<rparr>] else blocks),
                    rmModel = (if model = [] then rpModel r else model),
                    rmStopReason = Some (stopReasonFor (rpStatus r) (rpIncompleteDetails r) hasTool),
                    rmStopSequence = None,
                    rmUsage = anthropicUsage (rpUsage r)\<rparr>))"

end
