(* ===== verification/Stream_Converter.thy ===== *)
theory Stream_Converter
  imports Response_Blocks
begin

text \<open>
  The stateful stream converter of \<^verbatim>\<open>internal/protocol/responses_to_anthropic.go\<close>: its state, one
  definition per method, and \<open>process\<close>, which dispatches on the event type. A method that mutates the
  converter takes it and returns the new one beside its result.
\<close>

section \<open>State\<close>

record streamBlock =
  sbIndex :: int
  sbOutputIndex :: int
  sbKind :: string
  sbCallID :: string
  sbToolName :: string
  sbCustom :: bool
  sbBuffer :: string
  sbHadDelta :: bool
  sbSignature :: string

definition zeroStreamBlock :: streamBlock where
  "zeroStreamBlock = \<lparr>sbIndex = 0, sbOutputIndex = 0, sbKind = [], sbCallID = [], sbToolName = [],
     sbCustom = False, sbBuffer = [], sbHadDelta = False, sbSignature = []\<rparr>"

record ResponsesStreamConverter =
  cvModel :: string
  cvResponseID :: string
  cvMessageStarted :: bool
  cvTerminal :: bool
  cvTerminalErr :: "go_error option"
  cvHasTool :: bool
  cvSawContent :: bool
  cvNextBlockIndex :: int
  cvActive :: "streamBlock option"

definition NewResponsesStreamConverter :: "string \<Rightarrow> ResponsesStreamConverter" where
  "NewResponsesStreamConverter model = \<lparr>cvModel = model, cvResponseID = [], cvMessageStarted = False,
     cvTerminal = False, cvTerminalErr = None, cvHasTool = False, cvSawContent = False,
     cvNextBlockIndex = 0, cvActive = None\<rparr>"

type_synonym emitted = "AnthropicStreamEvent list"
type_synonym step_result = "ResponsesStreamConverter \<times> emitted result"

section \<open>Events the converter builds\<close>

definition blockStart :: "int \<Rightarrow> AnthropicContentBlock \<Rightarrow> AnthropicStreamEvent" where
  "blockStart index block = zeroAnthropicStreamEvent\<lparr>seType := ''content_block_start'',
     seIndex := Some index, seContentBlock := Some block\<rparr>"

definition blockDelta :: "int \<Rightarrow> AnthropicDelta \<Rightarrow> AnthropicStreamEvent" where
  "blockDelta index delta = zeroAnthropicStreamEvent\<lparr>seType := ''content_block_delta'',
     seIndex := Some index, seDelta := Some delta\<rparr>"

definition blockStop :: "int \<Rightarrow> AnthropicStreamEvent" where
  "blockStop index = zeroAnthropicStreamEvent\<lparr>seType := ''content_block_stop'', seIndex := Some index\<rparr>"

definition textDelta :: "string \<Rightarrow> AnthropicDelta" where
  "textDelta t = zeroAnthropicDelta\<lparr>adType := ''text_delta'', adText := t\<rparr>"

definition thinkingDelta :: "string \<Rightarrow> AnthropicDelta" where
  "thinkingDelta t = zeroAnthropicDelta\<lparr>adType := ''thinking_delta'', adThinking := t\<rparr>"

definition signatureDelta :: "string \<Rightarrow> AnthropicDelta" where
  "signatureDelta s = zeroAnthropicDelta\<lparr>adType := ''signature_delta'', adSignature := s\<rparr>"

definition inputJsonDelta :: "string \<Rightarrow> AnthropicDelta" where
  "inputJsonDelta j = zeroAnthropicDelta\<lparr>adType := ''input_json_delta'', adPartialJSON := j\<rparr>"

definition messageStart :: "string \<Rightarrow> string \<Rightarrow> AnthropicStreamEvent" where
  "messageStart responseID model = zeroAnthropicStreamEvent\<lparr>seType := ''message_start'',
     seMessage := Some \<lparr>rmID = responseID, rmType = ''message'', rmRole = ''assistant'', rmContent = [],
       rmModel = model, rmStopReason = None, rmStopSequence = None, rmUsage = zeroAnthropicUsage\<rparr>\<rparr>"

definition messageDelta :: "string \<Rightarrow> AnthropicUsage \<Rightarrow> AnthropicStreamEvent" where
  "messageDelta stopReason usage = zeroAnthropicStreamEvent\<lparr>seType := ''message_delta'',
     seDelta := Some (zeroAnthropicDelta\<lparr>adStopReason := stopReason\<rparr>), seUsage := Some usage\<rparr>"

definition messageStop :: AnthropicStreamEvent where
  "messageStop = zeroAnthropicStreamEvent\<lparr>seType := ''message_stop''\<rparr>"

section \<open>Shared steps\<close>

definition converterFail :: "ResponsesStreamConverter \<Rightarrow> go_error \<Rightarrow> step_result" where
  "converterFail c err = (c\<lparr>cvTerminal := True, cvTerminalErr := Some err\<rparr>, Inl err)"

definition captureMetadata ::
  "ResponsesStreamConverter \<Rightarrow> ResponsesResponse option \<Rightarrow> ResponsesStreamConverter" where
  "captureMetadata c response =
     (case response of None \<Rightarrow> c
      | Some r \<Rightarrow>
          let c1 = (if rpID r \<noteq> [] then c\<lparr>cvResponseID := rpID r\<rparr> else c)
          in if cvModel c1 = [] \<and> rpModel r \<noteq> [] then c1\<lparr>cvModel := rpModel r\<rparr> else c1)"

definition ensureMessageStart ::
  "ResponsesStreamConverter \<Rightarrow> ResponsesStreamConverter \<times> emitted" where
  "ensureMessageStart c =
     (if cvMessageStarted c then (c, [])
      else (c\<lparr>cvMessageStarted := True\<rparr>, [messageStart (cvResponseID c) (cvModel c)]))"

definition closeActive :: "ResponsesStreamConverter \<Rightarrow> ResponsesStreamConverter \<times> emitted" where
  "closeActive c =
     (case cvActive c of
        None \<Rightarrow> (c, [])
      | Some block \<Rightarrow>
          (c\<lparr>cvActive := None, cvNextBlockIndex := cvNextBlockIndex c + 1\<rparr>,
           (if sbKind block = ''thinking'' \<and> \<not> isBlank (sbSignature block)
            then [blockDelta (sbIndex block) (signatureDelta (sbSignature block))] else [])
           @ [blockStop (sbIndex block)]))"

section \<open>Handlers\<close>

definition handleItemAdded ::
  "ResponsesStreamConverter \<Rightarrow> ResponsesStreamEvent \<Rightarrow> step_result" where
  "handleItemAdded c event =
     (case evItem event of
        None \<Rightarrow> (c, Inr [])
      | Some item \<Rightarrow>
          let (c1, events) = ensureMessageStart c in
          if roType item = ''function_call'' \<or> roType item = ''custom_tool_call'' then
            let (c2, closed) = closeActive c1;
                index = cvNextBlockIndex c2;
                block = zeroStreamBlock\<lparr>sbIndex := index, sbOutputIndex := evOutputIndex event,
                  sbKind := ''tool_use'', sbCallID := roCallID item, sbToolName := roName item,
                  sbCustom := (roType item = ''custom_tool_call'')\<rparr>
            in (c2\<lparr>cvHasTool := True, cvSawContent := True, cvActive := Some block\<rparr>,
                Inr (events @ closed @
                  [blockStart index (zeroAnthropicContentBlock\<lparr>cbType := ''tool_use'',
                     cbID := roCallID item, cbName := roName item, cbInput := ''{}''\<rparr>)]))
          else if roType item = ''reasoning'' then
            let (c2, closed) = closeActive c1;
                index = cvNextBlockIndex c2;
                block = zeroStreamBlock\<lparr>sbIndex := index, sbOutputIndex := evOutputIndex event,
                  sbKind := ''thinking'', sbSignature := roEncryptedContent item\<rparr>
            in (c2\<lparr>cvSawContent := True, cvActive := Some block\<rparr>,
                Inr (events @ closed @
                  [blockStart index (zeroAnthropicContentBlock\<lparr>cbType := ''thinking''\<rparr>)]))
          else (c1, Inr events))"

text \<open>
  The part \<^verbatim>\<open>handleTextDelta\<close> and \<^verbatim>\<open>handleReasoningDelta\<close> share: a block of the wanted kind for this
  output item, the active one if it fits, a new one otherwise.
\<close>

definition openBlockFor ::
  "ResponsesStreamConverter \<Rightarrow> ResponsesStreamEvent \<Rightarrow> string \<Rightarrow>
     ResponsesStreamConverter \<times> streamBlock \<times> emitted" where
  "openBlockFor c event kind =
     (case cvActive c of
        Some b \<Rightarrow>
          if sbKind b \<noteq> kind \<or> sbOutputIndex b \<noteq> evOutputIndex event then
            let (c1, closed) = closeActive c;
                block = zeroStreamBlock\<lparr>sbIndex := cvNextBlockIndex c1,
                  sbOutputIndex := evOutputIndex event, sbKind := kind\<rparr>
            in (c1, block, closed @
                  [blockStart (cvNextBlockIndex c1) (zeroAnthropicContentBlock\<lparr>cbType := kind\<rparr>)])
          else (c, b, [])
      | None \<Rightarrow>
          (c, zeroStreamBlock\<lparr>sbIndex := cvNextBlockIndex c,
                sbOutputIndex := evOutputIndex event, sbKind := kind\<rparr>,
           [blockStart (cvNextBlockIndex c) (zeroAnthropicContentBlock\<lparr>cbType := kind\<rparr>)]))"

definition handleTextDelta ::
  "ResponsesStreamConverter \<Rightarrow> ResponsesStreamEvent \<Rightarrow> step_result" where
  "handleTextDelta c event =
     (if evDelta event = [] then (c, Inr [])
      else
        let (c1, events) = ensureMessageStart c;
            (c2, block, opened) = openBlockFor c1 event ''text''
        in (c2\<lparr>cvActive := Some (block\<lparr>sbHadDelta := True\<rparr>), cvSawContent := True\<rparr>,
            Inr (events @ opened @ [blockDelta (sbIndex block) (textDelta (evDelta event))])))"

definition handleTextDone ::
  "ResponsesStreamConverter \<Rightarrow> ResponsesStreamEvent \<Rightarrow> step_result" where
  "handleTextDone c event =
     (let (c1, step) =
        (if cvActive c = None \<and> evText event \<noteq> [] then
           handleTextDelta c (zeroResponsesStreamEvent\<lparr>evType := ''response.output_text.delta'',
             evOutputIndex := evOutputIndex event, evDelta := evText event\<rparr>)
         else (case cvActive c of
             Some b \<Rightarrow>
               if sbKind b = ''text'' \<and> \<not> sbHadDelta b \<and> evText event \<noteq> [] then
                 (c\<lparr>cvActive := Some (b\<lparr>sbHadDelta := True\<rparr>)\<rparr>,
                  Inr [blockDelta (sbIndex b) (textDelta (evText event))])
               else (c, Inr [])
           | None \<Rightarrow> (c, Inr [])))
      in case step of
           Inl err \<Rightarrow> (c1, Inl err)
         | Inr events \<Rightarrow>
             (case cvActive c1 of
                Some b \<Rightarrow>
                  if sbKind b = ''text'' then
                    let (c2, closed) = closeActive c1 in (c2, Inr (events @ closed))
                  else (c1, Inr events)
              | None \<Rightarrow> (c1, Inr events)))"

text \<open>The test of both tool handlers: the active block is the tool call this event belongs to.\<close>

definition activeTool ::
  "ResponsesStreamConverter \<Rightarrow> ResponsesStreamEvent \<Rightarrow> bool \<Rightarrow> streamBlock option" where
  "activeTool c event custom =
     (case cvActive c of
        None \<Rightarrow> None
      | Some b \<Rightarrow>
          if sbKind b \<noteq> ''tool_use'' \<or> sbOutputIndex b \<noteq> evOutputIndex event \<or> sbCustom b \<noteq> custom
          then None else Some b)"

definition handleToolDelta ::
  "ResponsesStreamConverter \<Rightarrow> ResponsesStreamEvent \<Rightarrow> bool \<Rightarrow> step_result" where
  "handleToolDelta c event custom =
     (if evDelta event = [] then (c, Inr [])
      else (case activeTool c event custom of
          None \<Rightarrow> converterFail c
            (ErrNew ''Responses tool delta does not match the active output item'')
        | Some b \<Rightarrow>
            let b1 = b\<lparr>sbBuffer := sbBuffer b @ evDelta event\<rparr> in
            if custom then (c\<lparr>cvActive := Some b1\<rparr>, Inr [])
            else (c\<lparr>cvActive := Some (b1\<lparr>sbHadDelta := True\<rparr>)\<rparr>,
                  Inr [blockDelta (sbIndex b) (inputJsonDelta (evDelta event))])))"

definition handleToolDone ::
  "ResponsesStreamConverter \<Rightarrow> ResponsesStreamEvent \<Rightarrow> bool \<Rightarrow> step_result" where
  "handleToolDone c event custom =
     (case activeTool c event custom of
        None \<Rightarrow> converterFail c
          (ErrNew ''Responses tool done event does not match the active output item'')
      | Some b \<Rightarrow>
          if custom then
            let input = (if evInput event = [] then sbBuffer b else evInput event);
                (c1, closed) = closeActive c
            in (c1, Inr ([blockDelta (sbIndex b) (inputJsonDelta (customToolInput input))] @ closed))
          else
            let arguments = (if evArguments event = [] then sbBuffer b else evArguments event) in
            (case functionToolInput arguments of
               Inl err \<Rightarrow> converterFail c
                 (ErrWrapQuoted ''complete function call '' (sbToolName b) '': '' err)
             | Inr _ \<Rightarrow>
                 let events = (if \<not> sbHadDelta b
                       then [blockDelta (sbIndex b)
                              (inputJsonDelta (if arguments = [] then ''{}'' else arguments))]
                       else []);
                     (c1, closed) = closeActive c
                 in (c1, Inr (events @ closed))))"

definition handleReasoningDelta ::
  "ResponsesStreamConverter \<Rightarrow> ResponsesStreamEvent \<Rightarrow> step_result" where
  "handleReasoningDelta c event =
     (if evDelta event = [] then (c, Inr [])
      else
        let (c1, events) = ensureMessageStart c;
            (c2, block, opened) = openBlockFor c1 event ''thinking''
        in (c2\<lparr>cvActive := Some (block\<lparr>sbHadDelta := True\<rparr>), cvSawContent := True\<rparr>,
            Inr (events @ opened @ [blockDelta (sbIndex block) (thinkingDelta (evDelta event))])))"

definition handleReasoningDone ::
  "ResponsesStreamConverter \<Rightarrow> ResponsesStreamEvent \<Rightarrow> step_result" where
  "handleReasoningDone c event =
     (case cvActive c of
        Some b \<Rightarrow>
          if sbKind b = ''thinking'' \<and> \<not> sbHadDelta b \<and> evText event \<noteq> [] then
            (c\<lparr>cvActive := Some (b\<lparr>sbHadDelta := True\<rparr>)\<rparr>,
             Inr [blockDelta (sbIndex b) (thinkingDelta (evText event))])
          else (c, Inr [])
      | None \<Rightarrow> (c, Inr []))"

definition closing :: "ResponsesStreamConverter \<Rightarrow> step_result" where
  "closing c = (let (c1, closed) = closeActive c in (c1, Inr closed))"

definition handleItemDone ::
  "ResponsesStreamConverter \<Rightarrow> ResponsesStreamEvent \<Rightarrow> step_result" where
  "handleItemDone c event =
     (case (evItem event, cvActive c) of
        (Some item, Some b) \<Rightarrow>
          if sbOutputIndex b \<noteq> evOutputIndex event then
            converterFail c (ErrNew ''Responses output_item.done does not match the active output item'')
          else if roType item = ''reasoning'' then
            closing (if roEncryptedContent item \<noteq> []
              then c\<lparr>cvActive := Some (b\<lparr>sbSignature := roEncryptedContent item\<rparr>)\<rparr> else c)
          else if roType item = ''function_call'' then
            handleToolDone c (zeroResponsesStreamEvent\<lparr>evOutputIndex := evOutputIndex event,
              evArguments := roArguments item\<rparr>) False
          else if roType item = ''custom_tool_call'' then
            handleToolDone c (zeroResponsesStreamEvent\<lparr>evOutputIndex := evOutputIndex event,
              evInput := roInput item\<rparr>) True
          else if roType item = ''message'' then
            (if sbKind b = ''text'' then closing c else (c, Inr []))
          else (c, Inr [])
      | _ \<Rightarrow> (c, Inr []))"

section \<open>A terminal response that carries its whole output\<close>

definition blockEvents :: "int \<Rightarrow> AnthropicContentBlock \<Rightarrow> emitted" where
  "blockEvents index block =
     [blockStart index
        (if cbType block = ''text'' then block\<lparr>cbText := []\<rparr>
         else if cbType block = ''thinking'' then block\<lparr>cbThinking := [], cbSignature := []\<rparr>
         else if cbType block = ''tool_use'' then block\<lparr>cbInput := ''{}''\<rparr>
         else block)]
     @ (if cbType block = ''text'' then
          (if cbText block \<noteq> [] then [blockDelta index (textDelta (cbText block))] else [])
        else if cbType block = ''thinking'' then
          (if cbThinking block \<noteq> [] then [blockDelta index (thinkingDelta (cbThinking block))] else [])
          @ (if \<not> isBlank (cbSignature block)
             then [blockDelta index (signatureDelta (cbSignature block))] else [])
        else if cbType block = ''tool_use'' then [blockDelta index (inputJsonDelta (cbInput block))]
        else [])
     @ [blockStop index]"

fun fullEvents :: "int \<Rightarrow> AnthropicContentBlock list \<Rightarrow> emitted" where
  "fullEvents index [] = []"
| "fullEvents index (block # blocks) = blockEvents index block @ fullEvents (index + 1) blocks"

definition streamFullOutput ::
  "ResponsesOutput list \<Rightarrow> int \<Rightarrow> (emitted \<times> bool) result" where
  "streamFullOutput output startIndex =
     (case responseOutputToBlocks output of
        Inl err \<Rightarrow> Inl err
      | Inr (blocks, hasTool) \<Rightarrow> Inr (fullEvents startIndex blocks, hasTool))"

definition terminalStatus :: "ResponsesStreamEvent \<Rightarrow> string" where
  "terminalStatus event =
     (let status = (if evType event = ''response.incomplete'' then ''incomplete'' else ''completed'')
      in case evResponse event of
           Some r \<Rightarrow> if rpStatus r \<noteq> [] then rpStatus r else status
         | None \<Rightarrow> status)"

definition terminalUsage :: "ResponsesStreamEvent \<Rightarrow> ResponsesUsage option" where
  "terminalUsage event =
     (case evResponse event of
        Some r \<Rightarrow> (case rpUsage r of None \<Rightarrow> evUsage event | Some u \<Rightarrow> Some u)
      | None \<Rightarrow> evUsage event)"

definition terminalDetails :: "ResponsesStreamEvent \<Rightarrow> ResponsesIncompleteDetails option" where
  "terminalDetails event = (case evResponse event of Some r \<Rightarrow> rpIncompleteDetails r | None \<Rightarrow> None)"

definition finishStream ::
  "ResponsesStreamConverter \<Rightarrow> ResponsesStreamEvent \<Rightarrow> emitted \<Rightarrow> step_result" where
  "finishStream c event events =
     (c\<lparr>cvTerminal := True\<rparr>,
      Inr (events @
        [messageDelta (stopReasonFor (terminalStatus event) (terminalDetails event) (cvHasTool c))
           (anthropicUsage (terminalUsage event)), messageStop]))"

definition failedResponse :: "ResponsesResponse option \<Rightarrow> bool" where
  "failedResponse response =
     (case response of None \<Rightarrow> False | Some r \<Rightarrow> rpStatus r = ''failed'' \<or> rpError r \<noteq> None)"

definition handleTerminal ::
  "ResponsesStreamConverter \<Rightarrow> ResponsesStreamEvent \<Rightarrow> step_result" where
  "handleTerminal c event =
     (if failedResponse (evResponse event) then
        converterFail c (responseError (rpError (the (evResponse event))))
      else
        let (c1, events) = ensureMessageStart c in
        if \<not> cvSawContent c1 \<and> evResponse event \<noteq> None \<and> rpOutput (the (evResponse event)) \<noteq> [] then
          (case streamFullOutput (rpOutput (the (evResponse event))) (cvNextBlockIndex c1) of
             Inl err \<Rightarrow> converterFail c1 err
           | Inr (full, hasTool) \<Rightarrow>
               finishStream
                 (c1\<lparr>cvHasTool := cvHasTool c1 \<or> hasTool,
                     cvNextBlockIndex := cvNextBlockIndex c1 +
                       int (length (filter (\<lambda>item. seType item = ''content_block_stop'') full))\<rparr>)
                 event (events @ full))
        else
          let (c2, closed) = closeActive c1 in finishStream c2 event (events @ closed))"

section \<open>Process and Finalize\<close>

definition upstreamError :: "ResponsesStreamEvent \<Rightarrow> go_error" where
  "upstreamError event =
     (let code = evCode event; message = evMessage event in
      case evError event of
        None \<Rightarrow> UpstreamResponseError code (nonEmpty message ''upstream error'')
      | Some e \<Rightarrow> UpstreamResponseError (nonEmpty (reCode e) code)
          (nonEmpty (nonEmpty (reMessage e) message) ''upstream error''))"

definition failedError :: "ResponsesStreamEvent \<Rightarrow> go_error" where
  "failedError event =
     responseError (case evResponse event of
        Some r \<Rightarrow> (case rpError r of Some e \<Rightarrow> Some e | None \<Rightarrow> evError event)
      | None \<Rightarrow> evError event)"

definition dispatch ::
  "ResponsesStreamConverter \<Rightarrow> ResponsesStreamEvent \<Rightarrow> step_result" where
  "dispatch c event =
     (let t = evType event in
      if t = ''error'' then converterFail c (upstreamError event)
      else if t = ''response.failed'' then converterFail c (failedError event)
      else if t = ''response.created'' then (let (c1, events) = ensureMessageStart c in (c1, Inr events))
      else if t = ''response.output_item.added'' then handleItemAdded c event
      else if t = ''response.output_text.delta'' then handleTextDelta c event
      else if t = ''response.output_text.done'' then handleTextDone c event
      else if t = ''response.function_call_arguments.delta'' then handleToolDelta c event False
      else if t = ''response.custom_tool_call_input.delta'' then handleToolDelta c event True
      else if t = ''response.function_call_arguments.done'' then handleToolDone c event False
      else if t = ''response.custom_tool_call_input.done'' then handleToolDone c event True
      else if t = ''response.reasoning_summary_text.delta'' \<or> t = ''response.reasoning_text.delta''
        then handleReasoningDelta c event
      else if t = ''response.reasoning_summary_text.done'' \<or> t = ''response.reasoning_text.done''
        then handleReasoningDone c event
      else if t = ''response.output_item.done'' then handleItemDone c event
      else if t = ''response.completed'' \<or> t = ''response.done'' \<or> t = ''response.incomplete''
        then handleTerminal c event
      else (c, Inr []))"

definition process :: "ResponsesStreamConverter \<Rightarrow> ResponsesStreamEvent \<Rightarrow> step_result" where
  "process c event =
     (if cvTerminal c then (c, Inr [])
      else dispatch (captureMetadata c (evResponse event)) event)"

definition converterFinalize :: "ResponsesStreamConverter \<Rightarrow> go_error option" where
  "converterFinalize c = (if cvTerminal c then cvTerminalErr c else Some ErrMissingTerminalEvent)"

definition converterStarted :: "ResponsesStreamConverter \<Rightarrow> bool" where
  "converterStarted c = cvMessageStarted c"

end
