(* ===== verification/Stream_Protocol.thy ===== *)
theory Stream_Protocol
  imports Stream_Converter
begin

text \<open>
  What an Anthropic client may expect of the event stream, as an executable acceptor, and the
  refinement of it by the converter: from every reachable state, whatever one upstream event makes
  the converter emit is accepted, and the acceptor ends in the phase the new state stands for.
\<close>

section \<open>The grammar of a message stream\<close>

text \<open>
  \<open>Between n t\<close>: no block is open, the next one has index \<open>n\<close>; \<open>Open n k t s\<close>: block \<open>n\<close> of kind \<open>k\<close>
  is open, and \<open>s\<close> if its signature was sent. In both \<open>t\<close> says whether a tool call was started.
\<close>

datatype phase = Fresh | Between int bool | Open int string bool bool | Ending | Stopped

definition emptyStart :: "AnthropicContentBlock \<Rightarrow> bool" where
  "emptyStart block \<longleftrightarrow>
     cbType block = ''text'' \<and> cbText block = []
     \<or> cbType block = ''thinking'' \<and> cbThinking block = [] \<and> cbSignature block = []
     \<or> cbType block = ''tool_use'' \<and> cbInput block = ''{}''"

definition deltaFits :: "string \<Rightarrow> string \<Rightarrow> bool" where
  "deltaFits kind delta \<longleftrightarrow>
     kind = ''text'' \<and> delta = ''text_delta''
     \<or> kind = ''thinking'' \<and> (delta = ''thinking_delta'' \<or> delta = ''signature_delta'')
     \<or> kind = ''tool_use'' \<and> delta = ''input_json_delta''"

fun anthropicStep :: "phase \<Rightarrow> AnthropicStreamEvent \<Rightarrow> phase option" where
  "anthropicStep Fresh e =
     (if seType e = ''message_start'' \<and> seMessage e \<noteq> None then Some (Between 0 False) else None)"
| "anthropicStep (Between n t) e =
     (if seType e = ''content_block_start'' then
        (case seContentBlock e of
           None \<Rightarrow> None
         | Some block \<Rightarrow>
             if seIndex e = Some n \<and> emptyStart block
             then Some (Open n (cbType block) (t \<or> cbType block = ''tool_use'') False) else None)
      else if seType e = ''message_delta'' then
        (case seDelta e of
           None \<Rightarrow> None
         | Some d \<Rightarrow>
             if adStopReason d \<in> {''end_turn'', ''max_tokens'', ''tool_use''}
                \<and> (adStopReason d = ''tool_use'' \<longrightarrow> t) \<and> seUsage e \<noteq> None
             then Some Ending else None)
      else None)"
| "anthropicStep (Open n k t s) e =
     (if seIndex e \<noteq> Some n then None
      else if seType e = ''content_block_delta'' then
        (case seDelta e of
           None \<Rightarrow> None
         | Some d \<Rightarrow> if deltaFits k (adType d) \<and> \<not> s
             then Some (Open n k t (adType d = ''signature_delta'')) else None)
      else if seType e = ''content_block_stop'' then Some (Between (n + 1) t)
      else None)"
| "anthropicStep Ending e = (if seType e = ''message_stop'' then Some Stopped else None)"
| "anthropicStep Stopped e = None"

fun accepts :: "phase \<Rightarrow> AnthropicStreamEvent list \<Rightarrow> phase option" where
  "accepts ph [] = Some ph"
| "accepts ph (e # es) = (case anthropicStep ph e of None \<Rightarrow> None | Some ph' \<Rightarrow> accepts ph' es)"

lemma accepts_append:
  "accepts ph (xs @ ys) = (case accepts ph xs of None \<Rightarrow> None | Some ph' \<Rightarrow> accepts ph' ys)"
  by (induction xs arbitrary: ph) (auto split: option.splits)

lemma accepts_appendI:
  "accepts ph xs = Some ph' \<Longrightarrow> accepts ph' ys = r \<Longrightarrow> accepts ph (xs @ ys) = r"
  by (simp add: accepts_append)

text \<open>The fields of the events the converter builds.\<close>

lemma event_fields [simp]:
  "seType (blockStart i b) = ''content_block_start''" "seIndex (blockStart i b) = Some i"
  "seContentBlock (blockStart i b) = Some b"
  "seType (blockDelta i d) = ''content_block_delta''" "seIndex (blockDelta i d) = Some i"
  "seDelta (blockDelta i d) = Some d"
  "seType (blockStop i) = ''content_block_stop''" "seIndex (blockStop i) = Some i"
  "seType (messageStart r m) = ''message_start''" "seMessage (messageStart r m) \<noteq> None"
  "seType (messageDelta sr u) = ''message_delta''" "seUsage (messageDelta sr u) = Some u"
  "seType messageStop = ''message_stop''"
  by (simp_all add: blockStart_def blockDelta_def blockStop_def messageStart_def messageDelta_def
      messageStop_def)

lemma message_delta_fields [simp]:
  "seDelta (messageDelta sr u) = Some (zeroAnthropicDelta\<lparr>adStopReason := sr\<rparr>)"
  by (simp add: messageDelta_def)

lemma delta_types [simp]:
  "adType (textDelta x) = ''text_delta''" "adType (thinkingDelta x) = ''thinking_delta''"
  "adType (signatureDelta x) = ''signature_delta''" "adType (inputJsonDelta x) = ''input_json_delta''"
  by (simp_all add: textDelta_def thinkingDelta_def signatureDelta_def inputJsonDelta_def)

lemma emptyStart_zero [simp]:
  "emptyStart (zeroAnthropicContentBlock\<lparr>cbType := k\<rparr>) \<longleftrightarrow> k = ''text'' \<or> k = ''thinking''"
  "emptyStart (zeroAnthropicContentBlock\<lparr>cbType := ''tool_use'', cbID := i, cbName := n, cbInput := ''{}''\<rparr>)"
  by (auto simp: emptyStart_def zeros)

section \<open>The phase of a converter state and its invariant\<close>

definition phaseOf :: "ResponsesStreamConverter \<Rightarrow> phase" where
  "phaseOf c =
     (if cvTerminal c then Stopped
      else if \<not> cvMessageStarted c then Fresh
      else (case cvActive c of
          None \<Rightarrow> Between (cvNextBlockIndex c) (cvHasTool c)
        | Some b \<Rightarrow> Open (sbIndex b) (sbKind b) (cvHasTool c) False))"

fun wfParts :: "bool \<Rightarrow> bool \<Rightarrow> bool \<Rightarrow> int \<Rightarrow> streamBlock option \<Rightarrow> bool" where
  "wfParts started saw tool n None \<longleftrightarrow> started \<or> n = 0 \<and> \<not> tool"
| "wfParts started saw tool n (Some b) \<longleftrightarrow> started \<and> saw \<and> sbIndex b = n
     \<and> sbKind b \<in> {''text'', ''thinking'', ''tool_use''} \<and> (sbKind b = ''tool_use'' \<longrightarrow> tool)"

definition wfConverter :: "ResponsesStreamConverter \<Rightarrow> bool" where
  "wfConverter c \<longleftrightarrow>
     wfParts (cvMessageStarted c) (cvSawContent c) (cvHasTool c) (cvNextBlockIndex c) (cvActive c)
     \<and> (cvTerminalErr c \<noteq> None \<longrightarrow> cvTerminal c)"

text \<open>What one step owes: the invariant, and an accepted output or a recorded failure.\<close>

definition stepOk :: "ResponsesStreamConverter \<Rightarrow> step_result \<Rightarrow> bool" where
  "stepOk c r \<longleftrightarrow> wfConverter (fst r)
     \<and> (case snd r of
          Inl err \<Rightarrow> cvTerminal (fst r) \<and> cvTerminalErr (fst r) = Some err
        | Inr events \<Rightarrow> accepts (phaseOf c) events = Some (phaseOf (fst r))
            \<and> cvTerminalErr (fst r) = None)"

lemma stepOk_Inr:
  "stepOk c (c', Inr events) \<longleftrightarrow> wfConverter c' \<and> accepts (phaseOf c) events = Some (phaseOf c')
     \<and> cvTerminalErr c' = None"
  by (simp add: stepOk_def)

lemma stepOk_Nil: "wfConverter c \<Longrightarrow> \<not> cvTerminal c \<Longrightarrow> stepOk c (c, Inr [])"
  by (auto simp: stepOk_def wfConverter_def)

lemma wf_new: "wfConverter (NewResponsesStreamConverter model)"
  by (simp add: wfConverter_def NewResponsesStreamConverter_def)

lemma captureMetadata_shape:
  obtains i m where "captureMetadata c r = c\<lparr>cvModel := m, cvResponseID := i\<rparr>"
proof -
  have id: "c = c\<lparr>cvModel := cvModel c, cvResponseID := cvResponseID c\<rparr>" by simp
  show thesis
  proof (cases r)
    case None
    with id show thesis by (intro that [of "cvResponseID c" "cvModel c"]) (simp add: captureMetadata_def)
  next
    case (Some x)
    show thesis
      by (rule that [of "if rpID x \<noteq> [] then rpID x else cvResponseID c"
            "if cvModel c = [] \<and> rpModel x \<noteq> [] then rpModel x else cvModel c"])
        (simp add: captureMetadata_def Some Let_def)
  qed
qed

lemma wf_metadata [simp]:
  "wfConverter (c\<lparr>cvModel := m, cvResponseID := i\<rparr>) = wfConverter c"
  by (simp add: wfConverter_def)

lemma phaseOf_metadata [simp]: "phaseOf (c\<lparr>cvModel := m, cvResponseID := i\<rparr>) = phaseOf c"
  by (simp add: phaseOf_def cong: option.case_cong)

lemma wf_captureMetadata [simp]: "wfConverter (captureMetadata c r) = wfConverter c"
  by (rule captureMetadata_shape [of c r]) simp

lemma captureMetadata_fields [simp]:
  "cvTerminal (captureMetadata c r) = cvTerminal c"
  "cvTerminalErr (captureMetadata c r) = cvTerminalErr c"
  "cvMessageStarted (captureMetadata c r) = cvMessageStarted c"
  "cvActive (captureMetadata c r) = cvActive c"
  "cvHasTool (captureMetadata c r) = cvHasTool c"
  "cvSawContent (captureMetadata c r) = cvSawContent c"
  "cvNextBlockIndex (captureMetadata c r) = cvNextBlockIndex c"
  "phaseOf (captureMetadata c r) = phaseOf c"
  by (rule captureMetadata_shape [of c r], simp)+

section \<open>The shared steps\<close>

lemma stepOk_fail [conv_step]: "wfConverter c \<Longrightarrow> stepOk c (converterFail d err)
    \<longleftrightarrow> wfConverter (d\<lparr>cvTerminal := True, cvTerminalErr := Some err\<rparr>)"
  by (simp add: stepOk_def converterFail_def)

lemma wf_fail [conv_step]:
  "wfConverter c \<Longrightarrow> wfConverter (c\<lparr>cvTerminal := True, cvTerminalErr := e\<rparr>)"
  by (simp add: wfConverter_def)

lemma ensure_ok:
  assumes "wfConverter c" "\<not> cvTerminal c" "ensureMessageStart c = (c1, events)"
  shows "wfConverter c1" "\<not> cvTerminal c1" "cvMessageStarted c1" "cvActive c1 = cvActive c"
    "cvHasTool c1 = cvHasTool c" "cvSawContent c1 = cvSawContent c"
    "cvNextBlockIndex c1 = cvNextBlockIndex c" "cvTerminalErr c1 = None"
    "accepts (phaseOf c) events = Some (phaseOf c1)"
  using assms
  by (cases "cvActive c"; cases "cvMessageStarted c";
      auto simp: ensureMessageStart_def wfConverter_def phaseOf_def)+

lemma close_ok:
  assumes "wfConverter c" "\<not> cvTerminal c" "cvMessageStarted c" "closeActive c = (c1, events)"
  shows "wfConverter c1" "\<not> cvTerminal c1" "cvMessageStarted c1" "cvActive c1 = None"
    "cvHasTool c1 = cvHasTool c" "cvSawContent c1 = cvSawContent c" "cvTerminalErr c1 = None"
    "accepts (phaseOf c) events = Some (Between (cvNextBlockIndex c1) (cvHasTool c))"
  using assms
  by (cases "cvActive c";
      auto simp: closeActive_def wfConverter_def phaseOf_def deltaFits_def split: if_splits)+

text \<open>Opening a block and sending deltas on the open one.\<close>

lemma phaseOf_active:
  "cvActive c = Some b \<Longrightarrow> cvMessageStarted c \<Longrightarrow> \<not> cvTerminal c \<Longrightarrow>
     phaseOf c = Open (sbIndex b) (sbKind b) (cvHasTool c) False"
  by (simp add: phaseOf_def)

lemma phaseOf_idle:
  "cvActive c = None \<Longrightarrow> cvMessageStarted c \<Longrightarrow> \<not> cvTerminal c \<Longrightarrow>
     phaseOf c = Between (cvNextBlockIndex c) (cvHasTool c)"
  by (simp add: phaseOf_def)

lemma zeroBlock_fields [simp]:
  "sbIndex (zeroStreamBlock\<lparr>sbIndex := i, sbOutputIndex := j, sbKind := k\<rparr>) = i"
  "sbHadDelta zeroStreamBlock = False" "sbSignature zeroStreamBlock = []" "sbBuffer zeroStreamBlock = []"
  by (simp_all add: zeroStreamBlock_def)

lemma openBlockFor_ok:
  assumes "wfConverter c" "\<not> cvTerminal c" "cvMessageStarted c" "k = ''text'' \<or> k = ''thinking''"
    "openBlockFor c event k = (c1, b, events)"
  shows "accepts (phaseOf c) events = Some (Open (cvNextBlockIndex c1) k (cvHasTool c1) False)
      \<and> sbKind b = k \<and> sbIndex b = cvNextBlockIndex c1 \<and> cvMessageStarted c1 \<and> \<not> cvTerminal c1
      \<and> wfConverter c1 \<and> cvTerminalErr c1 = None \<and> cvHasTool c1 = cvHasTool c
      \<and> sbOutputIndex b = evOutputIndex event"
proof -
  have start: "anthropicStep (Between n t) (blockStart n (zeroAnthropicContentBlock\<lparr>cbType := k\<rparr>))
      = Some (Open n k t False)" for n t
    using assms(4) by auto
  have err: "cvTerminalErr c = None" using assms(1,2) by (auto simp: wfConverter_def)
  consider (none) "cvActive c = None"
    | (fits) b0 where "cvActive c = Some b0" "sbKind b0 = k" "sbOutputIndex b0 = evOutputIndex event"
    | (other) b0 where "cvActive c = Some b0" "sbKind b0 \<noteq> k \<or> sbOutputIndex b0 \<noteq> evOutputIndex event"
    by (cases "cvActive c") auto
  then show ?thesis
  proof cases
    case none
    with assms(5) have
      "c1 = c" "events = [blockStart (cvNextBlockIndex c) (zeroAnthropicContentBlock\<lparr>cbType := k\<rparr>)]"
      "b = zeroStreamBlock\<lparr>sbIndex := cvNextBlockIndex c, sbOutputIndex := evOutputIndex event, sbKind := k\<rparr>"
      by (auto simp: openBlockFor_def)
    with assms(1-3) none err start [of "cvNextBlockIndex c" "cvHasTool c"] show ?thesis
      by (simp add: phaseOf_idle)
  next
    case fits
    with assms(5) have "c1 = c" "events = []" "b = b0"
      by (auto simp: openBlockFor_def)
    with assms(1-3) fits err show ?thesis
      by (simp add: phaseOf_active wfConverter_def)
  next
    case other
    obtain c2 closed where close: "closeActive c = (c2, closed)" by (cases "closeActive c")
    note ok = close_ok [OF assms(1-3) close]
    from other assms(5) close
    have "c1 = c2" "events = closed @ [blockStart (cvNextBlockIndex c2) (zeroAnthropicContentBlock\<lparr>cbType := k\<rparr>)]"
      "b = zeroStreamBlock\<lparr>sbIndex := cvNextBlockIndex c2, sbOutputIndex := evOutputIndex event, sbKind := k\<rparr>"
      by (auto simp: openBlockFor_def split: if_splits)
    then show ?thesis
      using ok(1-5,7) start [of "cvNextBlockIndex c2" "cvHasTool c"]
      by (simp add: accepts_appendI [OF ok(8)])
  qed
qed

section \<open>The handlers\<close>

lemma accepts_delta:
  "deltaFits k (adType d) \<Longrightarrow> adType d \<noteq> ''signature_delta'' \<Longrightarrow>
     accepts (Open n k t False) [blockDelta n d] = Some (Open n k t False)"
  by simp

lemma stepOk_append:
  assumes "accepts (phaseOf c) xs = Some ph" "accepts ph ys = Some (phaseOf c')"
    "wfConverter c'" "cvTerminalErr c' = None"
  shows "stepOk c (c', Inr (xs @ ys))"
  using assms by (simp add: stepOk_Inr accepts_append)

lemma no_err: "wfConverter c \<Longrightarrow> \<not> cvTerminal c \<Longrightarrow> cvTerminalErr c = None"
  by (auto simp: wfConverter_def)

text \<open>The two handlers that open a block on demand and send one delta on it.\<close>

lemma stepOk_send:
  assumes "wfConverter c" "\<not> cvTerminal c" "k = ''text'' \<or> k = ''thinking''"
    and d: "deltaFits k (adType d)" "adType d \<noteq> ''signature_delta''"
    and "ensureMessageStart c = (c1, ev1)" "openBlockFor c1 event k = (c2, b, ev2)"
  shows "stepOk c (c2\<lparr>cvActive := Some (b\<lparr>sbHadDelta := True\<rparr>), cvSawContent := True\<rparr>,
           Inr (ev1 @ ev2 @ [blockDelta (sbIndex b) d]))"
proof -
  note e = ensure_ok [OF assms(1,2,6)]
  note o = openBlockFor_ok [OF e(1-3) assms(3,7)]
  have tail: "accepts (phaseOf c1) (ev2 @ [blockDelta (sbIndex b) d]) =
      Some (Open (cvNextBlockIndex c2) k (cvHasTool c2) False)"
    using o d by (simp add: accepts_append)
  show ?thesis
    by (rule stepOk_append [OF e(9)]) (use o tail assms(3) in \<open>auto simp: phaseOf_def wfConverter_def\<close>)
qed

lemma handleTextDelta_ok [conv_step]:
  "wfConverter c \<Longrightarrow> \<not> cvTerminal c \<Longrightarrow> stepOk c (handleTextDelta c event)"
  by (auto simp: handleTextDelta_def stepOk_Nil deltaFits_def intro!: stepOk_send [of c "''text''"]
      split: prod.split)

lemma handleReasoningDelta_ok [conv_step]:
  "wfConverter c \<Longrightarrow> \<not> cvTerminal c \<Longrightarrow> stepOk c (handleReasoningDelta c event)"
  by (auto simp: handleReasoningDelta_def stepOk_Nil deltaFits_def
      intro!: stepOk_send [of c "''thinking''"] split: prod.split)

text \<open>A delta on the open block that changes only its bookkeeping.\<close>

lemma wf_active:
  assumes "wfConverter c" "cvActive c = Some b"
  shows "cvMessageStarted c" "cvSawContent c" "sbIndex b = cvNextBlockIndex c"
    "sbKind b \<in> {''text'', ''thinking'', ''tool_use''}" "sbKind b = ''tool_use'' \<Longrightarrow> cvHasTool c"
  using assms by (auto simp: wfConverter_def)

lemma wf_replace:
  assumes "wfConverter c" "cvActive c = Some b" "sbIndex b' = sbIndex b" "sbKind b' = sbKind b"
  shows "wfConverter (c\<lparr>cvActive := Some b'\<rparr>)"
    "\<not> cvTerminal c \<Longrightarrow> phaseOf (c\<lparr>cvActive := Some b'\<rparr>) = phaseOf c"
  using assms by (auto simp: wfConverter_def phaseOf_def)

lemma stepOk_onActive:
  assumes "wfConverter c" "\<not> cvTerminal c" "cvActive c = Some b"
    "sbIndex b' = sbIndex b" "sbKind b' = sbKind b"
    "deltaFits (sbKind b) (adType d)" "adType d \<noteq> ''signature_delta''"
  shows "stepOk c (c\<lparr>cvActive := Some b'\<rparr>, Inr [blockDelta (sbIndex b) d])"
  using assms no_err [of c] wf_replace [of c b b'] wf_active [of c b]
  by (simp add: stepOk_Inr phaseOf_active)

lemma handleReasoningDone_ok [conv_step]:
  "wfConverter c \<Longrightarrow> \<not> cvTerminal c \<Longrightarrow> stepOk c (handleReasoningDone c event)"
  by (auto simp: handleReasoningDone_def stepOk_Nil deltaFits_def
      intro!: stepOk_onActive split: option.split)

text \<open>Closing the open block after what was sent on it.\<close>

lemma stepOk_closing:
  assumes wf: "wfConverter c" "\<not> cvTerminal c" and "stepOk c (c1, Inr events)" "\<not> cvTerminal c1"
    "cvMessageStarted c1" and close: "closeActive c1 = (c2, closed)"
  shows "stepOk c (c2, Inr (events @ closed))"
proof -
  have wf1: "wfConverter c1" and acc: "accepts (phaseOf c) events = Some (phaseOf c1)"
    using assms(3) by (simp_all add: stepOk_Inr)
  note ok = close_ok [OF wf1 assms(4,5) close]
  show ?thesis
    using ok by (intro stepOk_append [OF acc]) (simp_all add: phaseOf_idle)
qed

lemma handleTextDelta_open:
  assumes "handleTextDelta c event = (c1, r)" "evDelta event \<noteq> []" "wfConverter c" "\<not> cvTerminal c"
  shows "\<not> cvTerminal c1 \<and> cvMessageStarted c1"
proof -
  obtain c2 ev where e: "ensureMessageStart c = (c2, ev)" by (cases "ensureMessageStart c")
  obtain c3 b ev' where o: "openBlockFor c2 event ''text'' = (c3, b, ev')"
    by (cases "openBlockFor c2 event ''text''")
  from ensure_ok [OF assms(3,4) e] openBlockFor_ok [OF _ _ _ _ o] assms(1,2) e o
  show ?thesis by (auto simp: handleTextDelta_def)
qed

lemma handleTextDone_ok [conv_step]:
  assumes "wfConverter c" "\<not> cvTerminal c"
  shows "stepOk c (handleTextDone c event)"
proof -
  let ?e = "zeroResponsesStreamEvent\<lparr>evType := ''response.output_text.delta'',
             evOutputIndex := evOutputIndex event, evDelta := evText event\<rparr>"
  define pre where "pre =
    (if cvActive c = None \<and> evText event \<noteq> [] then handleTextDelta c ?e
     else (case cvActive c of
         Some b \<Rightarrow>
           if sbKind b = ''text'' \<and> \<not> sbHadDelta b \<and> evText event \<noteq> [] then
             (c\<lparr>cvActive := Some (b\<lparr>sbHadDelta := True\<rparr>)\<rparr>,
              Inr [blockDelta (sbIndex b) (textDelta (evText event))])
           else (c, Inr [])
       | None \<Rightarrow> (c, Inr [])))"
  have pre_ok: "stepOk c pre"
    using assms unfolding pre_def
    by (auto simp: stepOk_Nil deltaFits_def handleTextDelta_ok intro!: stepOk_onActive split: option.split)
  obtain c1 r where p: "pre = (c1, r)" by (cases pre)
  have open1: "\<not> cvTerminal c1 \<and> (cvActive c1 \<noteq> None \<longrightarrow> cvMessageStarted c1)"
    using p assms handleTextDelta_open [of c ?e c1 r] unfolding pre_def
    by (auto dest: wf_active(1) split: option.splits if_splits)
  have "handleTextDone c event = (case r of Inl err \<Rightarrow> (c1, Inl err)
      | Inr events \<Rightarrow> (case cvActive c1 of
          Some b \<Rightarrow> if sbKind b = ''text'' then let (c2, closed) = closeActive c1 in (c2, Inr (events @ closed))
             else (c1, Inr events)
        | None \<Rightarrow> (c1, Inr events)))"
    unfolding handleTextDone_def pre_def [symmetric] p by simp
  then show ?thesis
    using pre_ok open1 unfolding p
    by (auto intro!: stepOk_closing [OF assms] split: sum.splits option.splits prod.splits)
qed

lemma activeTool_Some:
  "activeTool c event custom = Some b \<Longrightarrow>
     cvActive c = Some b \<and> sbKind b = ''tool_use'' \<and> sbOutputIndex b = evOutputIndex event \<and> sbCustom b = custom"
  by (auto simp: activeTool_def split: option.splits if_splits)

lemma stepOk_converterFail: "wfConverter c \<Longrightarrow> wfConverter d \<Longrightarrow> stepOk c (converterFail d err)"
  by (simp add: stepOk_fail wf_fail)

lemma handleToolDelta_ok [conv_step]:
  assumes "wfConverter c" "\<not> cvTerminal c"
  shows "stepOk c (handleToolDelta c event custom)"
proof (cases "activeTool c event custom")
  case None
  with assms show ?thesis by (simp add: handleToolDelta_def stepOk_Nil stepOk_converterFail)
next
  case (Some b)
  note b = activeTool_Some [OF Some]
  have "stepOk c (c\<lparr>cvActive := Some (b\<lparr>sbBuffer := s\<rparr>)\<rparr>, Inr [])" for s
    using assms b no_err [of c] wf_replace [of c b "b\<lparr>sbBuffer := s\<rparr>"] by (simp add: stepOk_Inr)
  moreover have "stepOk c (c\<lparr>cvActive := Some (b\<lparr>sbBuffer := s, sbHadDelta := True\<rparr>)\<rparr>,
      Inr [blockDelta (sbIndex b) (inputJsonDelta x)])" for s x
    using assms b by (intro stepOk_onActive) (auto simp: deltaFits_def)
  ultimately show ?thesis
    using assms Some by (auto simp: handleToolDelta_def stepOk_Nil Let_def)
qed

text \<open>An optional last delta on the open block, then the block is closed.\<close>

lemma stepOk_lastDelta:
  assumes "wfConverter c" "\<not> cvTerminal c" "cvActive c = Some b" "closeActive c = (c1, closed)"
    "events = [] \<or> events = [blockDelta (sbIndex b) d] \<and> deltaFits (sbKind b) (adType d)
       \<and> adType d \<noteq> ''signature_delta''"
  shows "stepOk c (c1, Inr (events @ closed))"
proof -
  have "c\<lparr>cvActive := Some b\<rparr> = c" using assms(3) by simp
  then have "stepOk c (c, Inr events)"
    using assms(5) stepOk_Nil [OF assms(1,2)] stepOk_onActive [OF assms(1-3), of b d] by auto
  then show ?thesis
    using stepOk_closing [OF assms(1,2) _ assms(2) wf_active(1) [OF assms(1,3)] assms(4)] by blast
qed

lemma handleToolDone_ok [conv_step]:
  assumes "wfConverter c" "\<not> cvTerminal c"
  shows "stepOk c (handleToolDone c event custom)"
proof (cases "activeTool c event custom")
  case None
  with assms show ?thesis by (simp add: handleToolDone_def stepOk_converterFail)
next
  case (Some b)
  obtain c1 closed where close: "closeActive c = (c1, closed)" by (cases "closeActive c")
  have last: "stepOk c (c1, Inr (events @ closed))"
    if "events = [] \<or> events = [blockDelta (sbIndex b) (inputJsonDelta x)]" for events x
    using that activeTool_Some [OF Some] assms close
    by (intro stepOk_lastDelta [of c b _ _ _ "inputJsonDelta x"]) (auto simp: deltaFits_def)
  show ?thesis
  proof (cases custom)
    case True
    have "stepOk c (c1, Inr (blockDelta (sbIndex b) (inputJsonDelta x) # closed))" for x
      using last [of "[blockDelta (sbIndex b) (inputJsonDelta x)]" x] by simp
    with True Some close show ?thesis by (simp add: handleToolDone_def Let_def)
  next
    case False
    let ?args = "if evArguments event = [] then sbBuffer b else evArguments event"
    show ?thesis
    proof (cases "functionToolInput ?args")
      case (Inl e)
      with Some False assms show ?thesis
        by (simp add: handleToolDone_def Let_def stepOk_converterFail del: if_split)
    next
      case (Inr x)
      define events where "events = (if \<not> sbHadDelta b then [blockDelta (sbIndex b)
        (inputJsonDelta (if ?args = [] then ''{}'' else ?args))] else [])"
      have "handleToolDone c event custom = (c1, Inr (events @ closed))"
        using Some False Inr close unfolding events_def
        by (simp only: handleToolDone_def Let_def option.case sum.case if_False prod.case)
      with last [of events "if ?args = [] then ''{}'' else ?args"] show ?thesis
        by (simp add: events_def)
    qed
  qed
qed

lemma closing_ok:
  assumes "wfConverter c" "\<not> cvTerminal c" "cvActive c \<noteq> None"
  shows "stepOk c (closing c)"
proof -
  obtain c1 closed where close: "closeActive c = (c1, closed)" by (cases "closeActive c")
  from assms(3) obtain b where "cvActive c = Some b" by auto
  from stepOk_lastDelta [OF assms(1,2) this close, of "[]"] show ?thesis
    by (simp add: closing_def close)
qed

lemma stepOk_transfer: "phaseOf d = phaseOf c \<Longrightarrow> stepOk d r = stepOk c r"
  by (simp add: stepOk_def split: sum.split)

lemma handleItemDone_ok [conv_step]:
  assumes "wfConverter c" "\<not> cvTerminal c"
  shows "stepOk c (handleItemDone c event)"
proof (cases "evItem event")
  case None
  with assms show ?thesis by (simp add: handleItemDone_def stepOk_Nil)
next
  case (Some item)
  show ?thesis
  proof (cases "cvActive c")
    case None
    with assms Some show ?thesis by (simp add: handleItemDone_def stepOk_Nil)
  next
    case act: (Some b)
    have sig: "stepOk c (closing (c\<lparr>cvActive := Some (b\<lparr>sbSignature := s\<rparr>)\<rparr>))" for s
      using closing_ok [of "c\<lparr>cvActive := Some (b\<lparr>sbSignature := s\<rparr>)\<rparr>"] assms act
        wf_replace [OF assms(1) act, of "b\<lparr>sbSignature := s\<rparr>"]
      by (simp add: stepOk_transfer [of "c\<lparr>cvActive := Some (b\<lparr>sbSignature := s\<rparr>)\<rparr>" c])
    show ?thesis
      using assms Some act sig closing_ok [OF assms] handleToolDone_ok [OF assms]
      by (auto simp: handleItemDone_def stepOk_converterFail stepOk_Nil)
  qed
qed

lemma handleItemAdded_ok [conv_step]:
  assumes "wfConverter c" "\<not> cvTerminal c"
  shows "stepOk c (handleItemAdded c event)"
proof (cases "evItem event")
  case None
  with assms show ?thesis by (simp add: handleItemAdded_def stepOk_Nil)
next
  case (Some item)
  obtain c1 ev where e: "ensureMessageStart c = (c1, ev)" by (cases "ensureMessageStart c")
  obtain c2 closed where cl: "closeActive c1 = (c2, closed)" by (cases "closeActive c1")
  note e_ok = ensure_ok [OF assms e]
  note cl_ok = close_ok [OF e_ok(1-3) cl]
  have acc: "accepts (phaseOf c) (ev @ closed) = Some (Between (cvNextBlockIndex c2) (cvHasTool c1))"
    using e_ok(9) cl_ok(8) by (simp add: accepts_append)
  have opened: "stepOk c (c2\<lparr>cvHasTool := t, cvSawContent := True, cvActive := Some b\<rparr>,
      Inr (ev @ closed @ [blockStart (cvNextBlockIndex c2) blk]))"
    if "emptyStart blk" "sbIndex b = cvNextBlockIndex c2" "sbKind b = cbType blk"
      "t = (cvHasTool c1 \<or> cbType blk = ''tool_use'')" for t b blk
    unfolding append_assoc [symmetric]
    using that cl_ok by (intro stepOk_append [OF acc]) (auto simp: phaseOf_def wfConverter_def emptyStart_def)
  have "stepOk c (c1, Inr ev)"
    using e_ok by (simp add: stepOk_Inr)
  moreover have "stepOk c (c2\<lparr>cvSawContent := True, cvActive := Some b\<rparr>,
      Inr (ev @ closed @ [blockStart (cvNextBlockIndex c2) (zeroAnthropicContentBlock\<lparr>cbType := ''thinking''\<rparr>)]))"
    if "sbIndex b = cvNextBlockIndex c2" "sbKind b = ''thinking''" for b
  proof -
    have "c2\<lparr>cvSawContent := True, cvActive := Some b\<rparr> =
        c2\<lparr>cvHasTool := cvHasTool c1, cvSawContent := True, cvActive := Some b\<rparr>"
      using cl_ok(5) by simp
    with opened [of "zeroAnthropicContentBlock\<lparr>cbType := ''thinking''\<rparr>" b "cvHasTool c1"] that
    show ?thesis by simp
  qed
  moreover have "stepOk c (c2\<lparr>cvHasTool := True, cvSawContent := True, cvActive := Some b\<rparr>,
      Inr (ev @ closed @ [blockStart (cvNextBlockIndex c2) (zeroAnthropicContentBlock\<lparr>cbType := ''tool_use'',
        cbID := i, cbName := n, cbInput := ''{}''\<rparr>)]))"
    if "sbIndex b = cvNextBlockIndex c2" "sbKind b = ''tool_use''" for b i n
    using that by (intro opened) simp_all
  ultimately show ?thesis
    using Some e cl by (simp add: handleItemAdded_def Let_def)
qed

section \<open>The terminal event\<close>

lemma outputItemBlocks_kinds:
  assumes "outputItemBlocks i item = Inr (blocks, tool)"
  shows "\<forall>b\<in>set blocks. cbType b \<in> {''text'', ''thinking'', ''tool_use''}"
    "tool \<longleftrightarrow> (\<exists>b\<in>set blocks. cbType b = ''tool_use'')"
  using assms by (auto simp: outputItemBlocks_def split: if_splits sum.splits)

lemma outputBlocksFrom_kinds:
  "outputBlocksFrom i items = Inr (blocks, tool) \<Longrightarrow>
     (\<forall>b\<in>set blocks. cbType b \<in> {''text'', ''thinking'', ''tool_use''})
     \<and> (tool \<longleftrightarrow> (\<exists>b\<in>set blocks. cbType b = ''tool_use''))"
proof (induction items arbitrary: i blocks tool)
  case Nil
  then show ?case by simp
next
  case (Cons item items)
  obtain bs t where h: "outputItemBlocks i item = Inr (bs, t)"
    using Cons.prems by (cases "outputItemBlocks i item") auto
  obtain bs' t' where r: "outputBlocksFrom (Suc i) items = Inr (bs', t')"
    using Cons.prems h by (cases "outputBlocksFrom (Suc i) items") auto
  from Cons.prems h r have "blocks = bs @ bs'" "tool = (t \<or> t')" by auto
  with outputItemBlocks_kinds [OF h] Cons.IH [OF r] show ?case by auto
qed

lemma accepts_blockEvents:
  assumes "cbType block \<in> {''text'', ''thinking'', ''tool_use''}"
  shows "accepts (Between n t) (blockEvents n block) = Some (Between (n + 1) (t \<or> cbType block = ''tool_use''))"
  using assms by (auto simp: blockEvents_def emptyStart_def deltaFits_def)

lemma accepts_fullEvents:
  "\<forall>b\<in>set blocks. cbType b \<in> {''text'', ''thinking'', ''tool_use''} \<Longrightarrow>
     accepts (Between n t) (fullEvents n blocks) =
       Some (Between (n + int (length blocks)) (t \<or> (\<exists>b\<in>set blocks. cbType b = ''tool_use'')))"
proof (induction blocks arbitrary: n t)
  case Nil
  then show ?case by simp
next
  case (Cons b blocks)
  then show ?case
    by (simp add: accepts_append accepts_blockEvents add.assoc disj_assoc del: insert_iff)
qed

lemma stops_fullEvents:
  "length (filter (\<lambda>e. seType e = ''content_block_stop'') (fullEvents n blocks)) = length blocks"
proof (induction blocks arbitrary: n)
  case (Cons b blocks)
  then show ?case by (simp add: blockEvents_def)
qed simp

lemma stopReason_allowed [simp]:
  "stopReasonFor status details tool = ''end_turn'' \<or> stopReasonFor status details tool = ''max_tokens''
     \<or> stopReasonFor status details tool = ''tool_use''"
  "stopReasonFor status details tool = ''tool_use'' \<Longrightarrow> tool"
  by (auto simp: stopReasonFor_def split: if_splits)

lemma finishStream_ok:
  assumes "accepts (phaseOf c) events = Some (Between n (cvHasTool d))" "wfConverter d" "\<not> cvTerminal d"
  shows "stepOk c (finishStream d event events)"
proof -
  have "accepts (Between n (cvHasTool d))
      [messageDelta (stopReasonFor s x (cvHasTool d)) u, messageStop] = Some Stopped" for s x u
    using stopReason_allowed [of s x "cvHasTool d"] by (auto simp: zeros)
  moreover have "phaseOf (d\<lparr>cvTerminal := True\<rparr>) = Stopped" by (simp add: phaseOf_def)
  moreover have "wfConverter (d\<lparr>cvTerminal := True\<rparr>)" using assms(2) by (simp add: wfConverter_def)
  moreover have "cvTerminalErr (d\<lparr>cvTerminal := True\<rparr>) = None" using no_err [OF assms(2,3)] by simp
  ultimately show ?thesis
    unfolding finishStream_def by (intro stepOk_append [OF assms(1)]) simp_all
qed

lemma handleTerminal_ok [conv_step]:
  assumes "wfConverter c" "\<not> cvTerminal c"
  shows "stepOk c (handleTerminal c event)"
proof -
  obtain c1 ev where e: "ensureMessageStart c = (c1, ev)" by (cases "ensureMessageStart c")
  obtain c2 closed where cl: "closeActive c1 = (c2, closed)" by (cases "closeActive c1")
  note e_ok = ensure_ok [OF assms e]
  note cl_ok = close_ok [OF e_ok(1-3) cl]
  have close: "stepOk c (finishStream c2 event (ev @ closed))"
    using e_ok(9) cl_ok by (intro finishStream_ok) (simp_all add: accepts_append)
  have full: "stepOk c (finishStream (c1\<lparr>cvHasTool := cvHasTool c1 \<or> tool, cvNextBlockIndex := m\<rparr>)
      event (ev @ fullEvents (cvNextBlockIndex c1) blocks))"
    if "responseOutputToBlocks out = Inr (blocks, tool)" "\<not> cvSawContent c1" for out blocks tool m
  proof -
    note k = outputBlocksFrom_kinds [OF that(1) [unfolded responseOutputToBlocks_def]]
    have idle: "cvActive c1 = None"
      using that(2) e_ok(1) by (cases "cvActive c1") (auto simp: wfConverter_def)
    then have "phaseOf c1 = Between (cvNextBlockIndex c1) (cvHasTool c1)"
      using e_ok by (simp add: phaseOf_idle)
    with e_ok k idle show ?thesis
      by (intro finishStream_ok) (auto simp: accepts_append accepts_fullEvents wfConverter_def)
  qed
  show ?thesis
  proof (cases "failedResponse (evResponse event)")
    case True
    with assms show ?thesis by (simp add: handleTerminal_def stepOk_converterFail)
  next
    case False
    show ?thesis
    proof (cases "\<not> cvSawContent c1 \<and> evResponse event \<noteq> None \<and> rpOutput (the (evResponse event)) \<noteq> []")
      case True
      with False assms e e_ok full show ?thesis
        by (auto simp: handleTerminal_def streamFullOutput_def stepOk_converterFail split: sum.split)
    next
      case no_full: False
      with False e cl close show ?thesis by (auto simp: handleTerminal_def)
    qed
  qed
qed

section \<open>One event, and a run\<close>

lemma dispatch_rule:
  assumes "\<And>err. P (converterFail c err)" "P (let (c1, events) = ensureMessageStart c in (c1, Inr events))"
    "P (handleItemAdded c event)" "P (handleTextDelta c event)" "P (handleTextDone c event)"
    "\<And>custom. P (handleToolDelta c event custom)" "\<And>custom. P (handleToolDone c event custom)"
    "P (handleReasoningDelta c event)" "P (handleReasoningDone c event)" "P (handleItemDone c event)"
    "P (handleTerminal c event)" "P (c, Inr [])"
  shows "P (dispatch c event)"
proof -
  have if_P: "P (if b then x else y)" if "P x" "P y" for b x y
    using that by simp
  show ?thesis
    unfolding dispatch_def Let_def [of "evType event"] by (intro if_P assms)
qed

lemma ensureMessageStart_ok [conv_step]:
  assumes "wfConverter c" "\<not> cvTerminal c"
  shows "stepOk c (case ensureMessageStart c of (c1, events) \<Rightarrow> (c1, Inr events))"
proof -
  obtain c1 ev where e: "ensureMessageStart c = (c1, ev)" by (cases "ensureMessageStart c")
  with ensure_ok [OF assms e] show ?thesis by (simp add: stepOk_Inr)
qed

lemma dispatch_ok:
  assumes "wfConverter c" "\<not> cvTerminal c"
  shows "stepOk c (dispatch c event)"
  by (rule dispatch_rule) (use assms in \<open>simp_all add: conv_step stepOk_converterFail stepOk_Nil\<close>)

lemma process_ok:
  assumes "wfConverter c" "\<not> cvTerminal c"
  shows "stepOk c (process c event)"
  using dispatch_ok [of "captureMetadata c (evResponse event)" event] assms
  by (simp add: process_def stepOk_transfer [of "captureMetadata c (evResponse event)" c])

end
