(* ===== verification/Stream_Machine.thy ===== *)
theory Stream_Machine
  imports Go_Prelude
begin

text \<open>
  The contract \<^verbatim>\<open>internal/server/stream.go\<close> relies on: both consumers of the upstream event stream, the
  stream converter and the response accumulator, are machines that one terminal event closes for
  good. The server stops reading at the first event for which \<open>isTerminalResponsesEvent\<close> holds and
  asks \<^verbatim>\<open>Finalize\<close> at end of file; the lemmas of the locale say why that loses nothing and never
  turns a truncated stream into a success.
\<close>

definition isTerminalResponsesEvent :: "string \<Rightarrow> bool" where
  "isTerminalResponsesEvent eventType \<longleftrightarrow>
     eventType = ''response.completed'' \<or> eventType = ''response.done''
     \<or> eventType = ''response.incomplete'' \<or> eventType = ''response.failed'' \<or> eventType = ''error''"

text \<open>Feeding a list of events; \<open>None\<close> is a run-time panic on the way.\<close>

fun feed :: "('s \<Rightarrow> 'e \<Rightarrow> 's option) \<Rightarrow> 's \<Rightarrow> 'e list \<Rightarrow> 's option" where
  "feed step s [] = Some s"
| "feed step s (e # es) = (case step s e of None \<Rightarrow> None | Some s' \<Rightarrow> feed step s' es)"

lemma feed_append:
  "feed step s (xs @ ys) = (case feed step s xs of None \<Rightarrow> None | Some s' \<Rightarrow> feed step s' ys)"
  by (induction xs arbitrary: s) (auto split: option.splits)

locale stream_machine =
  fixes step :: "'s \<Rightarrow> 'e \<Rightarrow> 's option"
    and terminal :: "'s \<Rightarrow> bool"
    and finalError :: "'s \<Rightarrow> go_error option"
    and ends :: "'e \<Rightarrow> bool"
    and good :: "'s \<Rightarrow> bool"
  assumes absorbing: "terminal s \<Longrightarrow> step s e = Some s"
    and closes: "good s \<Longrightarrow> ends e \<Longrightarrow> \<exists>s'. step s e = Some s' \<and> terminal s'"
    and keeps: "good s \<Longrightarrow> step s e = Some s' \<Longrightarrow> good s'"
    and early_end_fails:
      "good s \<Longrightarrow> \<not> terminal s \<Longrightarrow> \<not> ends e \<Longrightarrow> step s e = Some s' \<Longrightarrow> terminal s' \<Longrightarrow> finalError s' \<noteq> None"
    and unfinished: "good s \<Longrightarrow> \<not> terminal s \<Longrightarrow> finalError s = Some ErrMissingTerminalEvent"
begin

lemma feed_terminal: "terminal s \<Longrightarrow> feed step s es = Some s"
  by (induction es) (simp_all add: absorbing)

lemma feed_good: "good s \<Longrightarrow> feed step s es = Some s' \<Longrightarrow> good s'"
proof (induction es arbitrary: s)
  case (Cons e es)
  then show ?case by (auto split: option.splits dest: keeps)
qed simp

text \<open>Nothing after a terminal event matters.\<close>

lemma feed_after_end:
  assumes "good s" "ends e"
  shows "feed step s (xs @ e # ys) = feed step s (xs @ [e])"
proof (cases "feed step s xs")
  case None
  then show ?thesis by (simp add: feed_append)
next
  case (Some t)
  with assms obtain u where "step t e = Some u" "terminal u"
    using closes feed_good by blast
  with Some show ?thesis by (simp add: feed_append feed_terminal)
qed

text \<open>Only a terminal event can lead to a successful end.\<close>

lemma feed_success:
  assumes "good s" "\<not> terminal s" "feed step s es = Some s'" "finalError s' = None"
  shows "\<exists>e\<in>set es. ends e"
  using assms
proof (induction es arbitrary: s)
  case Nil
  then show ?case using unfinished by auto
next
  case (Cons e es)
  then obtain t where t: "step s e = Some t" "feed step t es = Some s'"
    by (auto split: option.splits)
  show ?case
  proof (cases "ends e")
    case False
    have "\<not> terminal t"
    proof
      assume "terminal t"
      moreover from this t have "s' = t" by (simp add: feed_terminal)
      ultimately show False
        using early_end_fails [OF Cons.prems(1,2) False t(1)] Cons.prems(4) by simp
    qed
    with Cons.IH [OF keeps [OF Cons.prems(1) t(1)] _ t(2)] Cons.prems(4) show ?thesis by simp
  qed simp
qed

lemma feed_truncated:
  assumes "good s" "\<not> terminal s" "feed step s es = Some s'" "\<forall>e\<in>set es. \<not> ends e"
  shows "finalError s' \<noteq> None"
  using feed_success [OF assms(1-3)] assms(4) by blast

end

end
