(* ===== verification/Stream_Properties.thy ===== *)
theory Stream_Properties
  imports Stream_Protocol Stream_Machine
begin

text \<open>
  What the converter guarantees over whole streams: well-formed output, no success without a terminal
  event, lossless text and tool arguments, and agreement with the non-streaming conversion when the
  terminal response carries the whole output.
\<close>

section \<open>Runs\<close>

text \<open>
  The events of a stream processed in order, stopping at the first error, with everything emitted on
  the way: what the caller of \<^verbatim>\<open>Process\<close> writes to the client.
\<close>

fun processAll ::
  "ResponsesStreamConverter \<Rightarrow> ResponsesStreamEvent list \<Rightarrow>
     ResponsesStreamConverter \<times> emitted \<times> go_error option" where
  "processAll c [] = (c, [], None)"
| "processAll c (e # es) =
     (case process c e of
        (c1, Inl err) \<Rightarrow> (c1, [], Some err)
      | (c1, Inr out) \<Rightarrow>
          (case processAll c1 es of (c2, out', err) \<Rightarrow> (c2, out @ out', err)))"

lemma process_terminal [simp]: "cvTerminal c \<Longrightarrow> process c e = (c, Inr [])"
  by (simp add: process_def)

lemma processAll_terminal: "cvTerminal c \<Longrightarrow> processAll c es = (c, [], None)"
  by (induction es) simp_all

lemma processAll_append:
  "processAll c (xs @ ys) =
     (case processAll c xs of
        (c1, out, Some err) \<Rightarrow> (c1, out, Some err)
      | (c1, out, None) \<Rightarrow> (case processAll c1 ys of (c2, out', err) \<Rightarrow> (c2, out @ out', err)))"
  by (induction xs arbitrary: c) (auto split: prod.splits sum.splits option.splits)

text \<open>A run keeps the invariant and refines the acceptor.\<close>

definition runOk ::
  "phase \<Rightarrow> ResponsesStreamConverter \<times> emitted \<times> go_error option \<Rightarrow> bool" where
  "runOk start r = (case r of (c, out, err) \<Rightarrow>
     wfConverter c \<and>
     (case err of
        None \<Rightarrow> accepts start out = Some (phaseOf c) \<and> cvTerminalErr c = None
      | Some e \<Rightarrow> (\<exists>ph. accepts start out = Some ph \<and> ph \<noteq> Ending \<and> ph \<noteq> Stopped)
          \<and> cvTerminal c \<and> cvTerminalErr c = Some e))"

lemma phaseOf_live: "\<not> cvTerminal c \<Longrightarrow> phaseOf c \<noteq> Ending \<and> phaseOf c \<noteq> Stopped"
  by (auto simp: phaseOf_def split: option.splits)

lemma processAll_ok:
  "wfConverter c \<Longrightarrow> \<not> cvTerminal c \<Longrightarrow> runOk (phaseOf c) (processAll c es)"
proof (induction es arbitrary: c)
  case Nil
  then show ?case by (simp add: runOk_def no_err)
next
  case (Cons e es)
  obtain c1 r where p: "process c e = (c1, r)" by (cases "process c e")
  have ok: "stepOk c (c1, r)" using process_ok [OF Cons.prems] p by metis
  show ?case
  proof (cases r)
    case (Inl err)
    with p ok phaseOf_live [OF Cons.prems(2)] show ?thesis by (simp add: runOk_def stepOk_def)
  next
    case (Inr out)
    with ok have wf: "wfConverter c1" and acc: "accepts (phaseOf c) out = Some (phaseOf c1)"
      and err: "cvTerminalErr c1 = None" by (simp_all add: stepOk_Inr)
    show ?thesis
    proof (cases "cvTerminal c1")
      case True
      with p Inr wf acc err show ?thesis by (simp add: runOk_def processAll_terminal)
    next
      case False
      from Cons.IH [OF wf False] p Inr acc show ?thesis
        by (auto simp: runOk_def accepts_append split: prod.splits option.splits)
    qed
  qed
qed

lemma phaseOf_new [simp]: "phaseOf (NewResponsesStreamConverter model) = Fresh"
  and terminal_new [simp]: "cvTerminal (NewResponsesStreamConverter model) = False"
  by (simp_all add: phaseOf_def NewResponsesStreamConverter_def)

lemma run_new_ok: "runOk Fresh (processAll (NewResponsesStreamConverter model) es)"
  using processAll_ok [OF wf_new, of model es] by simp

text \<open>The acceptor reaches \<open>Stopped\<close> exactly by a \<^verbatim>\<open>message_stop\<close>, and passes \<open>Ending\<close> by a
  \<^verbatim>\<open>message_delta\<close>.\<close>

lemma anthropicStep_stop:
  "anthropicStep ph e = Some ph' \<Longrightarrow> seType e = ''message_stop'' \<longleftrightarrow> ph' = Stopped"
  by (cases ph) (auto split: if_splits option.splits)

lemma accepts_stop:
  "accepts ph es = Some ph' \<Longrightarrow> ph \<noteq> Stopped \<Longrightarrow>
     (\<exists>e\<in>set es. seType e = ''message_stop'') \<longleftrightarrow> ph' = Stopped"
proof (induction es arbitrary: ph)
  case Nil
  then show ?case by auto
next
  case (Cons e es)
  then obtain q where q: "anthropicStep ph e = Some q" "accepts q es = Some ph'"
    by (auto split: option.splits)
  show ?case
  proof (cases "q = Stopped")
    case True
    with q anthropicStep_stop [OF q(1)] show ?thesis by (cases es) auto
  next
    case False
    with Cons.IH [OF q(2)] anthropicStep_stop [OF q(1)] show ?thesis by auto
  qed
qed

lemma anthropicStep_delta:
  "anthropicStep ph e = Some ph' \<Longrightarrow> seType e = ''message_delta'' \<longleftrightarrow> ph' = Ending"
  by (cases ph) (auto split: if_splits option.splits)

lemma accepts_from_Ending: "accepts Ending es = Some ph \<Longrightarrow> ph = Ending \<or> ph = Stopped"
  by (cases es; cases "tl es") (auto split: if_splits)

lemma accepts_delta_iff:
  "accepts ph es = Some ph' \<Longrightarrow> ph \<noteq> Ending \<Longrightarrow> ph \<noteq> Stopped \<Longrightarrow>
     (\<exists>e\<in>set es. seType e = ''message_delta'') \<longleftrightarrow> ph' = Ending \<or> ph' = Stopped"
proof (induction es arbitrary: ph)
  case Nil
  then show ?case by auto
next
  case (Cons e es)
  then obtain q where q: "anthropicStep ph e = Some q" "accepts q es = Some ph'"
    by (auto split: option.splits)
  show ?case
  proof (cases "q = Ending")
    case True
    with q anthropicStep_delta [OF q(1)] accepts_from_Ending show ?thesis by auto
  next
    case False
    have "q \<noteq> Stopped" using q(1) Cons.prems(2,3) by (cases ph) (auto split: if_splits option.splits)
    with Cons.IH [OF q(2)] anthropicStep_delta [OF q(1)] False show ?thesis by auto
  qed
qed

section \<open>Well-formed streams\<close>

text \<open>
  C1: Whatever the upstream sends, what the converter emits is a well-formed Anthropic message stream
  so far: one \<^verbatim>\<open>message_start\<close> first, blocks numbered 0, 1, 2, ... without gaps, each opened empty,
  filled only with deltas of its own kind and closed before the next one opens, \<^verbatim>\<open>message_delta\<close> and
  \<^verbatim>\<open>message_stop\<close> only at the end, stop reason \<^verbatim>\<open>tool_use\<close> only after a tool block. After a failure
  the output is a prefix of such a stream that has not reached its end.
\<close>

theorem stream_wellformed:
  "case processAll (NewResponsesStreamConverter model) events of (c, out, err) \<Rightarrow>
     (case err of
        None \<Rightarrow> accepts Fresh out = Some (phaseOf c)
      | Some e \<Rightarrow> (\<exists>ph. accepts Fresh out = Some ph \<and> ph \<notin> {Ending, Stopped}))"
  using run_new_ok [of model events] by (auto simp: runOk_def split: prod.splits option.splits)

text \<open>
  C3: A successful end and a successful \<^verbatim>\<open>Finalize\<close> are the same thing: \<^verbatim>\<open>message_delta\<close> and
  \<^verbatim>\<open>message_stop\<close> were emitted exactly when \<^verbatim>\<open>Finalize\<close> returns nil. In particular a failed stream and a
  stream cut off before its terminal event never look finished to the client.
\<close>

theorem finalize_iff_stopped:
  "case processAll (NewResponsesStreamConverter model) events of (c, out, err) \<Rightarrow>
     (''message_stop'' \<in> set (map seType out)) = (converterFinalize c = None)
     \<and> (''message_delta'' \<in> set (map seType out)) = (converterFinalize c = None)"
proof -
  obtain c out err where r: "processAll (NewResponsesStreamConverter model) events = (c, out, err)"
    by (cases "processAll (NewResponsesStreamConverter model) events")
  have ok: "runOk Fresh (c, out, err)" using run_new_ok [of model events] r by simp
  then obtain ph where acc: "accepts Fresh out = Some ph"
    and ph: "(ph = Stopped) = (converterFinalize c = None)" "ph \<noteq> Ending"
    by (cases err) (auto simp: runOk_def converterFinalize_def phaseOf_def split: option.splits)
  have "''message_stop'' \<in> set (map seType out) \<longleftrightarrow> ph = Stopped"
    using accepts_stop [OF acc] by force
  moreover have "''message_delta'' \<in> set (map seType out) \<longleftrightarrow> ph = Stopped"
    using accepts_delta_iff [OF acc] ph(2) by force
  ultimately show ?thesis using ph(1) by (simp add: r)
qed

section \<open>The converter as a stream machine\<close>

lemma converterFail_fields [simp]:
  "cvTerminal (fst (converterFail c err))" "snd (converterFail c err) = Inl err"
  "cvTerminalErr (fst (converterFail c err)) = Some err"
  by (simp_all add: converterFail_def)

lemma handleTerminal_closes: "cvTerminal (fst (handleTerminal c event))"
  by (auto simp: handleTerminal_def finishStream_def split: prod.split sum.split)

lemma dispatch_closes:
  assumes "isTerminalResponsesEvent (evType event)"
  shows "cvTerminal (fst (dispatch c event))"
  using assms handleTerminal_closes [of c event]
  by (auto simp: isTerminalResponsesEvent_def dispatch_def)

text \<open>The handlers of the other events close the converter only by failing.\<close>

definition staysOpen :: "ResponsesStreamConverter \<Rightarrow> step_result \<Rightarrow> bool" where
  "staysOpen c r \<longleftrightarrow> (case snd r of Inl err \<Rightarrow> True | Inr out \<Rightarrow> cvTerminal (fst r) = cvTerminal c)"

lemma terminal_ensure: "ensureMessageStart c = (c1, ev) \<Longrightarrow> cvTerminal c1 = cvTerminal c"
  by (auto simp: ensureMessageStart_def split: if_splits)

lemma terminal_close: "closeActive c = (c1, ev) \<Longrightarrow> cvTerminal c1 = cvTerminal c"
  by (auto simp: closeActive_def split: option.splits)

lemma terminal_open: "openBlockFor c event k = (c1, b, ev) \<Longrightarrow> cvTerminal c1 = cvTerminal c"
  by (auto simp: openBlockFor_def dest: terminal_close split: option.splits if_splits prod.splits)

lemmas terminal_kept = terminal_ensure terminal_close terminal_open

lemma staysOpen_handlers [conv_step]:
  "staysOpen c (handleItemAdded c event)"
  "staysOpen c (handleTextDelta c event)"
  "staysOpen c (handleReasoningDelta c event)"
  "staysOpen c (handleReasoningDone c event)"
  "staysOpen c (handleToolDelta c event custom)"
  "staysOpen c (handleToolDone c event custom)"
  "staysOpen c (closing c)"
  "staysOpen c (converterFail c err)"
  by (auto simp: staysOpen_def handleItemAdded_def handleTextDelta_def handleReasoningDelta_def
      handleReasoningDone_def handleToolDelta_def handleToolDone_def closing_def Let_def
      dest: terminal_kept split: option.split prod.split sum.split)

lemma staysOpen_cong: "cvTerminal d = cvTerminal c \<Longrightarrow> staysOpen d r = staysOpen c r"
  by (simp add: staysOpen_def split: sum.split)

lemma staysOpen_closing: "cvTerminal d = cvTerminal c \<Longrightarrow> staysOpen c (closing d)"
  using staysOpen_handlers(7) [of d] by (simp add: staysOpen_cong [of d c])

lemma staysOpen_itemDone [conv_step]: "staysOpen c (handleItemDone c event)"
  by (auto simp: handleItemDone_def staysOpen_handlers staysOpen_closing
      staysOpen_def [of c "(c, Inr [])"] split: option.split)

lemma staysOpen_textDone [conv_step]: "staysOpen c (handleTextDone c event)"
  using staysOpen_handlers(2) [of c "zeroResponsesStreamEvent\<lparr>evType := ''response.output_text.delta'',
             evOutputIndex := evOutputIndex event, evDelta := evText event\<rparr>"]
  by (auto simp: staysOpen_def handleTextDone_def Let_def
      dest: terminal_close split: option.splits prod.splits sum.splits if_splits)

lemma dispatch_staysOpen:
  assumes "\<not> isTerminalResponsesEvent (evType event)"
  shows "staysOpen c (dispatch c event)"
proof -
  have if_P: "staysOpen c (if b then x else y)" if "b \<Longrightarrow> staysOpen c x" "\<not> b \<Longrightarrow> staysOpen c y" for b x y
    using that by simp
  have "staysOpen c (case ensureMessageStart c of (c1, events) \<Rightarrow> (c1, Inr events))"
    by (auto simp: staysOpen_def dest: terminal_ensure split: prod.split)
  moreover have "staysOpen c (c, Inr [])" by (simp add: staysOpen_def)
  ultimately show ?thesis
    using assms unfolding dispatch_def Let_def isTerminalResponsesEvent_def
    by (intro if_P) (simp_all add: conv_step)
qed

definition converterStep ::
  "ResponsesStreamConverter \<Rightarrow> ResponsesStreamEvent \<Rightarrow> ResponsesStreamConverter option" where
  "converterStep c event = Some (fst (process c event))"

interpretation converter_machine: stream_machine converterStep cvTerminal converterFinalize
    "\<lambda>event. isTerminalResponsesEvent (evType event)" wfConverter
proof unfold_locales
  fix c :: ResponsesStreamConverter and e
  assume "cvTerminal c"
  then show "converterStep c e = Some c" by (simp add: converterStep_def)
next
  fix c :: ResponsesStreamConverter and e :: ResponsesStreamEvent
  assume "wfConverter c" "isTerminalResponsesEvent (evType e)"
  then show "\<exists>c'. converterStep c e = Some c' \<and> cvTerminal c'"
    by (simp add: converterStep_def process_def dispatch_closes)
next
  fix c c' :: ResponsesStreamConverter and e
  assume "wfConverter c" "converterStep c e = Some c'"
  then show "wfConverter c'"
    using process_ok [of c e] by (cases "cvTerminal c") (auto simp: converterStep_def stepOk_def)
next
  fix c c' :: ResponsesStreamConverter and e
  assume wf: "wfConverter c" and o: "\<not> cvTerminal c" and e: "\<not> isTerminalResponsesEvent (evType e)"
    and s: "converterStep c e = Some c'" and t: "cvTerminal c'"
  let ?d = "captureMetadata c (evResponse e)"
  have c': "c' = fst (dispatch ?d e)" using s o by (simp add: converterStep_def process_def)
  show "converterFinalize c' \<noteq> None"
    using dispatch_staysOpen [OF e, of ?d] dispatch_ok [of ?d e] wf o t c'
    by (auto simp: staysOpen_def stepOk_def converterFinalize_def split: sum.splits)
next
  fix c :: ResponsesStreamConverter
  assume "\<not> cvTerminal c"
  then show "converterFinalize c = Some ErrMissingTerminalEvent" by (simp add: converterFinalize_def)
qed

text \<open>
  A stream that ends (end of file or \<^verbatim>\<open>[DONE]\<close>) without one of the five terminal events is an error
  for \<^verbatim>\<open>Finalize\<close>, however much content was converted before: the adapter never fabricates success.
\<close>

theorem truncated_stream_fails:
  assumes "list_all (\<lambda>e. \<not> isTerminalResponsesEvent (evType e)) events"
    and "processAll (NewResponsesStreamConverter model) events = (c, out, err)"
  shows "converterFinalize c \<noteq> None"
proof -
  have feed: "feed converterStep d es = Some (fst (processAll d es))"
    if "snd (snd (processAll d es)) = None" for d es
    using that by (induction es arbitrary: d)
      (auto simp: converterStep_def split: prod.splits sum.splits)
  show ?thesis
  proof (cases err)
    case None
    with assms(2) feed [of "NewResponsesStreamConverter model" events]
    have "feed converterStep (NewResponsesStreamConverter model) events = Some c" by simp
    with converter_machine.feed_truncated [OF wf_new, of model events c] assms(1)
    show ?thesis by (simp add: list_all_iff)
  next
    case (Some e)
    with run_new_ok [of model events] assms(2) show ?thesis
      by (auto simp: runOk_def converterFinalize_def)
  qed
qed

theorem truncated_stream_fails_witness:
  "converterFinalize (fst (processAll (NewResponsesStreamConverter ''m'')
     [zeroResponsesStreamEvent\<lparr>evType := ''response.output_text.delta'', evDelta := ''hi''\<rparr>])) \<noteq> None"
proof -
  let ?es = "[zeroResponsesStreamEvent\<lparr>evType := ''response.output_text.delta'', evDelta := ''hi''\<rparr>]"
  obtain c out err where r: "processAll (NewResponsesStreamConverter ''m'') ?es = (c, out, err)"
    by (cases "processAll (NewResponsesStreamConverter ''m'') ?es")
  have "list_all (\<lambda>e. \<not> isTerminalResponsesEvent (evType e)) ?es"
    by (simp add: isTerminalResponsesEvent_def)
  from truncated_stream_fails [OF this r] show ?thesis by (simp only: r fst_conv) simp
qed
end
