(* ===== verification/Stream_Fidelity.thy ===== *)
theory Stream_Fidelity
  imports Stream_Properties
begin

text \<open>
  Exact output of the lifecycles of one output item: text, function call, custom tool call. Nothing is
  lost, reordered or duplicated inside a block, and a function call whose arguments are not a JSON
  object fails.
\<close>

section \<open>Deltas on the open block\<close>

lemma capture_None [simp]: "captureMetadata c None = c"
  by (simp add: captureMetadata_def)

lemma process_dispatch:
  "\<not> cvTerminal c \<Longrightarrow> evResponse e = None \<Longrightarrow> process c e = dispatch c e"
  by (simp add: process_def)

definition isTextDelta :: "int \<Rightarrow> ResponsesStreamEvent \<Rightarrow> bool" where
  "isTextDelta i e \<longleftrightarrow> evType e = ''response.output_text.delta'' \<and> evOutputIndex e = i
     \<and> evDelta e \<noteq> [] \<and> evResponse e = None"

definition isToolDelta :: "bool \<Rightarrow> int \<Rightarrow> ResponsesStreamEvent \<Rightarrow> bool" where
  "isToolDelta custom i e \<longleftrightarrow>
     evType e = (if custom then ''response.custom_tool_call_input.delta''
                 else ''response.function_call_arguments.delta'')
     \<and> evOutputIndex e = i \<and> evDelta e \<noteq> [] \<and> evResponse e = None"

lemma process_text_active:
  assumes "\<not> cvTerminal c" "isTextDelta i e" "cvMessageStarted c" "cvActive c = Some b"
    "sbKind b = ''text''" "sbOutputIndex b = i"
  shows "process c e = (c\<lparr>cvActive := Some (b\<lparr>sbHadDelta := True\<rparr>), cvSawContent := True\<rparr>,
           Inr [blockDelta (sbIndex b) (textDelta (evDelta e))])"
  using assms
  by (simp add: isTextDelta_def process_dispatch dispatch_def handleTextDelta_def ensureMessageStart_def
      openBlockFor_def)

lemma processAll_text_active:
  assumes "\<not> cvTerminal c" "list_all (isTextDelta i) es" "cvMessageStarted c" "cvActive c = Some b"
    "sbKind b = ''text''" "sbOutputIndex b = i" "sbHadDelta b" "cvSawContent c"
  shows "processAll c es = (c, map (\<lambda>e. blockDelta (sbIndex b) (textDelta (evDelta e))) es, None)"
  using assms(2)
proof (induction es)
  case (Cons e es)
  have "c\<lparr>cvActive := Some (b\<lparr>sbHadDelta := True\<rparr>), cvSawContent := True\<rparr> = c"
    using assms by simp
  with Cons process_text_active [OF assms(1) _ assms(3-6), of e] show ?case by simp
qed simp

lemma process_tool_active:
  assumes "\<not> cvTerminal c" "isToolDelta custom i e" "cvActive c = Some b"
    "sbKind b = ''tool_use''" "sbOutputIndex b = i" "sbCustom b = custom"
  shows "process c e =
     (c\<lparr>cvActive := Some (b\<lparr>sbBuffer := sbBuffer b @ evDelta e, sbHadDelta := sbHadDelta b \<or> \<not> custom\<rparr>)\<rparr>,
      Inr (if custom then [] else [blockDelta (sbIndex b) (inputJsonDelta (evDelta e))]))"
  using assms
  by (cases custom)
    (simp_all add: isToolDelta_def process_dispatch dispatch_def handleToolDelta_def activeTool_def Let_def)

lemma processAll_tool_active:
  assumes "\<not> cvTerminal c" "list_all (isToolDelta custom i) es" "cvActive c = Some b"
    "sbKind b = ''tool_use''" "sbOutputIndex b = i" "sbCustom b = custom"
  shows "processAll c es =
     (c\<lparr>cvActive := Some (b\<lparr>sbBuffer := sbBuffer b @ concat (map evDelta es),
                            sbHadDelta := sbHadDelta b \<or> \<not> custom \<and> es \<noteq> []\<rparr>)\<rparr>,
      if custom then [] else map (\<lambda>e. blockDelta (sbIndex b) (inputJsonDelta (evDelta e))) es, None)"
  using assms
proof (induction es arbitrary: c b)
  case (Cons e es)
  let ?b = "b\<lparr>sbBuffer := sbBuffer b @ evDelta e, sbHadDelta := sbHadDelta b \<or> \<not> custom\<rparr>"
  let ?c = "c\<lparr>cvActive := Some ?b\<rparr>"
  have p: "process c e = (?c, Inr (if custom then [] else [blockDelta (sbIndex b) (inputJsonDelta (evDelta e))]))"
    using Cons.prems by (intro process_tool_active [where i = i]) auto
  have "processAll ?c es =
     (?c\<lparr>cvActive := Some (?b\<lparr>sbBuffer := sbBuffer ?b @ concat (map evDelta es),
                            sbHadDelta := sbHadDelta ?b \<or> \<not> custom \<and> es \<noteq> []\<rparr>)\<rparr>,
      if custom then [] else map (\<lambda>e. blockDelta (sbIndex ?b) (inputJsonDelta (evDelta e))) es, None)"
    using Cons.prems by (intro Cons.IH) auto
  with p show ?case by (cases custom) auto
qed simp

section \<open>A text block from its first delta to its end\<close>

definition startEvents :: "ResponsesStreamConverter \<Rightarrow> emitted" where
  "startEvents c = (if cvMessageStarted c then [] else [messageStart (cvResponseID c) (cvModel c)])"

lemma ensure_startEvents: "ensureMessageStart c = (c\<lparr>cvMessageStarted := True\<rparr>, startEvents c)"
  by (simp add: ensureMessageStart_def startEvents_def)

lemma process_text_first:
  assumes "\<not> cvTerminal c" "isTextDelta i e" "cvActive c = None"
  shows "process c e = (c\<lparr>cvMessageStarted := True, cvSawContent := True,
           cvActive := Some (zeroStreamBlock\<lparr>sbIndex := cvNextBlockIndex c, sbOutputIndex := i,
             sbKind := ''text'', sbHadDelta := True\<rparr>)\<rparr>,
         Inr (startEvents c @ [blockStart (cvNextBlockIndex c) (zeroAnthropicContentBlock\<lparr>cbType := ''text''\<rparr>),
           blockDelta (cvNextBlockIndex c) (textDelta (evDelta e))]))"
  using assms
  by (simp add: isTextDelta_def process_dispatch dispatch_def handleTextDelta_def ensure_startEvents
      openBlockFor_def)

text \<open>The state after a non-empty run of text deltas.\<close>

definition textOpen :: "ResponsesStreamConverter \<Rightarrow> int \<Rightarrow> ResponsesStreamConverter" where
  "textOpen c i = c\<lparr>cvMessageStarted := True, cvSawContent := True,
     cvActive := Some (zeroStreamBlock\<lparr>sbIndex := cvNextBlockIndex c, sbOutputIndex := i,
       sbKind := ''text'', sbHadDelta := True\<rparr>)\<rparr>"

lemma text_open:
  assumes "\<not> cvTerminal c" "cvActive c = None" "es \<noteq> []" "list_all (isTextDelta i) es"
  shows "processAll c es = (textOpen c i, startEvents c
      @ [blockStart (cvNextBlockIndex c) (zeroAnthropicContentBlock\<lparr>cbType := ''text''\<rparr>)]
      @ map (\<lambda>e. blockDelta (cvNextBlockIndex c) (textDelta (evDelta e))) es, None)"
proof -
  obtain e es' where es: "es = e # es'" using assms(3) by (cases es) auto
  let ?b = "zeroStreamBlock\<lparr>sbIndex := cvNextBlockIndex c, sbOutputIndex := i, sbKind := ''text'', sbHadDelta := True\<rparr>"
  have first: "process c e = (textOpen c i, Inr (startEvents c @
      [blockStart (cvNextBlockIndex c) (zeroAnthropicContentBlock\<lparr>cbType := ''text''\<rparr>),
       blockDelta (cvNextBlockIndex c) (textDelta (evDelta e))]))"
    using assms es unfolding textOpen_def by (intro process_text_first) auto
  have rest: "processAll (textOpen c i) es' =
      (textOpen c i, map (\<lambda>e. blockDelta (cvNextBlockIndex c) (textDelta (evDelta e))) es', None)"
    using processAll_text_active [of "textOpen c i" i es' ?b] assms es by (simp add: textOpen_def)
  show ?thesis using first rest by (simp add: es)
qed

lemma process_text_close:
  assumes "\<not> cvTerminal c" "evType fin = ''response.output_text.done''" "evResponse fin = None"
  shows "process (textOpen c i) fin = (c\<lparr>cvMessageStarted := True, cvSawContent := True,
      cvNextBlockIndex := cvNextBlockIndex c + 1, cvActive := None\<rparr>, Inr [blockStop (cvNextBlockIndex c)])"
  using assms by (simp add: textOpen_def process_dispatch dispatch_def handleTextDone_def closeActive_def)

lemma processAll_snoc:
  assumes "processAll c es = (d, out, None)"
  shows "processAll c (es @ [e]) =
     (case process d e of (c', Inl err) \<Rightarrow> (c', out, Some err) | (c', Inr out') \<Rightarrow> (c', out @ out', None))"
  using assms by (simp add: processAll_append split: prod.split sum.split)

text \<open>
  Text is passed on losslessly. From any live state with no open block, the deltas of a text item
  followed by its done event give one block: its start, one text delta per upstream delta with the same
  text in the same order, and its stop. The full text the done event repeats is not emitted again.
\<close>

theorem text_item_lossless:
  assumes "\<not> cvTerminal c" "cvActive c = None" "es \<noteq> []" "list_all (isTextDelta i) es"
    and "evType fin = ''response.output_text.done''" "evResponse fin = None"
  shows "processAll c (es @ [fin]) =
     (c\<lparr>cvMessageStarted := True, cvSawContent := True, cvNextBlockIndex := cvNextBlockIndex c + 1\<rparr>,
      startEvents c
      @ [blockStart (cvNextBlockIndex c) (zeroAnthropicContentBlock\<lparr>cbType := ''text''\<rparr>)]
      @ map (\<lambda>e. blockDelta (cvNextBlockIndex c) (textDelta (evDelta e))) es
      @ [blockStop (cvNextBlockIndex c)], None)"
proof -
  have "c\<lparr>cvMessageStarted := True, cvSawContent := True, cvNextBlockIndex := cvNextBlockIndex c + 1, cvActive := None\<rparr>
      = c\<lparr>cvMessageStarted := True, cvSawContent := True, cvNextBlockIndex := cvNextBlockIndex c + 1\<rparr>"
    using assms(2) by simp
  with processAll_snoc [OF text_open [OF assms(1-4)], of fin] process_text_close [OF assms(1,5,6)]
  show ?thesis by simp
qed

theorem text_item_lossless_witness:
  "snd (snd (processAll (NewResponsesStreamConverter ''m'')
     ([zeroResponsesStreamEvent\<lparr>evType := ''response.output_text.delta'', evDelta := ''Hel''\<rparr>,
       zeroResponsesStreamEvent\<lparr>evType := ''response.output_text.delta'', evDelta := ''lo''\<rparr>]
      @ [zeroResponsesStreamEvent\<lparr>evType := ''response.output_text.done'', evText := ''Hello''\<rparr>]))) = None"
  by (subst text_item_lossless [where i = 0])
    (simp_all add: NewResponsesStreamConverter_def isTextDelta_def zeros)

section \<open>Tool calls\<close>

lemma closeActive_fields [simp]:
  "cvMessageStarted (fst (closeActive c)) = cvMessageStarted c"
  "cvTerminal (fst (closeActive c)) = cvTerminal c"
  "cvActive (fst (closeActive c)) = None"
  by (simp_all add: closeActive_def split: option.split)

text \<open>The converter right after a tool call was added: the new block is the active one.\<close>

definition toolBlock :: "int \<Rightarrow> int \<Rightarrow> ResponsesOutput \<Rightarrow> streamBlock" where
  "toolBlock index i item = zeroStreamBlock\<lparr>sbIndex := index, sbOutputIndex := i,
     sbKind := ''tool_use'', sbCallID := roCallID item, sbToolName := roName item,
     sbCustom := (roType item = ''custom_tool_call'')\<rparr>"

definition toolStart :: "int \<Rightarrow> ResponsesOutput \<Rightarrow> AnthropicStreamEvent" where
  "toolStart index item = blockStart index (zeroAnthropicContentBlock\<lparr>cbType := ''tool_use'',
     cbID := roCallID item, cbName := roName item, cbInput := ''{}''\<rparr>)"

definition isToolAdded :: "bool \<Rightarrow> int \<Rightarrow> ResponsesOutput \<Rightarrow> ResponsesStreamEvent \<Rightarrow> bool" where
  "isToolAdded custom i item e \<longleftrightarrow> evType e = ''response.output_item.added'' \<and> evOutputIndex e = i
     \<and> evItem e = Some item \<and> evResponse e = None
     \<and> roType item = (if custom then ''custom_tool_call'' else ''function_call'')"

definition isToolDone :: "bool \<Rightarrow> int \<Rightarrow> ResponsesStreamEvent \<Rightarrow> bool" where
  "isToolDone custom i e \<longleftrightarrow>
     evType e = (if custom then ''response.custom_tool_call_input.done''
                 else ''response.function_call_arguments.done'')
     \<and> evOutputIndex e = i \<and> evResponse e = None"

definition nextIndex :: "ResponsesStreamConverter \<Rightarrow> int" where
  "nextIndex c = cvNextBlockIndex (fst (closeActive c))"

lemma process_toolAdded:
  assumes "\<not> cvTerminal c" "isToolAdded custom i item e"
  defines "d \<equiv> fst (closeActive (c\<lparr>cvMessageStarted := True\<rparr>))"
  shows "process c e =
     (d\<lparr>cvHasTool := True, cvSawContent := True, cvActive := Some (toolBlock (nextIndex c) i item)\<rparr>,
      Inr (startEvents c @ snd (closeActive c) @ [toolStart (nextIndex c) item]))"
proof -
  have n: "cvNextBlockIndex d = nextIndex c" and s: "snd (closeActive (c\<lparr>cvMessageStarted := True\<rparr>)) = snd (closeActive c)"
    by (simp_all add: d_def nextIndex_def closeActive_def split: option.split)
  have "closeActive (c\<lparr>cvMessageStarted := True\<rparr>) = (d, snd (closeActive c))"
    using s by (metis d_def prod.collapse)
  then show ?thesis
    using assms(1,2) n
    by (cases custom)
      (simp_all add: isToolAdded_def process_dispatch dispatch_def handleItemAdded_def ensure_startEvents
        toolBlock_def toolStart_def Let_def)
qed

lemma process_functionDone:
  assumes "\<not> cvTerminal c" "isToolDone False i e" "cvActive c = Some b" "sbKind b = ''tool_use''"
    "sbOutputIndex b = i" "\<not> sbCustom b"
  defines "args \<equiv> if evArguments e = [] then sbBuffer b else evArguments e"
  shows "process c e =
     (case functionToolInput args of
        Inl err \<Rightarrow> converterFail c (ErrWrapQuoted ''complete function call '' (sbToolName b) '': '' err)
      | Inr _ \<Rightarrow> (c\<lparr>cvActive := None, cvNextBlockIndex := cvNextBlockIndex c + 1\<rparr>,
          Inr ((if sbHadDelta b then []
                else [blockDelta (sbIndex b) (inputJsonDelta (if args = [] then ''{}'' else args))])
            @ [blockStop (sbIndex b)])))"
  using assms
  by (simp add: isToolDone_def process_dispatch dispatch_def handleToolDone_def activeTool_def
      closeActive_def Let_def split: sum.split)

lemma process_customDone:
  assumes "\<not> cvTerminal c" "isToolDone True i e" "cvActive c = Some b" "sbKind b = ''tool_use''"
    "sbOutputIndex b = i" "sbCustom b"
  defines "input \<equiv> if evInput e = [] then sbBuffer b else evInput e"
  shows "process c e =
     (c\<lparr>cvActive := None, cvNextBlockIndex := cvNextBlockIndex c + 1\<rparr>,
      Inr [blockDelta (sbIndex b) (inputJsonDelta (customToolInput input)), blockStop (sbIndex b)])"
  using assms
  by (simp add: isToolDone_def process_dispatch dispatch_def handleToolDone_def activeTool_def
      closeActive_def Let_def)

text \<open>A tool call that was added and has received its argument deltas.\<close>

definition toolOpen :: "ResponsesStreamConverter \<Rightarrow> bool \<Rightarrow> int \<Rightarrow> ResponsesOutput \<Rightarrow>
    ResponsesStreamEvent list \<Rightarrow> ResponsesStreamConverter" where
  "toolOpen c custom i item es =
     (fst (closeActive (c\<lparr>cvMessageStarted := True\<rparr>)))\<lparr>cvHasTool := True, cvSawContent := True,
       cvActive := Some ((toolBlock (nextIndex c) i item)\<lparr>sbBuffer := concat (map evDelta es),
         sbHadDelta := \<not> custom \<and> es \<noteq> []\<rparr>)\<rparr>"

lemma tool_call_open:
  assumes "\<not> cvTerminal c" "isToolAdded custom i item added" "list_all (isToolDelta custom i) es"
  shows "processAll c (added # es) = (toolOpen c custom i item es,
     startEvents c @ snd (closeActive c) @ [toolStart (nextIndex c) item]
       @ (if custom then [] else map (\<lambda>e. blockDelta (nextIndex c) (inputJsonDelta (evDelta e))) es), None)"
proof -
  let ?d = "fst (closeActive (c\<lparr>cvMessageStarted := True\<rparr>))"
  let ?b = "toolBlock (nextIndex c) i item"
  let ?c1 = "?d\<lparr>cvHasTool := True, cvSawContent := True, cvActive := Some ?b\<rparr>"
  have live: "\<not> cvTerminal ?c1" "cvActive ?c1 = Some ?b" using assms(1) by simp_all
  have b: "sbKind ?b = ''tool_use''" "sbOutputIndex ?b = i" "sbCustom ?b = custom"
    using assms(2) by (simp_all add: isToolAdded_def toolBlock_def)
  show ?thesis
    using processAll_tool_active [OF live(1) assms(3) live(2) b]
    by (cases custom)
      (simp_all add: process_toolAdded [OF assms(1,2)] toolOpen_def toolBlock_def zeroStreamBlock_def)
qed

lemma toolOpen_fields:
  fixes es :: "ResponsesStreamEvent list"
  assumes "\<not> cvTerminal c" "isToolAdded custom i item added"
  defines "b \<equiv> (toolBlock (nextIndex c) i item)\<lparr>sbBuffer := concat (map evDelta es),
         sbHadDelta := \<not> custom \<and> es \<noteq> []\<rparr>"
  shows "\<not> cvTerminal (toolOpen c custom i item es)" "cvActive (toolOpen c custom i item es) = Some b"
    "cvHasTool (toolOpen c custom i item es)"
    "sbKind b = ''tool_use''" "sbOutputIndex b = i" "sbCustom b = custom" "sbIndex b = nextIndex c"
    "sbBuffer b = concat (map evDelta es)" "sbHadDelta b = (\<not> custom \<and> es \<noteq> [])" "sbToolName b = roName item"
  using assms by (simp_all add: toolOpen_def toolBlock_def isToolAdded_def)

lemma toolOpen_hasTool [simp]: "cvHasTool (toolOpen c custom i item es)"
  by (simp add: toolOpen_def)

lemma function_call_close:
  assumes "\<not> cvTerminal c" "isToolAdded False i item added" "isToolDone False i fin"
  shows "process (toolOpen c False i item es) fin =
     (let args = (if evArguments fin = [] then concat (map evDelta es) else evArguments fin) in
      case functionToolInput args of
        Inl err \<Rightarrow> converterFail (toolOpen c False i item es)
          (ErrWrapQuoted ''complete function call '' (roName item) '': '' err)
      | Inr _ \<Rightarrow> ((toolOpen c False i item es)\<lparr>cvActive := None,
            cvNextBlockIndex := cvNextBlockIndex (toolOpen c False i item es) + 1\<rparr>,
          Inr ((if es \<noteq> [] then []
                else [blockDelta (nextIndex c) (inputJsonDelta (if args = [] then ''{}'' else args))])
            @ [blockStop (nextIndex c)])))"
proof -
  note f = toolOpen_fields [OF assms(1,2), of es]
  show ?thesis
    using process_functionDone [OF f(1) assms(3) f(2,4,5)] f(6) by (simp only: f Let_def) simp
qed

lemma custom_call_close:
  assumes "\<not> cvTerminal c" "isToolAdded True i item added" "isToolDone True i fin"
  shows "process (toolOpen c True i item es) fin =
     ((toolOpen c True i item es)\<lparr>cvActive := None,
            cvNextBlockIndex := cvNextBlockIndex (toolOpen c True i item es) + 1\<rparr>,
      Inr [blockDelta (nextIndex c) (inputJsonDelta (customToolInput
          (if evInput fin = [] then concat (map evDelta es) else evInput fin))), blockStop (nextIndex c)])"
proof -
  note f = toolOpen_fields [OF assms(1,2), of es]
  show ?thesis
    using process_customDone [OF f(1) assms(3) f(2,4,5)] f(6) by (simp only: f Let_def)
qed

text \<open>
  C7: Function-call arguments are passed on losslessly and checked. From any live state, the item, its
  argument deltas and the done event give one tool block: what was open is closed first, the block starts
  with the call's id and name, every delta is emitted unchanged and in order, and the block is closed
  only if the final arguments are a JSON object (or blank); otherwise the stream fails and the block is
  never closed. Without deltas the final arguments are emitted in one piece, \<^verbatim>\<open>{}\<close> for empty ones.
\<close>

theorem function_call_lossless:
  assumes "\<not> cvTerminal c" "isToolAdded False i item added" "list_all (isToolDelta False i) es"
    "isToolDone False i fin"
  shows "case processAll c (added # es @ [fin]) of (c', out, err) \<Rightarrow>
     let n = nextIndex c;
         args = (if evArguments fin = [] then concat (map evDelta es) else evArguments fin);
         begun = startEvents c @ snd (closeActive c) @ [toolStart n item]
           @ map (\<lambda>e. blockDelta n (inputJsonDelta (evDelta e))) es
     in case functionToolInput args of
          Inl e \<Rightarrow> out = begun \<and> cvTerminal c'
            \<and> err = Some (ErrWrapQuoted ''complete function call '' (roName item) '': '' e)
        | Inr _ \<Rightarrow> out = begun
              @ (if es = [] then [blockDelta n (inputJsonDelta (if args = [] then ''{}'' else args))] else [])
              @ [blockStop n]
            \<and> err = None \<and> cvActive c' = None \<and> cvHasTool c'"
  unfolding append_Cons [symmetric] processAll_snoc [OF tool_call_open [OF assms(1-3)]]
    function_call_close [OF assms(1,2,4)]
  by (simp add: Let_def converterFail_def split: sum.split)

theorem function_call_lossless_witness:
  "snd (snd (processAll (NewResponsesStreamConverter ''m'')
     (zeroResponsesStreamEvent\<lparr>evType := ''response.output_item.added'', evOutputIndex := 2,
        evItem := Some (zeroResponsesOutput\<lparr>roType := ''function_call'', roName := ''f''\<rparr>)\<rparr>
      # [zeroResponsesStreamEvent\<lparr>evType := ''response.function_call_arguments.delta'', evOutputIndex := 2,
           evDelta := ''[''\<rparr>]
      @ [zeroResponsesStreamEvent\<lparr>evType := ''response.function_call_arguments.done'',
           evOutputIndex := 2, evArguments := ''{}''\<rparr>]))) = None"
proof -
  let ?c = "NewResponsesStreamConverter ''m''"
  let ?item = "zeroResponsesOutput\<lparr>roType := ''function_call'', roName := ''f''\<rparr>"
  let ?add = "zeroResponsesStreamEvent\<lparr>evType := ''response.output_item.added'', evOutputIndex := 2,
        evItem := Some ?item\<rparr>"
  let ?d = "zeroResponsesStreamEvent\<lparr>evType := ''response.function_call_arguments.delta'', evOutputIndex := 2,
           evDelta := ''[''\<rparr>"
  let ?fin = "zeroResponsesStreamEvent\<lparr>evType := ''response.function_call_arguments.done'',
           evOutputIndex := 2, evArguments := ''{}''\<rparr>"
  have obj: "functionToolInput ''{}'' = Inr ''{}''" by (simp add: functionToolInput_Inr)
  have "\<not> cvTerminal ?c" "isToolAdded False 2 ?item ?add" "list_all (isToolDelta False 2) [?d]"
    "isToolDone False 2 ?fin"
    by (simp_all add: isToolAdded_def isToolDelta_def isToolDone_def zeros)
  from function_call_lossless [OF this] obj show ?thesis
    by (auto simp: Let_def zeros split: prod.splits)
qed

text \<open>
  A custom tool call reaches the client as one piece of JSON. Its raw input, collected from the deltas
  (or taken from the done event), is wrapped into a single \<^verbatim>\<open>{"input": ...}\<close> object, the only delta of its
  block, whatever the input contains.
\<close>

theorem custom_call_lossless:
  assumes "\<not> cvTerminal c" "isToolAdded True i item added" "list_all (isToolDelta True i) es"
    "isToolDone True i fin"
  shows "case processAll c (added # es @ [fin]) of (c', out, err) \<Rightarrow>
     let n = nextIndex c;
         input = (if evInput fin = [] then concat (map evDelta es) else evInput fin)
     in out = startEvents c @ snd (closeActive c)
            @ [toolStart n item, blockDelta n (inputJsonDelta (customToolInput input)), blockStop n]
        \<and> json_object (customToolInput input)
        \<and> err = None \<and> cvActive c' = None \<and> cvHasTool c'"
  unfolding append_Cons [symmetric] processAll_snoc [OF tool_call_open [OF assms(1-3)]]
    custom_call_close [OF assms(1,2,4)]
  by (simp add: Let_def)

theorem custom_call_lossless_witness:
  "snd (snd (processAll (NewResponsesStreamConverter ''m'')
     (zeroResponsesStreamEvent\<lparr>evType := ''response.output_item.added'',
        evItem := Some (zeroResponsesOutput\<lparr>roType := ''custom_tool_call''\<rparr>)\<rparr>
      # [zeroResponsesStreamEvent\<lparr>evType := ''response.custom_tool_call_input.delta'', evDelta := ''ls''\<rparr>]
      @ [zeroResponsesStreamEvent\<lparr>evType := ''response.custom_tool_call_input.done''\<rparr>]))) = None"
proof -
  let ?c = "NewResponsesStreamConverter ''m''"
  let ?item = "zeroResponsesOutput\<lparr>roType := ''custom_tool_call''\<rparr>"
  let ?add = "zeroResponsesStreamEvent\<lparr>evType := ''response.output_item.added'', evItem := Some ?item\<rparr>"
  let ?d = "zeroResponsesStreamEvent\<lparr>evType := ''response.custom_tool_call_input.delta'', evDelta := ''ls''\<rparr>"
  let ?fin = "zeroResponsesStreamEvent\<lparr>evType := ''response.custom_tool_call_input.done''\<rparr>"
  have "\<not> cvTerminal ?c" "isToolAdded True 0 ?item ?add" "list_all (isToolDelta True 0) [?d]"
    "isToolDone True 0 ?fin"
    by (simp_all add: isToolAdded_def isToolDelta_def isToolDone_def zeros)
  from custom_call_lossless [OF this] show ?thesis
    by (auto simp: Let_def split: prod.splits)
qed

end
