(* ===== verification/Accumulator.thy ===== *)
theory Accumulator
  imports Stream_Converter Stream_Machine "HOL-Library.AList"
begin

text \<open>
  \<^verbatim>\<open>internal/protocol/accumulator.go\<close>: the response accumulator of the non-streaming path. Its map from
  output index to item is an association list with distinct keys; an item the source mutates through its
  pointer is written back under its index. Indexing a slice with a negative event index is a panic.
\<close>

section \<open>State\<close>

record ResponseAccumulator =
  acResponse :: ResponsesResponse
  acItems :: "(int \<times> ResponsesOutput) list"
  acTerminal :: bool
  acErr :: "go_error option"

definition NewResponseAccumulator :: ResponseAccumulator where
  "NewResponseAccumulator = \<lparr>acResponse = zeroResponsesResponse, acItems = [], acTerminal = False,
     acErr = None\<rparr>"

type_synonym acc_step = "(ResponseAccumulator \<times> go_error option) go"

definition setItem :: "ResponseAccumulator \<Rightarrow> int \<Rightarrow> ResponsesOutput \<Rightarrow> ResponseAccumulator" where
  "setItem a index item = a\<lparr>acItems := AList.update index item (acItems a)\<rparr>"

section \<open>Items and their parts\<close>

text \<open>The item a pointer of \<^verbatim>\<open>accumulator.item\<close> points to; the caller stores it back with \<open>setItem\<close>.\<close>

definition accItem :: "ResponseAccumulator \<Rightarrow> int \<Rightarrow> string \<Rightarrow> ResponsesOutput" where
  "accItem a index itemType =
     (case map_of (acItems a) index of
        None \<Rightarrow> zeroResponsesOutput\<lparr>roType := itemType\<rparr>
      | Some item \<Rightarrow> if roType item = [] then item\<lparr>roType := itemType\<rparr> else item)"

text \<open>The loop that appends until the index is inside the slice.\<close>

function growTo :: "'a \<Rightarrow> int \<Rightarrow> 'a list \<Rightarrow> 'a list" where
  "growTo x index xs = (if int (length xs) \<le> index then growTo x index (xs @ [x]) else xs)"
  by pat_completeness auto
termination
  by (relation "measure (\<lambda>(x, index, xs). nat (index + 1 - int (length xs)))") auto

declare growTo.simps [simp del]

lemma growTo_replicate: "growTo x index xs = xs @ replicate (nat (index + 1 - int (length xs))) x"
proof (induction x index xs rule: growTo.induct)
  case (1 x index xs)
  show ?case
  proof (cases "int (length xs) \<le> index")
    case True
    then have "nat (index + 1 - int (length xs)) = Suc (nat (index + 1 - int (length (xs @ [x]))))"
      by simp
    then show ?thesis using 1 [OF True] True by (simp add: growTo.simps [of x index xs])
  qed (simp add: growTo.simps [of x index xs])
qed

lemma length_growTo [simp]: "length (growTo x index xs) = max (length xs) (nat (index + 1))"
  by (simp add: growTo_replicate)

text \<open>
  \<open>ensureContentPart\<close> and \<open>ensureSummaryPart\<close> return a pointer to one part, which the caller changes:
  they take the change and return the item with it made.
\<close>

definition ensureContentPart ::
  "ResponsesOutput \<Rightarrow> int \<Rightarrow> string \<Rightarrow> (ResponsesContentPart \<Rightarrow> ResponsesContentPart) \<Rightarrow> ResponsesOutput go" where
  "ensureContentPart item index partType change =
     (let content = growTo (zeroResponsesContentPart\<lparr>cpType := partType\<rparr>) index (roContent item) in
      if index < 0 then Panic ''index out of range''
      else
        let part = content ! nat index;
            part1 = (if cpType part = [] then part\<lparr>cpType := partType\<rparr> else part)
        in Ret (item\<lparr>roContent := content[nat index := change part1]\<rparr>))"

definition ensureSummaryPart ::
  "ResponsesOutput \<Rightarrow> int \<Rightarrow> (ResponsesSummary \<Rightarrow> ResponsesSummary) \<Rightarrow> ResponsesOutput go" where
  "ensureSummaryPart item index change =
     (let summary = growTo (zeroResponsesSummary\<lparr>rsType := ''summary_text''\<rparr>) index (roSummary item) in
      if index < 0 then Panic ''index out of range''
      else
        let part = summary ! nat index;
            part1 = (if rsType part = [] then part\<lparr>rsType := ''summary_text''\<rparr> else part)
        in Ret (item\<lparr>roSummary := summary[nat index := change part1]\<rparr>))"

definition captureCallMetadata :: "ResponsesOutput \<Rightarrow> ResponsesStreamEvent \<Rightarrow> ResponsesOutput" where
  "captureCallMetadata item event =
     (let item1 = (if evCallID event \<noteq> [] then item\<lparr>roCallID := evCallID event\<rparr> else item)
      in if evName event \<noteq> [] then item1\<lparr>roName := evName event\<rparr> else item1)"

definition mergeOutput :: "ResponsesOutput \<Rightarrow> ResponsesOutput \<Rightarrow> ResponsesOutput" where
  "mergeOutput current d = \<lparr>
     roType = (if roType d \<noteq> [] then roType d else roType current),
     roID = (if roID d \<noteq> [] then roID d else roID current),
     roRole = (if roRole d \<noteq> [] then roRole d else roRole current),
     roStatus = (if roStatus d \<noteq> [] then roStatus d else roStatus current),
     roContent = (if roContent d \<noteq> [] then roContent d else roContent current),
     roEncryptedContent = (if roEncryptedContent d \<noteq> [] then roEncryptedContent d
       else roEncryptedContent current),
     roSummary = (if roSummary d \<noteq> [] then roSummary d else roSummary current),
     roCallID = (if roCallID d \<noteq> [] then roCallID d else roCallID current),
     roName = (if roName d \<noteq> [] then roName d else roName current),
     roArguments = (if roArguments d \<noteq> [] then roArguments d else roArguments current),
     roInput = (if roInput d \<noteq> [] then roInput d else roInput current)\<rparr>"

section \<open>Response metadata and the final output\<close>

definition captureResponse ::
  "ResponseAccumulator \<Rightarrow> ResponsesResponse option \<Rightarrow> bool \<Rightarrow> ResponseAccumulator" where
  "captureResponse a response terminal =
     (case response of
        None \<Rightarrow> a
      | Some r \<Rightarrow> let old = acResponse a in a\<lparr>acResponse := \<lparr>
          rpID = (if rpID r \<noteq> [] then rpID r else rpID old),
          rpObject = (if rpObject r \<noteq> [] then rpObject r else rpObject old),
          rpModel = (if rpModel r \<noteq> [] then rpModel r else rpModel old),
          rpStatus = (if rpStatus r \<noteq> [] then rpStatus r else rpStatus old),
          rpOutput = (if terminal \<and> rpOutput r \<noteq> [] then rpOutput r else rpOutput old),
          rpUsage = (if rpUsage r \<noteq> None then rpUsage r else rpUsage old),
          rpIncompleteDetails = (if rpIncompleteDetails r \<noteq> None then rpIncompleteDetails r
            else rpIncompleteDetails old),
          rpError = (if rpError r \<noteq> None then rpError r else rpError old)\<rparr>\<rparr>)"

definition sortedOutput :: "ResponseAccumulator \<Rightarrow> ResponsesOutput list" where
  "sortedOutput a = map (\<lambda>index. the (map_of (acItems a) index)) (sort (map fst (acItems a)))"

definition accFail :: "ResponseAccumulator \<Rightarrow> go_error option \<Rightarrow> ResponseAccumulator \<times> go_error option" where
  "accFail a err =
     (let e = (case err of None \<Rightarrow> ErrNew ''upstream Responses error'' | Some e \<Rightarrow> e)
      in (a\<lparr>acTerminal := True, acErr := Some e\<rparr>, Some e))"

section \<open>Process and Finalize\<close>

definition storing :: "ResponseAccumulator \<Rightarrow> int \<Rightarrow> ResponsesOutput go \<Rightarrow> acc_step" where
  "storing a index m = bind_go m (\<lambda>item. Ret (setItem a index item, None))"

definition accTerminal :: "ResponseAccumulator \<Rightarrow> ResponsesStreamEvent \<Rightarrow> ResponseAccumulator \<times> go_error option" where
  "accTerminal a event =
     (if failedResponse (evResponse event) then
        accFail a (Some (responseError (rpError (the (evResponse event)))))
      else
        let a1 = captureResponse a (evResponse event) True;
            r1 = acResponse a1;
            r2 = (if rpStatus r1 = [] then
                    r1\<lparr>rpStatus := (if evType event = ''response.incomplete'' then ''incomplete'' else ''completed'')\<rparr>
                  else r1);
            r3 = (if rpUsage r2 = None then r2\<lparr>rpUsage := evUsage event\<rparr> else r2);
            r4 = (if rpOutput r3 = [] then r3\<lparr>rpOutput := sortedOutput a1\<rparr> else r3)
        in (a1\<lparr>acResponse := r4, acTerminal := True\<rparr>, None))"

definition accDispatch :: "ResponseAccumulator \<Rightarrow> ResponsesStreamEvent \<Rightarrow> acc_step" where
  "accDispatch a event =
     (let t = evType event; i = evOutputIndex event in
      if t = ''error'' then Ret (accFail a (Some (upstreamError event)))
      else if t = ''response.failed'' then Ret (accFail a (Some (failedError event)))
      else if t = ''response.created'' then Ret (captureResponse a (evResponse event) False, None)
      else if t = ''response.output_item.added'' then
        (case evItem event of None \<Rightarrow> Ret (a, None) | Some item \<Rightarrow> Ret (setItem a i item, None))
      else if t = ''response.output_text.delta'' then
        storing a i (ensureContentPart (accItem a i ''message'') (evContentIndex event) ''output_text''
          (\<lambda>part. part\<lparr>cpText := cpText part @ evDelta event\<rparr>))
      else if t = ''response.output_text.done'' then
        storing a i (ensureContentPart (accItem a i ''message'') (evContentIndex event) ''output_text''
          (\<lambda>part. if evText event \<noteq> [] then part\<lparr>cpText := evText event\<rparr> else part))
      else if t = ''response.function_call_arguments.delta'' then
        (let item = accItem a i ''function_call'' in
         Ret (setItem a i (captureCallMetadata
           (item\<lparr>roArguments := roArguments item @ evDelta event\<rparr>) event), None))
      else if t = ''response.function_call_arguments.done'' then
        (let item = accItem a i ''function_call'' in
         Ret (setItem a i (captureCallMetadata
           (if evArguments event \<noteq> [] then item\<lparr>roArguments := evArguments event\<rparr> else item) event), None))
      else if t = ''response.custom_tool_call_input.delta'' then
        (let item = accItem a i ''custom_tool_call'' in
         Ret (setItem a i (captureCallMetadata (item\<lparr>roInput := roInput item @ evDelta event\<rparr>) event), None))
      else if t = ''response.custom_tool_call_input.done'' then
        (let item = accItem a i ''custom_tool_call'' in
         Ret (setItem a i (captureCallMetadata
           (if evInput event \<noteq> [] then item\<lparr>roInput := evInput event\<rparr> else item) event), None))
      else if t = ''response.reasoning_summary_text.delta'' \<or> t = ''response.reasoning_text.delta'' then
        storing a i (ensureSummaryPart (accItem a i ''reasoning'') (evSummaryIndex event)
          (\<lambda>part. part\<lparr>rsText := rsText part @ evDelta event\<rparr>))
      else if t = ''response.reasoning_summary_text.done'' \<or> t = ''response.reasoning_text.done'' then
        storing a i (ensureSummaryPart (accItem a i ''reasoning'') (evSummaryIndex event)
          (\<lambda>part. if evText event \<noteq> [] then part\<lparr>rsText := evText event\<rparr> else part))
      else if t = ''response.output_item.done'' then
        (case evItem event of
           None \<Rightarrow> Ret (a, None)
         | Some item \<Rightarrow> Ret (setItem a i (mergeOutput (accItem a i (roType item)) item), None))
      else if t = ''response.completed'' \<or> t = ''response.done'' \<or> t = ''response.incomplete'' then
        Ret (accTerminal a event)
      else Ret (a, None))"

definition accProcess :: "ResponseAccumulator \<Rightarrow> ResponsesStreamEvent \<Rightarrow> acc_step" where
  "accProcess a event = (if acTerminal a then Ret (a, acErr a) else accDispatch a event)"

definition accFinalize :: "ResponseAccumulator \<Rightarrow> ResponsesResponse result" where
  "accFinalize a =
     (case acErr a of
        Some e \<Rightarrow> Inl e
      | None \<Rightarrow> if \<not> acTerminal a then Inl ErrMissingTerminalEvent else Inr (acResponse a))"

end
