(* ===== verification/Upstream_Response.thy ===== *)
theory Upstream_Response
  imports Accumulator
begin

text \<open>
  What the Responses API streams for one successful response, as a specification for both ways to serve it: which
  events may come, in which order and with which contents. It is a relation, not a generator: whatever the adapter
  does not look at (sequence numbers, item identifiers, roles and statuses of items, models, events of other types)
  is left open.
\<close>

section \<open>Output items\<close>

text \<open>
  An output item by what it says: the parts of a message (a text, or a part of another kind such as a refusal), a
  function call or a custom tool call with its call identifier, name and whole input, a reasoning item with the
  texts of its summary and its encrypted content, or an item of a type that has no counterpart in a message.
\<close>

datatype upItem =
    UpText "string option list"
  | UpFunction string string string
  | UpCustom string string string
  | UpReasoning "string list" string
  | UpOther string

text \<open>A whole item, as the event that ends the item has it, or the output of the terminal event.\<close>

fun carriesPart :: "string option \<Rightarrow> ResponsesContentPart \<Rightarrow> bool" where
  "carriesPart (Some t) p \<longleftrightarrow> cpType p = ''output_text'' \<and> cpText p = t"
| "carriesPart None p \<longleftrightarrow> cpType p \<noteq> ''output_text''"

fun carries :: "upItem \<Rightarrow> ResponsesOutput \<Rightarrow> bool" where
  "carries (UpText ps) x \<longleftrightarrow> roType x = ''message'' \<and> list_all2 carriesPart ps (roContent x)"
| "carries (UpFunction c n args) x \<longleftrightarrow>
     roType x = ''function_call'' \<and> roCallID x = c \<and> roName x = n \<and> roArguments x = args"
| "carries (UpCustom c n input) x \<longleftrightarrow>
     roType x = ''custom_tool_call'' \<and> roCallID x = c \<and> roName x = n \<and> roInput x = input"
| "carries (UpReasoning ss e) x \<longleftrightarrow> roType x = ''reasoning'' \<and> roEncryptedContent x = e
     \<and> list_all2 (\<lambda>s p. rsType p = ''summary_text'' \<and> rsText p = s) ss (roSummary x)"
| "carries (UpOther t) x \<longleftrightarrow> roType x = t"

text \<open>
  The item the event that adds it has: nothing of its contents yet, save that a reasoning item may bring an
  encrypted content early.
\<close>

fun begins :: "upItem \<Rightarrow> ResponsesOutput \<Rightarrow> bool" where
  "begins (UpText ps) x \<longleftrightarrow> roType x = ''message'' \<and> roContent x = []"
| "begins (UpFunction c n args) x \<longleftrightarrow>
     roType x = ''function_call'' \<and> roCallID x = c \<and> roName x = n \<and> roArguments x = []"
| "begins (UpCustom c n input) x \<longleftrightarrow>
     roType x = ''custom_tool_call'' \<and> roCallID x = c \<and> roName x = n \<and> roInput x = []"
| "begins (UpReasoning ss e) x \<longleftrightarrow>
     roType x = ''reasoning'' \<and> roSummary x = [] \<and> (e = [] \<longrightarrow> roEncryptedContent x = [])"
| "begins (UpOther t) x \<longleftrightarrow> roType x = t"

text \<open>
  The items the equivalence is about: function arguments are a JSON object, or empty; reasoning has a summary or an
  encrypted content, which is not white space; any other item has a type the adapter does not turn into blocks.
\<close>

fun okItem :: "upItem \<Rightarrow> bool" where
  "okItem (UpFunction c n args) \<longleftrightarrow> args = [] \<or> \<not> isBlank args \<and> json_object args"
| "okItem (UpReasoning ss e) \<longleftrightarrow> (concat ss \<noteq> [] \<or> e \<noteq> []) \<and> (e = [] \<or> \<not> isBlank e)"
| "okItem (UpOther t) \<longleftrightarrow> t \<notin> set [[], ''message'', ''function_call'', ''custom_tool_call'', ''reasoning'']"
| "okItem it \<longleftrightarrow> True"

section \<open>The events of an item\<close>

definition about :: "string \<Rightarrow> int \<Rightarrow> ResponsesStreamEvent \<Rightarrow> bool" where
  "about t i e \<longleftrightarrow> evType e = t \<and> evOutputIndex e = i \<and> evResponse e = None"

text \<open>
  One text said in pieces: its delta events, any number and any of them empty, and the event that repeats it whole.
  The deltas together are the text, or there are none that say anything.
\<close>

definition says :: "string \<Rightarrow> (ResponsesStreamEvent \<Rightarrow> string) \<Rightarrow> (ResponsesStreamEvent \<Rightarrow> bool) \<Rightarrow> int \<Rightarrow> string \<Rightarrow>
    ResponsesStreamEvent list \<Rightarrow> ResponsesStreamEvent \<Rightarrow> bool" where
  "says stem whole addressed i t ds fin \<longleftrightarrow>
     (\<forall>d\<in>set ds. about (stem @ ''.delta'') i d \<and> addressed d)
     \<and> about (stem @ ''.done'') i fin \<and> addressed fin \<and> whole fin = t
     \<and> (concat (map evDelta ds) = t \<or> concat (map evDelta ds) = [])"

text \<open>The parts of a message, from content index \<open>k\<close> on; of a part that is no text nothing is said by these events.\<close>

inductive textParts :: "int \<Rightarrow> int \<Rightarrow> string option list \<Rightarrow> ResponsesStreamEvent list \<Rightarrow> bool" where
  no_part: "textParts i k [] []"
| text_part: "says ''response.output_text'' evText (\<lambda>e. evContentIndex e = k) i t ds fin \<Longrightarrow>
     textParts i (k + 1) ps es \<Longrightarrow> textParts i k (Some t # ps) (ds @ fin # es)"
| other_part: "textParts i (k + 1) ps es \<Longrightarrow> textParts i k (None # ps) es"

text \<open>The parts of a reasoning summary, from summary index \<open>k\<close> on; each is streamed in deltas.\<close>

inductive thoughts :: "int \<Rightarrow> int \<Rightarrow> string list \<Rightarrow> ResponsesStreamEvent list \<Rightarrow> bool" where
  no_thought: "thoughts i k [] []"
| a_thought: "says ''response.reasoning_summary_text'' evText (\<lambda>e. evSummaryIndex e = k) i s ds fin \<Longrightarrow>
     concat (map evDelta ds) = s \<Longrightarrow> thoughts i (k + 1) ss es \<Longrightarrow> thoughts i k (s # ss) (ds @ fin # es)"

definition forCall :: "string \<Rightarrow> string \<Rightarrow> ResponsesStreamEvent \<Rightarrow> bool" where
  "forCall c n e \<longleftrightarrow> evCallID e \<in> {[], c} \<and> evName e \<in> {[], n}"

fun itemBody :: "int \<Rightarrow> upItem \<Rightarrow> ResponsesStreamEvent list \<Rightarrow> bool" where
  "itemBody i (UpText ps) es \<longleftrightarrow> textParts i 0 ps es"
| "itemBody i (UpFunction c n args) es \<longleftrightarrow>
     (\<exists>ds fin. es = ds @ [fin] \<and> says ''response.function_call_arguments'' evArguments (forCall c n) i args ds fin)"
| "itemBody i (UpCustom c n input) es \<longleftrightarrow>
     (\<exists>ds fin. es = ds @ [fin] \<and> says ''response.custom_tool_call_input'' evInput (forCall c n) i input ds fin)"
| "itemBody i (UpReasoning ss e) es \<longleftrightarrow> thoughts i 0 ss es"
| "itemBody i (UpOther t) es \<longleftrightarrow> es = []"

definition streamsItem :: "int \<Rightarrow> upItem \<Rightarrow> ResponsesStreamEvent list \<Rightarrow> bool" where
  "streamsItem i it es \<longleftrightarrow> (\<exists>added x body fin y. es = added # body @ [fin]
     \<and> about ''response.output_item.added'' i added \<and> evItem added = Some x \<and> begins it x
     \<and> itemBody i it body
     \<and> about ''response.output_item.done'' i fin \<and> evItem fin = Some y \<and> carries it y)"

inductive streamsItems :: "int \<Rightarrow> upItem list \<Rightarrow> ResponsesStreamEvent list \<Rightarrow> bool" where
  no_items: "streamsItems i [] []"
| an_item: "streamsItem i it es \<Longrightarrow> streamsItems (i + 1) its fs \<Longrightarrow> streamsItems i (it # its) (es @ fs)"

section \<open>The whole response\<close>

text \<open>
  Events that pass without a meaning for the message, such as \<^verbatim>\<open>response.in_progress\<close>, \<^verbatim>\<open>response.content_part.added\<close> or
  \<^verbatim>\<open>response.refusal.delta\<close>: every type but the ones listed. A response in such an event is the one being streamed.
\<close>

definition meaningful :: "string list" where
  "meaningful = [''error'', ''response.failed'', ''response.created'', ''response.output_item.added'',
     ''response.output_item.done'', ''response.output_text.delta'', ''response.output_text.done'',
     ''response.function_call_arguments.delta'', ''response.function_call_arguments.done'',
     ''response.custom_tool_call_input.delta'', ''response.custom_tool_call_input.done'',
     ''response.reasoning_summary_text.delta'', ''response.reasoning_summary_text.done'',
     ''response.reasoning_text.delta'', ''response.reasoning_text.done'',
     ''response.completed'', ''response.done'', ''response.incomplete'']"

definition passing :: "string \<Rightarrow> ResponsesStreamEvent \<Rightarrow> bool" where
  "passing i e \<longleftrightarrow> evType e \<notin> set meaningful
     \<and> (case evResponse e of None \<Rightarrow> True | Some r \<Rightarrow> rpID r \<in> {[], i})"

definition opens :: "string \<Rightarrow> ResponsesResponse \<Rightarrow> ResponsesStreamEvent \<Rightarrow> bool" where
  "opens i r0 e \<longleftrightarrow> evType e = ''response.created'' \<and> evResponse e = Some r0 \<and> rpID r0 = i
     \<and> rpUsage r0 = None \<and> rpIncompleteDetails r0 = None \<and> rpError r0 = None"

text \<open>
  The terminal event of a response that has not failed. Its output, if it brings one, is that of the items; it
  has to bring one when the items were not \<open>shown\<close> before. Its status may be missing only when the first event had
  none either.
\<close>

definition closes :: "string \<Rightarrow> upItem list \<Rightarrow> bool \<Rightarrow> ResponsesResponse \<Rightarrow> ResponsesStreamEvent \<Rightarrow> bool" where
  "closes i its shown r0 e \<longleftrightarrow> evType e \<in> set [''response.completed'', ''response.done'', ''response.incomplete'']
     \<and> (case evResponse e of
          None \<Rightarrow> shown \<and> rpStatus r0 = []
        | Some r \<Rightarrow> rpID r \<in> {[], i} \<and> rpStatus r \<noteq> ''failed'' \<and> rpError r = None
            \<and> (rpStatus r = [] \<longrightarrow> rpStatus r0 = [])
            \<and> (shown \<and> rpOutput r = [] \<or> list_all2 carries its (rpOutput r)))"

text \<open>
  A response with the identifier \<open>i\<close> and the items \<open>its\<close>, streamed up to its terminal event \<open>fin\<close>: the items come
  one after the other between the first and the last event, or all at once with the last; passing events may come
  anywhere in between.
\<close>

definition responds :: "string \<Rightarrow> upItem list \<Rightarrow> ResponsesStreamEvent \<Rightarrow> ResponsesStreamEvent list \<Rightarrow> bool" where
  "responds i its fin es \<longleftrightarrow> (\<exists>created r0 mid shown. es = created # mid @ [fin]
     \<and> opens i r0 created
     \<and> streamsItems 0 (if shown then its else []) (filter (\<lambda>e. \<not> passing i e) mid)
     \<and> closes i its shown r0 fin)"

section \<open>The blocks of the items\<close>

definition textBlock :: "string \<Rightarrow> AnthropicContentBlock" where
  "textBlock t = zeroAnthropicContentBlock\<lparr>cbType := ''text'', cbText := t\<rparr>"

definition toolUse :: "string \<Rightarrow> string \<Rightarrow> string \<Rightarrow> AnthropicContentBlock" where
  "toolUse i n input = zeroAnthropicContentBlock\<lparr>cbType := ''tool_use'', cbID := i, cbName := n, cbInput := input\<rparr>"

fun textBlocks :: "string option list \<Rightarrow> AnthropicContentBlock list" where
  "textBlocks [] = []"
| "textBlocks (Some t # ps) = (if t = [] then [] else [textBlock t]) @ textBlocks ps"
| "textBlocks (None # ps) = textBlocks ps"

fun blocksOf :: "upItem \<Rightarrow> AnthropicContentBlock list" where
  "blocksOf (UpText ps) = textBlocks ps"
| "blocksOf (UpFunction c n args) = [toolUse c n (if args = [] then ''{}'' else args)]"
| "blocksOf (UpCustom c n input) = [toolUse c n (customToolInput input)]"
| "blocksOf (UpReasoning ss e) =
     [zeroAnthropicContentBlock\<lparr>cbType := ''thinking'', cbThinking := concat ss, cbSignature := e\<rparr>]"
| "blocksOf (UpOther t) = []"

fun isTool :: "upItem \<Rightarrow> bool" where
  "isTool (UpFunction c n args) \<longleftrightarrow> True"
| "isTool (UpCustom c n input) \<longleftrightarrow> True"
| "isTool it \<longleftrightarrow> False"

lemma no_blocks_no_tool: "concat (map blocksOf its) = [] \<Longrightarrow> \<not> list_ex isTool its"
proof (induction its)
  case (Cons it its)
  then show ?case by (cases it) auto
qed simp

text \<open>No blocks count as one empty text.\<close>

definition orEmptyText :: "AnthropicContentBlock list \<Rightarrow> AnthropicContentBlock list" where
  "orEmptyText bs = (if bs = [] then [textBlock []] else bs)"

text \<open>The message of the response.\<close>

definition messageOf :: "string \<Rightarrow> string \<Rightarrow> upItem list \<Rightarrow> ResponsesStreamEvent \<Rightarrow> AnthropicResponse" where
  "messageOf model i its fin = \<lparr>rmID = i, rmType = ''message'', rmRole = ''assistant'',
     rmContent = orEmptyText (concat (map blocksOf its)), rmModel = model,
     rmStopReason = Some (stopReasonFor (terminalStatus fin) (terminalDetails fin) (list_ex isTool its)),
     rmStopSequence = None, rmUsage = anthropicUsage (terminalUsage fin)\<rparr>"

lemma textBlocks_carried: "list_all2 carriesPart ps content \<Longrightarrow>
    map (\<lambda>part. zeroAnthropicContentBlock\<lparr>cbType := ''text'', cbText := cpText part\<rparr>)
      (filter (\<lambda>part. cpType part = ''output_text'' \<and> cpText part \<noteq> []) content) = textBlocks ps"
proof (induction rule: list_all2_induct)
  case (Cons p ps c content)
  then show ?case by (cases p) (auto simp: textBlock_def)
qed simp

lemma summary_carried: "list_all2 (\<lambda>s p. rsType p = ''summary_text'' \<and> rsText p = s) ss summary \<Longrightarrow>
    summaryText summary = concat ss"
  by (induction rule: list_all2_induct) (auto simp: summaryText_def)

lemma outputItemBlocks_carried: "okItem it \<Longrightarrow> carries it x \<Longrightarrow> outputItemBlocks k x = Inr (blocksOf it, isTool it)"
  by (cases it) (auto simp: outputItemBlocks_def textBlocks_carried summary_carried toolUse_def functionToolInput_def
      json_object_def isBlank_def split: option.split)

lemma outputBlocksFrom_carried:
  "list_all2 carries its xs \<Longrightarrow> list_all okItem its \<Longrightarrow>
     outputBlocksFrom k xs = Inr (concat (map blocksOf its), list_ex isTool its)"
proof (induction arbitrary: k rule: list_all2_induct)
  case (Cons it its x xs)
  then show ?case using outputItemBlocks_carried [of it x k] by simp
qed simp

end
