(* ===== verification/Accumulator_Laws.thy ===== *)
theory Accumulator_Laws
  imports Accumulator
begin

text \<open>
  What the accumulator promises: one terminal event closes it and only that lets it succeed, exactly when
  an event makes it panic, and that the items it assembles depend only on each output index's own events.
\<close>

section \<open>Bookkeeping\<close>

lemma update_update [simp]: "AList.update k v (AList.update k w al) = AList.update k v al"
  by (induction al) auto

lemma acItems_setItem [simp]: "acItems (setItem a i x) = AList.update i x (acItems a)"
  and acTerminal_setItem [simp]: "acTerminal (setItem a i x) = acTerminal a"
  and acErr_setItem [simp]: "acErr (setItem a i x) = acErr a"
  and acResponse_setItem [simp]: "acResponse (setItem a i x) = acResponse a"
  and setItem_setItem [simp]: "setItem (setItem a i x) i y = setItem a i y"
  by (simp_all add: setItem_def)

lemma accItem_setItem [simp]: "roType x \<noteq> [] \<Longrightarrow> accItem (setItem a i x) i t = x"
  by (simp add: accItem_def update_conv')

lemma map_of_setItem [simp]: "map_of (acItems (setItem a i x)) = (map_of (acItems a))(i \<mapsto> x)"
  by (simp add: update_conv')

lemma captureResponse_items [simp]:
  "acItems (captureResponse a r t) = acItems a"
  "acTerminal (captureResponse a r t) = acTerminal a"
  "acErr (captureResponse a r t) = acErr a"
  by (simp_all add: captureResponse_def Let_def split: option.split)

lemma ensureContentPart_negative: "index < 0 \<Longrightarrow> ensureContentPart item index t f = Panic ''index out of range''"
  and ensureSummaryPart_negative: "index < 0 \<Longrightarrow> ensureSummaryPart item index g = Panic ''index out of range''"
  by (simp_all add: ensureContentPart_def ensureSummaryPart_def Let_def)

lemma ensureContentPart_Ret: "0 \<le> index \<Longrightarrow> \<exists>r. ensureContentPart item index t f = Ret r"
  and ensureSummaryPart_Ret: "0 \<le> index \<Longrightarrow> \<exists>r. ensureSummaryPart item index g = Ret r"
  by (simp_all add: ensureContentPart_def ensureSummaryPart_def Let_def)

section \<open>The invariant\<close>

definition wfAcc :: "ResponseAccumulator \<Rightarrow> bool" where
  "wfAcc a \<longleftrightarrow> distinct (map fst (acItems a)) \<and> (acErr a \<noteq> None \<longrightarrow> acTerminal a)"

lemma wfAcc_new [simp]: "wfAcc NewResponseAccumulator"
  by (simp add: wfAcc_def NewResponseAccumulator_def)

lemma wfAcc_setItem [simp]: "wfAcc a \<Longrightarrow> wfAcc (setItem a i x)"
  by (simp add: wfAcc_def distinct_update)

lemma wfAcc_fail [simp]: "wfAcc a \<Longrightarrow> wfAcc (fst (accFail a e))"
  by (simp add: wfAcc_def accFail_def Let_def)

text \<open>What one step may do: a panic, a failure, or a step without error that keeps \<open>Err\<close>.\<close>

definition accStepOk :: "ResponseAccumulator \<Rightarrow> acc_step \<Rightarrow> bool" where
  "accStepOk a s = (case s of Panic p \<Rightarrow> True
     | Ret (a', err) \<Rightarrow> wfAcc a' \<and> acErr a' = (case err of None \<Rightarrow> acErr a | Some e \<Rightarrow> Some e))"

lemma accStepOk_fail [conv_step]: "wfAcc a \<Longrightarrow> accStepOk a (Ret (accFail a e))"
  by (simp add: accStepOk_def accFail_def Let_def wfAcc_def)

lemma accStepOk_set [conv_step]: "wfAcc a \<Longrightarrow> accStepOk a (Ret (setItem a i x, None))"
  by (simp add: accStepOk_def)

lemma accStepOk_same [conv_step]: "wfAcc a \<Longrightarrow> accStepOk a (Ret (a, None))"
  by (simp add: accStepOk_def)

lemma accStepOk_capture [conv_step]: "wfAcc a \<Longrightarrow> accStepOk a (Ret (captureResponse a r t, None))"
  by (simp add: accStepOk_def wfAcc_def)

lemma accStepOk_storing [conv_step]: "wfAcc a \<Longrightarrow> accStepOk a (storing a i m)"
  by (cases m) (simp_all add: storing_def conv_step, simp add: accStepOk_def)

lemma accStepOk_terminal [conv_step]: "wfAcc a \<Longrightarrow> accStepOk a (Ret (accTerminal a event))"
  by (simp add: accTerminal_def conv_step Let_def) (simp add: accStepOk_def wfAcc_def)

lemma accDispatch_ok: "wfAcc a \<Longrightarrow> accStepOk a (accDispatch a event)"
proof -
  assume wf: "wfAcc a"
  have if_P: "accStepOk a (if b then x else y)" if "accStepOk a x" "accStepOk a y" for b x y
    using that by simp
  have opt: "accStepOk a (case z of None \<Rightarrow> Ret (a, None) | Some y \<Rightarrow> Ret (setItem a i (f y), None))" for z :: "'z option" and f i
    using wf by (cases z) (simp_all add: conv_step)
  show ?thesis
    unfolding accDispatch_def Let_def by (intro if_P opt) (simp_all add: conv_step wf)
qed

section \<open>The accumulator as a stream machine\<close>

definition accStep :: "ResponseAccumulator \<Rightarrow> ResponsesStreamEvent \<Rightarrow> ResponseAccumulator option" where
  "accStep a event = (case accProcess a event of Ret (a', _) \<Rightarrow> Some a' | Panic _ \<Rightarrow> None)"

definition accFinalError :: "ResponseAccumulator \<Rightarrow> go_error option" where
  "accFinalError a = (case accFinalize a of Inl e \<Rightarrow> Some e | Inr _ \<Rightarrow> None)"

lemma accFinalError_simps: "wfAcc a \<Longrightarrow>
    accFinalError a = (if acTerminal a then acErr a else Some ErrMissingTerminalEvent)"
  by (auto simp: accFinalError_def accFinalize_def wfAcc_def split: option.split)

lemma accTerminal_closes [simp]: "acTerminal (fst (accTerminal a event))"
  by (simp add: accTerminal_def accFail_def Let_def)

lemma accFail_closes [simp]: "acTerminal (fst (accFail a e))"
  by (simp add: accFail_def Let_def)

lemma accDispatch_closes:
  "isTerminalResponsesEvent (evType event) \<Longrightarrow>
     \<exists>s. accDispatch a event = Ret s \<and> acTerminal (fst s)"
  unfolding isTerminalResponsesEvent_def
  by (elim disjE) (simp_all add: accDispatch_def)

definition accStaysOpen :: "ResponseAccumulator \<Rightarrow> acc_step \<Rightarrow> bool" where
  "accStaysOpen a s = (case s of Panic p \<Rightarrow> True | Ret (a', err) \<Rightarrow> err = None \<and> acTerminal a' = acTerminal a)"

lemma accStaysOpen_storing: "accStaysOpen a (storing a i m)"
  by (cases m) (simp_all add: storing_def accStaysOpen_def)

lemma accDispatch_staysOpen:
  assumes "\<not> isTerminalResponsesEvent (evType event)"
  shows "accStaysOpen a (accDispatch a event)"
proof -
  have if_P: "accStaysOpen a (if b then x else y)"
    if "b \<Longrightarrow> accStaysOpen a x" "\<not> b \<Longrightarrow> accStaysOpen a y" for b x y
    using that by simp
  have "accStaysOpen a (Ret (setItem a i x, None))" "accStaysOpen a (Ret (a, None))"
    "accStaysOpen a (Ret (captureResponse a r t, None))" for i x r t
    by (simp_all add: accStaysOpen_def)
  moreover from this
  have "accStaysOpen a (case z of None \<Rightarrow> Ret (a, None) | Some y \<Rightarrow> Ret (setItem a i (f y), None))"
    for z :: "'z option" and f i
    by (cases z) simp_all
  ultimately show ?thesis
    using assms unfolding accDispatch_def Let_def isTerminalResponsesEvent_def
    by (intro if_P) (simp_all add: accStaysOpen_storing)
qed

interpretation accumulator_machine: stream_machine accStep acTerminal accFinalError
    "\<lambda>event. isTerminalResponsesEvent (evType event)" wfAcc
proof unfold_locales
  fix a :: ResponseAccumulator and e
  assume "acTerminal a"
  then show "accStep a e = Some a" by (simp add: accStep_def accProcess_def)
next
  fix a :: ResponseAccumulator and e :: ResponsesStreamEvent
  assume "wfAcc a" "isTerminalResponsesEvent (evType e)"
  then show "\<exists>a'. accStep a e = Some a' \<and> acTerminal a'"
    using accDispatch_closes [of e a] by (auto simp: accStep_def accProcess_def split: prod.split)
next
  fix a a' :: ResponseAccumulator and e
  assume "wfAcc a" "accStep a e = Some a'"
  then show "wfAcc a'"
    using accDispatch_ok [of a e]
    by (auto simp: accStep_def accProcess_def accStepOk_def split: if_splits go.splits prod.splits)
next
  fix a a' :: ResponseAccumulator and e
  assume "\<not> acTerminal a" "\<not> isTerminalResponsesEvent (evType e)" "accStep a e = Some a'" "acTerminal a'"
  then show "accFinalError a' \<noteq> None"
    using accDispatch_staysOpen [of e a]
    by (auto simp: accStep_def accProcess_def accStaysOpen_def split: go.splits prod.splits)
next
  fix a :: ResponseAccumulator
  assume "wfAcc a" "\<not> acTerminal a"
  then show "accFinalError a = Some ErrMissingTerminalEvent" by (simp add: accFinalError_simps)
qed

section \<open>Panics\<close>

lemma storing_Panic [simp]: "storing a i m = Panic p \<longleftrightarrow> m = Panic p"
  by (cases m) (simp_all add: storing_def)

lemma ensure_Panic [simp]:
  "ensureContentPart item index t f = Panic p \<longleftrightarrow> index < 0 \<and> p = ''index out of range''"
  "ensureSummaryPart item index g = Panic p \<longleftrightarrow> index < 0 \<and> p = ''index out of range''"
  by (auto simp: ensureContentPart_def ensureSummaryPart_def Let_def)

text \<open>
  C8: The accumulator panics exactly on a text or reasoning event whose part index is negative, which the
  event decoder lets through; every other event, in every state, returns. The converter of the streaming
  path has no such failure.
\<close>

theorem acc_panics_iff:
  "accProcess a event = Panic p \<longleftrightarrow>
     p = ''index out of range'' \<and> \<not> acTerminal a \<and>
     (if evType event \<in> {''response.output_text.delta'', ''response.output_text.done''}
      then evContentIndex event < 0
      else evType event \<in> {''response.reasoning_summary_text.delta'', ''response.reasoning_text.delta'',
             ''response.reasoning_summary_text.done'', ''response.reasoning_text.done''}
           \<and> evSummaryIndex event < 0)"
proof -
  have if_P: "((if b then x else y) = Panic p) = q"
    if "b \<Longrightarrow> (x = Panic p) = q" "\<not> b \<Longrightarrow> (y = Panic p) = q" for b x y q and p :: string
    using that by simp
  have opt: "(case z of None \<Rightarrow> Ret u | Some y \<Rightarrow> Ret (f y)) \<noteq> Panic p"
    for z :: "'z option" and u f and p :: string
    by (cases z) simp_all
  show ?thesis
  proof (cases "acTerminal a")
    case False
    show ?thesis
      unfolding accProcess_def if_not_P [OF False] accDispatch_def Let_def
      by (intro if_P) (auto simp: False opt)
  qed (simp add: accProcess_def)
qed

section \<open>Items are assembled independently\<close>

definition sameSlot :: "int \<Rightarrow> ResponseAccumulator \<Rightarrow> ResponseAccumulator \<Rightarrow> bool" where
  "sameSlot i a b \<longleftrightarrow> map_of (acItems a) i = map_of (acItems b) i"

definition slotRel :: "int \<Rightarrow> acc_step \<Rightarrow> acc_step \<Rightarrow> bool" where
  "slotRel i s t = (case (s, t) of
       (Ret (a, _), Ret (b, _)) \<Rightarrow> sameSlot i a b
     | (Panic _, Panic _) \<Rightarrow> True
     | _ \<Rightarrow> False)"

lemma accItem_sameSlot: "sameSlot i a b \<Longrightarrow> accItem a i t = accItem b i t"
  by (simp add: sameSlot_def accItem_def)

lemma slotRel_simps:
  "slotRel i (storing a i m) (storing b i m)"
  "slotRel i (Ret (setItem a i x, None)) (Ret (setItem b i x, None))"
  "sameSlot i a b \<Longrightarrow> slotRel i (Ret (a, None)) (Ret (b, None))"
  "sameSlot i a b \<Longrightarrow> slotRel i (Ret (captureResponse a r t, None)) (Ret (captureResponse b r t, None))"
  by (cases m) (simp_all add: slotRel_def storing_def sameSlot_def update_conv')

lemma accDispatch_own_slot:
  assumes "sameSlot (evOutputIndex event) a b" "\<not> isTerminalResponsesEvent (evType event)"
  shows "slotRel (evOutputIndex event) (accDispatch a event) (accDispatch b event)"
proof -
  let ?i = "evOutputIndex event"
  have if_P: "slotRel ?i (if c then x else y) (if c then x' else y')"
    if "c \<Longrightarrow> slotRel ?i x x'" "\<not> c \<Longrightarrow> slotRel ?i y y'" for c x x' y y'
    using that by simp
  have opt: "slotRel ?i (case z of None \<Rightarrow> Ret (a, None) | Some y \<Rightarrow> Ret (setItem a ?i (f y), None))
      (case z of None \<Rightarrow> Ret (b, None) | Some y \<Rightarrow> Ret (setItem b ?i (f y), None))"
    for z :: "'z option" and f
    using assms(1) by (cases z) (simp_all add: slotRel_simps)
  have eq: "accItem a ?i = accItem b ?i" using accItem_sameSlot [OF assms(1)] by blast
  show ?thesis
    using assms(2)
    unfolding accDispatch_def Let_def isTerminalResponsesEvent_def eq
    by (intro if_P) (simp_all add: slotRel_simps opt assms(1))
qed

definition keepsSlot :: "int \<Rightarrow> ResponseAccumulator \<Rightarrow> acc_step \<Rightarrow> bool" where
  "keepsSlot j a s = (case s of Ret (b, _) \<Rightarrow> sameSlot j a b | Panic _ \<Rightarrow> True)"

lemma accDispatch_other_slot:
  assumes "j \<noteq> evOutputIndex event" "\<not> isTerminalResponsesEvent (evType event)"
  shows "keepsSlot j a (accDispatch a event)"
proof -
  let ?i = "evOutputIndex event"
  have if_P: "keepsSlot j a (if c then x else y)" if "c \<Longrightarrow> keepsSlot j a x" "\<not> c \<Longrightarrow> keepsSlot j a y" for c x y
    using that by simp
  have store: "keepsSlot j a (storing a ?i m)" for m
    using assms(1) by (cases m) (simp_all add: keepsSlot_def storing_def sameSlot_def update_conv')
  have set: "keepsSlot j a (Ret (setItem a ?i x, None))" for x
    using assms(1) by (simp add: keepsSlot_def sameSlot_def update_conv')
  have same: "keepsSlot j a (Ret (a, None))" "keepsSlot j a (Ret (captureResponse a r t, None))" for r t
    by (simp_all add: keepsSlot_def sameSlot_def)
  have opt: "keepsSlot j a (case z of None \<Rightarrow> Ret (a, None) | Some y \<Rightarrow> Ret (setItem a ?i (f y), None))"
    for z :: "'z option" and f
    using same set by (cases z) simp_all
  show ?thesis
    using assms(2) unfolding accDispatch_def Let_def isTerminalResponsesEvent_def
    by (intro if_P) (simp_all add: store set same opt)
qed

text \<open>The item one output index ends up with, from the events of that index alone.\<close>

definition itemFrom :: "ResponsesStreamEvent list \<Rightarrow> int \<Rightarrow> ResponsesOutput option" where
  "itemFrom es i = (case feed accStep NewResponseAccumulator es of
     None \<Rightarrow> None | Some a \<Rightarrow> map_of (acItems a) i)"

abbreviation nonTerminal :: "ResponsesStreamEvent \<Rightarrow> bool" where
  "nonTerminal e \<equiv> \<not> isTerminalResponsesEvent (evType e)"

lemma accStep_open:
  assumes "\<not> acTerminal a" "nonTerminal e" "accStep a e = Some a'"
  shows "\<not> acTerminal a'" "\<exists>err. accDispatch a e = Ret (a', err)"
  using assms accDispatch_staysOpen [of e a]
  by (auto simp: accStep_def accProcess_def accStaysOpen_def split: go.splits prod.splits)

lemma feed_slot:
  assumes "feed accStep a es = Some a'" "list_all nonTerminal es" "\<not> acTerminal a" "\<not> acTerminal b"
    "sameSlot i a b"
  shows "\<exists>b'. feed accStep b (filter (\<lambda>e. evOutputIndex e = i) es) = Some b' \<and> sameSlot i a' b'"
  using assms
proof (induction es arbitrary: a b)
  case Nil
  then show ?case by simp
next
  case (Cons e es)
  then obtain a1 where a1: "accStep a e = Some a1" "feed accStep a1 es = Some a'"
    by (auto split: option.splits)
  have e: "nonTerminal e" and es: "list_all nonTerminal es" using Cons.prems(2) by simp_all
  obtain err where d: "accDispatch a e = Ret (a1, err)" and open1: "\<not> acTerminal a1"
    using accStep_open [OF Cons.prems(3) e a1(1)] by blast
  show ?case
  proof (cases "evOutputIndex e = i")
    case True
    then have "slotRel i (accDispatch a e) (accDispatch b e)"
      using accDispatch_own_slot [OF _ e, of a b] Cons.prems(5) by simp
    with d obtain b1 err' where b1: "accDispatch b e = Ret (b1, err')" "sameSlot i a1 b1"
      by (auto simp: slotRel_def split: go.splits)
    then have "accStep b e = Some b1" using Cons.prems(4) by (simp add: accStep_def accProcess_def)
    with Cons.IH [OF a1(2) es open1 _ b1(2)] accStep_open(1) [OF Cons.prems(4) e] True
    show ?thesis by simp
  next
    case False
    with accDispatch_other_slot [OF _ e, of i a] d have "sameSlot i a a1"
      by (auto simp: keepsSlot_def)
    with Cons.prems(5) have "sameSlot i a1 b" by (simp add: sameSlot_def)
    with Cons.IH [OF a1(2) es open1 Cons.prems(4)] False show ?thesis by simp
  qed
qed

lemma new_open [simp]: "\<not> acTerminal NewResponseAccumulator"
  by (simp add: NewResponseAccumulator_def)

lemma feed_itemFrom:
  assumes "feed accStep NewResponseAccumulator es = Some a" "list_all nonTerminal es"
  shows "map_of (acItems a) i = itemFrom (filter (\<lambda>e. evOutputIndex e = i) es) i"
  using feed_slot [OF assms new_open new_open, of i] by (auto simp: sameSlot_def itemFrom_def)

lemma itemFrom_other:
  assumes "i \<notin> evOutputIndex ` set es"
  shows "itemFrom (filter (\<lambda>e. evOutputIndex e = i) es) i = None"
proof -
  have "filter (\<lambda>e. evOutputIndex e = i) es = []" using assms by (auto simp: filter_empty_conv)
  then show ?thesis by (simp add: itemFrom_def NewResponseAccumulator_def)
qed

lemma sortedOutput_by_item:
  assumes "feed accStep NewResponseAccumulator es = Some a" "list_all nonTerminal es"
  shows "sortedOutput a = List.map_filter (\<lambda>i. itemFrom (filter (\<lambda>e. evOutputIndex e = i) es) i)
           (sort (remdups (map evOutputIndex es)))"
proof -
  let ?f = "\<lambda>i. itemFrom (filter (\<lambda>e. evOutputIndex e = i) es) i"
  let ?is = "sort (remdups (map evOutputIndex es))"
  have f: "map_of (acItems a) = ?f" using feed_itemFrom [OF assms] by blast
  have "wfAcc a" using accumulator_machine.feed_good [OF wfAcc_new assms(1)] .
  then have d: "distinct (map fst (acItems a))" by (simp add: wfAcc_def)
  have "set (map fst (acItems a)) = dom (map_of (acItems a))" by (simp add: dom_map_of_conv_image_fst)
  also have "\<dots> = {i \<in> set ?is. ?f i \<noteq> None}"
  proof -
    have "i \<in> set ?is" if "?f i \<noteq> None" for i
      using that itemFrom_other [of i es] by (cases "i \<in> evOutputIndex ` set es") auto
    then show ?thesis unfolding f dom_def by blast
  qed
  finally have "sort (map fst (acItems a)) = filter (\<lambda>i. ?f i \<noteq> None) ?is"
    by (intro sorted_distinct_set_unique) (auto simp: d sorted_wrt_filter)
  then show ?thesis by (simp add: sortedOutput_def f List.map_filter_def comp_def)
qed

lemma accDispatch_output:
  assumes "nonTerminal e" "accDispatch a e = Ret (a', err)"
  shows "rpOutput (acResponse a') = rpOutput (acResponse a)"
proof -
  define ok where "ok s \<longleftrightarrow> (case s of Panic p \<Rightarrow> True | Ret (b, _) \<Rightarrow> rpOutput (acResponse b) = rpOutput (acResponse a))"
    for s :: acc_step
  have if_P: "ok (if c then x else y)" if "c \<Longrightarrow> ok x" "\<not> c \<Longrightarrow> ok y" for c x y
    using that by simp
  have store: "ok (storing a i m)" for i m by (cases m) (simp_all add: ok_def storing_def)
  have set: "ok (Ret (setItem a i x, None))" "ok (Ret (a, None))" for i x by (simp_all add: ok_def)
  have capture: "ok (Ret (captureResponse a r False, None))" for r
    by (simp add: ok_def captureResponse_def Let_def split: option.split)
  have opt: "ok (case z of None \<Rightarrow> Ret (a, None) | Some y \<Rightarrow> Ret (setItem a i (f y), None))"
    for z :: "'z option" and i f
    using set by (cases z) simp_all
  have "ok (accDispatch a e)"
    using assms(1) unfolding accDispatch_def Let_def isTerminalResponsesEvent_def
    by (intro if_P) (simp_all add: store set capture opt)
  with assms(2) show ?thesis by (simp add: ok_def)
qed

lemma feed_output:
  "feed accStep a es = Some a' \<Longrightarrow> list_all nonTerminal es \<Longrightarrow> \<not> acTerminal a \<Longrightarrow>
     rpOutput (acResponse a') = rpOutput (acResponse a) \<and> \<not> acTerminal a'"
proof (induction es arbitrary: a)
  case (Cons e es)
  then obtain a1 where a1: "accStep a e = Some a1" "feed accStep a1 es = Some a'"
    by (auto split: option.splits)
  have e: "nonTerminal e" and es: "list_all nonTerminal es" using Cons.prems(2) by simp_all
  with accStep_open [OF Cons.prems(3) e a1(1)] accDispatch_output [OF e, of a a1] Cons.IH [OF a1(2) es]
  show ?case by auto
qed simp

text \<open>The output a terminal event brings with its response.\<close>

definition broughtOutput :: "ResponsesStreamEvent \<Rightarrow> ResponsesOutput list" where
  "broughtOutput fin = (case evResponse fin of None \<Rightarrow> [] | Some r \<Rightarrow> rpOutput r)"

text \<open>
  C6: The output of the final response. An output that the terminal event brings is authoritative: it is the
  final output as it stands, whatever the stream had built. When the terminal event brings none, the items are
  assembled independently and delivered in output order: the final response lists, by increasing output index,
  the item each index's own events build on their own, so that interleaving the events of different items in the
  stream, or receiving the items out of order, changes nothing.
\<close>

theorem accumulated_output_by_item:
  assumes "feed accStep NewResponseAccumulator (es @ [fin]) = Some a" "list_all nonTerminal es"
    and "accFinalize a = Inr response"
  shows "rpOutput response = (if broughtOutput fin \<noteq> [] then broughtOutput fin
     else List.map_filter (\<lambda>i. itemFrom (filter (\<lambda>e. evOutputIndex e = i) es) i) (sort (remdups (map evOutputIndex es))))"
proof -
  obtain b where b: "feed accStep NewResponseAccumulator es = Some b" "accStep b fin = Some a"
    using assms(1) by (auto simp: feed_append split: option.splits)
  have out: "rpOutput (acResponse b) = []" "\<not> acTerminal b"
    using feed_output [OF b(1) assms(2) new_open]
    by (simp_all add: NewResponseAccumulator_def zeroResponsesResponse_def)
  have wf: "wfAcc a" by (rule accumulator_machine.feed_good [OF wfAcc_new assms(1)])
  have closed: "acErr a = None" "acTerminal a" "response = acResponse a"
    using assms(3) by (auto simp: accFinalize_def split: option.splits if_splits)
  obtain err where fin: "accDispatch b fin = Ret (a, err)"
    using b(2) out(2) by (auto simp: accStep_def accProcess_def split: go.splits prod.splits)
  have "isTerminalResponsesEvent (evType fin)"
    using accDispatch_staysOpen [of fin b] fin closed(2) out(2) by (auto simp: accStaysOpen_def)
  then have "accTerminal b fin = (a, err) \<and> \<not> failedResponse (evResponse fin)"
    using fin closed(1) unfolding isTerminalResponsesEvent_def
    by (elim disjE) (auto simp: accDispatch_def accFail_def Let_def accTerminal_def split: if_splits)
  moreover have "rpOutput (acResponse (captureResponse b (evResponse fin) True)) = broughtOutput fin"
    using out(1) by (cases "evResponse fin") (simp_all add: captureResponse_def Let_def broughtOutput_def)
  moreover have "sortedOutput (captureResponse b r t) = sortedOutput b" for r t
    by (simp add: sortedOutput_def)
  ultimately have "rpOutput (acResponse a) = (if broughtOutput fin \<noteq> [] then broughtOutput fin else sortedOutput b)"
    by (auto simp: accTerminal_def Let_def split: if_splits)
  with sortedOutput_by_item [OF b(1) assms(2)] closed(3) show ?thesis by simp
qed

definition witnessCall :: "int \<Rightarrow> string \<Rightarrow> ResponsesStreamEvent" where
  "witnessCall i d = zeroResponsesStreamEvent\<lparr>evType := ''response.custom_tool_call_input.delta'',
     evOutputIndex := i, evDelta := d\<rparr>"

lemma accStep_call: "\<not> acTerminal a \<Longrightarrow> accStep a (witnessCall i d) =
   Some (setItem a i ((accItem a i ''custom_tool_call'')\<lparr>roInput := roInput (accItem a i ''custom_tool_call'') @ d\<rparr>))"
  by (simp add: accStep_def accProcess_def accDispatch_def witnessCall_def zeros captureCallMetadata_def Let_def)

lemma index_call [simp]: "evOutputIndex (witnessCall i d) = i"
  by (simp add: witnessCall_def)

definition witnessFinal :: "ResponsesOutput list \<Rightarrow> ResponsesStreamEvent" where
  "witnessFinal out = zeroResponsesStreamEvent\<lparr>evType := ''response.completed'',
     evResponse := Some (zeroResponsesResponse\<lparr>rpOutput := out\<rparr>)\<rparr>"

lemma witness_feed: "\<exists>a response. feed accStep NewResponseAccumulator
     ([witnessCall 1 ''x'', witnessCall 0 ''y'', witnessCall 1 ''z''] @ [witnessFinal out]) = Some a
   \<and> accFinalize a = Inr response"
  by (simp add: accStep_call NewResponseAccumulator_def)
    (simp add: accStep_def accProcess_def accDispatch_def accTerminal_def failedResponse_def Let_def zeros
      captureResponse_def witnessFinal_def accFinalize_def)

theorem accumulated_output_by_item_witness:
  "\<exists>a response b whole.
     feed accStep NewResponseAccumulator ([witnessCall 1 ''x'', witnessCall 0 ''y'', witnessCall 1 ''z''] @ [witnessFinal []]) = Some a
     \<and> accFinalize a = Inr response \<and> map roInput (rpOutput response) = [''y'', ''xz'']
     \<and> feed accStep NewResponseAccumulator ([witnessCall 1 ''x'', witnessCall 0 ''y'', witnessCall 1 ''z'']
          @ [witnessFinal [zeroResponsesOutput]]) = Some b
     \<and> accFinalize b = Inr whole \<and> rpOutput whole = [zeroResponsesOutput]"
proof -
  let ?es = "[witnessCall 1 ''x'', witnessCall 0 ''y'', witnessCall 1 ''z'']"
  have open_es: "list_all nonTerminal ?es" by (simp add: witnessCall_def zeros isTerminalResponsesEvent_def)
  have brought: "broughtOutput (witnessFinal out) = out" for out by (simp add: broughtOutput_def witnessFinal_def)
  obtain a response where a: "feed accStep NewResponseAccumulator (?es @ [witnessFinal []]) = Some a"
    "accFinalize a = Inr response" using witness_feed by blast
  obtain b whole where b: "feed accStep NewResponseAccumulator (?es @ [witnessFinal [zeroResponsesOutput]]) = Some b"
    "accFinalize b = Inr whole" using witness_feed by blast
  have r: "rpOutput response = List.map_filter (\<lambda>i. itemFrom (filter (\<lambda>e. evOutputIndex e = i) ?es) i)
           (sort (remdups (map evOutputIndex ?es)))"
    using accumulated_output_by_item [OF a(1) open_es a(2)] unfolding brought by (simp only: simp_thms if_False)
  have w: "rpOutput whole = [zeroResponsesOutput]"
    using accumulated_output_by_item [OF b(1) open_es b(2)] unfolding brought by (simp only: list.distinct simp_thms if_True)
  have i: "itemFrom [witnessCall 0 ''y''] 0 = Some (zeroResponsesOutput\<lparr>roType := ''custom_tool_call'', roInput := ''y''\<rparr>)"
    "itemFrom [witnessCall 1 ''x'', witnessCall 1 ''z''] 1 =
       Some (zeroResponsesOutput\<lparr>roType := ''custom_tool_call'', roInput := ''xz''\<rparr>)"
    by (simp_all add: itemFrom_def accStep_call accItem_def update_conv' NewResponseAccumulator_def)
      (simp_all add: zeroResponsesOutput_def)
  have "map roInput (List.map_filter (\<lambda>i. itemFrom (filter (\<lambda>e. evOutputIndex e = i) ?es) i)
           (sort (remdups (map evOutputIndex ?es)))) = [''y'', ''xz'']"
    by (simp add: i List.map_filter_def)
  then show ?thesis using a b r w by auto
qed
end
