(* ===== verification/Accumulated_Items.thy ===== *)
theory Accumulated_Items
  imports Upstream_Response Accumulator_Laws
begin

text \<open>
  What the accumulator makes of a response that is streamed as in \<^verbatim>\<open>Upstream_Response\<close>: its final response carries the
  items of the stream, however they were cut into pieces, and \<open>ResponsesToAnthropic\<close> turns it into their message.
\<close>

section \<open>Passing events\<close>

lemma accStep_plain:
  assumes "\<not> acTerminal a" "accDispatch a e = Ret (a', err)"
  shows "accStep a e = Some a'"
  using assms by (simp add: accStep_def accProcess_def)

lemma accStep_passing: "passing i e \<Longrightarrow> accStep a e = Some a"
  by (simp add: accStep_def accProcess_def accDispatch_def passing_def meaningful_def)

lemma feed_passing: "feed accStep a (filter (\<lambda>e. \<not> passing i e) es) = feed accStep a es"
  by (induction es arbitrary: a) (auto simp: accStep_passing split: option.split)

section \<open>One item\<close>

text \<open>An item while it is streamed: it is of the right kind, and what it will not have is not there.\<close>

fun holding :: "upItem \<Rightarrow> ResponsesOutput \<Rightarrow> bool" where
  "holding (UpText ps) x \<longleftrightarrow> roType x = ''message'' \<and> (ps = [] \<longrightarrow> roContent x = [])"
| "holding (UpFunction c n args) x \<longleftrightarrow>
     roType x = ''function_call'' \<and> roCallID x = c \<and> roName x = n \<and> (args = [] \<longrightarrow> roArguments x = [])"
| "holding (UpCustom c n input) x \<longleftrightarrow>
     roType x = ''custom_tool_call'' \<and> roCallID x = c \<and> roName x = n \<and> (input = [] \<longrightarrow> roInput x = [])"
| "holding (UpReasoning ss e) x \<longleftrightarrow>
     roType x = ''reasoning'' \<and> (ss = [] \<longrightarrow> roSummary x = []) \<and> (e = [] \<longrightarrow> roEncryptedContent x = [])"
| "holding (UpOther t) x \<longleftrightarrow> roType x = t"

lemma begins_holding: "begins it x \<Longrightarrow> holding it x"
  by (cases it) auto

lemma holding_type: "holding it x \<Longrightarrow> okItem it \<Longrightarrow> roType x \<noteq> []"
  by (cases it) auto

lemma carries_type: "carries it x \<Longrightarrow> okItem it \<Longrightarrow> roType x \<noteq> []"
  by (cases it) auto

text \<open>The events between the one that adds an item and the one that ends it, each on its own.\<close>

fun inside :: "int \<Rightarrow> upItem \<Rightarrow> ResponsesStreamEvent \<Rightarrow> bool" where
  "inside i (UpText ps) e \<longleftrightarrow> ps \<noteq> [] \<and> 0 \<le> evContentIndex e
     \<and> (about ''response.output_text.delta'' i e \<or> about ''response.output_text.done'' i e)"
| "inside i (UpFunction c n args) e \<longleftrightarrow> forCall c n e
     \<and> (about ''response.function_call_arguments.delta'' i e \<and> (args = [] \<longrightarrow> evDelta e = [])
        \<or> about ''response.function_call_arguments.done'' i e \<and> evArguments e = args)"
| "inside i (UpCustom c n input) e \<longleftrightarrow> forCall c n e
     \<and> (about ''response.custom_tool_call_input.delta'' i e \<and> (input = [] \<longrightarrow> evDelta e = [])
        \<or> about ''response.custom_tool_call_input.done'' i e \<and> evInput e = input)"
| "inside i (UpReasoning ss enc) e \<longleftrightarrow> ss \<noteq> [] \<and> 0 \<le> evSummaryIndex e
     \<and> (about ''response.reasoning_summary_text.delta'' i e \<or> about ''response.reasoning_summary_text.done'' i e)"
| "inside i (UpOther t) e \<longleftrightarrow> False"

lemma says_each: "says stem whole addressed i t ds fin \<Longrightarrow> e \<in> set (ds @ [fin]) \<Longrightarrow> addressed e
    \<and> (about (stem @ ''.delta'') i e \<and> (t = [] \<longrightarrow> evDelta e = []) \<or> about (stem @ ''.done'') i e \<and> whole e = t)"
  by (auto simp: says_def)

lemma textParts_inside:
  assumes "textParts i k ps es" "0 \<le> k"
  shows "\<forall>e\<in>set es. inside i (UpText ps) e"
  using assms by (induction) (fastforce simp: says_def about_def)+

lemma thoughts_inside:
  assumes "thoughts i k ss es" "0 \<le> k"
  shows "\<forall>e\<in>set es. inside i (UpReasoning ss enc) e"
  using assms by (induction) (fastforce simp: says_def about_def)+

lemma itemBody_inside:
  assumes "itemBody i it es"
  shows "\<forall>e\<in>set es. inside i it e"
proof (cases it)
  case (UpFunction c n args)
  with assms obtain ds fin where "es = ds @ [fin]"
    "says ''response.function_call_arguments'' evArguments (forCall c n) i args ds fin" by auto
  with says_each [OF this(2)] UpFunction show ?thesis by simp
next
  case (UpCustom c n input)
  with assms obtain ds fin where "es = ds @ [fin]"
    "says ''response.custom_tool_call_input'' evInput (forCall c n) i input ds fin" by auto
  with says_each [OF this(2)] UpCustom show ?thesis by simp
next
  case (UpText ps)
  with assms textParts_inside [of i 0 ps es] show ?thesis by simp
next
  case (UpReasoning ss enc)
  with assms thoughts_inside [of i 0 ss es enc] show ?thesis by (simp del: inside.simps)
qed (use assms in simp)

lemma accItem_set: "roType x \<noteq> [] \<Longrightarrow> accItem (setItem a i x) i t = x"
  by (simp add: accItem_def update_conv')

lemma storing_content:
  assumes "0 \<le> k"
  shows "\<exists>content. storing (setItem a i x) i (ensureContentPart x k t f) = Ret (setItem a i (x\<lparr>roContent := content\<rparr>), None)"
  using assms by (auto simp: storing_def ensureContentPart_def Let_def)

lemma storing_summary:
  assumes "0 \<le> k"
  shows "\<exists>summary. storing (setItem a i x) i (ensureSummaryPart x k f) = Ret (setItem a i (x\<lparr>roSummary := summary\<rparr>), None)"
  using assms by (auto simp: storing_def ensureSummaryPart_def Let_def)

lemma metadata_call: "forCall c n e \<Longrightarrow> roCallID x = c \<Longrightarrow> roName x = n \<Longrightarrow> captureCallMetadata x e = x"
  by (cases x) (auto simp: forCall_def captureCallMetadata_def Let_def)

lemma inside_step:
  assumes "\<not> acTerminal a" "okItem it" "holding it x" "inside i it e"
  shows "\<exists>x'. accStep (setItem a i x) e = Some (setItem a i x') \<and> holding it x'"
proof -
  note set = accItem_set [OF holding_type [OF assms(3,2)], of a i]
  have "\<exists>x'. accDispatch (setItem a i x) e = Ret (setItem a i x', None) \<and> holding it x'"
  proof (cases it)
    case (UpText ps)
    then have e: "0 \<le> evContentIndex e" "evOutputIndex e = i"
      "evType e = ''response.output_text.delta'' \<or> evType e = ''response.output_text.done''" "ps \<noteq> []"
      using assms(4) by (auto simp: about_def)
    have "\<exists>content. accDispatch (setItem a i x) e = Ret (setItem a i (x\<lparr>roContent := content\<rparr>), None)"
      using e(3) storing_content [OF e(1), of a i x]
      by (elim disjE) (simp_all add: accDispatch_def e(2) set)
    then show ?thesis using UpText assms(3) e(4) by auto
  next
    case (UpReasoning ss enc)
    then have e: "0 \<le> evSummaryIndex e" "evOutputIndex e = i"
      "evType e = ''response.reasoning_summary_text.delta'' \<or> evType e = ''response.reasoning_summary_text.done''" "ss \<noteq> []"
      using assms(4) by (auto simp: about_def)
    have "\<exists>summary. accDispatch (setItem a i x) e = Ret (setItem a i (x\<lparr>roSummary := summary\<rparr>), None)"
      using e(3) storing_summary [OF e(1), of a i x]
      by (elim disjE) (simp_all add: accDispatch_def e(2) set)
    then show ?thesis using UpReasoning assms(3) e(4) by auto
  next
    case (UpFunction c n args)
    have meta: "captureCallMetadata (x\<lparr>roArguments := z\<rparr>) e = x\<lparr>roArguments := z\<rparr>" for z
      using UpFunction assms(3,4) by (intro metadata_call [of c n]) simp_all
    have e: "evOutputIndex e = i" "evType e = ''response.function_call_arguments.delta'' \<and> (args = [] \<longrightarrow> evDelta e = [])
        \<or> evType e = ''response.function_call_arguments.done'' \<and> evArguments e = args"
      using UpFunction assms(4) by (auto simp: about_def)
    have "\<exists>z. (args = [] \<longrightarrow> z = []) \<and> accDispatch (setItem a i x) e = Ret (setItem a i (x\<lparr>roArguments := z\<rparr>), None)"
      using e(2)
    proof
      assume "evType e = ''response.function_call_arguments.delta'' \<and> (args = [] \<longrightarrow> evDelta e = [])"
      then show ?thesis using UpFunction assms(3) meta [of "roArguments x @ evDelta e"]
        by (intro exI [of _ "roArguments x @ evDelta e"]) (simp add: accDispatch_def e(1) set Let_def)
    next
      assume "evType e = ''response.function_call_arguments.done'' \<and> evArguments e = args"
      moreover have "setItem a i (x\<lparr>roArguments := []\<rparr>) = setItem a i x" if "args = []"
        using UpFunction assms(3) that by (cases x) simp
      ultimately show ?thesis using UpFunction assms(3) meta [of args] meta [of "roArguments x"]
        by (intro exI [of _ args]) (auto simp add: accDispatch_def e(1) set Let_def)
    qed
    then show ?thesis using UpFunction assms(3) by auto
  next
    case (UpCustom c n args)
    have meta: "captureCallMetadata (x\<lparr>roInput := z\<rparr>) e = x\<lparr>roInput := z\<rparr>" for z
      using UpCustom assms(3,4) by (intro metadata_call [of c n]) simp_all
    have e: "evOutputIndex e = i" "evType e = ''response.custom_tool_call_input.delta'' \<and> (args = [] \<longrightarrow> evDelta e = [])
        \<or> evType e = ''response.custom_tool_call_input.done'' \<and> evInput e = args"
      using UpCustom assms(4) by (auto simp: about_def)
    have "\<exists>z. (args = [] \<longrightarrow> z = []) \<and> accDispatch (setItem a i x) e = Ret (setItem a i (x\<lparr>roInput := z\<rparr>), None)"
      using e(2)
    proof
      assume "evType e = ''response.custom_tool_call_input.delta'' \<and> (args = [] \<longrightarrow> evDelta e = [])"
      then show ?thesis using UpCustom assms(3) meta [of "roInput x @ evDelta e"]
        by (intro exI [of _ "roInput x @ evDelta e"]) (simp add: accDispatch_def e(1) set Let_def)
    next
      assume "evType e = ''response.custom_tool_call_input.done'' \<and> evInput e = args"
      moreover have "setItem a i (x\<lparr>roInput := []\<rparr>) = setItem a i x" if "args = []"
        using UpCustom assms(3) that by (cases x) simp
      ultimately show ?thesis using UpCustom assms(3) meta [of args] meta [of "roInput x"]
        by (intro exI [of _ args]) (auto simp add: accDispatch_def e(1) set Let_def)
    qed
    then show ?thesis using UpCustom assms(3) by auto
  qed (use assms(4) in simp)
  then show ?thesis using accStep_plain [of "setItem a i x" e] assms(1) by fastforce
qed

lemma feed_inside:
  assumes "\<not> acTerminal a" "okItem it" "holding it x" "\<forall>e\<in>set es. inside i it e"
  shows "\<exists>x'. feed accStep (setItem a i x) es = Some (setItem a i x') \<and> holding it x'"
  using assms(3,4)
proof (induction es arbitrary: x)
  case (Cons e es)
  then obtain x1 where "accStep (setItem a i x) e = Some (setItem a i x1)" "holding it x1"
    using inside_step [OF assms(1,2)] by fastforce
  with Cons show ?case by simp
qed auto

text \<open>The finished item overrides what was put together before, but for what it leaves empty.\<close>

lemma merge_carries: "holding it x \<Longrightarrow> carries it y \<Longrightarrow> okItem it \<Longrightarrow> carries it (mergeOutput x y)"
  by (cases it) (auto simp: mergeOutput_def list_all2_Cons1 list_all2_Nil2)

lemma feed_item:
  assumes "\<not> acTerminal a" "okItem it" "streamsItem i it es"
  shows "\<exists>y. feed accStep a es = Some (setItem a i y) \<and> carries it y"
proof -
  obtain added x body fin y where es: "es = added # body @ [fin]"
    and added: "about ''response.output_item.added'' i added" "evItem added = Some x" "begins it x"
    and body: "itemBody i it body"
    and fin: "about ''response.output_item.done'' i fin" "evItem fin = Some y" "carries it y"
    using assms(3) by (auto simp: streamsItem_def)
  have "accStep a added = Some (setItem a i x)"
    using added(1,2) by (intro accStep_plain [OF assms(1)]) (simp add: accDispatch_def about_def)
  moreover obtain x1 where "feed accStep (setItem a i x) body = Some (setItem a i x1)" and x1: "holding it x1"
    using feed_inside [OF assms(1,2) begins_holding [OF added(3)] itemBody_inside [OF body]] by blast
  moreover have "accStep (setItem a i x1) fin = Some (setItem a i (mergeOutput x1 y))"
    using fin(1,2) assms(1) accItem_set [OF holding_type [OF x1 assms(2)]]
    by (intro accStep_plain) (simp_all add: accDispatch_def about_def)
  ultimately have "feed accStep a es = Some (setItem a i (mergeOutput x1 y))" by (simp add: es feed_append)
  then show ?thesis using merge_carries [OF x1 fin(3) assms(2)] by blast
qed

section \<open>All items\<close>

fun putOutputs :: "ResponseAccumulator \<Rightarrow> int \<Rightarrow> ResponsesOutput list \<Rightarrow> ResponseAccumulator" where
  "putOutputs a i [] = a"
| "putOutputs a i (x # xs) = putOutputs (setItem a i x) (i + 1) xs"

lemma feed_items:
  assumes "streamsItems i its es" "\<not> acTerminal a" "list_all okItem its"
  shows "\<exists>xs. feed accStep a es = Some (putOutputs a i xs) \<and> list_all2 carries its xs"
  using assms
proof (induction arbitrary: a)
  case (an_item i it es its fs)
  obtain y where y: "feed accStep a es = Some (setItem a i y)" "carries it y"
    using feed_item [OF an_item.prems(1) _ an_item.hyps(1)] an_item.prems(2) by auto
  obtain xs where "feed accStep (setItem a i y) fs = Some (putOutputs (setItem a i y) (i + 1) xs)" "list_all2 carries its xs"
    using an_item.IH [of "setItem a i y"] an_item.prems by auto
  with y show ?case by (intro exI [of _ "y # xs"]) (simp add: feed_append)
qed (simp add: exI [of _ "[]"])

lemma putOutputs_keeps [simp]:
  "acTerminal (putOutputs a i xs) = acTerminal a"
  "acErr (putOutputs a i xs) = acErr a"
  "acResponse (putOutputs a i xs) = acResponse a"
  by (induction xs arbitrary: a i) simp_all

lemma update_fresh: "k \<notin> fst ` set al \<Longrightarrow> AList.update k v al = al @ [(k, v)]"
  by (induction al) auto

lemma putOutputs_items:
  assumes "\<forall>k \<in> fst ` set (acItems a). k < i"
  shows "acItems (putOutputs a i xs) = acItems a @ zip (map (\<lambda>k. i + int k) [0..<length xs]) xs"
  using assms
proof (induction xs arbitrary: a i)
  case (Cons x xs)
  have new: "AList.update i x (acItems a) = acItems a @ [(i, x)]"
    using Cons.prems by (intro update_fresh) auto
  have "acItems (putOutputs (setItem a i x) (i + 1) xs) =
      acItems (setItem a i x) @ zip (map (\<lambda>k. i + 1 + int k) [0..<length xs]) xs"
    using Cons.prems new by (intro Cons.IH) auto
  moreover have "map (\<lambda>k. i + int k) [0..<length (x # xs)] = i # map (\<lambda>k. i + 1 + int k) [0..<length xs]"
    by (simp add: upt_conv_Cons map_Suc_upt [symmetric] comp_def del: upt_Suc)
  ultimately show ?case using new by simp
qed simp

lemma sortedOutput_putOutputs:
  assumes "acItems a = []"
  shows "sortedOutput (putOutputs a 0 xs) = xs"
proof -
  have it: "acItems (putOutputs a 0 xs) = zip (map int [0..<length xs]) xs"
    using putOutputs_items [of a 0 xs] assms by simp
  have "sort (map int [0..<length xs]) = map int [0..<length xs]"
    by (intro sorted_sort_id) (auto simp: sorted_map intro: sorted_wrt_mono_rel [OF _ sorted_upt])
  moreover have "map_of (zip (map int [0..<length xs]) xs) (int k) = Some (xs ! k)" if "k < length xs" for k
    using map_of_zip_nth [of "map int [0..<length xs]" xs k] that by (simp add: distinct_map)
  ultimately show ?thesis
    by (simp add: sortedOutput_def it) (rule nth_equalityI, simp_all)
qed

section \<open>The final response\<close>

text \<open>A final response that carries the items and what the terminal event says.\<close>

definition finalCarries :: "string \<Rightarrow> upItem list \<Rightarrow> ResponsesStreamEvent \<Rightarrow> ResponsesResponse \<Rightarrow> bool" where
  "finalCarries i its fin r \<longleftrightarrow> rpID r = i \<and> rpStatus r = terminalStatus fin \<and> rpUsage r = terminalUsage fin
     \<and> rpIncompleteDetails r = terminalDetails fin \<and> rpError r = None \<and> list_all2 carries its (rpOutput r)"

lemma closes_status: "closes i its shown r0 fin \<Longrightarrow> terminalStatus fin \<noteq> ''failed''"
  by (auto simp: closes_def terminalStatus_def Let_def split: option.splits)

lemma closes_ok: "closes i its shown r0 fin \<Longrightarrow> \<not> failedResponse (evResponse fin)"
  by (auto simp: closes_def failedResponse_def split: option.splits)

lemma message_of_final:
  assumes "finalCarries i its fin r" "closes i its shown r0 fin" "list_all okItem its" "model \<noteq> []"
  shows "ResponsesToAnthropic (Some r) model = Inr (messageOf model i its fin)"
  using assms closes_status [OF assms(2)] outputBlocksFrom_carried [of its "rpOutput r" 0]
  by (simp add: finalCarries_def ResponsesToAnthropic_def responseOutputToBlocks_def messageOf_def orEmptyText_def
      textBlock_def)

lemma accTerminal_final:
  assumes "closes i its shown r0 fin" "rpID (acResponse b) = i" "rpStatus (acResponse b) = rpStatus r0"
    "rpOutput (acResponse b) = []" "rpUsage (acResponse b) = None" "rpIncompleteDetails (acResponse b) = None"
    "rpError (acResponse b) = None" "list_all2 carries (if shown then its else []) (sortedOutput b)"
  shows "\<exists>r. accTerminal b fin = (b\<lparr>acResponse := r, acTerminal := True\<rparr>, None) \<and> finalCarries i its fin r"
proof (cases "evResponse fin")
  case None
  with assms show ?thesis
    by (intro exI [of _ "acResponse (fst (accTerminal b fin))"])
      (simp add: accTerminal_def failedResponse_def captureResponse_def closes_def finalCarries_def Let_def
        terminalStatus_def terminalUsage_def terminalDetails_def)
next
  case (Some r)
  let ?b = "captureResponse b (Some r) True"
  have sorted: "sortedOutput ?b = sortedOutput b" by (simp add: sortedOutput_def captureResponse_def Let_def)
  have r: "rpID r = [] \<or> rpID r = i" "rpError r = None" "rpStatus r = [] \<longrightarrow> rpStatus r0 = []"
    "shown \<and> rpOutput r = [] \<or> list_all2 carries its (rpOutput r)"
    using assms(1) Some by (auto simp: closes_def)
  have captured: "rpID (acResponse ?b) = i"
    "rpStatus (acResponse ?b) = (if rpStatus r = [] then rpStatus r0 else rpStatus r)"
    "rpOutput (acResponse ?b) = rpOutput r" "rpUsage (acResponse ?b) = rpUsage r"
    "rpIncompleteDetails (acResponse ?b) = rpIncompleteDetails r" "rpError (acResponse ?b) = None"
    using r(1,2) assms(2-7) by (auto simp: captureResponse_def Let_def)
  have out: "list_all2 carries its (if rpOutput r = [] then sortedOutput b else rpOutput r)"
    using r(4) assms(8) by (cases shown) auto
  have ok: "\<not> failedResponse (Some r)" using closes_ok [OF assms(1)] Some by simp
  have "terminalStatus fin = (if rpStatus r \<noteq> [] then rpStatus r
      else if evType fin = ''response.incomplete'' then ''incomplete'' else ''completed'')"
    "terminalUsage fin = (if rpUsage r = None then evUsage fin else rpUsage r)" "terminalDetails fin = rpIncompleteDetails r"
    using Some by (auto simp: terminalStatus_def terminalUsage_def terminalDetails_def Let_def split: option.split)
  moreover have "\<exists>z. accTerminal b fin = (?b\<lparr>acResponse := z, acTerminal := True\<rparr>, None) \<and> rpID z = i
      \<and> rpStatus z = (if rpStatus r \<noteq> [] then rpStatus r
          else if evType fin = ''response.incomplete'' then ''incomplete'' else ''completed'')
      \<and> rpUsage z = (if rpUsage r = None then evUsage fin else rpUsage r)
      \<and> rpIncompleteDetails z = rpIncompleteDetails r \<and> rpError z = None
      \<and> rpOutput z = (if rpOutput r = [] then sortedOutput b else rpOutput r)"
    using captured r(3) if_not_P [OF ok]
    by (intro exI [of _ "acResponse (fst (accTerminal b fin))"]) (simp add: accTerminal_def Some ok sorted Let_def)
  moreover have "?b\<lparr>acResponse := z, acTerminal := True\<rparr> = b\<lparr>acResponse := z, acTerminal := True\<rparr>" for z
    by (simp add: captureResponse_def Let_def)
  ultimately show ?thesis using out unfolding finalCarries_def by auto
qed

lemma accumulated_message:
  assumes "responds i its fin es" "list_all okItem its" "model \<noteq> []"
  shows "\<exists>a resp. feed accStep NewResponseAccumulator es = Some a \<and> accFinalize a = Inr resp
    \<and> ResponsesToAnthropic (Some resp) model = Inr (messageOf model i its fin)"
proof -
  obtain created r0 mid shown where es: "es = created # mid @ [fin]" and opens: "opens i r0 created"
    and items: "streamsItems 0 (if shown then its else []) (filter (\<lambda>e. \<not> passing i e) mid)"
    and closes: "closes i its shown r0 fin"
    using assms(1) by (auto simp: responds_def)
  let ?begun = "captureResponse NewResponseAccumulator (Some r0) False"
  have created: "accStep NewResponseAccumulator created = Some ?begun"
    using opens by (intro accStep_plain) (simp_all add: accDispatch_def opens_def)
  have a0: "\<not> acTerminal ?begun" "acItems ?begun = []" "acErr ?begun = None" "rpID (acResponse ?begun) = i"
    "rpStatus (acResponse ?begun) = rpStatus r0" "rpOutput (acResponse ?begun) = []" "rpUsage (acResponse ?begun) = None"
    "rpIncompleteDetails (acResponse ?begun) = None" "rpError (acResponse ?begun) = None"
    using opens by (auto simp: NewResponseAccumulator_def captureResponse_def zeroResponsesResponse_def opens_def Let_def)
  obtain xs where xs: "feed accStep ?begun mid = Some (putOutputs ?begun 0 xs)" "list_all2 carries (if shown then its else []) xs"
  proof -
    have "list_all okItem (if shown then its else [])" using assms(2) by simp
    from feed_items [OF items a0(1) this] show thesis using that unfolding feed_passing by blast
  qed
  obtain r where r: "accTerminal (putOutputs ?begun 0 xs) fin
      = ((putOutputs ?begun 0 xs)\<lparr>acResponse := r, acTerminal := True\<rparr>, None)" "finalCarries i its fin r"
    using accTerminal_final [OF closes, of "putOutputs ?begun 0 xs"] a0 sortedOutput_putOutputs [OF a0(2), of xs] xs(2) by auto
  let ?a = "(putOutputs ?begun 0 xs)\<lparr>acResponse := r, acTerminal := True\<rparr>"
  have "accDispatch (putOutputs ?begun 0 xs) fin = Ret (?a, None)"
    using closes r(1) by (auto simp: closes_def accDispatch_def)
  then have "accStep (putOutputs ?begun 0 xs) fin = Some ?a" using a0(1) by (intro accStep_plain) simp_all
  then have "feed accStep NewResponseAccumulator es = Some ?a" by (simp add: es created feed_append xs(1))
  moreover have "accFinalize ?a = Inr r" using a0(3) by (simp add: accFinalize_def)
  ultimately show ?thesis using message_of_final [OF r(2) closes assms(2,3)] by blast
qed

end
