(* ===== verification/Stream_Equivalence.thy ===== *)
theory Stream_Equivalence
  imports Stream_Fidelity Accumulated_Items
begin

text \<open>
  The two ways the adapter answers one upstream stream, \<^verbatim>\<open>stream=true\<close> through the converter and
  \<^verbatim>\<open>stream=false\<close> through the accumulator and \<open>ResponsesToAnthropic\<close>, give the client the same message.
  The client of the streaming path is the specification \<open>clientMessage\<close>: it builds content blocks from
  the events by the rules of the Messages API.
\<close>

section \<open>What a client makes of the events\<close>

type_synonym client = "AnthropicContentBlock list \<times> string"

definition onLast :: "(AnthropicContentBlock \<Rightarrow> AnthropicContentBlock) \<Rightarrow> AnthropicContentBlock list \<Rightarrow>
    AnthropicContentBlock list" where
  "onLast f bs = (if bs = [] then [] else butlast bs @ [f (last bs)])"

definition applyDelta :: "AnthropicDelta \<Rightarrow> client \<Rightarrow> client" where
  "applyDelta d k =
     (if adType d = ''text_delta'' then (onLast (\<lambda>b. b\<lparr>cbText := cbText b @ adText d\<rparr>) (fst k), snd k)
      else if adType d = ''thinking_delta'' then
        (onLast (\<lambda>b. b\<lparr>cbThinking := cbThinking b @ adThinking d\<rparr>) (fst k), snd k)
      else if adType d = ''signature_delta'' then
        (onLast (\<lambda>b. b\<lparr>cbSignature := adSignature d\<rparr>) (fst k), snd k)
      else if adType d = ''input_json_delta'' then (fst k, snd k @ adPartialJSON d)
      else k)"

definition clientStep :: "client \<Rightarrow> AnthropicStreamEvent \<Rightarrow> client" where
  "clientStep k e =
     (if seType e = ''content_block_start'' then
        (case seContentBlock e of None \<Rightarrow> k | Some b \<Rightarrow> (fst k @ [b], []))
      else if seType e = ''content_block_delta'' then
        (case seDelta e of None \<Rightarrow> k | Some d \<Rightarrow> applyDelta d k)
      else if seType e = ''content_block_stop'' then
        (if snd k = [] then k else (onLast (\<lambda>b. b\<lparr>cbInput := snd k\<rparr>) (fst k), []))
      else k)"

definition assemble :: "emitted \<Rightarrow> AnthropicContentBlock list" where
  "assemble es = fst (foldl clientStep ([], []) es)"

lemma onLast_snoc [simp]: "onLast f (bs @ [b]) = bs @ [f b]"
  by (simp add: onLast_def)

lemma clientStep_simps [simp]:
  "clientStep k (blockStart n b) = (fst k @ [b], [])"
  "clientStep k (blockDelta n d) = applyDelta d k"
  "clientStep k (blockStop n) =
     (if snd k = [] then k else (onLast (\<lambda>b. b\<lparr>cbInput := snd k\<rparr>) (fst k), []))"
  "clientStep k (messageStart i m) = k"
  "clientStep k (messageDelta r u) = k"
  "clientStep k messageStop = k"
  by (simp_all add: clientStep_def blockStart_def blockDelta_def blockStop_def messageStart_def
      messageDelta_def messageStop_def)

lemma applyDelta_simps [simp]:
  "applyDelta (textDelta t) k = (onLast (\<lambda>b. b\<lparr>cbText := cbText b @ t\<rparr>) (fst k), snd k)"
  "applyDelta (thinkingDelta t) k = (onLast (\<lambda>b. b\<lparr>cbThinking := cbThinking b @ t\<rparr>) (fst k), snd k)"
  "applyDelta (signatureDelta t) k = (onLast (\<lambda>b. b\<lparr>cbSignature := t\<rparr>) (fst k), snd k)"
  "applyDelta (inputJsonDelta t) k = (fst k, snd k @ t)"
  by (simp_all add: applyDelta_def textDelta_def thinkingDelta_def signatureDelta_def inputJsonDelta_def)

lemma client_texts:
  "foldl clientStep (bs @ [b], j) (map (\<lambda>t. blockDelta n (textDelta t)) ts) =
     (bs @ [b\<lparr>cbText := cbText b @ concat ts\<rparr>], j)"
  by (induction ts arbitrary: b) simp_all

lemma client_thoughts:
  "foldl clientStep (bs @ [b], j) (map (\<lambda>t. blockDelta n (thinkingDelta t)) ts) =
     (bs @ [b\<lparr>cbThinking := cbThinking b @ concat ts\<rparr>], j)"
  by (induction ts arbitrary: b) simp_all

lemma client_json:
  "foldl clientStep (bs, j) (map (\<lambda>t. blockDelta n (inputJsonDelta t)) ts) = (bs, j @ concat ts)"
  by (induction ts arbitrary: j) simp_all

section \<open>A terminal response that carries its output\<close>

text \<open>What the streaming path leaves out of a block: a signature of white space only.\<close>

definition normalBlock :: "AnthropicContentBlock \<Rightarrow> AnthropicContentBlock" where
  "normalBlock b = (if cbType b = ''thinking'' \<and> isBlank (cbSignature b) then b\<lparr>cbSignature := []\<rparr> else b)"

inductive builtBlock :: "AnthropicContentBlock \<Rightarrow> bool" where
  built_text: "builtBlock (zeroAnthropicContentBlock\<lparr>cbType := ''text'', cbText := t\<rparr>)"
| built_thinking:
    "builtBlock (zeroAnthropicContentBlock\<lparr>cbType := ''thinking'', cbThinking := t, cbSignature := s\<rparr>)"
| built_tool: "json_object input \<Longrightarrow>
     builtBlock (zeroAnthropicContentBlock\<lparr>cbType := ''tool_use'', cbID := i, cbName := n, cbInput := input\<rparr>)"

inductive_cases builtBlockE: "builtBlock b"

lemma json_object_ne: "json_object s \<Longrightarrow> s \<noteq> []"
  by (auto simp: json_object_def json_parse_def parse_prefix_def parse_value.simps skip_ws_def)

lemma outputItemBlocks_built: "outputItemBlocks i item = Inr (bs, t) \<Longrightarrow> list_all builtBlock bs"
  by (auto simp: outputItemBlocks_def list_all_iff builtBlock.intros functionToolInput_Inr
      split: if_splits sum.splits)

lemma outputBlocksFrom_built: "outputBlocksFrom i items = Inr (bs, t) \<Longrightarrow> list_all builtBlock bs"
proof (induction items arbitrary: i bs t)
  case (Cons item items)
  then show ?case by (auto dest: outputItemBlocks_built split: sum.splits prod.splits)
qed simp

lemma client_block:
  assumes "builtBlock b"
  shows "foldl clientStep (bs, j) (blockEvents n b) = (bs @ [normalBlock b], [])"
  using assms
  by (cases rule: builtBlock.cases)
    (auto simp: blockEvents_def normalBlock_def zeroAnthropicContentBlock_def dest: json_object_ne)

lemma client_fullEvents:
  "list_all builtBlock blocks \<Longrightarrow>
     fst (foldl clientStep (bs, j) (fullEvents n blocks)) = bs @ map normalBlock blocks"
proof (induction blocks arbitrary: bs j n)
  case (Cons b blocks)
  then show ?case by (simp add: client_block)
qed simp

section \<open>What the converter passes over\<close>

text \<open>While a response is streamed the converter knows its identifier and the model of the client.\<close>

definition told :: "string \<Rightarrow> ResponsesStreamConverter \<Rightarrow> bool" where
  "told i c \<longleftrightarrow> cvResponseID c = i \<and> cvModel c \<noteq> []"

lemma process_passing: "told i c \<Longrightarrow> passing i e \<Longrightarrow> process c e = (c, Inr [])"
  by (auto simp: told_def passing_def meaningful_def process_def dispatch_def captureMetadata_def Let_def
      split: option.splits)

lemma closeActive_told [simp]:
  "cvResponseID (fst (closeActive c)) = cvResponseID c" "cvModel (fst (closeActive c)) = cvModel c"
  by (simp_all add: closeActive_def split: option.split)

lemma converterFail_told [simp]:
  "told i (fst (converterFail c err)) = told i c"
  by (simp add: converterFail_def told_def)

lemma closing_told [simp]: "told i (fst (closing c)) = told i c"
  by (simp add: closing_def told_def split: prod.split) (metis closeActive_told fst_conv)

lemma ensureMessageStart_told: "ensureMessageStart c = (d, out) \<Longrightarrow> told i c \<Longrightarrow> told i d"
  by (auto simp: ensureMessageStart_def told_def split: if_splits)

lemma closeActive_told_of: "closeActive c = (d, out) \<Longrightarrow> told i c \<Longrightarrow> told i d"
  by (metis closeActive_told fst_conv told_def)

lemma openBlockFor_told: "openBlockFor c e k = (d, b, out) \<Longrightarrow> told i c \<Longrightarrow> told i d"
  by (auto simp: openBlockFor_def Let_def dest: closeActive_told_of split: option.splits if_splits prod.splits)

lemma told_update [simp]:
  "told i (c\<lparr>cvActive := b\<rparr>) = told i c" "told i (c\<lparr>cvSawContent := x\<rparr>) = told i c"
  "told i (c\<lparr>cvHasTool := x\<rparr>) = told i c" "told i (c\<lparr>cvNextBlockIndex := n\<rparr>) = told i c"
  "told i (c\<lparr>cvTerminal := x\<rparr>) = told i c" "told i (c\<lparr>cvMessageStarted := x\<rparr>) = told i c"
  by (simp_all add: told_def)

lemmas told_steps = ensureMessageStart_told closeActive_told_of openBlockFor_told

lemma handlers_told:
  assumes "told i c"
  shows "told i (fst (handleItemAdded c e))" "told i (fst (handleTextDelta c e))"
    "told i (fst (handleToolDelta c e b))" "told i (fst (handleToolDone c e b))"
    "told i (fst (handleReasoningDelta c e))" "told i (fst (handleReasoningDone c e))"
  using assms
  by (auto simp: handleItemAdded_def handleTextDelta_def handleToolDelta_def handleToolDone_def
      handleReasoningDelta_def handleReasoningDone_def Let_def dest: told_steps
      split: option.split prod.split sum.split)

lemma handleTextDelta_told: "handleTextDelta c e = (d, r) \<Longrightarrow> told i c \<Longrightarrow> told i d"
  using handlers_told(2) [of i c e] by simp

lemma handleTextDone_told:
  assumes "told i c"
  shows "told i (fst (handleTextDone c e))"
  using assms
  by (auto simp: handleTextDone_def Let_def dest: told_steps handleTextDelta_told split: option.split prod.split sum.split)

lemma handleItemDone_told:
  assumes "told i c"
  shows "told i (fst (handleItemDone c e))"
  using assms handlers_told(4)
  by (auto simp: handleItemDone_def split: option.split)

lemma process_told:
  assumes "told i c" "evResponse e = None" "process c e = (d, r)" "\<not> isTerminalResponsesEvent (evType e)"
  shows "told i d"
proof -
  have start: "told i (fst (let (c1, events) = ensureMessageStart c in (c1, Inr events :: emitted result)))"
    using assms(1) by (auto dest: told_steps split: prod.split)
  have "told i (fst (dispatch c e))"
    unfolding dispatch_def Let_def
    using assms(1,4) handlers_told [OF assms(1)] handleTextDone_told [OF assms(1)] handleItemDone_told [OF assms(1)] start
    by (simp add: isTerminalResponsesEvent_def)
  then show ?thesis using assms(1-3) by (auto simp: process_def split: if_splits)
qed

lemma processAll_passing:
  assumes "told i c" "\<forall>e\<in>set es. passing i e \<or> evResponse e = None \<and> \<not> isTerminalResponsesEvent (evType e)"
  shows "processAll c (filter (\<lambda>e. \<not> passing i e) es) = processAll c es"
  using assms
proof (induction es arbitrary: c)
  case (Cons e es)
  show ?case
  proof (cases "passing i e")
    case True
    with Cons process_passing [OF Cons.prems(1) True] show ?thesis by simp
  next
    case False
    obtain d r where p: "process c e = (d, r)" by (cases "process c e")
    have "told i d" using process_told [OF Cons.prems(1) _ p] Cons.prems(2) False by auto
    with Cons False p show ?thesis by (cases r) simp_all
  qed
qed simp

text \<open>Deltas that say nothing.\<close>

definition silent :: "ResponsesStreamEvent \<Rightarrow> bool" where
  "silent e \<longleftrightarrow> evDelta e = []"

lemma processAll_silent:
  assumes "\<forall>e\<in>set es. evResponse e = None \<and> evType e \<in> set [''response.output_text.delta'',
      ''response.function_call_arguments.delta'', ''response.custom_tool_call_input.delta'',
      ''response.reasoning_summary_text.delta'']"
  shows "processAll c (filter (\<lambda>e. \<not> silent e) es) = processAll c es"
  using assms
proof (induction es arbitrary: c)
  case (Cons e es)
  have "process c e = (c, Inr [])" if "silent e"
    using Cons.prems that
    by (auto simp: silent_def process_def dispatch_def handleTextDelta_def handleToolDelta_def handleReasoningDelta_def)
  with Cons show ?case by (cases "silent e") (auto split: prod.split sum.split)
qed simp

lemma loud: "map evDelta (filter (\<lambda>e. \<not> silent e) es) = [] \<longleftrightarrow> concat (map evDelta es) = []"
  "concat (map evDelta (filter (\<lambda>e. \<not> silent e) es)) = concat (map evDelta es)"
  by (induction es) (auto simp: silent_def)

text \<open>The events of the items carry no response and end nothing.\<close>

definition plain :: "ResponsesStreamEvent \<Rightarrow> bool" where
  "plain e \<longleftrightarrow> evResponse e = None \<and> \<not> isTerminalResponsesEvent (evType e)"

lemma about_plain: "about t i e \<Longrightarrow> \<not> isTerminalResponsesEvent t \<Longrightarrow> plain e"
  by (simp add: about_def plain_def)

lemma inside_plain: "inside i it e \<Longrightarrow> plain e"
  by (cases it) (auto simp: isTerminalResponsesEvent_def intro: about_plain)

lemma streamsItem_plain:
  assumes "streamsItem i it es"
  shows "\<forall>e\<in>set es. plain e"
proof -
  obtain added body fin where "es = added # body @ [fin]" "plain added" "itemBody i it body" "plain fin"
    using assms about_plain by (fastforce simp: streamsItem_def isTerminalResponsesEvent_def)
  then show ?thesis using itemBody_inside inside_plain by fastforce
qed

lemma streamsItems_plain: "streamsItems i its es \<Longrightarrow> \<forall>e\<in>set es. plain e"
  by (induction rule: streamsItems.induct) (auto dest: streamsItem_plain)

section \<open>The converter's side\<close>

definition ready :: "ResponsesStreamConverter \<Rightarrow> bool" where
  "ready c \<longleftrightarrow> \<not> cvTerminal c \<and> cvMessageStarted c \<and> cvActive c = None"

text \<open>A ready converter after it has sent some more blocks, of a tool call or not.\<close>

definition after :: "ResponsesStreamConverter \<Rightarrow> bool \<Rightarrow> AnthropicContentBlock list \<Rightarrow> ResponsesStreamConverter" where
  "after c tool bs = c\<lparr>cvHasTool := cvHasTool c \<or> tool, cvSawContent := cvSawContent c \<or> bs \<noteq> [],
     cvNextBlockIndex := cvNextBlockIndex c + int (length bs)\<rparr>"

lemma after_simps [simp]:
  "ready (after c tool bs) = ready c" "after c False [] = c"
  "after (after c t1 bs1) t2 bs2 = after c (t1 \<or> t2) (bs1 @ bs2)"
  "cvResponseID (after c tool bs) = cvResponseID c" "cvModel (after c tool bs) = cvModel c"
  "cvHasTool (after c tool bs) = (cvHasTool c \<or> tool)" "cvSawContent (after c tool bs) = (cvSawContent c \<or> bs \<noteq> [])"
  by (auto simp: ready_def after_def ac_simps)

definition delivers :: "ResponsesStreamConverter \<Rightarrow> ResponsesStreamEvent list \<Rightarrow>
    ResponsesStreamConverter \<Rightarrow> AnthropicContentBlock list \<Rightarrow> bool" where
  "delivers c es d blocks \<longleftrightarrow> (\<exists>out. processAll c es = (d, out, None) \<and>
     (\<forall>bs. foldl clientStep (bs, []) out = (bs @ blocks, [])))"

lemma delivers_Nil: "delivers c [] c []"
  by (simp add: delivers_def)

lemma delivers_append: "delivers c es d bs \<Longrightarrow> delivers d fs e cs \<Longrightarrow> delivers c (es @ fs) e (bs @ cs)"
  by (auto simp: delivers_def processAll_append)

lemma delivers_idle: "process c e = (c, Inr []) \<Longrightarrow> delivers c [e] c []"
  by (simp add: delivers_def)

lemma startEvents_ready [simp]: "ready c \<Longrightarrow> startEvents c = []"
  by (simp add: ready_def startEvents_def)

lemma ready_simps:
  assumes "ready c"
  shows "\<not> cvTerminal c" "cvActive c = None" "cvMessageStarted c" "c\<lparr>cvMessageStarted := True\<rparr> = c"
    "c\<lparr>cvActive := None\<rparr> = c" "ensureMessageStart c = (c, [])" "closeActive c = (c, [])" "nextIndex c = cvNextBlockIndex c"
  using assms by (simp_all add: ready_def ensureMessageStart_def closeActive_def nextIndex_def)

text \<open>An item of a message, or of an unknown type, is added or ended without a trace.\<close>

lemma itemAdded_idle:
  assumes "ready c" "about ''response.output_item.added'' i e" "evItem e = Some x"
    "roType x \<notin> set [''function_call'', ''custom_tool_call'', ''reasoning'']"
  shows "process c e = (c, Inr [])"
  using assms ready_simps [OF assms(1)]
  by (simp add: about_def process_dispatch dispatch_def handleItemAdded_def)

lemma itemDone_idle:
  assumes "ready c" "about ''response.output_item.done'' i e"
  shows "process c e = (c, Inr [])"
  using assms ready_simps [OF assms(1)]
  by (simp add: about_def process_dispatch dispatch_def handleItemDone_def split: option.split)

text \<open>The deltas that do say something.\<close>

definition heard :: "ResponsesStreamEvent list \<Rightarrow> ResponsesStreamEvent list" where
  "heard ds = filter (\<lambda>e. \<not> silent e) ds"

lemma heard_says:
  assumes "says stem whole addressed i t ds fin" "stem \<in> set [''response.output_text'',
    ''response.function_call_arguments'', ''response.custom_tool_call_input'', ''response.reasoning_summary_text'']"
  shows "processAll c ds = processAll c (heard ds)" "concat (map evDelta (heard ds)) = concat (map evDelta ds)"
    "\<forall>d\<in>set (heard ds). about (stem @ ''.delta'') i d \<and> evDelta d \<noteq> []"
    "heard ds = [] \<or> heard ds \<noteq> [] \<and> t \<noteq> [] \<and> concat (map evDelta ds) = t"
proof -
  show "processAll c ds = processAll c (heard ds)"
    unfolding heard_def
    by (rule processAll_silent [symmetric]) (use assms in \<open>auto simp: says_def about_def\<close>)
  show cat: "concat (map evDelta (heard ds)) = concat (map evDelta ds)" unfolding heard_def by (rule loud)
  show each: "\<forall>d\<in>set (heard ds). about (stem @ ''.delta'') i d \<and> evDelta d \<noteq> []"
    using assms(1) by (auto simp: says_def heard_def silent_def)
  have "concat (map evDelta (heard ds)) \<noteq> []" if "heard ds \<noteq> []"
    using that each by (cases "heard ds") auto
  then show "heard ds = [] \<or> heard ds \<noteq> [] \<and> t \<noteq> [] \<and> concat (map evDelta ds) = t"
    using assms(1) by (auto simp: cat says_def)
qed

lemma delivers_textPart:
  assumes "ready c" "says ''response.output_text'' evText addressed i t ds fin"
  defines "bs \<equiv> if t = [] then [] else [textBlock t]"
  shows "delivers c (ds @ [fin]) (after c False bs) bs"
proof -
  note c = ready_simps [OF assms(1)] and h = heard_says [OF assms(2)]
  let ?n = "cvNextBlockIndex c"
  let ?start = "blockStart ?n (zeroAnthropicContentBlock\<lparr>cbType := ''text''\<rparr>)"
  have fin: "evType fin = ''response.output_text.done''" "evResponse fin = None" "evText fin = t" "evOutputIndex fin = i"
    using assms(2) by (simp_all add: says_def about_def)
  consider "heard ds = []" "t = []" | "heard ds = []" "t \<noteq> []" | "heard ds \<noteq> []" using h(4) by auto
  then show ?thesis
  proof cases
    case 1
    have "process c fin = (c, Inr [])"
      using c fin 1 by (simp add: process_dispatch dispatch_def handleTextDone_def)
    then show ?thesis using 1 h(1) [of c] by (simp add: delivers_def bs_def processAll_append)
  next
    case 2
    have "process c fin = (after c False bs, Inr [?start, blockDelta ?n (textDelta t), blockStop ?n])"
      using c fin 2 by (simp add: process_dispatch dispatch_def handleTextDone_def handleTextDelta_def openBlockFor_def
          closeActive_def zeroStreamBlock_def zeroResponsesStreamEvent_def bs_def after_def Let_def)
    then have "processAll c (ds @ [fin]) = (after c False bs, [?start, blockDelta ?n (textDelta t), blockStop ?n], None)"
      using 2 h(1) [of c] by (simp add: processAll_append)
    then show ?thesis using 2 by (simp add: delivers_def bs_def textBlock_def zeroAnthropicContentBlock_def)
  next
    case 3
    then have t: "t \<noteq> []" "concat (map evDelta (heard ds)) = t" using h(2,4) by auto
    have "list_all (isTextDelta i) (heard ds)" using h(3) by (auto simp: list_all_iff isTextDelta_def about_def)
    then have deltas: "processAll c ds = (textOpen c i,
        ?start # map (\<lambda>e. blockDelta ?n (textDelta (evDelta e))) (heard ds), None)"
      using text_open [OF c(1,2) 3] h(1) [of c] assms(1) by simp
    have close: "process (textOpen c i) fin = (after c False bs, Inr [blockStop ?n])"
      using process_text_close [OF c(1) fin(1,2)] c t(1) by (simp add: bs_def after_def)
    have "processAll c (ds @ [fin]) = (after c False bs,
        ?start # map (\<lambda>t. blockDelta ?n (textDelta t)) (map evDelta (heard ds)) @ [blockStop ?n], None)"
      using processAll_snoc [OF deltas, of fin] by (simp add: close comp_def)
    then show ?thesis
      using t client_texts [of _ "zeroAnthropicContentBlock\<lparr>cbType := ''text''\<rparr>" "[]" ?n "map evDelta (heard ds)"]
      by (simp add: delivers_def bs_def textBlock_def zeroAnthropicContentBlock_def)
  qed
qed

lemma delivers_textParts:
  "textParts i k ps es \<Longrightarrow> ready c \<Longrightarrow> delivers c es (after c False (textBlocks ps)) (textBlocks ps)"
proof (induction arbitrary: c rule: textParts.induct)
  case (text_part k i t ds fin ps es)
  let ?bs = "if t = [] then [] else [textBlock t]"
  have "delivers (after c False ?bs) es (after (after c False ?bs) False (textBlocks ps)) (textBlocks ps)"
    using text_part.prems by (intro text_part.IH) simp
  from delivers_append [OF delivers_textPart [OF text_part.prems text_part.hyps(1)] this] show ?case by simp
qed (simp_all add: delivers_Nil)

lemma delivers_message:
  assumes "ready c" "streamsItem i (UpText ps) es"
  shows "delivers c es (after c False (textBlocks ps)) (textBlocks ps)"
proof -
  obtain added x body fin where es: "es = [added] @ body @ [fin]"
    and added: "about ''response.output_item.added'' i added" "evItem added = Some x" "roType x = ''message''"
    and body: "textParts i 0 ps body" and fin: "about ''response.output_item.done'' i fin"
    using assms(2) by (auto simp: streamsItem_def)
  have 1: "delivers c [added] c []"
    by (rule delivers_idle) (rule itemAdded_idle [OF assms(1) added(1,2)], simp add: added(3))
  have 3: "delivers (after c False (textBlocks ps)) [fin] (after c False (textBlocks ps)) []"
    by (rule delivers_idle, rule itemDone_idle [OF _ fin]) (simp add: assms(1))
  show ?thesis
    unfolding es using delivers_append [OF 1 delivers_append [OF delivers_textParts [OF body assms(1)] 3]] by simp
qed

lemma ready_toolOpen:
  assumes "ready c"
  shows "(toolOpen c custom i item es)\<lparr>cvActive := None,
      cvNextBlockIndex := cvNextBlockIndex (toolOpen c custom i item es) + 1\<rparr> =
    after c True [b]"
proof -
  have "c\<lparr>cvMessageStarted := True\<rparr> = c" "c\<lparr>cvActive := None\<rparr> = c"
    using assms by (simp_all add: ready_def)
  moreover have "closeActive c = (c, [])" by (rule ready_simps [OF assms])
  ultimately have "toolOpen c custom i item es = c\<lparr>cvHasTool := True, cvSawContent := True,
       cvActive := cvActive (toolOpen c custom i item es)\<rparr>"
    by (simp add: toolOpen_def)
  with \<open>c\<lparr>cvActive := None\<rparr> = c\<close> have "(toolOpen c custom i item es)\<lparr>cvActive := None,
      cvNextBlockIndex := cvNextBlockIndex (toolOpen c custom i item es) + 1\<rparr> =
    c\<lparr>cvHasTool := True, cvSawContent := True, cvNextBlockIndex := cvNextBlockIndex c + 1\<rparr>"
    by (metis (no_types, lifting) ResponsesStreamConverter.surjective ResponsesStreamConverter.update_convs(6)
        ResponsesStreamConverter.update_convs(7) ResponsesStreamConverter.update_convs(8)
        ResponsesStreamConverter.update_convs(9) ResponsesStreamConverter.select_convs(8))
  then show ?thesis by (simp add: after_def)
qed

text \<open>The state and the events of a tool call up to its last delta.\<close>

lemma call_open:
  assumes "ready c" "about ''response.output_item.added'' i added" "evItem added = Some x"
    "roType x = (if custom then ''custom_tool_call'' else ''function_call'')" "roCallID x = k" "roName x = n"
    "says (if custom then ''response.custom_tool_call_input'' else ''response.function_call_arguments'') whole addressed i t ds fin"
  shows "isToolAdded custom i x added"
    "processAll c (added # ds) = (toolOpen c custom i x (heard ds), blockStart (cvNextBlockIndex c) (toolUse k n ''{}'')
      # (if custom then [] else map (\<lambda>t. blockDelta (cvNextBlockIndex c) (inputJsonDelta t)) (map evDelta (heard ds))), None)"
proof -
  show added: "isToolAdded custom i x added" using assms(2-4) by (simp add: isToolAdded_def about_def)
  have stem: "(if custom then ''response.custom_tool_call_input'' else ''response.function_call_arguments'') \<in> set
      [''response.output_text'', ''response.function_call_arguments'', ''response.custom_tool_call_input'',
       ''response.reasoning_summary_text'']" by simp
  note h = heard_says [OF assms(7) stem]
  have "list_all (isToolDelta custom i) (heard ds)"
    using h(3) by (cases custom) (auto simp: list_all_iff isToolDelta_def about_def)
  from tool_call_open [OF ready_simps(1) [OF assms(1)] added this]
  have heard_eq: "processAll c (added # heard ds) = (toolOpen c custom i x (heard ds),
      blockStart (cvNextBlockIndex c) (toolUse k n ''{}'')
      # (if custom then [] else map (\<lambda>t. blockDelta (cvNextBlockIndex c) (inputJsonDelta t)) (map evDelta (heard ds))), None)"
    using assms(1,5,6) ready_simps [OF assms(1)]
    by (cases custom) (simp_all add: toolStart_def toolUse_def comp_def)
  have "processAll c (added # ds) = processAll c (added # heard ds)"
    using h(1) by (simp split: prod.split sum.split)
  from trans [OF this heard_eq] show "processAll c (added # ds) = (toolOpen c custom i x (heard ds),
      blockStart (cvNextBlockIndex c) (toolUse k n ''{}'')
      # (if custom then [] else map (\<lambda>t. blockDelta (cvNextBlockIndex c) (inputJsonDelta t)) (map evDelta (heard ds))), None)"
    .
qed

lemma delivers_function:
  assumes "ready c" "streamsItem i (UpFunction k n args) es" "okItem (UpFunction k n args)"
  shows "delivers c es (after c True (blocksOf (UpFunction k n args))) (blocksOf (UpFunction k n args))"
proof -
  let ?bs = "blocksOf (UpFunction k n args)" and ?m = "cvNextBlockIndex c"
  let ?input = "if args = [] then ''{}'' else args"
  obtain added x ds fin1 fin where es: "es = added # ds @ [fin1] @ [fin]"
    and added: "about ''response.output_item.added'' i added" "evItem added = Some x"
      "roType x = (if False then ''custom_tool_call'' else ''function_call'')" "roCallID x = k" "roName x = n"
    and says: "says ''response.function_call_arguments'' evArguments (forCall k n) i args ds fin1"
    and fin: "about ''response.output_item.done'' i fin"
    using assms(2) by (auto simp: streamsItem_def)
  note open_ = call_open [where custom = False and i = i, OF assms(1) added, unfolded if_False, OF says]
  note h = heard_says [OF says, simplified]
  have fin1: "isToolDone False i fin1" "evArguments fin1 = args"
    using says by (simp_all add: says_def about_def isToolDone_def)
  have whole: "(if evArguments fin1 = [] then concat (map evDelta (heard ds)) else evArguments fin1) = args"
    using h(2,4) fin1(2) by auto
  have input: "functionToolInput args = Inr ?input"
    using assms(3) by (auto simp: functionToolInput_Inr isBlank_def)
  have close: "process (toolOpen c False i x (heard ds)) fin1 = (after c True ?bs,
      Inr ((if heard ds = [] then [blockDelta ?m (inputJsonDelta ?input)] else []) @ [blockStop ?m]))"
    unfolding function_call_close [OF ready_simps(1) [OF assms(1)] open_(1) fin1(1)] whole Let_def input
    by (simp add: ready_toolOpen [OF assms(1), of False i x "heard ds" "hd ?bs"] ready_simps(8) [OF assms(1)])
  have idle: "process (after c True ?bs) fin = (after c True ?bs, Inr [])"
    by (rule itemDone_idle [OF _ fin]) (simp add: assms(1))
  have split: "es = (added # ds) @ [fin1] @ [fin]" by (simp add: es)
  have "processAll c es = (after c True ?bs, blockStart ?m (toolUse k n ''{}'')
      # map (\<lambda>t. blockDelta ?m (inputJsonDelta t)) (map evDelta (heard ds))
      @ (if heard ds = [] then [blockDelta ?m (inputJsonDelta ?input)] else []) @ [blockStop ?m], None)"
    unfolding split processAll_append open_(2) by (simp add: close idle del: map_map blocksOf.simps)
  moreover have "heard ds \<noteq> [] \<Longrightarrow> concat (map evDelta (heard ds)) = args \<and> args \<noteq> []" using h(2,4) by auto
  ultimately show ?thesis
    using client_json [of _ "[]" ?m "map evDelta (heard ds)"]
    by (auto simp: delivers_def toolUse_def zeroAnthropicContentBlock_def)
qed

lemma delivers_custom:
  assumes "ready c" "streamsItem i (UpCustom k n input) es"
  shows "delivers c es (after c True (blocksOf (UpCustom k n input))) (blocksOf (UpCustom k n input))"
proof -
  let ?bs = "blocksOf (UpCustom k n input)" and ?m = "cvNextBlockIndex c"
  obtain added x ds fin1 fin where es: "es = added # ds @ [fin1] @ [fin]"
    and added: "about ''response.output_item.added'' i added" "evItem added = Some x"
      "roType x = (if True then ''custom_tool_call'' else ''function_call'')" "roCallID x = k" "roName x = n"
    and says: "says ''response.custom_tool_call_input'' evInput (forCall k n) i input ds fin1"
    and fin: "about ''response.output_item.done'' i fin"
    using assms(2) by (auto simp: streamsItem_def)
  note open_ = call_open [where custom = True and i = i, OF assms(1) added, unfolded if_True, OF says]
  note h = heard_says [OF says, simplified]
  have fin1: "isToolDone True i fin1" "evInput fin1 = input"
    using says by (simp_all add: says_def about_def isToolDone_def)
  have whole: "(if evInput fin1 = [] then concat (map evDelta (heard ds)) else evInput fin1) = input"
    using h(2,4) fin1(2) by auto
  have close: "process (toolOpen c True i x (heard ds)) fin1 = (after c True ?bs,
      Inr [blockDelta ?m (inputJsonDelta (customToolInput input)), blockStop ?m])"
    unfolding custom_call_close [OF ready_simps(1) [OF assms(1)] open_(1) fin1(1)] whole
    by (simp add: ready_toolOpen [OF assms(1), of True i x "heard ds" "hd ?bs"] ready_simps(8) [OF assms(1)])
  have idle: "process (after c True ?bs) fin = (after c True ?bs, Inr [])"
    by (rule itemDone_idle [OF _ fin]) (simp add: assms(1))
  have split: "es = (added # ds) @ [fin1] @ [fin]" by (simp add: es)
  have "processAll c es = (after c True ?bs, [blockStart ?m (toolUse k n ''{}''),
      blockDelta ?m (inputJsonDelta (customToolInput input)), blockStop ?m], None)"
    unfolding split processAll_append open_(2) by (simp add: close idle del: blocksOf.simps)
  then show ?thesis
    using json_object_ne [OF json_object_customToolInput, of input]
    by (simp add: delivers_def toolUse_def zeroAnthropicContentBlock_def)
qed

text \<open>The converter while a reasoning item is open.\<close>

definition thinking :: "int \<Rightarrow> ResponsesStreamConverter \<Rightarrow> streamBlock \<Rightarrow> bool" where
  "thinking i c b \<longleftrightarrow> \<not> cvTerminal c \<and> cvMessageStarted c \<and> cvSawContent c \<and> cvActive c = Some b
     \<and> sbKind b = ''thinking'' \<and> sbOutputIndex b = i"

lemma thinking_had [simp]:
  "thinking i (c\<lparr>cvActive := Some (b\<lparr>sbHadDelta := had\<rparr>)\<rparr>) (b\<lparr>sbHadDelta := had\<rparr>)" if "thinking i c b"
  using that by (simp add: thinking_def)

lemma thinking_deltas:
  assumes "thinking i c b" "\<forall>d\<in>set ds. about ''response.reasoning_summary_text.delta'' i d \<and> evDelta d \<noteq> []"
  shows "processAll c ds = (c\<lparr>cvActive := Some (b\<lparr>sbHadDelta := sbHadDelta b \<or> ds \<noteq> []\<rparr>)\<rparr>,
     map (\<lambda>t. blockDelta (sbIndex b) (thinkingDelta t)) (map evDelta ds), None)"
  using assms
proof (induction ds arbitrary: c b)
  case Nil
  then show ?case by (simp add: thinking_def)
next
  case (Cons d ds)
  let ?b = "b\<lparr>sbHadDelta := True\<rparr>" and ?c = "c\<lparr>cvActive := Some (b\<lparr>sbHadDelta := True\<rparr>)\<rparr>"
  have "process c d = (?c, Inr [blockDelta (sbIndex b) (thinkingDelta (evDelta d))])"
    using Cons.prems by (simp add: about_def thinking_def process_dispatch dispatch_def handleReasoningDelta_def
        ensureMessageStart_def openBlockFor_def)
  moreover have "processAll ?c ds = (?c\<lparr>cvActive := Some (?b\<lparr>sbHadDelta := sbHadDelta ?b \<or> ds \<noteq> []\<rparr>)\<rparr>,
     map (\<lambda>t. blockDelta (sbIndex ?b) (thinkingDelta t)) (map evDelta ds), None)"
    using Cons.prems by (intro Cons.IH) (auto simp: thinking_def)
  ultimately show ?case by simp
qed

lemma thinking_part:
  assumes "thinking i c b" "says ''response.reasoning_summary_text'' evText addressed i s ds fin" "concat (map evDelta ds) = s"
  shows "processAll c (ds @ [fin]) = (c\<lparr>cvActive := Some (b\<lparr>sbHadDelta := sbHadDelta b \<or> heard ds \<noteq> []\<rparr>)\<rparr>,
     map (\<lambda>t. blockDelta (sbIndex b) (thinkingDelta t)) (map evDelta (heard ds)), None)"
proof -
  note h = heard_says [OF assms(2), simplified]
  let ?c = "c\<lparr>cvActive := Some (b\<lparr>sbHadDelta := sbHadDelta b \<or> heard ds \<noteq> []\<rparr>)\<rparr>"
  have fin: "evType fin = ''response.reasoning_summary_text.done''" "evResponse fin = None" "evText fin = s"
    using assms(2) by (simp_all add: says_def about_def)
  have deltas: "processAll c ds = (?c, map (\<lambda>t. blockDelta (sbIndex b) (thinkingDelta t)) (map evDelta (heard ds)), None)"
    using thinking_deltas [OF assms(1) h(3)] h(1) [of c] by simp
  have "heard ds = [] \<Longrightarrow> s = []" using h(2) assms(3) by simp
  then have "process ?c fin = (?c, Inr [])"
    using fin assms(1) by (auto simp: process_dispatch dispatch_def handleReasoningDone_def thinking_def)
  then show ?thesis using processAll_snoc [OF deltas, of fin] by simp
qed

lemma thinking_thoughts:
  "thoughts i k ss es \<Longrightarrow> thinking i c b \<Longrightarrow>
     \<exists>had ts. processAll c es = (c\<lparr>cvActive := Some (b\<lparr>sbHadDelta := had\<rparr>)\<rparr>,
         map (\<lambda>t. blockDelta (sbIndex b) (thinkingDelta t)) ts, None) \<and> concat ts = concat ss"
proof (induction arbitrary: c b rule: thoughts.induct)
  case (no_thought i k)
  then have "c\<lparr>cvActive := Some (b\<lparr>sbHadDelta := sbHadDelta b\<rparr>)\<rparr> = c" by (simp add: thinking_def)
  then show ?case by (intro exI [of _ "sbHadDelta b"] exI [of _ "[]"]) simp
next
  case (a_thought k i s ds fin ss es)
  let ?b = "b\<lparr>sbHadDelta := sbHadDelta b \<or> heard ds \<noteq> []\<rparr>"
  let ?c = "c\<lparr>cvActive := Some ?b\<rparr>"
  obtain had ts where rest: "processAll ?c es = (?c\<lparr>cvActive := Some (?b\<lparr>sbHadDelta := had\<rparr>)\<rparr>,
      map (\<lambda>t. blockDelta (sbIndex ?b) (thinkingDelta t)) ts, None)" "concat ts = concat ss"
    using a_thought.IH [OF thinking_had [OF a_thought.prems]] by blast
  have split: "ds @ fin # es = (ds @ [fin]) @ es" by simp
  have "processAll c (ds @ fin # es) = (c\<lparr>cvActive := Some (b\<lparr>sbHadDelta := had\<rparr>)\<rparr>,
      map (\<lambda>t. blockDelta (sbIndex b) (thinkingDelta t)) (map evDelta (heard ds) @ ts), None)"
    unfolding split processAll_append [of c "ds @ [fin]" es] thinking_part [OF a_thought.prems a_thought.hyps(1,2)] using rest(1) by simp
  moreover have "concat (map evDelta (heard ds) @ ts) = concat (s # ss)"
    using heard_says(2) [OF a_thought.hyps(1)] a_thought.hyps(2) rest(2) by simp
  ultimately show ?case by blast
qed

lemma delivers_reasoning:
  assumes "ready c" "streamsItem i (UpReasoning ss e) es" "okItem (UpReasoning ss e)"
  shows "delivers c es (after c False (blocksOf (UpReasoning ss e))) (blocksOf (UpReasoning ss e))"
proof -
  let ?bs = "blocksOf (UpReasoning ss e)" and ?m = "cvNextBlockIndex c"
  note c = ready_simps [OF assms(1)]
  obtain added x body fin y where es: "es = added # body @ [fin]"
    and added: "about ''response.output_item.added'' i added" "evItem added = Some x" "roType x = ''reasoning''"
      "e = [] \<longrightarrow> roEncryptedContent x = []"
    and body: "thoughts i 0 ss body"
    and fin: "about ''response.output_item.done'' i fin" "evItem fin = Some y" "roType y = ''reasoning''"
      "roEncryptedContent y = e"
    using assms(2) by (auto simp: streamsItem_def)
  let ?b = "zeroStreamBlock\<lparr>sbIndex := ?m, sbOutputIndex := i, sbKind := ''thinking'', sbSignature := roEncryptedContent x\<rparr>"
  let ?c = "c\<lparr>cvSawContent := True, cvActive := Some ?b\<rparr>"
  let ?start = "blockStart ?m (zeroAnthropicContentBlock\<lparr>cbType := ''thinking''\<rparr>)"
  let ?sig = "if e = [] then [] else [blockDelta ?m (signatureDelta e)]"
  have start: "process c added = (?c, Inr [?start])"
    using c added by (simp add: about_def process_dispatch dispatch_def handleItemAdded_def zeroStreamBlock_def Let_def)
  have "thinking i ?c ?b" using c by (simp add: thinking_def zeroStreamBlock_def)
  then obtain had ts where said: "processAll ?c body = (?c\<lparr>cvActive := Some (?b\<lparr>sbHadDelta := had\<rparr>)\<rparr>,
      map (\<lambda>t. blockDelta (sbIndex ?b) (thinkingDelta t)) ts, None)" "concat ts = concat ss"
    using thinking_thoughts [OF body] by blast
  have "c\<lparr>cvSawContent := True, cvActive := None, cvNextBlockIndex := ?m + 1\<rparr> = after c False ?bs"
    using c(2) by (simp add: after_def)
  then have close: "process (?c\<lparr>cvActive := Some (?b\<lparr>sbHadDelta := had\<rparr>)\<rparr>) fin = (after c False ?bs, Inr (?sig @ [blockStop ?m]))"
    using c fin added(4) assms(3) by (auto simp: about_def process_dispatch dispatch_def handleItemDone_def closing_def
        closeActive_def zeroStreamBlock_def isBlank_def)
  have split: "es = [added] @ body @ [fin]" by (simp add: es)
  have "processAll c es = (after c False ?bs,
      ?start # map (\<lambda>t. blockDelta ?m (thinkingDelta t)) ts @ ?sig @ [blockStop ?m], None)"
    unfolding split processAll_append using start said(1) close by (simp add: zeroStreamBlock_def del: blocksOf.simps)
  then show ?thesis
    using said(2) client_thoughts by (simp add: delivers_def zeroAnthropicContentBlock_def)
qed

lemma delivers_item:
  assumes "ready c" "streamsItem i it es" "okItem it"
  shows "delivers c es (after c (isTool it) (blocksOf it)) (blocksOf it)"
proof (cases it)
  case (UpText ps)
  with delivers_message [OF assms(1)] assms(2) show ?thesis by simp
next
  case (UpFunction k n args)
  with delivers_function [OF assms(1)] assms(2,3) show ?thesis by (simp del: okItem.simps blocksOf.simps)
next
  case (UpCustom k n input)
  with delivers_custom [OF assms(1)] assms(2) show ?thesis by (simp del: blocksOf.simps)
next
  case (UpReasoning ss e)
  with delivers_reasoning [OF assms(1)] assms(2,3) show ?thesis by (simp del: okItem.simps blocksOf.simps)
next
  case (UpOther t)
  then obtain added x fin where es: "es = [added] @ [fin]"
    and added: "about ''response.output_item.added'' i added" "evItem added = Some x"
      "roType x \<notin> set [''function_call'', ''custom_tool_call'', ''reasoning'']"
    and fin: "about ''response.output_item.done'' i fin"
    using assms(2,3) by (auto simp: streamsItem_def)
  from delivers_append [OF delivers_idle [OF itemAdded_idle [OF assms(1) added]] delivers_idle [OF itemDone_idle [OF assms(1) fin]]]
  show ?thesis using UpOther by (simp add: es)
qed

lemma delivers_items:
  "streamsItems i its es \<Longrightarrow> ready c \<Longrightarrow> list_all okItem its \<Longrightarrow>
     delivers c es (after c (list_ex isTool its) (concat (map blocksOf its))) (concat (map blocksOf its))"
proof (induction arbitrary: c rule: streamsItems.induct)
  case (an_item i it es its fs)
  have one: "delivers c es (after c (isTool it) (blocksOf it)) (blocksOf it)"
    using an_item by (intro delivers_item) simp_all
  have "delivers (after c (isTool it) (blocksOf it)) fs
      (after (after c (isTool it) (blocksOf it)) (list_ex isTool its) (concat (map blocksOf its))) (concat (map blocksOf its))"
    using an_item.prems by (intro an_item.IH) simp_all
  from delivers_append [OF one this] show ?case by simp
qed (simp add: delivers_Nil)

section \<open>The whole stream\<close>

text \<open>The message a client of the streaming path has at the end.\<close>

definition clientMessage :: "emitted \<Rightarrow> AnthropicResponse option" where
  "clientMessage es =
     (let deltas = filter (\<lambda>e. seType e = ''message_delta'') es in
      if es = [] \<or> deltas = [] then None
      else (case (seMessage (hd es), seDelta (last deltas), seUsage (last deltas)) of
          (Some m, Some d, Some u) \<Rightarrow> Some (m\<lparr>rmContent := orEmptyText (assemble es),
            rmStopReason := Some (adStopReason d), rmUsage := u\<rparr>)
        | _ \<Rightarrow> None))"

lemma process_opens:
  assumes "model \<noteq> []" "opens i r0 e"
  shows "process (NewResponsesStreamConverter model) e =
    ((NewResponsesStreamConverter model)\<lparr>cvResponseID := i, cvMessageStarted := True\<rparr>, Inr [messageStart i model])"
  using assms by (auto simp: process_def opens_def dispatch_def captureMetadata_def ensureMessageStart_def
      NewResponsesStreamConverter_def Let_def)

lemma okItem_blocks: "okItem it \<Longrightarrow> b \<in> set (blocksOf it) \<Longrightarrow> normalBlock b = b"
proof (cases it)
  case (UpText ps)
  assume "b \<in> set (blocksOf it)"
  then have "b \<in> set (textBlocks ps)" using UpText by simp
  then show ?thesis
    by (induction ps rule: textBlocks.induct)
      (auto simp: normalBlock_def textBlock_def zeroAnthropicContentBlock_def split: if_splits)
qed (auto simp: normalBlock_def toolUse_def zeroAnthropicContentBlock_def)

lemma client_full:
  assumes "list_all2 carries its xs" "list_all okItem its"
  shows "fst (foldl clientStep (bs, j) (fullEvents n (concat (map blocksOf its)))) = bs @ concat (map blocksOf its)"
proof -
  have "list_all builtBlock (concat (map blocksOf its))"
    using outputBlocksFrom_built [OF outputBlocksFrom_carried [OF assms, of 0]] .
  moreover have "map normalBlock (concat (map blocksOf its)) = concat (map blocksOf its)"
    using assms(2) by (intro map_idI) (auto simp: list_all_iff intro: okItem_blocks)
  ultimately show ?thesis by (simp add: client_fullEvents)
qed

abbreviation endOf :: "upItem list \<Rightarrow> ResponsesStreamEvent \<Rightarrow> emitted" where
  "endOf its fin \<equiv> [messageDelta (stopReasonFor (terminalStatus fin) (terminalDetails fin) (list_ex isTool its))
     (anthropicUsage (terminalUsage fin)), messageStop]"

lemma process_closes:
  assumes "ready c" "told i c" "closes i its shown r0 fin" "list_all okItem its"
    "cvSawContent c \<longleftrightarrow> shown \<and> concat (map blocksOf its) \<noteq> []" "cvHasTool c \<longleftrightarrow> shown \<and> list_ex isTool its"
  shows "\<exists>c' full. process c fin = (c', Inr (full @ endOf its fin))
    \<and> (\<forall>bs j. fst (foldl clientStep (bs, j) full) = bs @ (if shown then [] else concat (map blocksOf its)))"
proof -
  note c = ready_simps [OF assms(1)] and ok = closes_ok [OF assms(3)]
  have "captureMetadata c (evResponse fin) = c"
    using assms(2,3) by (auto simp: captureMetadata_def told_def closes_def Let_def split: option.split)
  then have run: "process c fin = handleTerminal c fin"
    using c assms(3) by (auto simp: process_def dispatch_def closes_def)
  show ?thesis
  proof (cases "\<not> cvSawContent c \<and> evResponse fin \<noteq> None \<and> rpOutput (the (evResponse fin)) \<noteq> []")
    case True
    let ?xs = "rpOutput (the (evResponse fin))" and ?B = "concat (map blocksOf its)"
    have xs: "list_all2 carries its ?xs" using assms(3) True by (auto simp: closes_def)
    have "streamFullOutput ?xs n = Inr (fullEvents n ?B, list_ex isTool its)" for n
      using outputBlocksFrom_carried [OF xs assms(4), of 0] by (simp add: streamFullOutput_def responseOutputToBlocks_def)
    moreover have "(cvHasTool c \<or> list_ex isTool its) = list_ex isTool its" using assms(6) by blast
    ultimately have "\<exists>c'. handleTerminal c fin = (c', Inr (fullEvents (cvNextBlockIndex c) ?B @ endOf its fin))"
      using True ok c(6) by (simp add: handleTerminal_def finishStream_def)
    moreover have "fst (foldl clientStep (bs, j) (fullEvents n ?B)) = bs @ (if shown then [] else ?B)" for bs j n
      using client_full [OF xs assms(4)] True assms(5) by auto
    ultimately show ?thesis unfolding run by blast
  next
    case False
    have "shown \<or> its = []"
      using assms(3) False assms(5) by (auto simp: closes_def split: option.splits)
    then have tools: "cvHasTool c = list_ex isTool its" and none: "\<not> shown \<Longrightarrow> its = []"
      using assms(6) by auto
    have "handleTerminal c fin = finishStream c fin []"
      using False by (auto simp: handleTerminal_def ok c(6,7))
    then have "process c fin = (c\<lparr>cvTerminal := True\<rparr>, Inr ([] @ endOf its fin))"
      unfolding run by (simp add: finishStream_def tools)
    moreover have "fst (foldl clientStep (bs, j) []) = bs @ (if shown then [] else concat (map blocksOf its))" for bs j
      using none by auto
    ultimately show ?thesis by blast
  qed
qed

lemma passing_open: "passing i e \<Longrightarrow> \<not> isTerminalResponsesEvent (evType e)"
  by (auto simp: passing_def meaningful_def isTerminalResponsesEvent_def)

lemma streaming_message:
  assumes "responds i its fin es" "list_all okItem its" "model \<noteq> []"
  shows "\<exists>c out. processAll (NewResponsesStreamConverter model) es = (c, out, None)
    \<and> clientMessage out = Some (messageOf model i its fin)"
proof -
  obtain created r0 mid shown where es: "es = created # mid @ [fin]" and opens: "opens i r0 created"
    and items: "streamsItems 0 (if shown then its else []) (filter (\<lambda>e. \<not> passing i e) mid)"
    and closes: "closes i its shown r0 fin"
    using assms(1) by (auto simp: responds_def)
  let ?c = "(NewResponsesStreamConverter model)\<lparr>cvResponseID := i, cvMessageStarted := True\<rparr>"
  let ?its = "if shown then its else []"
  let ?d = "after ?c (list_ex isTool ?its) (concat (map blocksOf ?its))"
  have c: "ready ?c" "told i ?c" "\<not> cvSawContent ?c" "\<not> cvHasTool ?c"
    using assms(3) by (simp_all add: ready_def told_def NewResponsesStreamConverter_def)
  have plain: "\<forall>e\<in>set mid. passing i e \<or> evResponse e = None \<and> \<not> isTerminalResponsesEvent (evType e)"
    using streamsItems_plain [OF items] by (auto simp: plain_def)
  have "list_all okItem ?its" using assms(2) by simp
  then obtain sent where mid: "processAll ?c mid = (?d, sent, None)"
    "\<And>bs. foldl clientStep (bs, []) sent = (bs @ concat (map blocksOf ?its), [])"
    using delivers_items [OF items c(1)] processAll_passing [OF c(2) plain] by (auto simp: delivers_def)
  have "ready ?d" "told i ?d" using c(1,2) by (simp_all add: told_def)
  moreover have "cvSawContent ?d \<longleftrightarrow> shown \<and> concat (map blocksOf its) \<noteq> []" "cvHasTool ?d \<longleftrightarrow> shown \<and> list_ex isTool its"
    using c(3,4) by auto
  ultimately obtain c' full where fin: "process ?d fin = (c', Inr (full @ endOf its fin))"
    "\<And>bs j. fst (foldl clientStep (bs, j) full) = bs @ (if shown then [] else concat (map blocksOf its))"
    using process_closes [OF _ _ closes assms(2), of ?d] by blast
  let ?out = "messageStart i model # sent @ full @ endOf its fin"
  have "processAll (NewResponsesStreamConverter model) es = (c', ?out, None)"
    by (simp add: es process_opens [OF assms(3) opens] processAll_append mid(1) fin(1))
  moreover have "assemble ?out = concat (map blocksOf its)"
    using mid(2) [of "[]"] fin(2) [of "concat (map blocksOf ?its)" "[]"] by (auto simp: assemble_def)
  then have "clientMessage ?out = Some (messageOf model i its fin)"
    by (simp add: clientMessage_def messageOf_def)
      (simp add: messageDelta_def messageStop_def messageStart_def zeroAnthropicDelta_def zeroAnthropicStreamEvent_def)
  ultimately show ?thesis by blast
qed

text \<open>
  A stream as the Responses API sends it, for the concrete instances: reasoning, a message and a function call, with
  identifiers, roles, statuses and sequence numbers, with passing events, and with a terminal event that repeats the
  items and tells the usage.
\<close>

abbreviation sampleEvent :: "string \<Rightarrow> int \<Rightarrow> int \<Rightarrow> string \<Rightarrow> ResponsesStreamEvent" where
  "sampleEvent t n i itemID \<equiv> zeroResponsesStreamEvent\<lparr>evType := t, evOutputIndex := i, evItemID := itemID, evSequenceNumber := n\<rparr>"

definition sampleBegun :: ResponsesResponse where
  "sampleBegun = zeroResponsesResponse\<lparr>rpID := ''r1'', rpObject := ''response'', rpModel := ''u'', rpStatus := ''in_progress''\<rparr>"

definition sampleReasoning :: ResponsesOutput where
  "sampleReasoning = zeroResponsesOutput\<lparr>roType := ''reasoning'', roID := ''rs1'',
     roSummary := [zeroResponsesSummary\<lparr>rsType := ''summary_text'', rsText := ''Hm''\<rparr>], roEncryptedContent := ''gA''\<rparr>"

definition sampleSpoken :: ResponsesOutput where
  "sampleSpoken = zeroResponsesOutput\<lparr>roType := ''message'', roID := ''m1'', roRole := ''assistant'', roStatus := ''completed'',
     roContent := [zeroResponsesContentPart\<lparr>cpType := ''output_text'', cpText := ''Hi!''\<rparr>]\<rparr>"

definition sampleCall :: ResponsesOutput where
  "sampleCall = zeroResponsesOutput\<lparr>roType := ''function_call'', roID := ''fc1'', roStatus := ''completed'',
     roCallID := ''c1'', roName := ''ls'', roArguments := ''{}''\<rparr>"

definition sampleItems :: "upItem list" where
  "sampleItems = [UpReasoning [''Hm''] ''gA'', UpText [Some ''Hi!''], UpFunction ''c1'' ''ls'' ''{}'']"

definition sampleEnd :: ResponsesStreamEvent where
  "sampleEnd = (sampleEvent ''response.completed'' 18 0 [])\<lparr>evResponse := Some (sampleBegun\<lparr>rpStatus := ''completed'',
     rpOutput := [sampleReasoning, sampleSpoken, sampleCall],
     rpUsage := Some (zeroResponsesUsage\<lparr>ruInputTokens := 5, ruOutputTokens := 7, ruTotalTokens := 12\<rparr>)\<rparr>)\<rparr>"

definition sampleThought :: "ResponsesStreamEvent list" where
  "sampleThought = (sampleEvent ''response.output_item.added'' 2 0 [])\<lparr>evItem := Some (sampleReasoning\<lparr>roSummary := []\<rparr>)\<rparr>
     # ([(sampleEvent ''response.reasoning_summary_text.delta'' 4 0 ''rs1'')\<lparr>evDelta := ''Hm''\<rparr>]
        @ (sampleEvent ''response.reasoning_summary_text.done'' 5 0 ''rs1'')\<lparr>evText := ''Hm''\<rparr> # [])
     @ [(sampleEvent ''response.output_item.done'' 6 0 [])\<lparr>evItem := Some sampleReasoning\<rparr>]"

definition sampleSaid :: "ResponsesStreamEvent list" where
  "sampleSaid = (sampleEvent ''response.output_item.added'' 7 1 [])\<lparr>evItem := Some (sampleSpoken\<lparr>roStatus := ''in_progress'', roContent := []\<rparr>)\<rparr>
     # ([(sampleEvent ''response.output_text.delta'' 9 1 ''m1'')\<lparr>evDelta := ''Hi''\<rparr>,
         (sampleEvent ''response.output_text.delta'' 10 1 ''m1'')\<lparr>evDelta := ''!''\<rparr>]
        @ (sampleEvent ''response.output_text.done'' 11 1 ''m1'')\<lparr>evText := ''Hi!''\<rparr> # [])
     @ [(sampleEvent ''response.output_item.done'' 13 1 [])\<lparr>evItem := Some sampleSpoken\<rparr>]"

definition sampleCalled :: "ResponsesStreamEvent list" where
  "sampleCalled = (sampleEvent ''response.output_item.added'' 14 2 [])\<lparr>evItem := Some (sampleCall\<lparr>roStatus := ''in_progress'', roArguments := []\<rparr>)\<rparr>
     # ([(sampleEvent ''response.function_call_arguments.delta'' 15 2 ''fc1'')\<lparr>evDelta := ''{}''\<rparr>]
        @ [(sampleEvent ''response.function_call_arguments.done'' 16 2 ''fc1'')\<lparr>evArguments := ''{}''\<rparr>])
     @ [(sampleEvent ''response.output_item.done'' 17 2 [])\<lparr>evItem := Some sampleCall\<rparr>]"

definition sampleStream :: "ResponsesStreamEvent list" where
  "sampleStream = (sampleEvent ''response.created'' 0 0 [])\<lparr>evResponse := Some sampleBegun\<rparr>
     # ((sampleEvent ''response.in_progress'' 1 0 [])\<lparr>evResponse := Some sampleBegun\<rparr>
        # hd sampleThought # sampleEvent ''response.reasoning_summary_part.added'' 3 0 ''rs1'' # tl sampleThought
        @ hd sampleSaid # sampleEvent ''response.content_part.added'' 8 1 ''m1'' # butlast (tl sampleSaid)
        @ sampleEvent ''response.content_part.done'' 12 1 ''m1'' # last sampleSaid # sampleCalled)
     @ [sampleEnd]"

lemmas sample_defs = sampleBegun_def sampleReasoning_def sampleSpoken_def sampleCall_def zeros

lemma streamsItemI:
  assumes "about ''response.output_item.added'' i added" "evItem added = Some x" "begins it x" "itemBody i it body"
    "about ''response.output_item.done'' i fin" "evItem fin = Some y" "carries it y"
  shows "streamsItem i it (added # body @ [fin])"
  using assms unfolding streamsItem_def by blast

lemma sample_thought: "streamsItem 0 (UpReasoning [''Hm''] ''gA'') sampleThought"
  unfolding sampleThought_def
proof (rule streamsItemI [where x = "sampleReasoning\<lparr>roSummary := []\<rparr>" and y = sampleReasoning])
  show "itemBody 0 (UpReasoning [''Hm''] ''gA'')
      ([(sampleEvent ''response.reasoning_summary_text.delta'' 4 0 ''rs1'')\<lparr>evDelta := ''Hm''\<rparr>]
        @ (sampleEvent ''response.reasoning_summary_text.done'' 5 0 ''rs1'')\<lparr>evText := ''Hm''\<rparr> # [])"
    unfolding itemBody.simps by (rule a_thought [OF _ _ no_thought]) (simp_all add: about_def says_def zeros)
qed (simp_all add: about_def sample_defs)

lemma sample_said: "streamsItem 1 (UpText [Some ''Hi!'']) sampleSaid"
  unfolding sampleSaid_def
proof (rule streamsItemI [where x = "sampleSpoken\<lparr>roStatus := ''in_progress'', roContent := []\<rparr>" and y = sampleSpoken])
  show "itemBody 1 (UpText [Some ''Hi!''])
      ([(sampleEvent ''response.output_text.delta'' 9 1 ''m1'')\<lparr>evDelta := ''Hi''\<rparr>,
         (sampleEvent ''response.output_text.delta'' 10 1 ''m1'')\<lparr>evDelta := ''!''\<rparr>]
        @ (sampleEvent ''response.output_text.done'' 11 1 ''m1'')\<lparr>evText := ''Hi!''\<rparr> # [])"
    unfolding itemBody.simps by (rule text_part [OF _ no_part]) (simp_all add: about_def says_def zeros)
qed (simp_all add: about_def sample_defs)

lemma sample_called: "streamsItem 2 (UpFunction ''c1'' ''ls'' ''{}'') sampleCalled"
  unfolding sampleCalled_def
proof (rule streamsItemI [where x = "sampleCall\<lparr>roStatus := ''in_progress'', roArguments := []\<rparr>" and y = sampleCall])
  let ?d = "(sampleEvent ''response.function_call_arguments.delta'' 15 2 ''fc1'')\<lparr>evDelta := ''{}''\<rparr>"
  let ?f = "(sampleEvent ''response.function_call_arguments.done'' 16 2 ''fc1'')\<lparr>evArguments := ''{}''\<rparr>"
  have "says ''response.function_call_arguments'' evArguments (forCall ''c1'' ''ls'') 2 ''{}'' [?d] ?f"
    by (simp add: says_def about_def forCall_def zeros)
  then show "itemBody 2 (UpFunction ''c1'' ''ls'' ''{}'') ([?d] @ [?f])" unfolding itemBody.simps by blast
qed (simp_all add: about_def sample_defs)

lemma sample_responds: "responds ''r1'' sampleItems sampleEnd sampleStream"
proof -
  let ?mid = "butlast (tl sampleStream)"
  have "streamsItems 0 sampleItems (sampleThought @ sampleSaid @ sampleCalled @ [])"
    unfolding sampleItems_def
    using sample_thought sample_said sample_called by (intro streamsItems.intros) simp_all
  moreover have "filter (\<lambda>e. \<not> passing ''r1'' e) ?mid = sampleThought @ sampleSaid @ sampleCalled @ []"
    by code_simp
  moreover have "sampleStream = hd sampleStream # ?mid @ [sampleEnd]" by (simp add: sampleStream_def butlast_append)
  moreover have "opens ''r1'' sampleBegun (hd sampleStream)"
    by (simp add: opens_def sampleStream_def sampleBegun_def zeros)
  moreover have "closes ''r1'' sampleItems True sampleBegun sampleEnd"
    by (simp add: closes_def sampleEnd_def sampleItems_def sample_defs)
  ultimately show ?thesis unfolding responds_def
    by (intro exI [of _ "hd sampleStream"] exI [of _ sampleBegun] exI [of _ ?mid] exI [of _ True]) simp
qed

lemma sample_ok: "list_all okItem sampleItems"
  by (simp add: sampleItems_def isBlank_def) code_simp

section \<open>The equivalence\<close>

text \<open>A response ends with its terminal event, and no event before it is one.\<close>

lemma responds_shape:
  assumes "responds i its fin es"
  obtains es' where "es = es' @ [fin]" "list_all nonTerminal es'" "isTerminalResponsesEvent (evType fin)"
proof -
  obtain created r0 mid shown where es: "es = created # mid @ [fin]" and opens: "opens i r0 created"
    and items: "streamsItems 0 (if shown then its else []) (filter (\<lambda>e. \<not> passing i e) mid)"
    and closes: "closes i its shown r0 fin"
    using assms by (auto simp: responds_def)
  have "nonTerminal created" using opens by (simp add: opens_def isTerminalResponsesEvent_def)
  moreover have "nonTerminal e" if "e \<in> set mid" for e
    using streamsItems_plain [OF items] that passing_open by (auto simp: plain_def)
  moreover have "isTerminalResponsesEvent (evType fin)" using closes by (auto simp: closes_def isTerminalResponsesEvent_def)
  ultimately show thesis using that [of "created # mid"] es by (simp add: list_all_iff)
qed

text \<open>
  C2: Streaming and non-streaming give the same message. Take any stream of one successful response, as the Responses
  API sends it: the first event, the output items one after the other (messages of any number of parts, function
  calls, custom tool calls, reasoning with any number of summary parts, items of other types), each added, said in
  any pieces and ended, or all items only in the terminal event; passing events anywhere in between; a terminal
  event of any of the three types, with any status but failed, with or without usage, incomplete details and the
  items. Item identifiers, roles, statuses, models, sequence numbers and the like are arbitrary. Then both paths
  succeed, and the message a client assembles from the converted events is the one the non-streaming path returns
  for the same events: identifier, model, content blocks, stop reason and usage; and it is the expected one. The
  items have to be in order (okItem): function arguments are a JSON object or empty, and a reasoning item has a
  summary or an encrypted content that is not white space; without one the two paths do differ.
\<close>

theorem stream_modes_agree:
  assumes "responds i its fin es" "list_all okItem its" "model \<noteq> []"
  shows "\<exists>c out a resp msg.
      processAll (NewResponsesStreamConverter model) es = (c, out, None)
    \<and> feed accStep NewResponseAccumulator es = Some a
    \<and> accFinalize a = Inr resp \<and> ResponsesToAnthropic (Some resp) model = Inr msg
    \<and> clientMessage out = Some msg \<and> msg = messageOf model i its fin"
  using streaming_message [OF assms] accumulated_message [OF assms] by blast

theorem stream_modes_agree_witness:
  "\<exists>c out. processAll (NewResponsesStreamConverter ''m'') sampleStream = (c, out, None)
     \<and> clientMessage out = Some (messageOf ''m'' ''r1'' sampleItems sampleEnd)"
  using stream_modes_agree [OF sample_responds sample_ok, of "''m''"] by blast

end
