(* ===== verification/Json_Decode.thy ===== *)
theory Json_Decode
  imports Wire_Types Json_Encode
begin

text \<open>
  \<^verbatim>\<open>json.Unmarshal\<close> into the wire types, as combinators over parsed JSON. A decoder takes the value a
  field already holds (\<^verbatim>\<open>null\<close> leaves it, a repeated key decodes on top of it), the raw text and the
  parsed value; \<open>None\<close> is an unmarshal error, which the source only ever tests for. A key matches a field
  exactly or, failing that, up to Go's case folding.
\<close>

section \<open>Combinators\<close>

type_synonym 'a dec = "'a \<Rightarrow> string \<Rightarrow> json \<Rightarrow> 'a option"

definition decString :: "string dec" where
  "decString old raw j = (case j of JStr s \<Rightarrow> Some s | JNull \<Rightarrow> Some old | _ \<Rightarrow> None)"

definition decBool :: "bool dec" where
  "decBool old raw j = (case j of JBool b \<Rightarrow> Some b | JNull \<Rightarrow> Some old | _ \<Rightarrow> None)"

text \<open>\<^verbatim>\<open>strconv.ParseInt\<close> on a number literal: no fraction, no exponent, within 64 bits.\<close>

definition digits_val :: "string \<Rightarrow> nat" where
  "digits_val ds = foldl (\<lambda>n c. 10 * n + (byte_val c - 48)) 0 ds"

definition parse_int :: "string \<Rightarrow> int option" where
  "parse_int lit =
     (let neg = hasPrefix lit ''-''; ds = (if neg then tl lit else lit);
          v = (if neg then - int (digits_val ds) else int (digits_val ds))
      in if ds \<noteq> [] \<and> list_all is_digit ds \<and> in_i64 v then Some v else None)"

definition decInt :: "int dec" where
  "decInt old raw j = (case j of JNum l \<Rightarrow> parse_int l | JNull \<Rightarrow> Some old | _ \<Rightarrow> None)"

text \<open>
  A \<^verbatim>\<open>float64\<close> keeps its literal, but a literal that rounds to infinity is an error, as for
  \<^verbatim>\<open>strconv.ParseFloat\<close>: one not below the midpoint above the largest finite value.
\<close>

definition float_fits :: "string \<Rightarrow> bool" where
  "float_fits lit =
     (let s = (if hasPrefix lit ''-'' then tl lit else lit);
          ip = takeWhile is_digit s; r = dropWhile is_digit s;
          fp = (if hasPrefix r ''.'' then takeWhile is_digit (tl r) else []);
          r2 = (if hasPrefix r ''.'' then dropWhile is_digit (tl r) else r);
          es = tl r2; eneg = hasPrefix es ''-'';
          ed = digits_val (filter is_digit es);
          e = (if r2 = [] then 0 else if eneg then - int ed else int ed) - int (length fp);
          m = digits_val (ip @ fp); bound = 2 ^ 1024 - 2 ^ 970
      in if 0 \<le> e then m * 10 ^ nat e < bound else m < bound * 10 ^ nat (- e))"

definition decFloat :: "string dec" where
  "decFloat old raw j =
     (case j of JNum l \<Rightarrow> if float_fits l then Some l else None | JNull \<Rightarrow> Some old | _ \<Rightarrow> None)"

definition decRaw :: "string dec" where
  "decRaw old raw j = Some raw"

text \<open>A pointer: \<^verbatim>\<open>null\<close> makes it nil, any other value is decoded into what it points to.\<close>

definition decPtr :: "'a \<Rightarrow> 'a dec \<Rightarrow> 'a option dec" where
  "decPtr zero dec old raw j =
     (if j = JNull then Some None
      else map_option Some (dec (case old of None \<Rightarrow> zero | Some x \<Rightarrow> x) raw j))"

fun decElems :: "'a \<Rightarrow> 'a dec \<Rightarrow> 'a list \<Rightarrow> (string \<times> json) list \<Rightarrow> 'a list option" where
  "decElems zero dec old [] = Some []"
| "decElems zero dec old ((raw, j) # es) =
     (case dec (case old of [] \<Rightarrow> zero | x # _ \<Rightarrow> x) raw j of
        None \<Rightarrow> None
      | Some v \<Rightarrow> map_option (Cons v) (decElems zero dec (drop 1 old) es))"

definition decList :: "'a \<Rightarrow> 'a dec \<Rightarrow> 'a list dec" where
  "decList zero dec old raw j =
     (case j of JArr es \<Rightarrow> decElems zero dec old es | JNull \<Rightarrow> Some [] | _ \<Rightarrow> None)"

section \<open>Structs\<close>

text \<open>
  Go's folding of a key: ASCII letters by case, U+017F (long s) with S, U+212A (Kelvin sign) with K; field
  names are ASCII, so no other fold can make a key match.
\<close>

definition ascii_upper :: "char \<Rightarrow> char" where
  "ascii_upper c = (if in_byte 0x61 0x7A c then char_of (byte_val c - 32) else c)"

fun foldKey :: "string \<Rightarrow> string" where
  "foldKey [] = []"
| "foldKey (c # s) =
     (if c = CHR 0xC5 \<and> hasPrefix s [CHR 0xBF] then CHR ''S'' # foldKey (drop 1 s)
      else if c = CHR 0xE2 \<and> hasPrefix s [CHR 0x84, CHR 0xAA] then CHR ''K'' # foldKey (drop 2 s)
      else ascii_upper c # foldKey s)"

type_synonym 'a field_table = "(string \<times> 'a dec) list"

definition findField :: "'a field_table \<Rightarrow> string \<Rightarrow> 'a dec option" where
  "findField fs key =
     (case map_of fs key of
        Some d \<Rightarrow> Some d
      | None \<Rightarrow> map_of (map (\<lambda>(n, d). (foldKey n, d)) fs) (foldKey key))"

fun decMembers :: "'a field_table \<Rightarrow> 'a \<Rightarrow> (string \<times> string \<times> json) list \<Rightarrow> 'a option" where
  "decMembers fs v [] = Some v"
| "decMembers fs v ((key, raw, j) # ms) =
     (case findField fs key of
        None \<Rightarrow> decMembers fs v ms
      | Some d \<Rightarrow> (case d v raw j of None \<Rightarrow> None | Some v1 \<Rightarrow> decMembers fs v1 ms))"

definition decStruct :: "'a field_table \<Rightarrow> 'a dec" where
  "decStruct fs old raw j =
     (case j of JObj ms \<Rightarrow> decMembers fs old ms | JNull \<Rightarrow> Some old | _ \<Rightarrow> None)"

text \<open>A field: how to read and to write it in its struct.\<close>

definition field :: "string \<Rightarrow> 'b dec \<Rightarrow> ('a \<Rightarrow> 'b) \<Rightarrow> (('b \<Rightarrow> 'b) \<Rightarrow> 'a \<Rightarrow> 'a) \<Rightarrow> string \<times> 'a dec" where
  "field name dec get upd =
     (name, \<lambda>x raw j. map_option (\<lambda>v. upd (\<lambda>_. v) x) (dec (get x) raw j))"

text \<open>\<^verbatim>\<open>json.Unmarshal\<close> into a fresh value.\<close>

definition unmarshal :: "'a \<Rightarrow> 'a dec \<Rightarrow> string \<Rightarrow> 'a option" where
  "unmarshal zero dec s = (case json_parse s of None \<Rightarrow> None | Some j \<Rightarrow> dec zero s j)"

section \<open>Request types\<close>

definition decCacheControl :: "AnthropicCacheControl dec" where
  "decCacheControl = decStruct [field ''type'' decString ccType ccType_update,
     field ''ttl'' decString ccTTL ccTTL_update]"

definition decImageSource :: "AnthropicImageSource dec" where
  "decImageSource = decStruct [field ''type'' decString imType imType_update,
     field ''media_type'' decString imMediaType imMediaType_update,
     field ''data'' decString imData imData_update]"

definition decContentBlock :: "AnthropicContentBlock dec" where
  "decContentBlock = decStruct
     [field ''type'' decString cbType cbType_update,
      field ''cache_control'' (decPtr zeroAnthropicCacheControl decCacheControl) cbCacheControl cbCacheControl_update,
      field ''text'' decString cbText cbText_update,
      field ''thinking'' decString cbThinking cbThinking_update,
      field ''signature'' decString cbSignature cbSignature_update,
      field ''source'' (decPtr zeroAnthropicImageSource decImageSource) cbSource cbSource_update,
      field ''id'' decString cbID cbID_update,
      field ''name'' decString cbName cbName_update,
      field ''input'' decRaw cbInput cbInput_update,
      field ''tool_use_id'' decString cbToolUseID cbToolUseID_update,
      field ''content'' decRaw cbContent cbContent_update,
      field ''is_error'' decBool cbIsError cbIsError_update]"

definition unmarshalString :: "string \<Rightarrow> string option" where
  "unmarshalString = unmarshal [] decString"

definition unmarshalBlocks :: "string \<Rightarrow> AnthropicContentBlock list option" where
  "unmarshalBlocks = unmarshal [] (decList zeroAnthropicContentBlock decContentBlock)"

definition decMessage :: "AnthropicMessage dec" where
  "decMessage = decStruct [field ''role'' decString amRole amRole_update,
     field ''content'' decRaw amContent amContent_update]"

definition decTool :: "AnthropicTool dec" where
  "decTool = decStruct
     [field ''type'' decString atType atType_update,
      field ''name'' decString atName atName_update,
      field ''description'' decString atDescription atDescription_update,
      field ''input_schema'' decRaw atInputSchema atInputSchema_update,
      field ''cache_control'' (decPtr zeroAnthropicCacheControl decCacheControl) atCacheControl atCacheControl_update]"

definition decThinking :: "AnthropicThinking dec" where
  "decThinking = decStruct [field ''type'' decString thType thType_update,
     field ''budget_tokens'' decInt thBudgetTokens thBudgetTokens_update]"

definition decOutputConfig :: "AnthropicOutputConfig dec" where
  "decOutputConfig = decStruct [field ''effort'' decString ocEffort ocEffort_update]"

text \<open>A slice that is marshalled again keeps whether it is nil.\<close>

definition decSlice :: "'a \<Rightarrow> 'a dec \<Rightarrow> ('a list \<times> bool) dec" where
  "decSlice zero dec old raw j = map_option (\<lambda>xs. (xs, j = JNull)) (decList zero dec (fst old) raw j)"

definition decRequest :: "AnthropicRequest dec" where
  "decRequest = decStruct
     [field ''model'' decString arModel arModel_update,
      field ''max_tokens'' decInt arMaxTokens arMaxTokens_update,
      field ''system'' decRaw arSystem arSystem_update,
      field ''messages'' (decList zeroAnthropicMessage decMessage) arMessages arMessages_update,
      field ''tools'' (decSlice zeroAnthropicTool decTool) (\<lambda>r. (arTools r, arToolsNil r))
        (\<lambda>f r. let p = f (arTools r, arToolsNil r) in r\<lparr>arTools := fst p, arToolsNil := snd p\<rparr>),
      field ''stream'' decBool arStream arStream_update,
      field ''temperature'' (decPtr [] decFloat) arTemperature arTemperature_update,
      field ''top_p'' (decPtr [] decFloat) arTopP arTopP_update,
      field ''stop_sequences'' (decList [] decString) arStopSequences arStopSequences_update,
      field ''thinking'' (decPtr zeroAnthropicThinking decThinking) arThinking arThinking_update,
      field ''tool_choice'' decRaw arToolChoice arToolChoice_update,
      field ''metadata'' decRaw arMetadata arMetadata_update,
      field ''output_config'' (decPtr zeroAnthropicOutputConfig decOutputConfig) arOutputConfig arOutputConfig_update]"

section \<open>Upstream event types\<close>

definition decContentPart :: "ResponsesContentPart dec" where
  "decContentPart = decStruct [field ''type'' decString cpType cpType_update,
     field ''text'' decString cpText cpText_update,
     field ''image_url'' decString cpImageURL cpImageURL_update]"

definition decSummary :: "ResponsesSummary dec" where
  "decSummary = decStruct [field ''type'' decString rsType rsType_update,
     field ''text'' decString rsText rsText_update]"

definition decOutput :: "ResponsesOutput dec" where
  "decOutput = decStruct
     [field ''type'' decString roType roType_update,
      field ''id'' decString roID roID_update,
      field ''role'' decString roRole roRole_update,
      field ''status'' decString roStatus roStatus_update,
      field ''content'' (decList zeroResponsesContentPart decContentPart) roContent roContent_update,
      field ''encrypted_content'' decString roEncryptedContent roEncryptedContent_update,
      field ''summary'' (decList zeroResponsesSummary decSummary) roSummary roSummary_update,
      field ''call_id'' decString roCallID roCallID_update,
      field ''name'' decString roName roName_update,
      field ''arguments'' decString roArguments roArguments_update,
      field ''input'' decString roInput roInput_update]"

definition decInputTokensDetails :: "ResponsesInputTokensDetails dec" where
  "decInputTokensDetails = decStruct
     [field ''cached_tokens'' decInt tdCachedTokens tdCachedTokens_update,
      field ''cache_creation_tokens'' decInt tdCacheCreationTokens tdCacheCreationTokens_update,
      field ''cache_write_tokens'' decInt tdCacheWriteTokens tdCacheWriteTokens_update]"

definition decUsage :: "ResponsesUsage dec" where
  "decUsage = decStruct
     [field ''input_tokens'' decInt ruInputTokens ruInputTokens_update,
      field ''output_tokens'' decInt ruOutputTokens ruOutputTokens_update,
      field ''total_tokens'' decInt ruTotalTokens ruTotalTokens_update,
      field ''cache_creation_input_tokens'' decInt ruCacheCreationInputTokens ruCacheCreationInputTokens_update,
      field ''input_tokens_details'' (decPtr zeroResponsesInputTokensDetails decInputTokensDetails)
        ruInputTokensDetails ruInputTokensDetails_update]"

definition decIncompleteDetails :: "ResponsesIncompleteDetails dec" where
  "decIncompleteDetails = decStruct [field ''reason'' decString rdReason rdReason_update]"

definition decError :: "ResponsesError dec" where
  "decError = decStruct [field ''code'' decString reCode reCode_update,
     field ''message'' decString reMessage reMessage_update]"

definition decResponse :: "ResponsesResponse dec" where
  "decResponse = decStruct
     [field ''id'' decString rpID rpID_update,
      field ''object'' decString rpObject rpObject_update,
      field ''model'' decString rpModel rpModel_update,
      field ''status'' decString rpStatus rpStatus_update,
      field ''output'' (decList zeroResponsesOutput decOutput) rpOutput rpOutput_update,
      field ''usage'' (decPtr zeroResponsesUsage decUsage) rpUsage rpUsage_update,
      field ''incomplete_details'' (decPtr zeroResponsesIncompleteDetails decIncompleteDetails)
        rpIncompleteDetails rpIncompleteDetails_update,
      field ''error'' (decPtr zeroResponsesError decError) rpError rpError_update]"

definition decStreamEvent :: "ResponsesStreamEvent dec" where
  "decStreamEvent = decStruct
     [field ''type'' decString evType evType_update,
      field ''response'' (decPtr zeroResponsesResponse decResponse) evResponse evResponse_update,
      field ''usage'' (decPtr zeroResponsesUsage decUsage) evUsage evUsage_update,
      field ''item'' (decPtr zeroResponsesOutput decOutput) evItem evItem_update,
      field ''output_index'' decInt evOutputIndex evOutputIndex_update,
      field ''content_index'' decInt evContentIndex evContentIndex_update,
      field ''delta'' decString evDelta evDelta_update,
      field ''text'' decString evText evText_update,
      field ''item_id'' decString evItemID evItemID_update,
      field ''call_id'' decString evCallID evCallID_update,
      field ''name'' decString evName evName_update,
      field ''arguments'' decString evArguments evArguments_update,
      field ''input'' decString evInput evInput_update,
      field ''summary_index'' decInt evSummaryIndex evSummaryIndex_update,
      field ''code'' decString evCode evCode_update,
      field ''message'' decString evMessage evMessage_update,
      field ''param'' decString evParam evParam_update,
      field ''error'' (decPtr zeroResponsesError decError) evError evError_update,
      field ''sequence_number'' decInt evSequenceNumber evSequenceNumber_update]"

section \<open>Rules\<close>

lemma unmarshalString_iff:
  "unmarshalString s = Some t \<longleftrightarrow> json_parse s = Some (JStr t) \<or> json_parse s = Some JNull \<and> t = []"
  by (auto simp: unmarshalString_def unmarshal_def decString_def split: option.splits json.splits)

lemma unmarshalBlocks_iff:
  "unmarshalBlocks s = Some bs \<longleftrightarrow>
     (\<exists>es. json_parse s = Some (JArr es) \<and> decElems zeroAnthropicContentBlock decContentBlock [] es = Some bs)
     \<or> json_parse s = Some JNull \<and> bs = []"
  by (auto simp: unmarshalBlocks_def unmarshal_def decList_def split: option.splits json.splits)

lemma decElems_length: "decElems z d old es = Some vs \<Longrightarrow> length vs = length es"
  by (induction z d old es arbitrary: vs rule: decElems.induct) (auto split: option.splits)

end
