(* ===== verification/Request_Translator.thy ===== *)
theory Request_Translator
  imports Json_Decode
begin

text \<open>
  \<^verbatim>\<open>internal/protocol/anthropic_to_responses.go\<close>: the translation of an Anthropic Messages request into
  a Responses request, one definition per function. Content that is raw JSON on the wire is decoded as
  the source decodes it: as a string first, as a list of blocks second.
\<close>

definition minimumMaxOutputTokens :: int where
  "minimumMaxOutputTokens = 128"

definition billingHeaderPrefix :: string where
  "billingHeaderPrefix = ''x-anthropic-billing-header: ''"

section \<open>System prompt\<close>

definition inputText :: "string \<Rightarrow> ResponsesContentPart" where
  "inputText t = zeroResponsesContentPart\<lparr>cpType := ''input_text'', cpText := t\<rparr>"

definition convertSystem :: "string \<Rightarrow> ResponsesContentPart list result" where
  "convertSystem raw =
     (case unmarshalString raw of
        Some text \<Rightarrow>
          Inr (if text = [] \<or> hasPrefix text billingHeaderPrefix then [] else [inputText text])
      | None \<Rightarrow>
          (case unmarshalBlocks raw of
             None \<Rightarrow> Inl (ErrNew ''must be a string or content-block array'')
           | Some blocks \<Rightarrow>
               Inr (map (\<lambda>block. inputText (cbText block))
                 (filter (\<lambda>block. cbType block = ''text'' \<and> cbText block \<noteq> []
                    \<and> \<not> hasPrefix (cbText block) billingHeaderPrefix) blocks))))"

section \<open>Tool results and images\<close>

definition formatToolResultOutput :: "string \<Rightarrow> bool \<Rightarrow> string" where
  "formatToolResultOutput output isError =
     (if \<not> isError then output
      else ''[tool_error]'' @ [CHR 0x0A] @
        (if output = ''(empty)'' \<or> isBlank output
         then ''Tool execution failed without an error message.'' else output))"

definition imageDataURI :: "AnthropicImageSource option \<Rightarrow> string" where
  "imageDataURI source =
     (case source of
        None \<Rightarrow> []
      | Some s \<Rightarrow>
          if imData s = [] then []
          else ''data:'' @ (if imMediaType s = [] then ''image/png'' else imMediaType s)
            @ '';base64,'' @ imData s)"

definition inputImage :: "string \<Rightarrow> ResponsesContentPart" where
  "inputImage url = zeroResponsesContentPart\<lparr>cpType := ''input_image'', cpImageURL := url\<rparr>"

definition blockTexts :: "AnthropicContentBlock list \<Rightarrow> string list" where
  "blockTexts blocks = map cbText (filter (\<lambda>b. cbType b = ''text'' \<and> cbText b \<noteq> []) blocks)"

definition blockImages :: "AnthropicContentBlock list \<Rightarrow> ResponsesContentPart list" where
  "blockImages blocks = map (\<lambda>b. inputImage (imageDataURI (cbSource b)))
     (filter (\<lambda>b. cbType b = ''image'' \<and> imageDataURI (cbSource b) \<noteq> []) blocks)"

definition paragraphs :: string where
  "paragraphs = [CHR 0x0A, CHR 0x0A]"

definition convertToolResult :: "AnthropicContentBlock \<Rightarrow> string \<times> ResponsesContentPart list" where
  "convertToolResult block =
     (if isBlank (cbContent block) then (formatToolResultOutput ''(empty)'' (cbIsError block), [])
      else (case unmarshalString (cbContent block) of
          Some text \<Rightarrow>
            (formatToolResultOutput (if text = [] then ''(empty)'' else text) (cbIsError block), [])
        | None \<Rightarrow>
            (case unmarshalBlocks (cbContent block) of
               None \<Rightarrow> (formatToolResultOutput ''(empty)'' (cbIsError block), [])
             | Some blocks \<Rightarrow>
                 (let output = joinWith paragraphs (blockTexts blocks) in
                  (formatToolResultOutput (if output = [] then ''(empty)'' else output) (cbIsError block),
                   blockImages blocks)))))"

section \<open>Messages\<close>

definition messageItem :: "string \<Rightarrow> ResponsesContentPart list \<Rightarrow> ResponsesInputItem" where
  "messageItem role parts =
     zeroResponsesInputItem\<lparr>iiType := ''message'', iiRole := role, iiContent := parts\<rparr>"

definition toolOutputItem :: "AnthropicContentBlock \<Rightarrow> ResponsesInputItem" where
  "toolOutputItem block = zeroResponsesInputItem\<lparr>iiType := ''function_call_output'',
     iiCallID := cbToolUseID block, iiOutput := fst (convertToolResult block)\<rparr>"

text \<open>One iteration of the loop over the text and image blocks of a user message.\<close>

definition userPart :: "AnthropicContentBlock \<Rightarrow> ResponsesContentPart list" where
  "userPart block =
     (if cbType block = ''text'' then (if cbText block \<noteq> [] then [inputText (cbText block)] else [])
      else if cbType block = ''image'' then
        (if imageDataURI (cbSource block) \<noteq> [] then [inputImage (imageDataURI (cbSource block))] else [])
      else [])"

definition userItems :: "AnthropicContentBlock list \<Rightarrow> ResponsesInputItem list" where
  "userItems blocks =
     (let results = filter (\<lambda>b. cbType b = ''tool_result'') blocks;
          parts = concat (map userPart blocks) @ concat (map (snd \<circ> convertToolResult) results)
      in map toolOutputItem results @ (if parts \<noteq> [] then [messageItem ''user'' parts] else []))"

definition convertUserMessage :: "string \<Rightarrow> ResponsesInputItem list result" where
  "convertUserMessage raw =
     (case unmarshalString raw of
        Some text \<Rightarrow> Inr [messageItem ''user'' [inputText text]]
      | None \<Rightarrow>
          (case unmarshalBlocks raw of
             None \<Rightarrow> Inl (ErrNew ''user content must be a string or content-block array'')
           | Some blocks \<Rightarrow> Inr (userItems blocks)))"

definition outputText :: "string \<Rightarrow> ResponsesContentPart" where
  "outputText t = zeroResponsesContentPart\<lparr>cpType := ''output_text'', cpText := t\<rparr>"

definition reasoningItem :: "AnthropicContentBlock \<Rightarrow> ResponsesInputItem" where
  "reasoningItem block = zeroResponsesInputItem\<lparr>iiType := ''reasoning'',
     iiEncryptedContent := cbSignature block\<rparr>"

definition callItem :: "AnthropicContentBlock \<Rightarrow> ResponsesInputItem" where
  "callItem block = zeroResponsesInputItem\<lparr>iiType := ''function_call'', iiCallID := cbID block,
     iiName := cbName block, iiArguments := (if isBlank (cbInput block) then ''{}'' else cbInput block)\<rparr>"

definition assistantItems :: "AnthropicContentBlock list \<Rightarrow> ResponsesInputItem list" where
  "assistantItems blocks =
     map reasoningItem (filter (\<lambda>b. cbType b = ''thinking'' \<and> \<not> isBlank (cbSignature b)) blocks)
     @ (if blockTexts blocks \<noteq> []
        then [messageItem ''assistant'' [outputText (joinWith paragraphs (blockTexts blocks))]] else [])
     @ map callItem (filter (\<lambda>b. cbType b = ''tool_use'') blocks)"

definition convertAssistantMessage :: "string \<Rightarrow> ResponsesInputItem list result" where
  "convertAssistantMessage raw =
     (case unmarshalString raw of
        Some text \<Rightarrow> Inr [messageItem ''assistant'' [outputText text]]
      | None \<Rightarrow>
          (case unmarshalBlocks raw of
             None \<Rightarrow> Inl (ErrNew ''assistant content must be a string or content-block array'')
           | Some blocks \<Rightarrow> Inr (assistantItems blocks)))"

definition convertMessage :: "AnthropicMessage \<Rightarrow> ResponsesInputItem list result" where
  "convertMessage message =
     (if amRole message = ''user'' then convertUserMessage (amContent message)
      else if amRole message = ''assistant'' then convertAssistantMessage (amContent message)
      else Inl (ErrQuoted ''unsupported role '' (amRole message)))"

definition convertInput :: "string \<Rightarrow> AnthropicMessage list \<Rightarrow> ResponsesInputItem list result" where
  "convertInput system messages =
     (case (if isBlank system then Inr [] else convertSystem system) of
        Inl err \<Rightarrow> Inl (ErrWrap ''convert system: '' err)
      | Inr parts \<Rightarrow>
          (case mapE_from 0 (\<lambda>i message. case convertMessage message of
                Inl err \<Rightarrow> Inl (ErrWrap (''convert message '' @ show_nat i @ '': '') err)
              | Inr items \<Rightarrow> Inr items) messages of
             Inl err \<Rightarrow> Inl err
           | Inr itemss \<Rightarrow>
               Inr ((if parts \<noteq> [] then [messageItem ''developer'' parts] else []) @ concat itemss)))"

section \<open>Tools, effort, tool choice\<close>

text \<open>
  \<^verbatim>\<open>json.Unmarshal\<close> into a \<^verbatim>\<open>map[string]json.RawMessage\<close>: the last of repeated keys counts. Marshalling
  the map writes its keys in byte order and compacts each value.
\<close>

fun rawMap :: "(string \<times> string \<times> json) list \<Rightarrow> (string \<times> string) list" where
  "rawMap [] = []"
| "rawMap ((k, raw, j) # ms) = (if k \<in> fst ` set ms then rawMap ms else (k, raw) # rawMap ms)"

definition enc_raw_map :: "(string \<times> string) list \<Rightarrow> string" where
  "enc_raw_map m = enc_object (map (\<lambda>(k, raw). (k, compact raw)) (sort_key fst m))"

definition normalizeToolParameters :: "string \<Rightarrow> string result" where
  "normalizeToolParameters schema =
     (if isBlank schema \<or> trimSpace schema = ''null''
      then Inr (enc_object [(''type'', enc_string ''object''), (''properties'', ''{}'')])
      else (case json_parse schema of
          Some (JObj ms) \<Rightarrow>
            (let object = rawMap ms in
             if map_of object ''type'' \<noteq> Some (enc_string ''object'') then Inr schema
             else if map_of object ''properties'' \<noteq> None then Inr schema
             else Inr (enc_raw_map (object @ [(''properties'', ''{}'')])))
        | _ \<Rightarrow> Inl (ErrNew ''input_schema must be valid JSON'')))"

definition convertTool :: "nat \<Rightarrow> AnthropicTool \<Rightarrow> ResponsesTool result" where
  "convertTool i tool =
     (case normalizeToolParameters (atInputSchema tool) of
        Inl err \<Rightarrow> Inl (ErrWrapQuoted (''convert tool '' @ show_nat i @ '' ('') (atName tool) ''): '' err)
      | Inr parameters \<Rightarrow> Inr (zeroResponsesTool\<lparr>tlType := ''function'', tlName := atName tool,
          tlDescription := atDescription tool, tlParameters := parameters, tlStrict := Some False\<rparr>))"

definition convertTools :: "AnthropicTool list \<Rightarrow> ResponsesTool list result" where
  "convertTools tools = mapE_from 0 convertTool tools"

definition convertEffort :: "string \<Rightarrow> string result" where
  "convertEffort effort =
     (if effort \<in> {''low'', ''medium'', ''high''} then Inr effort
      else if effort = ''max'' then Inr ''xhigh''
      else Inl (ErrQuoted ''unsupported output_config.effort '' effort))"

record toolChoice =
  tcType :: string
  tcName :: string

definition zeroToolChoice :: toolChoice where
  "zeroToolChoice = \<lparr>tcType = [], tcName = []\<rparr>"

definition decToolChoice :: "toolChoice dec" where
  "decToolChoice = decStruct [field ''type'' decString tcType tcType_update,
     field ''name'' decString tcName tcName_update]"

definition convertToolChoice :: "string \<Rightarrow> string result" where
  "convertToolChoice raw =
     (case unmarshal zeroToolChoice decToolChoice raw of
        None \<Rightarrow> Inl (ErrNew ''must be a JSON object'')
      | Some choice \<Rightarrow>
          if tcType choice = ''auto'' then Inr (enc_string ''auto'')
          else if tcType choice = ''any'' then Inr (enc_string ''required'')
          else if tcType choice = ''none'' then Inr (enc_string ''none'')
          else if tcType choice = ''tool'' then
            (if tcName choice = [] then Inl (ErrNew ''tool choice requires a name'')
             else Inr (enc_object [(''type'', enc_string ''function''), (''name'', enc_string (tcName choice))]))
          else Inl (ErrQuoted ''unsupported type '' (tcType choice)))"

section \<open>The request\<close>

text \<open>The fields the function sets whatever the request holds, beside those it copies.\<close>

definition requestBase :: "AnthropicRequest \<Rightarrow> ResponsesInputItem list \<Rightarrow> ResponsesRequest" where
  "requestBase req input = zeroResponsesRequest\<lparr>rqModel := arModel req, rqInput := input,
     rqStream := arStream req, rqInclude := [''reasoning.encrypted_content''], rqStore := Some False,
     rqParallelToolCalls := Some True,
     rqReasoning := Some \<lparr>rrEffort = ''medium'', rrSummary = ''auto''\<rparr>,
     rqText := Some \<lparr>rtVerbosity = ''medium''\<rparr>,
     rqMaxOutputTokens := (if arMaxTokens req > 0 then Some (max (arMaxTokens req) minimumMaxOutputTokens)
       else None)\<rparr>"

definition requestEffort :: "AnthropicRequest \<Rightarrow> string result" where
  "requestEffort req =
     (case arOutputConfig req of
        None \<Rightarrow> Inr ''medium''
      | Some oc \<Rightarrow> if ocEffort oc = [] then Inr ''medium'' else convertEffort (ocEffort oc))"

definition AnthropicToResponses :: "AnthropicRequest option \<Rightarrow> ResponsesRequest result" where
  "AnthropicToResponses request =
     (case request of
        None \<Rightarrow> Inl (ErrNew ''convert Anthropic request: nil request'')
      | Some req \<Rightarrow>
          (case convertInput (arSystem req) (arMessages req) of
             Inl err \<Rightarrow> Inl err
           | Inr input \<Rightarrow>
          (case (if arTools req \<noteq> [] then convertTools (arTools req) else Inr []) of
             Inl err \<Rightarrow> Inl err
           | Inr tools \<Rightarrow>
          (case requestEffort req of
             Inl err \<Rightarrow> Inl err
           | Inr effort \<Rightarrow>
          (case (if \<not> isBlank (arToolChoice req) then convertToolChoice (arToolChoice req) else Inr []) of
             Inl err \<Rightarrow> Inl (ErrWrap ''convert tool_choice: '' err)
           | Inr choice \<Rightarrow>
               Inr ((requestBase req input)\<lparr>rqTools := tools,
                 rqReasoning := Some \<lparr>rrEffort = effort, rrSummary = ''auto''\<rparr>,
                 rqToolChoice := choice\<rparr>))))))"

end
