(* ===== verification/Json_Reads.thy ===== *)
theory Json_Reads
  imports Json_Encode
begin

text \<open>
  Texts that parse wherever they stand: \<open>reads h w v\<close> says that \<open>w\<close> parses to \<open>v\<close> inside any larger
  text, with nesting at most \<open>h\<close>. Strings, objects and arrays written by the encoder and texts compacted by
  \<^verbatim>\<open>json.Marshal\<close> all are such texts, which gives the round trip of the encoder and, since they hold no
  control character, single-line output.
\<close>

section \<open>Reading inside a larger text\<close>

definition delim :: "string \<Rightarrow> bool" where
  "delim t \<longleftrightarrow> (case t of [] \<Rightarrow> True | c # _ \<Rightarrow> c = CHR '','' \<or> c = CHR ''}'' \<or> c = CHR '']'')"

lemma delim_simps [simp]: "delim []" "delim (CHR '','' # t)" "delim (CHR ''}'' # t)" "delim (CHR '']'' # t)"
  by (simp_all add: delim_def)

definition reads :: "nat \<Rightarrow> string \<Rightarrow> json \<Rightarrow> bool" where
  "reads h w v \<longleftrightarrow> (\<exists>c u. w = c # u \<and> \<not> json_space c \<and> c \<noteq> CHR '']'') \<and>
     (\<forall>n d t. 2 * length (w @ t) < n \<longrightarrow> h \<le> d \<longrightarrow> delim t \<longrightarrow> parse_value n d (w @ t) = Some (v, t))"

lemma readsD: "reads h w v \<Longrightarrow> 2 * length (w @ t) < n \<Longrightarrow> h \<le> d \<Longrightarrow> delim t \<Longrightarrow>
    parse_value n d (w @ t) = Some (v, t)"
  by (simp add: reads_def)

lemma reads_mono: "reads h w v \<Longrightarrow> h \<le> k \<Longrightarrow> reads k w v"
  by (simp add: reads_def)

lemma skip_ws_reads [simp]: "reads h w v \<Longrightarrow> skip_ws (w @ t) = w @ t"
  by (auto simp: reads_def skip_ws_def)

lemma reads_parse:
  assumes "reads h w v" "h \<le> max_nesting"
  shows "json_parse w = Some v"
  using readsD [OF assms(1), of "[]" "2 * length w + 1" max_nesting] skip_ws_reads [OF assms(1), of "[]"] assms(2)
  by (simp add: json_parse_def parse_prefix_def) (simp add: skip_ws_def)

lemma skip_ws_delim [simp]: "skip_ws (CHR '','' # t) = CHR '','' # t"
  "skip_ws (CHR ''}'' # t) = CHR ''}'' # t" "skip_ws (CHR '']'' # t) = CHR '']'' # t"
  "skip_ws (CHR '':'' # t) = CHR '':'' # t"
  by (simp_all add: skip_ws_def json_space_def)

lemma skip_ws_delim' [simp]: "delim t \<Longrightarrow> skip_ws t = t"
  by (cases t) (auto simp: delim_def skip_ws_def json_space_def)

section \<open>Strings and literals\<close>

lemma reads_literal:
  assumes "lit_text b" "unquote b = s"
  shows "reads h (quote_char # b @ [quote_char]) (JStr s)"
proof -
  have "parse_value n d (quote_char # b @ quote_char # t) = Some (JStr s, t)" if "0 < n" for n d t
    using that assms by (cases n) (simp_all add: parse_value.simps lit_text_def)
  then show ?thesis by (simp add: reads_def json_space_def)
qed

lemma reads_string: "reads h (enc_string s) (JStr (to_utf8 s))"
  using reads_literal [OF lit_text_escape unquote_escape, of h s] by (simp add: enc_string_def)

lemma reads_null: "reads h ''null'' JNull"
  and reads_true: "reads h ''true'' (JBool True)"
  and reads_false: "reads h ''false'' (JBool False)"
proof -
  have "parse_value n d (''null'' @ t) = Some (JNull, t)" "parse_value n d (''true'' @ t) = Some (JBool True, t)"
    "parse_value n d (''false'' @ t) = Some (JBool False, t)" if "0 < n" for n d t
    using that by (cases n; simp add: parse_value.simps hasPrefix_def)+
  then show "reads h ''null'' JNull" "reads h ''true'' (JBool True)" "reads h ''false'' (JBool False)"
    by (simp_all add: reads_def json_space_def)
qed

section \<open>Arrays\<close>

lemma parse_elems_reads:
  assumes "list_all2 (reads h) ws vs" "ws \<noteq> []" "2 * length (joinWith '','' ws @ '']'' @ t) + 1 < n" "h \<le> d"
  shows "parse_elems n d (joinWith '','' ws @ '']'' @ t) = Some (zip ws vs, t)"
  using assms
proof (induction ws arbitrary: vs n)
  case Nil
  then show ?case by simp
next
  case (Cons w ws)
  then obtain v vs' where vs: "vs = v # vs'" and w: "reads h w v" and ws: "list_all2 (reads h) ws vs'"
    by (auto simp: list_all2_Cons1)
  obtain m where n: "n = Suc m" using Cons.prems(3) by (cases n) auto
  show ?case
  proof (cases ws)
    case Nil
    have "parse_value m d (w @ '']'' @ t) = Some (v, '']'' @ t)"
      using Cons.prems(3) n Nil by (intro readsD [OF w _ Cons.prems(4)]) auto
    with Nil ws vs show ?thesis by (simp add: n parse_elems.simps)
  next
    case (Cons x xs)
    let ?r = "joinWith '','' ws @ '']'' @ t"
    have "parse_value m d (w @ CHR '','' # ?r) = Some (v, CHR '','' # ?r)"
      using Cons.prems(3) n Cons by (intro readsD [OF w _ Cons.prems(4)]) auto
    moreover have "skip_ws ?r = ?r"
    proof -
      obtain y where "reads h x y" using ws Cons by (auto simp: list_all2_Cons1)
      with Cons show ?thesis by (cases xs) simp_all
    qed
    moreover have "parse_elems m d ?r = Some (zip ws vs', t)"
      using Cons.prems(3) n Cons by (intro Cons.IH ws Cons.prems(4)) auto
    ultimately show ?thesis using Cons vs by (simp add: n parse_elems.simps)
  qed
qed

definition enc_array :: "string list \<Rightarrow> string" where
  "enc_array ws = ''['' @ joinWith '','' ws @ '']''"

lemma enc_array_Nil [simp]: "enc_array [] = ''[]''"
  by (simp add: enc_array_def)

lemma reads_array:
  assumes "list_all2 (reads h) ws vs"
  shows "reads (Suc h) (enc_array ws) (JArr (zip ws vs))"
proof -
  have "parse_value n d (enc_array ws @ t) = Some (JArr (zip ws vs), t)"
    if n: "2 * length (enc_array ws @ t) < n" and d: "Suc h \<le> d" for n d t
  proof -
    obtain m where m: "n = Suc m" using n by (cases n) auto
    show ?thesis
    proof (cases ws)
      case Nil
      with d assms show ?thesis by (simp add: m parse_value.simps hasPrefix_def)
    next
      case (Cons x xs)
      let ?r = "joinWith '','' ws @ '']'' @ t"
      obtain y where x: "reads h x y" using assms Cons by (auto simp: list_all2_Cons1)
      then have ws: "skip_ws ?r = ?r" using Cons by (cases xs) simp_all
      obtain c u where c: "?r = c # u" "c \<noteq> CHR '']''"
        using x Cons by (cases xs) (auto simp: reads_def)
      have "parse_elems m (d - 1) ?r = Some (zip ws vs, t)"
        using n m d Cons by (intro parse_elems_reads [OF assms]) (auto simp: enc_array_def)
      with ws c d show ?thesis
        by (simp add: m enc_array_def parse_value.simps hasPrefix_def)
    qed
  qed
  then show ?thesis by (simp add: reads_def) (simp add: enc_array_def json_space_def)
qed

section \<open>Objects\<close>

text \<open>Members with any literal as key, given by the literal's body; those of \<open>enc_object\<close> among them.\<close>

definition memb :: "string \<times> string \<Rightarrow> string" where
  "memb bw = quote_char # fst bw @ quote_char # CHR '':'' # snd bw"

definition memb_object :: "(string \<times> string) list \<Rightarrow> string" where
  "memb_object bws = ''{'' @ joinWith '','' (map memb bws) @ ''}''"

definition memb_val :: "string \<times> string \<Rightarrow> json \<Rightarrow> string \<times> string \<times> json" where
  "memb_val bw v = (unquote (fst bw), snd bw, v)"

lemma take_append_diff: "take (length (w @ t) - length t) (w @ t) = w"
  by simp

lemma parse_member_reads:
  assumes "lit_text (fst bw)" "reads h (snd bw) v" "2 * length (snd bw @ c # t) < n" "h \<le> d"
    "c = CHR '','' \<or> c = CHR ''}''"
  shows "parse_members (Suc n) d (memb bw @ c # t) =
     (if c = CHR '','' then cons_fst (memb_val bw v) (parse_members n d (skip_ws t))
      else Some ([memb_val bw v], t))"
proof -
  have split: "memb bw @ u = quote_char # (fst bw @ quote_char # CHR '':'' # (snd bw @ u))" for u
    by (simp add: memb_def)
  have key: "scan_str In (fst bw @ quote_char # u) = Some (fst bw, u)" for u
    using assms(1) by (simp add: lit_text_def)
  have v: "parse_value n d (snd bw @ c # t) = Some (v, c # t)"
    using assms by (intro readsD [OF assms(2)]) auto
  have s: "skip_ws (snd bw @ c # t) = snd bw @ c # t" by (simp add: skip_ws_reads [OF assms(2)])
  have c: "skip_ws (c # t) = c # t" using assms(5) by auto
  have len: "take (length (snd bw @ c # t) - length (c # t)) (snd bw @ c # t) = snd bw"
    by (rule take_append_diff)
  have colon: "skip_ws (CHR '':'' # u) = CHR '':'' # u" for u by simp
  show ?thesis
    unfolding split parse_members.simps list.case simp_thms(6) if_False key option.case
      prod.case colon s v c len
    using assms(5) by (auto simp: memb_val_def)
qed

lemma parse_members_reads:
  assumes "list_all2 (\<lambda>bw v. lit_text (fst bw) \<and> reads h (snd bw) v) bws vs" "bws \<noteq> []" "h \<le> d"
    "2 * length (joinWith '','' (map memb bws) @ ''}'' @ t) < n"
  shows "parse_members n d (joinWith '','' (map memb bws) @ ''}'' @ t) = Some (map2 memb_val bws vs, t)"
  using assms
proof (induction bws arbitrary: vs n)
  case Nil
  then show ?case by simp
next
  case (Cons bw bws)
  then obtain v vs' where vs: "vs = v # vs'" and w: "lit_text (fst bw)" "reads h (snd bw) v"
    and rest: "list_all2 (\<lambda>bw v. lit_text (fst bw) \<and> reads h (snd bw) v) bws vs'"
    by (auto simp: list_all2_Cons1)
  obtain m where n: "n = Suc m" using Cons.prems(4) by (cases n) auto
  show ?case
  proof (cases bws)
    case Nil
    then show ?thesis
      using parse_member_reads [OF w _ Cons.prems(3), of "CHR ''}''" t m] Cons.prems(4) n rest vs
      by (simp add: memb_def)
  next
    case (Cons x xs)
    let ?r = "joinWith '','' (map memb bws) @ ''}'' @ t"
    have step: "parse_members (Suc m) d (memb bw @ CHR '','' # ?r) =
        cons_fst (memb_val bw v) (parse_members m d (skip_ws ?r))"
      using Cons.prems(4) n Cons
      by (subst parse_member_reads [OF w _ Cons.prems(3)]) (auto simp: memb_def [of bw])
    have "skip_ws ?r = ?r"
      using Cons by (cases xs) (simp_all add: memb_def skip_ws_def json_space_def)
    moreover have "parse_members m d ?r = Some (map2 memb_val bws vs', t)"
      using Cons.prems(4) n Cons by (intro Cons.IH rest Cons.prems(3)) auto
    ultimately show ?thesis using step Cons vs by (simp add: n)
  qed
qed

lemma reads_memb_object:
  assumes "list_all2 (\<lambda>bw v. lit_text (fst bw) \<and> reads h (snd bw) v) bws vs"
  shows "reads (Suc h) (memb_object bws) (JObj (map2 memb_val bws vs))"
proof -
  have "parse_value n d (memb_object bws @ t) = Some (JObj (map2 memb_val bws vs), t)"
    if n: "2 * length (memb_object bws @ t) < n" and d: "Suc h \<le> d" for n d t
  proof -
    obtain m where m: "n = Suc m" using n by (cases n) auto
    show ?thesis
    proof (cases bws)
      case Nil
      with d assms show ?thesis by (simp add: m memb_object_def parse_value.simps hasPrefix_def)
    next
      case (Cons x xs)
      let ?r = "joinWith '','' (map memb bws) @ ''}'' @ t"
      have ws: "skip_ws ?r = ?r" using Cons by (cases xs) (simp_all add: memb_def skip_ws_def json_space_def)
      obtain u where c: "?r = quote_char # u"
        using Cons by (cases xs) (simp_all add: memb_def)
      have "parse_members m (d - 1) ?r = Some (map2 memb_val bws vs, t)"
        using n m d Cons by (intro parse_members_reads [OF assms]) (auto simp: memb_object_def)
      with ws c d show ?thesis
        by (simp add: m memb_object_def parse_value.simps hasPrefix_def)
    qed
  qed
  then show ?thesis by (simp add: reads_def) (simp add: memb_object_def json_space_def)
qed

definition member_val :: "string \<times> string \<Rightarrow> json \<Rightarrow> string \<times> string \<times> json" where
  "member_val kw v = (to_utf8 (fst kw), snd kw, v)"

lemma reads_object:
  assumes "list_all2 (\<lambda>kw v. reads h (snd kw) v) kws vs"
  shows "reads (Suc h) (enc_object kws) (JObj (map2 member_val kws vs))"
proof -
  let ?esc = "\<lambda>kw. (escape (fst kw), snd kw)"
  have body: "enc_object kws = memb_object (map ?esc kws)"
  proof -
    have "enc_member = memb \<circ> ?esc" by (auto simp: enc_member_def enc_string_def memb_def)
    then show ?thesis by (simp add: enc_object_def memb_object_def)
  qed
  have val: "map2 member_val kws vs = map2 memb_val (map ?esc kws) vs"
    by (simp add: zip_map1 comp_def case_prod_unfold member_val_def memb_val_def unquote_escape)
  show ?thesis
    unfolding body val using assms
    by (intro reads_memb_object) (simp add: list_all2_map1 lit_text_escape)
qed

section \<open>Numbers\<close>

definition num_char :: "char \<Rightarrow> bool" where
  "num_char c \<longleftrightarrow> is_digit c \<or> c \<in> {CHR ''-'', CHR ''+'', CHR ''.'', CHR ''e'', CHR ''E''}"

text \<open>The rest does not go on with a digit, a point or an exponent.\<close>

definition no_digit :: "string \<Rightarrow> bool" where
  "no_digit t \<longleftrightarrow> (case t of [] \<Rightarrow> True | c # _ \<Rightarrow> \<not> is_digit c)"

definition no_frac :: "string \<Rightarrow> bool" where
  "no_frac t \<longleftrightarrow> no_digit t \<and> (case t of [] \<Rightarrow> True | c # _ \<Rightarrow> c \<noteq> CHR ''.'')"

lemma delim_no: "delim t \<Longrightarrow> no_digit t" "delim t \<Longrightarrow> no_frac t"
  by (auto simp: delim_def no_digit_def no_frac_def is_digit_def in_byte_def split: list.splits)

lemma takeWhile_no_digit:
  assumes "list_all is_digit ds" "no_digit t"
  shows "takeWhile is_digit (ds @ t) = ds" "dropWhile is_digit (ds @ t) = t"
  using assms by (induction ds) (auto simp: no_digit_def split: list.splits)

lemma digits_all: "list_all is_digit (takeWhile is_digit s)"
  by (auto simp: list_all_iff dest: set_takeWhileD)

lemma scan_int_again:
  "scan_int s = Some (l, r) \<Longrightarrow> no_digit t \<Longrightarrow> scan_int (l @ t) = Some (l, t) \<and> list_all num_char l"
  using takeWhile_no_digit [OF digits_all, of t] digits_all
  by (auto simp: scan_int_def num_char_def list_all_iff is_digit_def in_byte_def split: list.splits if_splits)

lemma scan_digits_again:
  assumes "scan_digits p s = Some (l, r)" "no_digit t"
  obtains ds where "l = p @ ds" "list_all is_digit ds" "ds \<noteq> []" "scan_digits p (ds @ t) = Some (l, t)"
  using assms takeWhile_no_digit [OF digits_all assms(2), of s] digits_all [of s]
  by (auto simp: scan_digits_def split: if_splits)

lemma digit_no: "list_all is_digit ds \<Longrightarrow> list_all num_char ds"
  by (auto simp: list_all_iff num_char_def)

lemma scan_frac_again:
  assumes "scan_frac s = Some (l, r)" "no_frac t"
  shows "scan_frac (l @ t) = Some (l, t) \<and> no_digit (l @ t) \<and> list_all num_char l"
proof (cases "\<exists>u. s = CHR ''.'' # u")
  case True
  then obtain u where u: "scan_digits [CHR ''.''] u = Some (l, r)" using assms(1) by (auto simp: scan_frac_def)
  have "no_digit t" using assms(2) by (simp add: no_frac_def)
  from scan_digits_again [OF u this] obtain ds where "l = CHR ''.'' # ds" "list_all is_digit ds"
    "scan_digits [CHR ''.''] (ds @ t) = Some (l, t)" by auto
  then show ?thesis
    by (auto simp: scan_frac_def no_digit_def is_digit_def in_byte_def dest: digit_no) (simp add: num_char_def)
next
  case False
  then have "l = []" using assms(1) by (auto simp: scan_frac_def split: list.splits if_splits)
  with assms(2) show ?thesis by (auto simp: scan_frac_def no_frac_def split: list.splits)
qed

lemma scan_exp_again:
  assumes "scan_exp s = Some (l, r)" "delim t"
  shows "scan_exp (l @ t) = Some (l, t) \<and> no_frac (l @ t) \<and> list_all num_char l"
proof (cases "l = []")
  case True
  with assms(2) show ?thesis
    using delim_no [OF assms(2)] by (auto simp: scan_exp_def delim_def split: list.splits)
next
  case False
  note nd = delim_no(1) [OF assms(2)]
  have e: "no_frac (c # x)" if "c = CHR ''e'' \<or> c = CHR ''E''" for c x
    using that by (auto simp: no_frac_def no_digit_def is_digit_def in_byte_def)
  from False assms(1) consider
    (signed) c g u where "s = c # g # u" "c = CHR ''e'' \<or> c = CHR ''E''" "g = CHR ''+'' \<or> g = CHR ''-''"
      "scan_digits [c, g] u = Some (l, r)"
  | (plain) c g u where "s = c # g # u" "c = CHR ''e'' \<or> c = CHR ''E''" "\<not> (g = CHR ''+'' \<or> g = CHR ''-'')"
      "scan_digits [c] (g # u) = Some (l, r)"
    by (auto simp: scan_exp_def split: list.splits if_splits)
  then show ?thesis
  proof cases
    case signed
    from scan_digits_again [OF signed(4) nd] obtain ds where ds: "l = [c, g] @ ds" "list_all is_digit ds"
      "scan_digits [c, g] (ds @ t) = Some (l, t)" by auto
    with signed(2,3) e digit_no [OF ds(2)] show ?thesis by (auto simp: scan_exp_def num_char_def)
  next
    case plain
    from scan_digits_again [OF plain(4) nd] obtain ds where ds: "l = [c] @ ds" "list_all is_digit ds" "ds \<noteq> []"
      "scan_digits [c] (ds @ t) = Some (l, t)" by auto
    then obtain x xs where x: "ds = x # xs" by (cases ds) auto
    then have "\<not> (x = CHR ''+'' \<or> x = CHR ''-'')" using ds(2) by (auto simp: is_digit_def in_byte_def)
    with x plain(2) e digit_no [OF ds(2)] ds show ?thesis by (auto simp: scan_exp_def num_char_def)
  qed
qed

lemma scan_unsigned_again:
  assumes "scan_unsigned s = Some (l, r)" "delim t"
  shows "scan_unsigned (l @ t) = Some (l, t) \<and> list_all num_char l"
proof -
  obtain i r1 f r2 e where p: "scan_int s = Some (i, r1)" "scan_frac r1 = Some (f, r2)" "scan_exp r2 = Some (e, r)"
    "l = i @ f @ e"
    using assms(1) by (auto simp: scan_unsigned_def split: option.splits)
  have e: "scan_exp (e @ t) = Some (e, t)" "no_frac (e @ t)" "list_all num_char e"
    using scan_exp_again [OF p(3) assms(2)] by blast+
  have f: "scan_frac (f @ e @ t) = Some (f, e @ t)" "no_digit (f @ e @ t)" "list_all num_char f"
    using scan_frac_again [OF p(2) e(2)] by blast+
  have i: "scan_int (i @ f @ e @ t) = Some (i, f @ e @ t)" "list_all num_char i"
    using scan_int_again [OF p(1) f(2)] by blast+
  show ?thesis by (simp add: scan_unsigned_def p(4) e f i)
qed

lemma scan_unsigned_first: "scan_unsigned s = Some (l, r) \<Longrightarrow> \<exists>c u. l = c # u \<and> is_digit c"
proof -
  assume "scan_unsigned s = Some (l, r)"
  then obtain i r1 y where i: "scan_int s = Some (i, r1)" and l: "l = i @ y"
    by (auto simp: scan_unsigned_def split: option.splits)
  obtain c t where s: "s = c # t" using i by (cases s) (auto simp: scan_int_def)
  have "is_digit (CHR ''0'')" by (simp add: is_digit_def in_byte_def)
  then have "\<exists>u. i = c # u \<and> is_digit c" using i unfolding s scan_int_def by (auto split: if_splits)
  with l show ?thesis by auto
qed

lemma scan_num_again:
  assumes "scan_num s = Some (l, r)" "delim t"
  shows "scan_num (l @ t) = Some (l, t) \<and> list_all num_char l \<and> (\<exists>c u. l = c # u \<and> (is_digit c \<or> c = CHR ''-''))"
proof (cases "hasPrefix s ''-''")
  case True
  then obtain u where u: "scan_unsigned (tl s) = Some (u, r)" "l = CHR ''-'' # u"
    using assms(1) by (auto simp: scan_num_def split: option.splits)
  from scan_unsigned_again [OF u(1) assms(2)] u(2) show ?thesis
    by (simp add: scan_num_def hasPrefix_def num_char_def)
next
  case False
  then have u: "scan_unsigned s = Some (l, r)" using assms(1) by (simp add: scan_num_def)
  obtain c x where l: "l = c # x" "is_digit c" using scan_unsigned_first [OF u] by blast
  then have "c \<noteq> CHR ''-''" by (auto simp: is_digit_def in_byte_def)
  with scan_unsigned_again [OF u assms(2)] l show ?thesis
    by (simp add: scan_num_def hasPrefix_def)
qed

lemma reads_number:
  assumes "scan_num s = Some (l, r)"
  shows "reads h l (JNum l)"
proof -
  obtain c u where l: "l = c # u" "is_digit c \<or> c = CHR ''-''" using scan_num_again [OF assms, of "[]"] by auto
  have c: "c \<noteq> quote_char" "c \<noteq> CHR ''{''" "c \<noteq> CHR ''[''" "c \<noteq> CHR '']''" "\<not> json_space c"
    "c \<noteq> CHR ''n''" "c \<noteq> CHR ''t''" "c \<noteq> CHR ''f''"
    using l(2) by (auto simp: is_digit_def in_byte_def json_space_def)
  have "parse_value n d (l @ t) = Some (JNum l, t)" if fuel: "2 * length (l @ t) < n" and t: "delim t" for n d t
  proof -
    obtain m where n: "n = Suc m" using fuel by (cases n) auto
    have "scan_num (c # u @ t) = Some (l, t)" using scan_num_again [OF assms t] l(1) by simp
    with c show ?thesis by (simp add: n l(1) parse_value.simps hasPrefix_def)
  qed
  with l c show ?thesis by (simp add: reads_def)
qed

text \<open>Decimal text of an integer, as \<^verbatim>\<open>strconv.AppendInt\<close> writes it.\<close>

definition show_int :: "int \<Rightarrow> string" where
  "show_int i = (if i < 0 then CHR ''-'' # show_nat (nat (- i)) else show_nat (nat i))"

lemma byte_val_digit_char [simp]: "d < 10 \<Longrightarrow> byte_val (digit_char d) = 48 + d"
  by (simp add: digit_char_def)

lemma is_digit_digit_char [simp]: "d < 10 \<Longrightarrow> is_digit (digit_char d)"
  by (simp add: is_digit_def in_byte_def)

lemma show_nat_digits: "list_all is_digit (show_nat n)"
  by (induction n rule: show_nat.induct) (simp add: show_nat.simps)

lemma show_nat_first: "0 < n \<Longrightarrow> hd (show_nat n) \<noteq> CHR ''0''"
proof (induction n rule: show_nat.induct)
  case (1 n)
  show ?case
  proof (cases "n < 10")
    case True
    have "digit_char n \<noteq> CHR ''0''"
    proof
      assume "digit_char n = CHR ''0''"
      then have "byte_val (digit_char n) = byte_val (CHR ''0'')" by (rule arg_cong)
      with True 1(2) show False by (simp only: byte_val_digit_char) simp
    qed
    with True show ?thesis by (subst show_nat.simps) simp
  next
    case False
    then have "hd (show_nat (n div 10)) \<noteq> CHR ''0''" using 1(1) by simp
    with False show ?thesis by (subst show_nat.simps) simp
  qed
qed

lemma scan_unsigned_show_nat: "scan_unsigned (show_nat n) = Some (show_nat n, [])"
proof -
  obtain c t where s: "show_nat n = c # t" by (cases "show_nat n") auto
  have "list_all is_digit t" using show_nat_digits [of n] by (simp add: s)
  then have t: "takeWhile is_digit t = t" "dropWhile is_digit t = []" by (simp_all add: list_all_iff)
  have "scan_int (show_nat n) = Some (show_nat n, [])"
  proof (cases "n = 0")
    case True
    have "(of_char (digit_char 0) :: nat) = of_char (CHR ''0'')" by (simp only: byte_val_digit_char) simp
    then have "digit_char 0 = CHR ''0''" by (simp only: of_char_eq_iff)
    with True show ?thesis by (simp add: show_nat.simps [of 0] scan_int_def)
  next
    case False
    with show_nat_first [of n] show_nat_digits [of n] t show ?thesis by (simp add: s scan_int_def)
  qed
  then show ?thesis by (simp add: scan_unsigned_def scan_frac_def scan_exp_def)
qed

lemma scan_num_show_int: "scan_num (show_int i) = Some (show_int i, [])"
proof -
  have "\<not> hasPrefix (show_nat n) ''-''" for n
    using show_nat_digits [of n] by (cases "show_nat n") (auto simp: hasPrefix_def is_digit_def in_byte_def)
  then show ?thesis
    using scan_unsigned_show_nat by (simp add: show_int_def scan_num_def) (simp add: hasPrefix_def)
qed

lemma reads_int: "reads h (show_int i) (JNum (show_int i))"
  by (rule reads_number [OF scan_num_show_int])

section \<open>Compacted text\<close>

text \<open>The body of a literal, in the pieces the scanner reads.\<close>

inductive str_body :: "string \<Rightarrow> bool" where
  body_Nil: "str_body []"
| body_plain: "plain_byte c \<Longrightarrow> str_body b \<Longrightarrow> str_body (c # b)"
| body_simple: "simple_escape e \<noteq> None \<Longrightarrow> str_body b \<Longrightarrow> str_body (backslash # e # b)"
| body_hex: "list_all (\<lambda>c. hex_val c \<noteq> None) [w, x, y, z] \<Longrightarrow> str_body b \<Longrightarrow>
     str_body (backslash # CHR ''u'' # w # x # y # z # b)"

inductive_cases str_body_ConsE: "str_body (c # b)"

lemma scan_hex: "scan_str (EscU (Suc k)) s = Some (b, r) \<Longrightarrow>
    \<exists>c t b'. s = c # t \<and> hex_val c \<noteq> None \<and> b = c # b' \<and> scan_str (EscU k) t = Some (b', r)"
  by (cases s) (auto split: if_splits)

lemma scan_hex_last: "scan_str (EscU 0) s = Some (b, r) \<Longrightarrow>
    \<exists>c t b'. s = c # t \<and> hex_val c \<noteq> None \<and> b = c # b' \<and> scan_str In t = Some (b', r)"
  by (cases s) (auto split: if_splits)

lemma scan_str_body: "scan_str In s = Some (b, r) \<Longrightarrow> str_body b"
proof (induction "length s" arbitrary: s b rule: less_induct)
  case less
  obtain c t where s: "s = c # t" using less.prems by (cases s) auto
  consider (quote) "c = quote_char" | (esc) "c = backslash" | (plain) "c \<noteq> quote_char" "c \<noteq> backslash"
    by blast
  then show ?case
  proof cases
    case quote
    with less.prems s show ?thesis by (auto intro: body_Nil)
  next
    case plain
    then obtain b' where b': "b = c # b'" "scan_str In t = Some (b', r)" "0x20 \<le> byte_val c"
      using less.prems s by (auto split: if_splits)
    then have "str_body b'" using less.hyps [of t] s by simp
    with b' plain show ?thesis by (auto intro: body_plain simp: plain_byte_def)
  next
    case esc
    then obtain b1 where b1: "b = c # b1" "scan_str Esc t = Some (b1, r)" using less.prems s by auto
    obtain e u where t: "t = e # u" using b1(2) by (cases t) auto
    show ?thesis
    proof (cases "e = CHR ''u''")
      case True
      then obtain b2 where b2: "b1 = e # b2" "scan_str (EscU (Suc (Suc (Suc 0)))) u = Some (b2, r)"
        using b1(2) t by (auto simp: numeral_eq_Suc)
      from scan_hex [OF b2(2)] obtain w u1 b3 where 3: "u = w # u1" "hex_val w \<noteq> None" "b2 = w # b3"
        "scan_str (EscU (Suc (Suc 0))) u1 = Some (b3, r)" by blast
      from scan_hex [OF 3(4)] obtain x u2 b4 where 4: "u1 = x # u2" "hex_val x \<noteq> None" "b3 = x # b4"
        "scan_str (EscU (Suc 0)) u2 = Some (b4, r)" by blast
      from scan_hex [OF 4(4)] obtain y u3 b5 where 5: "u2 = y # u3" "hex_val y \<noteq> None" "b4 = y # b5"
        "scan_str (EscU 0) u3 = Some (b5, r)" by blast
      from scan_hex_last [OF 5(4)] obtain z u4 b6 where 6: "u3 = z # u4" "hex_val z \<noteq> None" "b5 = z # b6"
        "scan_str In u4 = Some (b6, r)" by blast
      have "str_body b6" using less.hyps [OF _ 6(4)] s t 3 4 5 6 by simp
      with True esc b1 b2 3 4 5 6 show ?thesis by (auto intro: body_hex)
    next
      case False
      then obtain b2 where b2: "b1 = e # b2" "simple_escape e \<noteq> None" "scan_str In u = Some (b2, r)"
        using b1(2) t by (auto split: if_splits)
      then have "str_body b2" using less.hyps [of u] s t by simp
      with esc b1 b2 show ?thesis by (auto intro: body_simple)
    qed
  qed
qed

lemma compact_True_simps:
  "compact_from True (quote_char # t) = quote_char # compact_from False t"
  "compact_from True (backslash # e # t) = backslash # e # compact_from True t"
  by (simp_all add: compact_from.simps [of True])

lemma compact_hex: "hex_val w \<noteq> None \<Longrightarrow> compact_from True (w # t) = w # compact_from True t"
proof -
  assume "hex_val w \<noteq> None"
  then have "in_byte 48 57 w \<or> in_byte 97 102 w \<or> in_byte 65 70 w"
    by (auto simp: hex_val_def split: if_splits)
  then have "w \<noteq> quote_char" "w \<noteq> backslash" "w \<noteq> CHR ''<''" "w \<noteq> CHR ''>''" "w \<noteq> CHR ''&''" "w \<noteq> CHR 0xE2"
    by (auto simp: in_byte_def)
  then show ?thesis by (simp add: compact_from.simps [of True] hasPrefix_def)
qed

lemma printable_hex: "hex_val w \<noteq> None \<Longrightarrow> 0x20 \<le> byte_val w"
  by (auto simp: hex_val_def in_byte_def split: if_splits)

lemma printable_simple: "simple_escape e \<noteq> None \<Longrightarrow> 0x20 \<le> byte_val e"
  by (auto simp: simple_escape_def split: if_splits)

lemma lit_text_u: "k \<in> {CHR ''8'', CHR ''9''} \<Longrightarrow> lit_text [backslash, CHR ''u'', CHR ''2'', CHR ''0'', CHR ''2'', k]"
  by (rule lit_text_hex) (auto simp: hex_val_def in_byte_def)

lemma compact_html: "c \<in> {CHR ''<'', CHR ''>'', CHR ''&''} \<Longrightarrow>
    compact_from True (c # t) = escape_byte c @ compact_from True t"
proof -
  assume c: "c \<in> {CHR ''<'', CHR ''>'', CHR ''&''}"
  then have n: "c \<noteq> quote_char" "c \<noteq> backslash" "c = CHR ''<'' \<or> c = CHR ''>'' \<or> c = CHR ''&''" by auto
  show ?thesis
    unfolding compact_from.simps [of True "c # t"] list.case using n by simp
qed

lemma printable_escape_byte: "printable (escape_byte c)"
proof -
  have "byte_val c div 16 < 16" using nat_of_char_less_256 [of c] by linarith
  then show ?thesis by (simp add: escape_byte_def)
qed

lemma str_body_tl: "str_body (c # b) \<Longrightarrow> c \<noteq> backslash \<Longrightarrow> str_body b"
  by (erule str_body_ConsE) simp_all

definition body_compacts :: "string \<Rightarrow> bool" where
  "body_compacts b \<longleftrightarrow> (\<exists>b'. lit_text b' \<and> printable b' \<and>
     (\<forall>t. compact_from True (b @ quote_char # t) = b' @ quote_char # compact_from False t))"

lemma body_compacts_step:
  assumes "body_compacts b" "lit_text w" "printable w"
    "\<And>t. compact_from True (v @ b @ quote_char # t) = w @ compact_from True (b @ quote_char # t)"
  shows "body_compacts (v @ b)"
proof -
  obtain b' where b': "lit_text b'" "printable b'"
    "\<And>t. compact_from True (b @ quote_char # t) = b' @ quote_char # compact_from False t"
    using assms(1) by (auto simp: body_compacts_def)
  have "lit_text (w @ b')" "printable (w @ b')" using assms(2,3) b' by (simp_all add: lit_text_append)
  moreover have "\<forall>t. compact_from True ((v @ b) @ quote_char # t) = (w @ b') @ quote_char # compact_from False t"
    using assms(4) b'(3) by simp
  ultimately show ?thesis unfolding body_compacts_def by blast
qed

lemma compact_body: "str_body b \<Longrightarrow> body_compacts b"
proof (induction "length b" arbitrary: b rule: less_induct)
  case less
  show ?case
    using less.prems
  proof (cases rule: str_body.cases)
    case body_Nil
    have "lit_text []" "printable []" by simp_all
    then show ?thesis unfolding body_compacts_def body_Nil
      by (intro exI [of _ "[]"]) (simp add: compact_True_simps)
  next
    case (body_simple e b1)
    have "body_compacts b1" using less.hyps [of b1] body_simple by simp
    moreover have "lit_text [backslash, e]" by (rule lit_text_simple [OF body_simple(2)])
    moreover have "printable [backslash, e]" using printable_simple [OF body_simple(2)] by simp
    ultimately have "body_compacts ([backslash, e] @ b1)"
      by (rule body_compacts_step) (simp add: compact_True_simps)
    with body_simple show ?thesis by simp
  next
    case (body_hex w x y z b1)
    have h: "hex_val w \<noteq> None" "hex_val x \<noteq> None" "hex_val y \<noteq> None" "hex_val z \<noteq> None"
      using body_hex(2) by simp_all
    have "body_compacts b1" using less.hyps [of b1] body_hex by simp
    moreover have "lit_text [backslash, CHR ''u'', w, x, y, z]" by (rule lit_text_hex [OF body_hex(2)])
    moreover have "printable [backslash, CHR ''u'', w, x, y, z]" using h printable_hex by simp
    ultimately have "body_compacts ([backslash, CHR ''u'', w, x, y, z] @ b1)"
      by (rule body_compacts_step) (simp add: compact_True_simps compact_hex h)
    with body_hex show ?thesis by simp
  next
    case (body_plain c b1)
    have c: "c \<noteq> quote_char" "c \<noteq> backslash" "0x20 \<le> byte_val c" using body_plain(2) by (simp_all add: plain_byte_def)
    have ok: "body_compacts b1" using less.hyps [of b1] body_plain by simp
    consider (html) "c \<in> {CHR ''<'', CHR ''>'', CHR ''&''}"
      | (sep) k b3 where "c = CHR 0xE2" "b1 = CHR 0x80 # k # b3" "k \<in> {CHR 0xA8, CHR 0xA9}"
      | (copy) "c \<notin> {CHR ''<'', CHR ''>'', CHR ''&''}"
          "\<not> (c = CHR 0xE2 \<and> (\<exists>k b3. b1 = CHR 0x80 # k # b3 \<and> k \<in> {CHR 0xA8, CHR 0xA9}))"
      by blast
    then show ?thesis
    proof cases
      case html
      have "body_compacts ([c] @ b1)"
        by (rule body_compacts_step [OF ok lit_text_escape_byte printable_escape_byte])
          (simp add: compact_html [OF html])
      with body_plain show ?thesis by simp
    next
      case sep
      have "str_body b3"
        using str_body_tl [OF str_body_tl [OF body_plain(3) [unfolded sep(2)]]] sep(3) by auto
      then have "body_compacts b3" using less.hyps [of b3] body_plain sep by simp
      moreover have "body_compacts ([CHR 0xE2, CHR 0x80, k] @ b3)"
        if "body_compacts b3"
      proof (rule body_compacts_step [OF that])
        let ?d = "if k = CHR 0xA8 then CHR ''8'' else CHR ''9''"
        show "lit_text [backslash, CHR ''u'', CHR ''2'', CHR ''0'', CHR ''2'', ?d]" by (rule lit_text_u) simp
        show "printable [backslash, CHR ''u'', CHR ''2'', CHR ''0'', CHR ''2'', ?d]" by simp
        show "compact_from True ([CHR 0xE2, CHR 0x80, k] @ b3 @ quote_char # t) =
            [backslash, CHR ''u'', CHR ''2'', CHR ''0'', CHR ''2'', ?d] @ compact_from True (b3 @ quote_char # t)" for t
          using sep(3) by (auto simp: compact_from.simps [of True "CHR 0xE2 # _"] hasPrefix_def)
      qed
      ultimately show ?thesis using body_plain sep by simp
    next
      case copy
      have "\<not> hasPrefix (c # b1 @ quote_char # t) [CHR 0xE2, CHR 0x80, k]" if "k \<in> {CHR 0xA8, CHR 0xA9}" for t k
        using copy(2) that by (cases b1; cases "tl b1") (auto simp: hasPrefix_def)
      then have "compact_from True ([c] @ b1 @ quote_char # t) = [c] @ compact_from True (b1 @ quote_char # t)" for t
        using copy(1) c by (simp add: compact_from.simps [of True "c # _"])
      then have "body_compacts ([c] @ b1)"
        using c by (intro body_compacts_step [OF ok lit_text_plain]) (auto simp: plain_byte_def)
      with body_plain show ?thesis by simp
    qed
  qed
qed

section \<open>Compacted values\<close>

lemma compact_spaces: "list_all json_space sp \<Longrightarrow> compact_from False (sp @ t) = compact_from False t"
proof (induction sp)
  case (Cons c sp)
  then have "c \<noteq> quote_char" "json_space c" by (auto simp: json_space_def)
  then have "compact_from False (c # sp @ t) = compact_from False (sp @ t)"
    by (subst compact_from.simps) simp
  with Cons show ?case by simp
qed simp

lemma ws_split: "\<exists>sp. s = sp @ skip_ws s \<and> list_all json_space sp"
  by (rule exI [of _ "takeWhile json_space s"]) (auto simp: skip_ws_def list_all_iff dest: set_takeWhileD)

lemma compact_char: "c \<noteq> quote_char \<Longrightarrow> \<not> json_space c \<Longrightarrow>
    compact_from False (c # t) = c # compact_from False t"
  by (subst compact_from.simps) simp

lemma compact_chars: "list_all (\<lambda>c. c \<noteq> quote_char \<and> \<not> json_space c) w \<Longrightarrow>
    compact_from False (w @ t) = w @ compact_from False t"
  by (induction w) (simp_all add: compact_char)

definition squeezes :: "nat \<Rightarrow> string \<Rightarrow> bool" where
  "squeezes d w \<longleftrightarrow> (\<exists>w' v. printable w' \<and> reads d w' v \<and>
     (\<forall>t. compact_from False (w @ t) = w' @ compact_from False t))"

definition elems_squeeze :: "nat \<Rightarrow> string \<Rightarrow> bool" where
  "elems_squeeze d w \<longleftrightarrow> (\<exists>ws vs. ws \<noteq> [] \<and> list_all printable ws \<and> list_all2 (reads d) ws vs \<and>
     (\<forall>t. compact_from False (w @ t) = joinWith '','' ws @ '']'' @ compact_from False t))"

definition members_squeeze :: "nat \<Rightarrow> string \<Rightarrow> bool" where
  "members_squeeze d w \<longleftrightarrow> (\<exists>bws vs. bws \<noteq> [] \<and> list_all (\<lambda>bw. printable (memb bw)) bws \<and>
     list_all2 (\<lambda>bw v. lit_text (fst bw) \<and> reads d (snd bw) v) bws vs \<and>
     (\<forall>t. compact_from False (w @ t) = joinWith '','' (map memb bws) @ ''}'' @ compact_from False t))"

lemma squeezes_string:
  assumes "scan_str In t = Some (b, r)"
  shows "squeezes d (quote_char # b @ [quote_char])"
proof -
  obtain b' where b': "lit_text b'" "printable b'"
    "\<And>t. compact_from True (b @ quote_char # t) = b' @ quote_char # compact_from False t"
    using compact_body [OF scan_str_body [OF assms]] by (auto simp: body_compacts_def)
  have "compact_from False ((quote_char # b @ [quote_char]) @ t) = (quote_char # b' @ [quote_char]) @ compact_from False t" for t
    using b'(3) by (simp add: compact_from.simps [of False "quote_char # _"])
  moreover have "printable (quote_char # b' @ [quote_char])" using b'(2) by simp
  ultimately show ?thesis unfolding squeezes_def
    using reads_literal [OF b'(1) refl] by blast
qed

lemma squeezes_plain:
  assumes "list_all (\<lambda>c. c \<noteq> quote_char \<and> \<not> json_space c) w" "printable w" "reads d w v"
  shows "squeezes d w"
  unfolding squeezes_def using assms compact_chars by blast

lemma num_char_plain: "list_all num_char w \<Longrightarrow> list_all (\<lambda>c. c \<noteq> quote_char \<and> \<not> json_space c) w \<and> printable w"
proof -
  have "c \<noteq> quote_char \<and> \<not> json_space c \<and> 0x20 \<le> byte_val c" if "num_char c" for c
    using that by (auto simp: num_char_def is_digit_def in_byte_def json_space_def)
  then show "list_all num_char w \<Longrightarrow> ?thesis" by (auto simp: list_all_iff printable_def)
qed

lemma squeezes_array:
  assumes "elems_squeeze d w" "list_all json_space sp"
  shows "squeezes (Suc d) (''['' @ sp @ w)"
proof -
  obtain ws vs where ws: "list_all printable ws" "list_all2 (reads d) ws vs"
    "\<And>t. compact_from False (w @ t) = joinWith '','' ws @ '']'' @ compact_from False t"
    using assms(1) by (auto simp: elems_squeeze_def)
  have "compact_from False ((''['' @ sp @ w) @ t) = enc_array ws @ compact_from False t" for t
    by (simp add: compact_char json_space_def compact_spaces [OF assms(2)] ws(3) enc_array_def)
  moreover have "printable (enc_array ws)"
    using printable_joinWith [OF _ ws(1), of "'',''"] by (simp add: enc_array_def)
  ultimately show ?thesis unfolding squeezes_def using reads_array [OF ws(2)] by blast
qed

lemma squeezes_object:
  assumes "members_squeeze d w" "list_all json_space sp"
  shows "squeezes (Suc d) (''{'' @ sp @ w)"
proof -
  obtain bws vs where ws: "list_all (\<lambda>bw. printable (memb bw)) bws"
    "list_all2 (\<lambda>bw v. lit_text (fst bw) \<and> reads d (snd bw) v) bws vs"
    "\<And>t. compact_from False (w @ t) = joinWith '','' (map memb bws) @ ''}'' @ compact_from False t"
    using assms(1) by (auto simp: members_squeeze_def)
  have "compact_from False ((''{'' @ sp @ w) @ t) = memb_object bws @ compact_from False t" for t
    by (simp add: compact_char json_space_def compact_spaces [OF assms(2)] ws(3) memb_object_def)
  moreover have "printable (memb_object bws)"
    using printable_joinWith [of "'',''" "map memb bws"] ws(1) by (simp add: memb_object_def list_all_iff)
  ultimately show ?thesis unfolding squeezes_def using reads_memb_object [OF ws(2)] by blast
qed

lemma squeezes_empty: "list_all json_space sp \<Longrightarrow> squeezes (Suc d) (''['' @ sp @ '']'')"
  "list_all json_space sp \<Longrightarrow> squeezes (Suc d) (''{'' @ sp @ ''}'')"
proof -
  assume sp: "list_all json_space sp"
  have "compact_from False ((''['' @ sp @ '']'') @ t) = enc_array [] @ compact_from False t"
    "compact_from False ((''{'' @ sp @ ''}'') @ t) = memb_object [] @ compact_from False t" for t
    by (simp_all add: compact_char json_space_def compact_spaces [OF sp] memb_object_def)
  moreover have "printable (enc_array [])" "printable (memb_object [])" by (simp_all add: memb_object_def)
  moreover have "reads (Suc d) (enc_array []) (JArr (zip [] []))" by (rule reads_array) simp
  moreover have "reads (Suc d) (memb_object []) (JObj (map2 memb_val [] []))" by (rule reads_memb_object) simp
  ultimately show "squeezes (Suc d) (''['' @ sp @ '']'')" "squeezes (Suc d) (''{'' @ sp @ ''}'')"
    unfolding squeezes_def by blast+
qed

lemma elems_last:
  assumes "squeezes d w" "list_all json_space sp"
  shows "elems_squeeze d (w @ sp @ '']'')"
proof -
  obtain w' v where w': "printable w'" "reads d w' v" "\<And>t. compact_from False (w @ t) = w' @ compact_from False t"
    using assms(1) by (auto simp: squeezes_def)
  show ?thesis unfolding elems_squeeze_def
    by (rule exI [of _ "[w']"], rule exI [of _ "[v]"])
      (simp add: w' compact_spaces [OF assms(2)] compact_char json_space_def)
qed

lemma elems_more:
  assumes "squeezes d w" "list_all json_space sp" "list_all json_space sq" "elems_squeeze d u"
  shows "elems_squeeze d (w @ sp @ '','' @ sq @ u)"
proof -
  obtain w' v where w': "printable w'" "reads d w' v" "\<And>t. compact_from False (w @ t) = w' @ compact_from False t"
    using assms(1) by (auto simp: squeezes_def)
  obtain ws vs where ws: "ws \<noteq> []" "list_all printable ws" "list_all2 (reads d) ws vs"
    "\<And>t. compact_from False (u @ t) = joinWith '','' ws @ '']'' @ compact_from False t"
    using assms(4) by (auto simp: elems_squeeze_def)
  obtain x xs where x: "ws = x # xs" using ws(1) by (cases ws) auto
  show ?thesis unfolding elems_squeeze_def
    by (rule exI [of _ "w' # ws"], rule exI [of _ "v # vs"])
      (use ws x in \<open>simp add: w' compact_spaces [OF assms(2)] compact_spaces [OF assms(3)] compact_char json_space_def\<close>)
qed

lemma key_compacts:
  assumes "scan_str In t = Some (b, r)"
  obtains b' where "lit_text b'" "printable b'"
    "\<And>t. compact_from False (quote_char # b @ quote_char # t) = quote_char # b' @ quote_char # compact_from False t"
proof -
  obtain b' where b': "lit_text b'" "printable b'"
    "\<And>t. compact_from True (b @ quote_char # t) = b' @ quote_char # compact_from False t"
    using compact_body [OF scan_str_body [OF assms]] by (auto simp: body_compacts_def)
  have "compact_from False (quote_char # b @ quote_char # t) = quote_char # b' @ quote_char # compact_from False t" for t
    using b'(3) by (simp add: compact_from.simps [of False "quote_char # _"])
  with b'(1,2) show ?thesis by (rule that)
qed

lemma member_compacts:
  assumes "scan_str In t = Some (b, r)" "list_all json_space sp" "list_all json_space sq" "squeezes d w"
  obtains bw v where "printable (memb bw)" "lit_text (fst bw)" "reads d (snd bw) v"
    "\<And>t. compact_from False ((quote_char # b @ quote_char # sp @ CHR '':'' # sq @ w) @ t) = memb bw @ compact_from False t"
proof -
  obtain b' where b': "lit_text b'" "printable b'"
    "\<And>t. compact_from False (quote_char # b @ quote_char # t) = quote_char # b' @ quote_char # compact_from False t"
    using key_compacts [OF assms(1)] by blast
  obtain w' v where w': "printable w'" "reads d w' v" "\<And>t. compact_from False (w @ t) = w' @ compact_from False t"
    using assms(4) by (auto simp: squeezes_def)
  have "compact_from False ((quote_char # b @ quote_char # sp @ CHR '':'' # sq @ w) @ t) = memb (b', w') @ compact_from False t" for t
    by (simp add: b'(3) w'(3) compact_spaces [OF assms(2)] compact_spaces [OF assms(3)] compact_char json_space_def memb_def)
  moreover have "printable (memb (b', w'))" using b'(2) w'(1) by (simp add: memb_def)
  ultimately show ?thesis using that [of "(b', w')" v] b'(1) w'(2) by simp
qed

lemma members_last:
  assumes "scan_str In t = Some (b, r)" "list_all json_space sp" "list_all json_space sq" "squeezes d w"
    "list_all json_space sr"
  shows "members_squeeze d (quote_char # b @ quote_char # sp @ CHR '':'' # sq @ w @ sr @ ''}'')"
proof -
  obtain bw v where bw: "printable (memb bw)" "lit_text (fst bw)" "reads d (snd bw) v"
    "\<And>t. compact_from False ((quote_char # b @ quote_char # sp @ CHR '':'' # sq @ w) @ t) = memb bw @ compact_from False t"
    using member_compacts [OF assms(1-4)] by blast
  show ?thesis unfolding members_squeeze_def
    using bw(4) by (intro exI [of _ "[bw]"] exI [of _ "[v]"])
      (simp add: bw(1-3) compact_spaces [OF assms(5)] compact_char json_space_def)
qed

lemma members_more:
  assumes "scan_str In t = Some (b, r)" "list_all json_space sp" "list_all json_space sq" "squeezes d w"
    "list_all json_space sr" "list_all json_space ss" "members_squeeze d u"
  shows "members_squeeze d (quote_char # b @ quote_char # sp @ CHR '':'' # sq @ w @ sr @ '','' @ ss @ u)"
proof -
  obtain bw v where bw: "printable (memb bw)" "lit_text (fst bw)" "reads d (snd bw) v"
    "\<And>t. compact_from False ((quote_char # b @ quote_char # sp @ CHR '':'' # sq @ w) @ t) = memb bw @ compact_from False t"
    using member_compacts [OF assms(1-4)] by blast
  obtain bws vs where bws: "bws \<noteq> []" "list_all (\<lambda>bw. printable (memb bw)) bws"
    "list_all2 (\<lambda>bw v. lit_text (fst bw) \<and> reads d (snd bw) v) bws vs"
    "\<And>t. compact_from False (u @ t) = joinWith '','' (map memb bws) @ ''}'' @ compact_from False t"
    using assms(7) by (auto simp: members_squeeze_def)
  obtain x xs where x: "bws = x # xs" using bws(1) by (cases bws) auto
  show ?thesis unfolding members_squeeze_def
    using bw(4) bws x by (intro exI [of _ "bw # bws"] exI [of _ "v # vs"])
      (simp add: bw(1-3) compact_spaces [OF assms(5)] compact_spaces [OF assms(6)] compact_char json_space_def)
qed

lemma parse_squeezes:
  "(\<forall>d s v r. parse_value n d s = Some (v, r) \<longrightarrow> (\<exists>w. s = w @ r \<and> squeezes d w)) \<and>
   (\<forall>d s es r. parse_elems n d s = Some (es, r) \<longrightarrow> (\<exists>w. s = w @ r \<and> elems_squeeze d w)) \<and>
   (\<forall>d s ms r. parse_members n d s = Some (ms, r) \<longrightarrow> (\<exists>w. s = w @ r \<and> members_squeeze d w))"
proof (induction n)
  case 0
  show ?case by (simp add: parse_value.simps parse_elems.simps parse_members.simps)
next
  case (Suc n)
  then have V: "\<And>d s v r. parse_value n d s = Some (v, r) \<Longrightarrow> \<exists>w. s = w @ r \<and> squeezes d w"
    and E: "\<And>d s es r. parse_elems n d s = Some (es, r) \<Longrightarrow> \<exists>w. s = w @ r \<and> elems_squeeze d w"
    and M: "\<And>d s ms r. parse_members n d s = Some (ms, r) \<Longrightarrow> \<exists>w. s = w @ r \<and> members_squeeze d w"
    by blast+
  have "\<exists>w. s = w @ r \<and> squeezes d w" if p: "parse_value (Suc n) d s = Some (v, r)" for d s v r
  proof -
    obtain c t where s: "s = c # t" using p by (cases s) (auto simp: parse_value.simps)
    obtain sp where sp: "t = sp @ skip_ws t" "list_all json_space sp" using ws_split by blast
    consider (str) b where "c = quote_char" "scan_str In t = Some (b, r)"
      | (obj0) e where "c = CHR ''{''" "d = Suc e" "skip_ws t = CHR ''}'' # r"
      | (obj) e ms where "c = CHR ''{''" "d = Suc e" "parse_members n e (skip_ws t) = Some (ms, r)"
      | (arr0) e where "c = CHR ''[''" "d = Suc e" "skip_ws t = CHR '']'' # r"
      | (arr) e es where "c = CHR ''[''" "d = Suc e" "parse_elems n e (skip_ws t) = Some (es, r)"
      | (lit) w where "w \<in> {''null'', ''true'', ''false''}" "s = w @ r"
      | (num) l where "scan_num s = Some (l, r)"
      using p unfolding s
      by (cases d) (auto simp: parse_value.simps hasPrefix_iff split: if_splits list.splits option.splits)
    then show ?thesis
    proof cases
      case str
      with scan_str_split [OF str(2)] squeezes_string [OF str(2)] s
      show ?thesis by (intro exI [of _ "quote_char # b @ [quote_char]"]) simp
    next
      case obj0
      with squeezes_empty(2) [OF sp(2), of e] s sp(1) show ?thesis
        by (intro exI [of _ "''{'' @ sp @ ''}''"]) simp
    next
      case arr0
      with squeezes_empty(1) [OF sp(2), of e] s sp(1) show ?thesis
        by (intro exI [of _ "''['' @ sp @ '']''"]) simp
    next
      case obj
      from M [OF obj(3)] obtain w where w: "skip_ws t = w @ r" "members_squeeze e w" by blast
      from squeezes_object [OF w(2) sp(2)] obj w(1) s sp(1) show ?thesis
        by (intro exI [of _ "''{'' @ sp @ w"]) simp
    next
      case arr
      from E [OF arr(3)] obtain w where w: "skip_ws t = w @ r" "elems_squeeze e w" by blast
      from squeezes_array [OF w(2) sp(2)] arr w(1) s sp(1) show ?thesis
        by (intro exI [of _ "''['' @ sp @ w"]) simp
    next
      case lit
      then have "squeezes d w"
        using squeezes_plain [OF _ _ reads_null] squeezes_plain [OF _ _ reads_true] squeezes_plain [OF _ _ reads_false]
        by (auto simp: json_space_def)
      with lit show ?thesis by blast
    next
      case num
      from scan_num_again [OF num, of "[]"] have "list_all num_char l" by simp
      with num_char_plain have "squeezes d l" by (intro squeezes_plain [OF _ _ reads_number [OF num]]) blast+
      with scan_num_split [OF num] show ?thesis by blast
    qed
  qed
  moreover have "\<exists>w. s = w @ r \<and> elems_squeeze d w" if p: "parse_elems (Suc n) d s = Some (es, r)" for d s es r
  proof -
    obtain v r1 c t where v: "parse_value n d s = Some (v, r1)" "skip_ws r1 = c # t"
      and c: "c = CHR '','' \<and> (\<exists>es'. parse_elems n d (skip_ws t) = Some (es', r)) \<or> c = CHR '']'' \<and> t = r"
      using p by (auto simp: parse_elems.simps split: option.splits list.splits if_splits)
    obtain w where w: "s = w @ r1" "squeezes d w" using V [OF v(1)] by blast
    obtain sp sq where sp: "r1 = sp @ skip_ws r1" "list_all json_space sp" "t = sq @ skip_ws t" "list_all json_space sq"
      using ws_split by meson
    from c show ?thesis
    proof
      assume "c = CHR '']'' \<and> t = r"
      with elems_last [OF w(2) sp(2)] w(1) sp(1) v(2) show ?thesis
        by (intro exI [of _ "w @ sp @ '']''"]) simp
    next
      assume c: "c = CHR '','' \<and> (\<exists>es'. parse_elems n d (skip_ws t) = Some (es', r))"
      then obtain u where u: "skip_ws t = u @ r" "elems_squeeze d u" using E by blast
      from elems_more [OF w(2) sp(2,4) u(2)] c w(1) sp(1,3) v(2) u(1) show ?thesis
        by (intro exI [of _ "w @ sp @ '','' @ sq @ u"]) simp
    qed
  qed
  moreover have "\<exists>w. s = w @ r \<and> members_squeeze d w" if p: "parse_members (Suc n) d s = Some (ms, r)" for d s ms r
  proof -
    obtain t where s: "s = quote_char # t"
      using p by (cases s) (auto simp: parse_members.simps split: if_splits)
    obtain b r1 t1 v r2 c t2 where k: "scan_str In t = Some (b, r1)" "skip_ws r1 = CHR '':'' # t1"
      and v: "parse_value n d (skip_ws t1) = Some (v, r2)" "skip_ws r2 = c # t2"
      and c: "c = CHR '','' \<and> (\<exists>ms'. parse_members n d (skip_ws t2) = Some (ms', r)) \<or> c = CHR ''}'' \<and> t2 = r"
      using p unfolding s
      by (auto simp: parse_members.simps split: option.splits list.splits if_splits)
    obtain w where w: "skip_ws t1 = w @ r2" "squeezes d w" using V [OF v(1)] by blast
    obtain sp sq where sp: "r1 = sp @ skip_ws r1" "list_all json_space sp" "t1 = sq @ skip_ws t1" "list_all json_space sq"
      using ws_split by meson
    obtain sr ss where sr: "r2 = sr @ skip_ws r2" "list_all json_space sr" "t2 = ss @ skip_ws t2" "list_all json_space ss"
      using ws_split by meson
    have t: "t = b @ quote_char # sp @ CHR '':'' # sq @ w @ sr @ c # t2"
      using scan_str_split [OF k(1)] sp(1,3) k(2) w(1) sr(1) v(2) by simp
    from c show ?thesis
    proof
      assume "c = CHR ''}'' \<and> t2 = r"
      with members_last [OF k(1) sp(2,4) w(2) sr(2)] s t show ?thesis
        by (intro exI [of _ "quote_char # b @ quote_char # sp @ CHR '':'' # sq @ w @ sr @ ''}''"]) simp
    next
      assume c: "c = CHR '','' \<and> (\<exists>ms'. parse_members n d (skip_ws t2) = Some (ms', r))"
      then obtain u where u: "skip_ws t2 = u @ r" "members_squeeze d u" using M by blast
      from members_more [OF k(1) sp(2,4) w(2) sr(2,4) u(2)] c s t sr(3) u(1) show ?thesis
        by (intro exI [of _ "quote_char # b @ quote_char # sp @ CHR '':'' # sq @ w @ sr @ '','' @ ss @ u"]) simp
    qed
  qed
  ultimately show ?case by blast
qed

text \<open>Compacting a valid text gives a valid text of no greater nesting, without control characters.\<close>

lemma compact_ok:
  assumes "json_parse s \<noteq> None"
  shows "printable (compact s)" "\<exists>v. reads max_nesting (compact s) v"
proof -
  obtain v r where p: "parse_prefix (skip_ws s) = Some (v, r)" "skip_ws r = []"
    using assms by (auto simp: json_parse_def split: option.splits if_splits)
  obtain w where w: "skip_ws s = w @ r" "squeezes max_nesting w"
    using p(1) parse_squeezes unfolding parse_prefix_def by blast
  obtain sp where sp: "s = sp @ skip_ws s" "list_all json_space sp" using ws_split by blast
  have r: "list_all json_space r" using p(2) by (simp add: skip_ws_def list_all_iff dropWhile_eq_Nil_conv)
  obtain w' v' where w': "printable w'" "reads max_nesting w' v'" "\<And>t. compact_from False (w @ t) = w' @ compact_from False t"
    using w(2) by (auto simp: squeezes_def)
  have "compact_from False r = []" using compact_spaces [OF r, of "[]"] by (simp add: compact_from.simps)
  then have "compact s = w'"
    unfolding compact_def by (subst sp(1)) (simp add: compact_spaces [OF sp(2)] w(1) w'(3))
  with w' show "printable (compact s)" "\<exists>v. reads max_nesting (compact s) v" by auto
qed

text \<open>The raw texts of the members of a parsed object can be compacted one by one.\<close>

lemma members_raw: "parse_members n d s = Some (ms, r) \<Longrightarrow> list_all (\<lambda>(k, raw, v). squeezes d raw) ms"
proof (induction n arbitrary: s ms)
  case 0
  then show ?case by (simp add: parse_members.simps)
next
  case (Suc n)
  obtain t where s: "s = quote_char # t"
    using Suc.prems by (cases s) (auto simp: parse_members.simps split: if_splits)
  obtain b r1 t1 v r2 c t2 where k: "scan_str In t = Some (b, r1)" "skip_ws r1 = CHR '':'' # t1"
    and v: "parse_value n d (skip_ws t1) = Some (v, r2)" "skip_ws r2 = c # t2"
    and ms: "\<exists>rest. ms = (unquote b, take (length (skip_ws t1) - length r2) (skip_ws t1), v) # rest \<and>
      (rest = [] \<or> parse_members n d (skip_ws t2) = Some (rest, r))"
    using Suc.prems unfolding s
    by (auto simp: parse_members.simps split: option.splits list.splits if_splits)
  obtain w where w: "skip_ws t1 = w @ r2" "squeezes d w" using v(1) parse_squeezes by blast
  then have "take (length (skip_ws t1) - length r2) (skip_ws t1) = w" by simp
  with ms w(2) Suc.IH show ?case by auto
qed

lemma object_raw:
  assumes "json_parse s = Some (JObj ms)"
  shows "list_all (\<lambda>(k, raw, v). squeezes (max_nesting - 1) raw) ms"
proof -
  obtain r where p: "parse_prefix (skip_ws s) = Some (JObj ms, r)"
    using assms by (auto simp: json_parse_def split: option.splits if_splits)
  have "ms = [] \<or> (\<exists>n u r'. parse_members n (max_nesting - 1) u = Some (ms, r'))"
    using p unfolding parse_prefix_def
    by (auto simp: parse_value.simps [of "2 * length (skip_ws s)"] split: list.splits if_splits option.splits)
  with members_raw show ?thesis by fastforce
qed

lemma to_utf8_ascii: "list_all (\<lambda>c. byte_val c < 0x80) s \<Longrightarrow> to_utf8 s = s"
proof (induction s)
  case (Cons c s)
  have r: "rune_len (c # s) = 1"
    using Cons.prems by (simp add: seq_len_def in_byte_def)
  then show ?case using Cons by (subst to_utf8.simps) simp
qed simp

end
