(* ===== verification/Request_Properties.thy ===== *)
theory Request_Properties
  imports Request_Translator Json_Reads Response_Blocks
begin

text \<open>
  What the request translation guarantees: tool calls and their results keep their ids and order, the
  client's billing header never reaches the upstream, requests are refused exactly when a part of them is
  malformed, and the fields the adapter fixes are always set.
\<close>

section \<open>Tool calls and results keep their identity\<close>

definition messageBlocks :: "string \<Rightarrow> AnthropicContentBlock list" where
  "messageBlocks raw = (case unmarshalString raw of
     Some t \<Rightarrow> []
   | None \<Rightarrow> (case unmarshalBlocks raw of None \<Rightarrow> [] | Some bs \<Rightarrow> bs))"

definition callsOf :: "ResponsesInputItem list \<Rightarrow> (string \<times> string) list" where
  "callsOf items = map (\<lambda>i. (iiCallID i, iiName i)) (filter (\<lambda>i. iiType i = ''function_call'') items)"

definition outputsOf :: "ResponsesInputItem list \<Rightarrow> string list" where
  "outputsOf items = map iiCallID (filter (\<lambda>i. iiType i = ''function_call_output'') items)"

definition toolUses :: "AnthropicMessage \<Rightarrow> (string \<times> string) list" where
  "toolUses m = (if amRole m = ''assistant'' then
     map (\<lambda>b. (cbID b, cbName b)) (filter (\<lambda>b. cbType b = ''tool_use'') (messageBlocks (amContent m))) else [])"

definition toolResults :: "AnthropicMessage \<Rightarrow> string list" where
  "toolResults m = (if amRole m = ''user'' then
     map cbToolUseID (filter (\<lambda>b. cbType b = ''tool_result'') (messageBlocks (amContent m))) else [])"

lemma ids_append [simp]:
  "callsOf (xs @ ys) = callsOf xs @ callsOf ys" "outputsOf (xs @ ys) = outputsOf xs @ outputsOf ys"
  "callsOf [] = []" "outputsOf [] = []"
  by (simp_all add: callsOf_def outputsOf_def)

lemma ids_concat: "callsOf (concat xss) = concat (map callsOf xss)" "outputsOf (concat xss) = concat (map outputsOf xss)"
  by (induction xss) simp_all

lemma ids_message [simp]: "callsOf [messageItem r p] = []" "outputsOf [messageItem r p] = []"
  by (simp_all add: callsOf_def outputsOf_def messageItem_def)

lemma ids_user: "callsOf (userItems bs) = []"
  "outputsOf (userItems bs) = map cbToolUseID (filter (\<lambda>b. cbType b = ''tool_result'') bs)"
proof -
  have "callsOf (map toolOutputItem rs) = []" "outputsOf (map toolOutputItem rs) = map cbToolUseID rs" for rs
    by (induction rs) (simp_all add: callsOf_def outputsOf_def toolOutputItem_def)
  then show "callsOf (userItems bs) = []"
    "outputsOf (userItems bs) = map cbToolUseID (filter (\<lambda>b. cbType b = ''tool_result'') bs)"
    by (simp_all add: userItems_def Let_def)
qed

lemma ids_assistant:
  "callsOf (assistantItems bs) = map (\<lambda>b. (cbID b, cbName b)) (filter (\<lambda>b. cbType b = ''tool_use'') bs)"
  "outputsOf (assistantItems bs) = []"
proof -
  have "callsOf (map callItem cs) = map (\<lambda>b. (cbID b, cbName b)) cs" "outputsOf (map callItem cs) = []"
    "callsOf (map reasoningItem cs) = []" "outputsOf (map reasoningItem cs) = []" for cs
    by (induction cs) (simp_all add: callsOf_def outputsOf_def callItem_def reasoningItem_def)
  then show "callsOf (assistantItems bs) = map (\<lambda>b. (cbID b, cbName b)) (filter (\<lambda>b. cbType b = ''tool_use'') bs)"
    "outputsOf (assistantItems bs) = []"
    by (simp_all add: assistantItems_def)
qed

lemma ids_convertMessage:
  "convertMessage m = Inr items \<Longrightarrow> callsOf items = toolUses m \<and> outputsOf items = toolResults m"
  by (auto simp: convertMessage_def convertUserMessage_def convertAssistantMessage_def toolUses_def
      toolResults_def messageBlocks_def ids_user ids_assistant split: if_splits option.splits)

lemma rqInput_base [simp]: "rqInput (requestBase req input) = input"
  by (simp add: requestBase_def)

lemma convertInput_Inr:
  assumes "convertInput system messages = Inr input"
  obtains parts itemss where "(if isBlank system then Inr [] else convertSystem system) = Inr parts"
    "input = (if parts \<noteq> [] then [messageItem ''developer'' parts] else []) @ concat itemss"
    "mapE_from 0 (\<lambda>i message. case convertMessage message of
                Inl err \<Rightarrow> Inl (ErrWrap (''convert message '' @ show_nat i @ '': '') err)
              | Inr items \<Rightarrow> Inr items) messages = Inr itemss"
  using assms unfolding convertInput_def by (auto split: sum.splits)

lemma AnthropicToResponses_Inr:
  assumes "AnthropicToResponses (Some req) = Inr out"
  obtains input tools effort choice where "convertInput (arSystem req) (arMessages req) = Inr input"
    "(if arTools req \<noteq> [] then convertTools (arTools req) else Inr []) = Inr tools"
    "requestEffort req = Inr effort"
    "(if \<not> isBlank (arToolChoice req) then convertToolChoice (arToolChoice req) else Inr []) = Inr choice"
    "out = (requestBase req input)\<lparr>rqTools := tools,
       rqReasoning := Some \<lparr>rrEffort = effort, rrSummary = ''auto''\<rparr>, rqToolChoice := choice\<rparr>"
  using assms unfolding AnthropicToResponses_def by (auto split: sum.splits)

text \<open>
  C4: Tool calls and tool results survive the translation with their identity. Over the whole
  conversation, the function calls sent upstream are the \<^verbatim>\<open>tool_use\<close> blocks of the assistant turns, with
  their ids and names, in order, none lost or added; the function-call outputs are the \<^verbatim>\<open>tool_result\<close>
  blocks of the user turns, in order. So every result still answers the call it answered.
\<close>

theorem tool_ids_preserved:
  assumes "AnthropicToResponses (Some req) = Inr out"
  shows "callsOf (rqInput out) = concat (map toolUses (arMessages req))
    \<and> outputsOf (rqInput out) = concat (map toolResults (arMessages req))"
proof -
  let ?conv = "\<lambda>i message. case convertMessage message of
      Inl err \<Rightarrow> Inl (ErrWrap (''convert message '' @ show_nat i @ '': '') err) | Inr items \<Rightarrow> Inr items"
  obtain input where i: "convertInput (arSystem req) (arMessages req) = Inr input" and out: "rqInput out = input"
    using assms by (rule AnthropicToResponses_Inr) simp
  obtain parts itemss where p: "(if isBlank (arSystem req) then Inr [] else convertSystem (arSystem req)) = Inr parts"
    "input = (if parts \<noteq> [] then [messageItem ''developer'' parts] else []) @ concat itemss"
    "mapE_from 0 ?conv (arMessages req) = Inr itemss"
    by (rule convertInput_Inr [OF i])
  have one: "callsOf items = toolUses m \<and> outputsOf items = toolResults m" if "?conv k m = Inr items" for k m items
    using that ids_convertMessage by (auto split: sum.splits)
  have "map callsOf itemss = map toolUses (arMessages req)" "map outputsOf itemss = map toolResults (arMessages req)"
    using one mapE_from_map [OF _ p(3), of callsOf toolUses] mapE_from_map [OF _ p(3), of outputsOf toolResults]
    by blast+
  then show ?thesis by (simp add: out p(2) ids_concat)
qed

text \<open>A content text for the witnesses: an array of one object with string members.\<close>

definition oneBlock :: "(string \<times> string) list \<Rightarrow> string" where
  "oneBlock kvs = enc_array [enc_object (map (\<lambda>(k, v). (k, enc_string v)) kvs)]"

lemma parse_oneBlock:
  "json_parse (oneBlock kvs) =
     Some (JArr [(enc_object (map (\<lambda>(k, v). (k, enc_string v)) kvs),
       JObj (map (\<lambda>(k, v). (to_utf8 k, enc_string v, JStr (to_utf8 v))) kvs))])"
proof -
  have "list_all2 (\<lambda>kw v. reads 0 (snd kw) v) (map (\<lambda>(k, v). (k, enc_string v)) kvs)
      (map (\<lambda>(k, v). JStr (to_utf8 v)) kvs)"
    by (induction kvs) (auto intro: reads_string)
  from reads_object [OF this]
  have "reads 1 (enc_object (map (\<lambda>(k, v). (k, enc_string v)) kvs))
      (JObj (map2 member_val (map (\<lambda>(k, v). (k, enc_string v)) kvs) (map (\<lambda>(k, v). JStr (to_utf8 v)) kvs)))"
    by simp
  also have "map2 member_val (map (\<lambda>(k, v). (k, enc_string v)) kvs) (map (\<lambda>(k, v). JStr (to_utf8 v)) kvs) =
      map (\<lambda>(k, v). (to_utf8 k, enc_string v, JStr (to_utf8 v))) kvs"
    by (induction kvs) (auto simp: member_val_def)
  finally have "reads 2 (oneBlock kvs) (JArr (zip [enc_object (map (\<lambda>(k, v). (k, enc_string v)) kvs)]
      [JObj (map (\<lambda>(k, v). (to_utf8 k, enc_string v, JStr (to_utf8 v))) kvs)]))"
    unfolding oneBlock_def numeral_2_eq_2 One_nat_def by (intro reads_array) simp
  from reads_parse [OF this] show ?thesis by (simp add: max_nesting_def)
qed

theorem tool_ids_preserved_witness:
  "\<exists>out. AnthropicToResponses (Some (zeroAnthropicRequest\<lparr>arModel := ''m'', arMaxTokens := 10,
       arMessages := [\<lparr>amRole = ''assistant'', amContent = oneBlock [(''type'', ''tool_use''), (''id'', ''t1''), (''name'', ''ls'')]\<rparr>]\<rparr>))
     = Inr out \<and> callsOf (rqInput out) = [(''t1'', ''ls'')]"
proof -
  let ?c = "oneBlock [(''type'', ''tool_use''), (''id'', ''t1''), (''name'', ''ls'')]"
  let ?m = "\<lparr>amRole = ''assistant'', amContent = ?c\<rparr>"
  let ?req = "zeroAnthropicRequest\<lparr>arModel := ''m'', arMaxTokens := 10, arMessages := [?m]\<rparr>"
  have s: "unmarshalString ?c = None"
    by (simp add: unmarshalString_def unmarshal_def decString_def parse_oneBlock)
  have b: "unmarshalBlocks ?c = Some [zeroAnthropicContentBlock\<lparr>cbType := ''tool_use'', cbID := ''t1'', cbName := ''ls''\<rparr>]"
    by (simp add: unmarshalBlocks_def unmarshal_def decList_def parse_oneBlock decContentBlock_def decStruct_def
        findField_def field_def to_utf8_ascii decString_def zeroAnthropicContentBlock_def)
  have "\<exists>out. AnthropicToResponses (Some ?req) = Inr out"
    by (simp add: AnthropicToResponses_def convertInput_def convertMessage_def convertAssistantMessage_def s b
        requestEffort_def zeroAnthropicRequest_def)
  then obtain out where out: "AnthropicToResponses (Some ?req) = Inr out" ..
  have "callsOf (rqInput out) = concat (map toolUses (arMessages ?req))"
    using tool_ids_preserved [OF out] by simp
  also have "\<dots> = [(''t1'', ''ls'')]"
    by (simp add: toolUses_def messageBlocks_def s b)
  finally show ?thesis using out by blast
qed

section \<open>The system prompt\<close>

lemma convertSystem_parts:
  "convertSystem raw = Inr parts \<Longrightarrow> p \<in> set parts \<Longrightarrow>
     cpType p = ''input_text'' \<and> cpText p \<noteq> [] \<and> \<not> hasPrefix (cpText p) billingHeaderPrefix"
  by (auto simp: convertSystem_def inputText_def split: option.splits if_splits)

lemma no_developer: "convertMessage m = Inr items \<Longrightarrow> i \<in> set items \<Longrightarrow> iiRole i \<noteq> ''developer''"
  by (auto simp: convertMessage_def convertUserMessage_def convertAssistantMessage_def userItems_def
      assistantItems_def messageItem_def toolOutputItem_def callItem_def reasoningItem_def
      zeroResponsesInputItem_def Let_def split: if_splits option.splits)

lemma mapE_from_elem:
  "mapE_from i f xs = Inr ys \<Longrightarrow> y \<in> set ys \<Longrightarrow> \<exists>k x. x \<in> set xs \<and> f k x = Inr y"
proof (induction xs arbitrary: i ys)
  case (Cons x xs)
  then show ?case by (fastforce simp: mapE_from_Cons_Inr simp del: mapE_from.simps)
qed simp

text \<open>
  The client's billing header never reaches the upstream. Whatever the request, the developer
  message of its translation comes first, there is at most one, and it holds only non-empty texts none of
  which starts with the billing-header prefix.
\<close>

theorem billing_header_dropped:
  assumes "AnthropicToResponses (Some req) = Inr out"
  shows "\<exists>parts items. rqInput out = (if parts = [] then [] else [messageItem ''developer'' parts]) @ items
    \<and> (\<forall>p\<in>set parts. cpType p = ''input_text'' \<and> cpText p \<noteq> [] \<and> \<not> hasPrefix (cpText p) billingHeaderPrefix)
    \<and> (\<forall>i\<in>set items. iiRole i \<noteq> ''developer'')"
proof -
  obtain input where i: "convertInput (arSystem req) (arMessages req) = Inr input" and out: "rqInput out = input"
    using assms by (rule AnthropicToResponses_Inr) simp
  obtain parts itemss where p: "(if isBlank (arSystem req) then Inr [] else convertSystem (arSystem req)) = Inr parts"
    "input = (if parts \<noteq> [] then [messageItem ''developer'' parts] else []) @ concat itemss"
    "mapE_from 0 (\<lambda>i message. case convertMessage message of
                Inl err \<Rightarrow> Inl (ErrWrap (''convert message '' @ show_nat i @ '': '') err)
              | Inr items \<Rightarrow> Inr items) (arMessages req) = Inr itemss"
    by (rule convertInput_Inr [OF i])
  have "\<forall>q\<in>set parts. cpType q = ''input_text'' \<and> cpText q \<noteq> [] \<and> \<not> hasPrefix (cpText q) billingHeaderPrefix"
    using p(1) convertSystem_parts by (auto split: if_splits)
  moreover have "\<forall>i\<in>set (concat itemss). iiRole i \<noteq> ''developer''"
  proof
    fix i assume "i \<in> set (concat itemss)"
    then obtain ys where ys: "ys \<in> set itemss" "i \<in> set ys" by auto
    obtain k x where "(case convertMessage x of
          Inl err \<Rightarrow> Inl (ErrWrap (''convert message '' @ show_nat k @ '': '') err) | Inr items \<Rightarrow> Inr items) = Inr ys"
      using mapE_from_elem [OF p(3) ys(1)] by blast
    then have "convertMessage x = Inr ys" by (auto split: sum.splits)
    with ys(2) show "iiRole i \<noteq> ''developer''" by (rule no_developer [rotated])
  qed
  ultimately show ?thesis unfolding out p(2)
    by (intro exI [of _ parts] exI [of _ "concat itemss"]) simp
qed

theorem billing_header_dropped_witness:
  "\<exists>out. AnthropicToResponses (Some (zeroAnthropicRequest\<lparr>arModel := ''m'',
       arSystem := enc_string ''x-anthropic-billing-header: cc'',
       arMessages := [\<lparr>amRole = ''user'', amContent = enc_string ''hi''\<rparr>]\<rparr>)) = Inr out
    \<and> (\<forall>i\<in>set (rqInput out). iiRole i \<noteq> ''developer'')"
proof -
  have str: "unmarshalString (enc_string t) = Some (to_utf8 t)" for t
    using reads_parse [OF reads_string [of 0 t]] by (simp add: unmarshalString_iff)
  have nb: "\<not> isBlank (enc_string ''x-anthropic-billing-header: cc'')"
    by (simp add: isBlank_def trimSpace_def trimRight_def trimLeft.simps space_runes_def hasPrefix_def enc_string_def)
  let ?req = "zeroAnthropicRequest\<lparr>arModel := ''m'', arSystem := enc_string ''x-anthropic-billing-header: cc'',
       arMessages := [\<lparr>amRole = ''user'', amContent = enc_string ''hi''\<rparr>]\<rparr>"
  have sys: "convertSystem (enc_string ''x-anthropic-billing-header: cc'') = Inr []"
    by (simp add: convertSystem_def str to_utf8_ascii hasPrefix_def billingHeaderPrefix_def)
  have "AnthropicToResponses (Some ?req) = Inr ((requestBase ?req [messageItem ''user'' [inputText ''hi'']])\<lparr>rqTools := [],
      rqReasoning := Some \<lparr>rrEffort = ''medium'', rrSummary = ''auto''\<rparr>, rqToolChoice := []\<rparr>)"
    by (simp add: AnthropicToResponses_def convertInput_def sys nb convertMessage_def convertUserMessage_def str
        to_utf8_ascii requestEffort_def zeroAnthropicRequest_def)
  then obtain out where out: "AnthropicToResponses (Some ?req) = Inr out"
    "rqInput out = [messageItem ''user'' [inputText ''hi'']]"
    by simp
  from billing_header_dropped [OF out(1)] out show ?thesis by (force simp: messageItem_def)
qed

section \<open>When a request is refused\<close>

definition contentOk :: "string \<Rightarrow> bool" where
  "contentOk raw \<longleftrightarrow> (\<exists>t. unmarshalString raw = Some t) \<or> (\<exists>bs. unmarshalBlocks raw = Some bs)"

definition messageOk :: "AnthropicMessage \<Rightarrow> bool" where
  "messageOk m \<longleftrightarrow> amRole m \<in> {''user'', ''assistant''} \<and> contentOk (amContent m)"

definition toolOk :: "AnthropicTool \<Rightarrow> bool" where
  "toolOk t \<longleftrightarrow> isBlank (atInputSchema t) \<or> trimSpace (atInputSchema t) = ''null'' \<or> json_object (atInputSchema t)"

definition effortOk :: "AnthropicRequest \<Rightarrow> bool" where
  "effortOk req \<longleftrightarrow> (case arOutputConfig req of None \<Rightarrow> True
     | Some oc \<Rightarrow> ocEffort oc \<in> {[], ''low'', ''medium'', ''high'', ''max''})"

definition choiceOk :: "string \<Rightarrow> bool" where
  "choiceOk raw \<longleftrightarrow> isBlank raw \<or> (\<exists>c. unmarshal zeroToolChoice decToolChoice raw = Some c
     \<and> (tcType c \<in> {''auto'', ''any'', ''none''} \<or> tcType c = ''tool'' \<and> tcName c \<noteq> []))"

lemma convertSystem_ok: "(\<exists>p. convertSystem raw = Inr p) = contentOk raw"
  by (auto simp: convertSystem_def contentOk_def split: option.splits)

lemma convertMessage_ok: "(\<exists>items. convertMessage m = Inr items) = messageOk m"
  by (auto simp: convertMessage_def convertUserMessage_def convertAssistantMessage_def messageOk_def
      contentOk_def split: option.splits)

lemma normalize_ok: "(\<exists>p. normalizeToolParameters s = Inr p) =
    (isBlank s \<or> trimSpace s = ''null'' \<or> json_object s)"
  by (auto simp: normalizeToolParameters_def json_object_def Let_def split: option.splits json.splits)

lemma convertTool_ok: "(\<exists>y. convertTool i t = Inr y) = toolOk t"
  using normalize_ok [of "atInputSchema t"]
  by (auto simp: convertTool_def toolOk_def split: sum.splits)

lemma convertTools_ok: "(\<exists>ts. convertTools tools = Inr ts) = list_all toolOk tools"
  unfolding convertTools_def using mapE_from_ok [of convertTool toolOk, OF convertTool_ok] by blast

lemma convertInput_ok: "(\<exists>input. convertInput system messages = Inr input) \<longleftrightarrow>
    (isBlank system \<or> contentOk system) \<and> list_all messageOk messages"
proof -
  let ?conv = "\<lambda>i message. case convertMessage message of
      Inl err \<Rightarrow> Inl (ErrWrap (''convert message '' @ show_nat i @ '': '') err) | Inr items \<Rightarrow> Inr items"
  have "(\<exists>y. ?conv i m = Inr y) = messageOk m" for i m
    using convertMessage_ok [of m] by (auto split: sum.splits)
  from mapE_from_ok [of ?conv messageOk, OF this]
  have m: "(\<exists>ys. mapE_from 0 ?conv messages = Inr ys) = list_all messageOk messages" by blast
  have s: "(\<exists>p. (if isBlank system then Inr [] else convertSystem system) = Inr p) =
      (isBlank system \<or> contentOk system)"
    using convertSystem_ok [of system] by auto
  show ?thesis
    unfolding m [symmetric] s [symmetric] convertInput_def by (auto split: sum.splits)
qed

lemma requestEffort_ok: "(\<exists>e. requestEffort req = Inr e) = effortOk req"
  by (auto simp: requestEffort_def effortOk_def convertEffort_def split: option.splits)

lemma convertToolChoice_ok:
  "(\<exists>c. (if \<not> isBlank raw then convertToolChoice raw else Inr []) = Inr c) = choiceOk raw"
  by (auto simp: convertToolChoice_def choiceOk_def split: option.splits)

text \<open>
  C5: A request is translated exactly when each of its parts is well-formed: the system prompt is absent,
  a string or an array of blocks, every message has the role user or assistant and such a content, every
  tool schema is absent, null or a JSON object, the effort is one of the five known ones, and the tool
  choice, if any, is a known one (with a name for a specific tool). Nothing else makes it fail.
\<close>

theorem translate_succeeds_iff:
  "(\<exists>out. AnthropicToResponses (Some req) = Inr out) =
     ((isBlank (arSystem req) \<or> contentOk (arSystem req)) \<and> list_all messageOk (arMessages req)
      \<and> list_all toolOk (arTools req) \<and> effortOk req \<and> choiceOk (arToolChoice req))"
proof -
  have t: "(\<exists>ts. (if arTools req \<noteq> [] then convertTools (arTools req) else Inr []) = Inr ts) =
      list_all toolOk (arTools req)"
    using convertTools_ok [of "arTools req"] by auto
  show ?thesis
    unfolding t [symmetric] requestEffort_ok [symmetric] convertToolChoice_ok [symmetric]
    using convertInput_ok [of "arSystem req" "arMessages req"]
    unfolding AnthropicToResponses_def by (auto split: sum.splits)
qed

section \<open>The fields the adapter fixes\<close>

text \<open>
  Every translated request asks the upstream not to store it, to include the encrypted reasoning, to
  allow parallel tool calls, and for a known effort with automatic summaries; a positive token limit is
  raised to at least 128 and never lowered, and model and streaming mode are the client's.
\<close>

theorem request_defaults:
  assumes "AnthropicToResponses (Some req) = Inr out"
  shows "rqStore out = Some False \<and> rqInclude out = [''reasoning.encrypted_content'']
    \<and> rqParallelToolCalls out = Some True
    \<and> (\<exists>e\<in>{''low'', ''medium'', ''high'', ''xhigh''}. rqReasoning out = Some \<lparr>rrEffort = e, rrSummary = ''auto''\<rparr>)
    \<and> rqMaxOutputTokens out = (if arMaxTokens req > 0 then Some (max (arMaxTokens req) 128) else None)
    \<and> rqModel out = arModel req \<and> rqStream out = arStream req \<and> length (rqTools out) = length (arTools req)"
proof -
  obtain input tools effort choice where p: "requestEffort req = Inr effort"
    "(if arTools req \<noteq> [] then convertTools (arTools req) else Inr []) = Inr tools"
    "out = (requestBase req input)\<lparr>rqTools := tools,
       rqReasoning := Some \<lparr>rrEffort = effort, rrSummary = ''auto''\<rparr>, rqToolChoice := choice\<rparr>"
    using assms by (rule AnthropicToResponses_Inr)
  have "effort \<in> {''low'', ''medium'', ''high'', ''xhigh''}"
    using p(1) by (auto simp: requestEffort_def convertEffort_def split: option.splits if_splits)
  moreover have "length tools = length (arTools req)"
    using p(2) by (auto simp: convertTools_def mapE_from_Inr split: if_splits)
  ultimately show ?thesis by (simp add: p(3) requestBase_def minimumMaxOutputTokens_def)
qed

theorem request_defaults_witness:
  "\<exists>out. AnthropicToResponses (Some (zeroAnthropicRequest\<lparr>arMaxTokens := 5\<rparr>)) = Inr out
    \<and> rqMaxOutputTokens out = Some 128"
proof -
  let ?req = "zeroAnthropicRequest\<lparr>arMaxTokens := 5\<rparr>"
  obtain out where out: "AnthropicToResponses (Some ?req) = Inr out"
    by (simp add: AnthropicToResponses_def convertInput_def requestEffort_def zeroAnthropicRequest_def)
  from request_defaults [OF out] out show ?thesis by (simp add: zeroAnthropicRequest_def)
qed

section \<open>Tool schemas\<close>

definition hasKey :: "string \<Rightarrow> (string \<times> string \<times> json) list \<Rightarrow> bool" where
  "hasKey k ms \<longleftrightarrow> k \<in> fst ` set ms"

lemma rawMap_key: "map_of (rawMap ms) k = None \<longleftrightarrow> \<not> hasKey k ms"
  by (induction ms rule: rawMap.induct) (auto simp: hasKey_def)

lemma rawMap_subset: "(k, raw) \<in> set (rawMap ms) \<Longrightarrow> \<exists>j. (k, raw, j) \<in> set ms"
  by (induction ms rule: rawMap.induct) (auto split: if_splits)

lemma compact_squeezes: "squeezes d raw \<Longrightarrow> \<exists>v. reads d (compact raw) v"
proof -
  assume "squeezes d raw"
  then obtain w' v where w: "reads d w' v" "\<And>t. compact_from False (raw @ t) = w' @ compact_from False t"
    by (auto simp: squeezes_def)
  have "compact_from False [] = []" by (subst compact_from.simps) simp
  with w(2) [of "[]"] have "compact raw = w'" by (simp add: compact_def)
  with w(1) show ?thesis by blast
qed

lemma reads_empty_object: "reads (Suc d) ''{}'' (JObj [])"
  using reads_object [of d "[]" "[]"] by (simp add: enc_object_def)

lemma list_all2_choice:
  assumes "\<forall>x\<in>set xs. \<exists>y. P x y" "\<And>ys. list_all2 P xs ys \<Longrightarrow> thesis"
  shows thesis
proof -
  obtain f where f: "\<forall>x\<in>set xs. P x (f x)" using bchoice [OF assms(1)] by blast
  then have "list_all2 P xs (map f xs)" by (simp add: list_all2_conv_all_nth)
  then show ?thesis by (rule assms(2))
qed

lemma member_keys: "length kws = length vs \<Longrightarrow> map fst (map2 member_val kws vs) = map to_utf8 (map fst kws)"
  by (induction kws vs rule: list_induct2) (auto simp: member_val_def)

text \<open>A marshalled map is an object with the same keys.\<close>

lemma enc_raw_map_parse:
  assumes "\<forall>kv\<in>set m. squeezes (max_nesting - 1) (snd kv)"
  shows "\<exists>ms. json_parse (enc_raw_map m) = Some (JObj ms) \<and> map fst ms = map to_utf8 (map fst (sort_key fst m))"
proof -
  let ?kws = "map (\<lambda>(k, raw). (k, compact raw)) (sort_key fst m)"
  have "\<forall>kw\<in>set ?kws. \<exists>v. reads (max_nesting - 1) (snd kw) v"
    using assms compact_squeezes by (auto simp: case_prod_unfold)
  then obtain vs where vs: "list_all2 (\<lambda>kw v. reads (max_nesting - 1) (snd kw) v) ?kws vs"
    by (rule list_all2_choice)
  have "reads max_nesting (enc_raw_map m) (JObj (map2 member_val ?kws vs))"
    using reads_object [OF vs] by (simp add: enc_raw_map_def max_nesting_def)
  from reads_parse [OF this] have "json_parse (enc_raw_map m) = Some (JObj (map2 member_val ?kws vs))" by simp
  moreover have "map fst (map2 member_val ?kws vs) = map to_utf8 (map fst ?kws)"
    by (rule member_keys [OF list_all2_lengthD [OF vs]])
  moreover have "map fst ?kws = map fst (sort_key fst m)" by (simp add: case_prod_unfold comp_def)
  ultimately show ?thesis by metis
qed

lemma schema_default:
  "json_parse (enc_object [(''type'', enc_string ''object''), (''properties'', ''{}'')]) =
     Some (JObj [(''type'', enc_string ''object'', JStr ''object''), (''properties'', ''{}'', JObj [])])"
proof -
  have "list_all2 (\<lambda>kw v. reads 1 (snd kw) v) [(''type'', enc_string ''object''), (''properties'', ''{}'')]
      [JStr (to_utf8 ''object''), JObj []]"
    using reads_empty_object [of 0] by (simp add: reads_string)
  from reads_parse [OF reads_object [OF this]] show ?thesis
    by (simp add: member_val_def to_utf8_ascii max_nesting_def)
qed

lemma object_squeezes:
  assumes "json_parse s = Some (JObj ms)" "kv \<in> set (rawMap ms)"
  shows "squeezes (max_nesting - 1) (snd kv)"
  using object_raw [OF assms(1)] rawMap_subset [of "fst kv" "snd kv" ms] assms(2)
  by (force simp: list_all_iff)

text \<open>
  Every tool reaches the upstream with a parameter schema that is a JSON object, and one of type
  \<^verbatim>\<open>object\<close> always has \<^verbatim>\<open>properties\<close>: a schema without them (or none at all) gets an empty set, any other
  is passed on as it is.
\<close>

theorem schema_has_properties:
  assumes "normalizeToolParameters schema = Inr p"
  shows "\<exists>ms. json_parse p = Some (JObj ms)
    \<and> (map_of (rawMap ms) ''type'' = Some (enc_string ''object'') \<longrightarrow> hasKey ''properties'' ms)
    \<and> (p = schema \<or> isBlank schema \<or> trimSpace schema = ''null''
       \<or> (\<exists>ms0. json_parse schema = Some (JObj ms0)
           \<and> fst ` set ms = insert ''properties'' (to_utf8 ` fst ` set ms0)))"
proof (cases "isBlank schema \<or> trimSpace schema = ''null''")
  case True
  then have "p = enc_object [(''type'', enc_string ''object''), (''properties'', ''{}'')]"
    using assms by (auto simp: normalizeToolParameters_def)
  with True show ?thesis by (auto simp: schema_default hasKey_def)
next
  case False
  then obtain ms0 where ms0: "json_parse schema = Some (JObj ms0)"
    using assms by (auto simp: normalizeToolParameters_def split: option.splits json.splits)
  let ?o = "rawMap ms0"
  consider (kept) "p = schema"
      "map_of ?o ''type'' = Some (enc_string ''object'') \<longrightarrow> map_of ?o ''properties'' \<noteq> None"
    | (added) "p = enc_raw_map (?o @ [(''properties'', ''{}'')])"
    using assms False ms0 by (auto simp: normalizeToolParameters_def Let_def split: if_splits)
  then show ?thesis
  proof cases
    case kept
    with ms0 rawMap_key [of ms0 "''properties''"] show ?thesis by (intro exI [of _ ms0]) auto
  next
    case added
    have "squeezes (max_nesting - 1) ''{}''"
      using squeezes_empty(2) [of "[]" "max_nesting - 2"] by (simp add: max_nesting_def)
    then have "\<forall>kv\<in>set (?o @ [(''properties'', ''{}'')]). squeezes (max_nesting - 1) (snd kv)"
      using object_squeezes [OF ms0] by auto
    from enc_raw_map_parse [OF this] obtain ms where ms: "json_parse p = Some (JObj ms)"
      "map fst ms = map to_utf8 (map fst (sort_key fst (?o @ [(''properties'', ''{}'')])))"
      using added by blast
    have "set (map fst ms) = to_utf8 ` set (map fst (sort_key fst (?o @ [(''properties'', ''{}'')])))"
      unfolding ms(2) by (simp only: set_map)
    then have k: "fst ` set ms = insert ''properties'' (to_utf8 ` fst ` set ?o)"
      by (simp add: to_utf8_ascii)
    have "fst ` set ?o = fst ` set ms0"
      using rawMap_key [of ms0] by (auto simp: hasKey_def map_of_eq_None_iff)
    with ms(1) k ms0 show ?thesis by (auto simp: hasKey_def)
  qed
qed

theorem schema_has_properties_witness:
  "\<exists>p ms. normalizeToolParameters [] = Inr p \<and> json_parse p = Some (JObj ms) \<and> hasKey ''properties'' ms"
proof -
  have p: "normalizeToolParameters [] = Inr (enc_object [(''type'', enc_string ''object''), (''properties'', ''{}'')])"
    by (simp add: normalizeToolParameters_def)
  from schema_has_properties [OF this] p show ?thesis by (auto simp: schema_default)
qed

section \<open>The content of a user turn\<close>

definition partTexts :: "ResponsesContentPart list \<Rightarrow> string list" where
  "partTexts ps = map cpText (filter (\<lambda>p. cpType p = ''input_text'') ps)"

definition partImages :: "ResponsesContentPart list \<Rightarrow> ResponsesContentPart list" where
  "partImages ps = filter (\<lambda>p. cpType p = ''input_image'') ps"

lemma part_append [simp]:
  "partTexts (ps @ qs) = partTexts ps @ partTexts qs" "partImages (ps @ qs) = partImages ps @ partImages qs"
  "partTexts [] = []" "partImages [] = []"
  by (simp_all add: partTexts_def partImages_def)

lemma parts_user: "partTexts (concat (map userPart bs)) = blockTexts bs"
  "partImages (concat (map userPart bs)) = blockImages bs"
  by (induction bs) (auto simp: userPart_def blockTexts_def blockImages_def partTexts_def partImages_def
      inputText_def inputImage_def)

lemma parts_images: "partTexts (blockImages bs) = []" "partImages (blockImages bs) = blockImages bs"
  by (induction bs) (auto simp: blockImages_def partTexts_def partImages_def inputImage_def)

lemma images_of_result: "partTexts (snd (convertToolResult b)) = []"
  "partImages (snd (convertToolResult b)) = snd (convertToolResult b)"
  by (auto simp: convertToolResult_def Let_def parts_images split: option.splits)

lemma images_of_results: "partTexts (concat (map (snd \<circ> convertToolResult) rs)) = []"
  "partImages (concat (map (snd \<circ> convertToolResult) rs)) = concat (map (snd \<circ> convertToolResult) rs)"
  by (induction rs) (simp_all add: images_of_result)

text \<open>
  Nothing a user turn says is lost. Its translation puts the results of the tool calls first, then at
  most one user message, which holds the turn's non-empty texts in order, and its images in order followed
  by the images inside the tool results; and there is no such message only if there is nothing to say.
\<close>

theorem user_turn_lossless:
  assumes "unmarshalString raw = None" "unmarshalBlocks raw = Some bs"
  shows "\<exists>parts. convertUserMessage raw = Inr (map toolOutputItem (filter (\<lambda>b. cbType b = ''tool_result'') bs)
        @ (if parts = [] then [] else [messageItem ''user'' parts]))
    \<and> partTexts parts = blockTexts bs
    \<and> partImages parts = blockImages bs
        @ concat (map (snd \<circ> convertToolResult) (filter (\<lambda>b. cbType b = ''tool_result'') bs))"
  using assms
  by (intro exI [of _ "concat (map userPart bs) @ concat (map (snd \<circ> convertToolResult)
        (filter (\<lambda>b. cbType b = ''tool_result'') bs))"])
    (simp add: convertUserMessage_def userItems_def Let_def parts_user images_of_results)

theorem user_turn_lossless_witness:
  "\<exists>parts. convertUserMessage (oneBlock [(''type'', ''text''), (''text'', ''hi'')]) = Inr [messageItem ''user'' parts]
    \<and> partTexts parts = [''hi'']"
proof -
  let ?c = "oneBlock [(''type'', ''text''), (''text'', ''hi'')]"
  let ?b = "zeroAnthropicContentBlock\<lparr>cbType := ''text'', cbText := ''hi''\<rparr>"
  have s: "unmarshalString ?c = None"
    by (simp add: unmarshalString_def unmarshal_def decString_def parse_oneBlock)
  have b: "unmarshalBlocks ?c = Some [?b]"
    by (simp add: unmarshalBlocks_def unmarshal_def decList_def parse_oneBlock decContentBlock_def decStruct_def
        findField_def field_def to_utf8_ascii decString_def zeroAnthropicContentBlock_def)
  have t: "blockTexts [?b] = [''hi'']" by (simp add: blockTexts_def)
  from user_turn_lossless [OF s b] obtain parts where p: "partTexts parts = [''hi'']"
    "convertUserMessage ?c = Inr (if parts = [] then [] else [messageItem ''user'' parts])"
    by (auto simp: t)
  then have "parts \<noteq> []" by auto
  with p show ?thesis by auto
qed

end
