(* ===== verification/Sse.thy ===== *)
theory Sse
  imports Json_Decode
begin

text \<open>
  The Server-Sent Events decoder of \<^verbatim>\<open>internal/protocol/sse.go\<close> over the \<^verbatim>\<open>bufio.Reader\<close> it reads lines
  from. The input is the bytes the connection still delivers, with the error that follows them (end of
  file or a read error), which the reader reports again on every further read.
\<close>

section \<open>Lines of a buffered reader\<close>

text \<open>
  \<^verbatim>\<open>bufio.Reader.ReadLine\<close> with the default buffer: a line without its ending; a part of a longer line,
  marked as such, when the buffer is full (a carriage return at its end is left for the next part); the
  rest of the input when no line feed follows; the reader's error when nothing is left.
\<close>

abbreviation LF :: char where "LF \<equiv> CHR 0x0A"
abbreviation CR :: char where "CR \<equiv> CHR 0x0D"

definition bufSize :: nat where
  "bufSize = 4096"

definition dropCR :: "string \<Rightarrow> string" where
  "dropCR line = (if line \<noteq> [] \<and> last line = CR then butlast line else line)"

record fragment =
  frBytes :: string
  frMore :: bool
  frErr :: "go_error option"

definition bufReadLine :: "string \<Rightarrow> go_error \<Rightarrow> fragment \<times> string" where
  "bufReadLine s e =
     (let w = take bufSize s in
      if LF \<in> set w then
        let line = takeWhile (\<lambda>c. c \<noteq> LF) s
        in (\<lparr>frBytes = dropCR line, frMore = False, frErr = None\<rparr>, drop (length line + 1) s)
      else if bufSize \<le> length s then
        (if last w = CR then (\<lparr>frBytes = butlast w, frMore = True, frErr = None\<rparr>, drop (bufSize - 1) s)
         else (\<lparr>frBytes = w, frMore = True, frErr = None\<rparr>, drop bufSize s))
      else if s = [] then (\<lparr>frBytes = [], frMore = False, frErr = Some e\<rparr>, [])
      else (\<lparr>frBytes = s, frMore = False, frErr = None\<rparr>, []))"

lemma bufReadLine_rest:
  "bufReadLine s e = (f, r) \<Longrightarrow> if frErr f = None then length r < length s else s = [] \<and> r = []"
  by (cases s) (auto simp: bufReadLine_def Let_def bufSize_def split: if_splits)

lemma bufReadLine_shorter: "(f, r) = bufReadLine s e \<Longrightarrow> frErr f = None \<Longrightarrow> length r < length s"
  using bufReadLine_rest [of s e f r] by simp

section \<open>The decoder\<close>

definition DefaultMaxSSEEventBytes :: int where
  "DefaultMaxSSEEventBytes = 16 * 2 ^ 20"

record SSEFrame =
  sfEvent :: string
  sfData :: string
  sfID :: string

definition zeroSSEFrame :: SSEFrame where
  "zeroSSEFrame = \<lparr>sfEvent = [], sfData = [], sfID = []\<rparr>"

record SSEDecoder =
  sdInput :: string
  sdEnd :: go_error
  sdMaxBytes :: int
  sdFirst :: bool

definition NewSSEDecoder :: "string \<Rightarrow> go_error \<Rightarrow> int \<Rightarrow> SSEDecoder" where
  "NewSSEDecoder input e maxBytes = \<lparr>sdInput = input, sdEnd = e,
     sdMaxBytes = (if maxBytes \<le> 0 then DefaultMaxSSEEventBytes else maxBytes), sdFirst = True\<rparr>"

text \<open>\<^verbatim>\<open>readLine\<close>: the fragments of one line put together, within the size limit.\<close>

function readLine :: "int \<Rightarrow> go_error \<Rightarrow> string \<Rightarrow> string \<Rightarrow> (string \<times> go_error option) \<times> string" where
  "readLine maxBytes e acc s =
     (case bufReadLine s e of (f, rest) \<Rightarrow>
        let line = acc @ frBytes f in
        (case frErr f of
           Some err \<Rightarrow> ((line, Some err), rest)
         | None \<Rightarrow>
             if \<not> frMore f then ((line, None), rest)
             else if int (length line) > maxBytes then (([], Some ErrSSEEventTooLarge), rest)
             else readLine maxBytes e line rest))"
  by pat_completeness auto
termination
  by (relation "measure (\<lambda>(m, e, acc, s). length s)") (auto dest: bufReadLine_shorter)

declare readLine.simps [simp del]

lemma readLine_rest:
  "readLine m e acc s = ((line, err), r) \<Longrightarrow> s \<noteq> [] \<Longrightarrow> length r < length s"
proof (induction m e acc s arbitrary: line err r rule: readLine.induct)
  case (1 m e acc s)
  obtain f rest where b: "bufReadLine s e = (f, rest)" by (cases "bufReadLine s e")
  have shorter: "length rest < length s" using bufReadLine_rest [OF b] 1(3) by (auto split: if_splits)
  show ?case
  proof (cases "frErr f = None \<and> frMore f \<and> \<not> int (length (acc @ frBytes f)) > m")
    case True
    then have rec: "readLine m e (acc @ frBytes f) rest = ((line, err), r)"
      using 1(2) b by (simp add: readLine.simps [of m e acc s])
    show ?thesis
    proof (cases "rest = []")
      case True
      with rec have "r = []" by (simp add: readLine.simps [of _ _ _ "[]"] bufReadLine_def bufSize_def)
      with 1(3) show ?thesis by simp
    next
      case False
      from 1(1) [OF b [symmetric] refl _ _ _ rec False] True b shorter show ?thesis by simp
    qed
  next
    case False
    with 1(2) b shorter show ?thesis
      by (auto simp: readLine.simps [of m e acc s] Let_def split: option.splits if_splits)
  qed
qed

lemma readLine_empty: "readLine m e acc [] = ((acc, Some e), [])"
  by (simp add: readLine.simps bufReadLine_def bufSize_def)

text \<open>\<^verbatim>\<open>parseSSELine\<close>: a field of the frame, or nothing for a comment.\<close>

definition cutColon :: "string \<Rightarrow> string \<times> string \<times> bool" where
  "cutColon line =
     (let field = takeWhile (\<lambda>c. c \<noteq> CHR '':'') line; rest = dropWhile (\<lambda>c. c \<noteq> CHR '':'') line
      in (field, tl rest, rest \<noteq> []))"

definition parseSSELine :: "string \<Rightarrow> SSEFrame \<Rightarrow> string list \<Rightarrow> SSEFrame \<times> string list" where
  "parseSSELine line frame data =
     (if line = [] \<or> hd line = CHR '':'' then (frame, data)
      else
        let (field, value, found) = cutColon line;
            value = (if \<not> found then [] else if hasPrefix value '' '' then tl value else value)
        in if field = ''event'' then (frame\<lparr>sfEvent := value\<rparr>, data)
           else if field = ''data'' then (frame, data @ [value])
           else if field = ''id'' then
             (if CHR 0x00 \<notin> set value then (frame\<lparr>sfID := value\<rparr>, data) else (frame, data))
           else (frame, data))"

definition byteOrderMark :: string where
  "byteOrderMark = [CHR 0xEF, CHR 0xBB, CHR 0xBF]"

definition trimBOM :: "string \<Rightarrow> string" where
  "trimBOM line = (if hasPrefix line byteOrderMark then drop 3 line else line)"

definition finishFrame :: "SSEFrame \<Rightarrow> string list \<Rightarrow> SSEFrame" where
  "finishFrame frame data =
     frame\<lparr>sfEvent := (if sfEvent frame = [] then ''message'' else sfEvent frame),
           sfData := joinWith [LF] data\<rparr>"

lemma readLine_progress:
  "((line, None), r) = readLine m e acc s \<Longrightarrow> length r < length s"
  using readLine_rest [of m e acc s line None r] by (cases "s = []") (auto simp: readLine_empty)

definition isEOF :: "go_error option \<Rightarrow> bool" where
  "isEOF err \<longleftrightarrow> (case err of None \<Rightarrow> False | Some x \<Rightarrow> errorsIs x IoEOF)"

text \<open>The loop of \<^verbatim>\<open>Next\<close>: its local variables, then the decoder.\<close>

function nextLoop :: "SSEFrame \<Rightarrow> string list \<Rightarrow> int \<Rightarrow> SSEDecoder \<Rightarrow> SSEFrame result \<times> SSEDecoder" where
  "nextLoop frame data used d =
     (case readLine (sdMaxBytes d) (sdEnd d) [] (sdInput d) of ((raw, err), rest) \<Rightarrow>
        let line = (if sdFirst d then trimBOM raw else raw);
            d1 = d\<lparr>sdInput := rest, sdFirst := False\<rparr>;
            used1 = (if line \<noteq> [] then used + int (length line) + 1 else used);
            (frame1, data1) = (if line \<noteq> [] then parseSSELine line frame data else (frame, data))
        in if line \<noteq> [] \<and> used1 > sdMaxBytes d then (Inl ErrSSEEventTooLarge, d1)
           else if err \<noteq> None \<and> \<not> isEOF err then (Inl (the err), d1)
           else if (line = [] \<or> isEOF err) \<and> data1 \<noteq> [] then (Inr (finishFrame frame1 data1), d1)
           else if isEOF err then (Inl IoEOF, d1)
           else if line = [] then nextLoop zeroSSEFrame [] 0 d1
           else nextLoop frame1 data1 used1 d1)"
  by pat_completeness auto
termination
  by (relation "measure (\<lambda>(frame, data, used, d). length (sdInput d))") (auto dest: readLine_progress simp: isEOF_def)

declare nextLoop.simps [simp del]

definition sseNext :: "SSEDecoder \<Rightarrow> SSEFrame result \<times> SSEDecoder" where
  "sseNext d = nextLoop zeroSSEFrame [] 0 d"

section \<open>Events\<close>

definition DecodeResponsesEvent :: "SSEFrame \<Rightarrow> ResponsesStreamEvent result" where
  "DecodeResponsesEvent frame =
     (if trimSpace (sfData frame) = ''[DONE]'' then Inl ErrResponsesDone
      else (case unmarshal zeroResponsesStreamEvent decStreamEvent (sfData frame) of
          None \<Rightarrow> Inl (ErrWrap ''decode Responses SSE event: '' ErrJson)
        | Some event \<Rightarrow>
            let event1 = (if evType event = [] \<and> sfEvent frame \<noteq> [] \<and> sfEvent frame \<noteq> ''message''
                  then event\<lparr>evType := sfEvent frame\<rparr> else event)
            in if evType event1 = [] then Inl (ErrNew ''decode Responses SSE event: missing type'')
               else Inr event1))"

definition NewAnthropicErrorEvent :: "string \<Rightarrow> string \<Rightarrow> AnthropicStreamEvent" where
  "NewAnthropicErrorEvent errorType message = zeroAnthropicStreamEvent\<lparr>seType := ''error'',
     seError := Some \<lparr>aeType = (if errorType = [] then ''api_error'' else errorType), aeMessage = message\<rparr>\<rparr>"

end
