(* ===== verification/Json_Marshal.thy ===== *)
theory Json_Marshal
  imports Wire_Types Json_Reads
begin

text \<open>
  \<^verbatim>\<open>json.Marshal\<close> of the wire types: a struct becomes a tree of members, in field order and without its
  empty \<^verbatim>\<open>omitempty\<close> fields, and the tree becomes text. The text of every tree whose raw messages are valid
  JSON parses back to what it says and stays on one line.
\<close>

section \<open>Output trees\<close>

datatype jout =
    OStr string
  | OInt int
  | OBool bool
  | ONull
  | ORaw string
  | OArr "jout list"
  | OObj "(string \<times> jout) list"

fun enc :: "jout \<Rightarrow> string" where
  "enc (OStr s) = enc_string s"
| "enc (OInt i) = show_int i"
| "enc (OBool b) = (if b then ''true'' else ''false'')"
| "enc ONull = ''null''"
| "enc (ORaw s) = compact s"
| "enc (OArr es) = enc_array (map enc es)"
| "enc (OObj ms) = enc_object (map (\<lambda>m. (fst m, enc (snd m))) ms)"

text \<open>The raw messages are valid JSON and the nesting is at most \<open>d\<close>.\<close>

definition valid_at :: "nat \<Rightarrow> string \<Rightarrow> bool" where
  "valid_at d s \<longleftrightarrow> (case parse_value (2 * length (skip_ws s) + 1) d (skip_ws s) of
     None \<Rightarrow> False | Some (v, r) \<Rightarrow> skip_ws r = [])"

fun okOut :: "nat \<Rightarrow> jout \<Rightarrow> bool" where
  "okOut d (ORaw s) \<longleftrightarrow> valid_at d s"
| "okOut d (OArr es) \<longleftrightarrow> 0 < d \<and> list_all (okOut (d - 1)) es"
| "okOut d (OObj ms) \<longleftrightarrow> 0 < d \<and> list_all (\<lambda>m. okOut (d - 1) (snd m)) ms"
| "okOut d j \<longleftrightarrow> True"

fun rawsValid :: "jout \<Rightarrow> bool" where
  "rawsValid (ORaw s) \<longleftrightarrow> json_parse s \<noteq> None"
| "rawsValid (OArr es) \<longleftrightarrow> list_all rawsValid es"
| "rawsValid (OObj ms) \<longleftrightarrow> list_all (\<lambda>m. rawsValid (snd m)) ms"
| "rawsValid j \<longleftrightarrow> True"

definition marshal :: "jout \<Rightarrow> string option" where
  "marshal j = (if rawsValid j then Some (enc j) else None)"

text \<open>The value a reader gets.\<close>

fun out_json :: "jout \<Rightarrow> json" where
  "out_json (OStr s) = JStr (to_utf8 s)"
| "out_json (OInt i) = JNum (show_int i)"
| "out_json (OBool b) = JBool b"
| "out_json ONull = JNull"
| "out_json (ORaw s) = the (json_parse (compact s))"
| "out_json (OArr es) = JArr (map (\<lambda>e. (enc e, out_json e)) es)"
| "out_json (OObj ms) = JObj (map (\<lambda>m. (to_utf8 (fst m), enc (snd m), out_json (snd m))) ms)"

lemma valid_at_squeezes:
  assumes "valid_at d s"
  obtains w' v where "compact s = w'" "printable w'" "reads d w' v"
proof -
  obtain v r where p: "parse_value (2 * length (skip_ws s) + 1) d (skip_ws s) = Some (v, r)" "skip_ws r = []"
    using assms by (auto simp: valid_at_def split: option.splits)
  obtain w where w: "skip_ws s = w @ r" "squeezes d w" using p(1) parse_squeezes by blast
  obtain sp where sp: "s = sp @ skip_ws s" "list_all json_space sp" using ws_split by blast
  have r: "list_all json_space r" using p(2) by (simp add: skip_ws_def list_all_iff dropWhile_eq_Nil_conv)
  obtain w' v' where w': "printable w'" "reads d w' v'" "\<And>t. compact_from False (w @ t) = w' @ compact_from False t"
    using w(2) by (auto simp: squeezes_def)
  have "compact_from False [] = []" by (subst compact_from.simps) simp
  then have "compact_from False r = []" using compact_spaces [OF r, of "[]"] by simp
  then have "compact s = w'"
    unfolding compact_def by (subst sp(1)) (simp add: compact_spaces [OF sp(2)] w(1) w'(3))
  with w' show ?thesis by (intro that)
qed

lemma json_parse_valid: "json_parse s \<noteq> None \<longleftrightarrow> valid_at max_nesting s"
  by (auto simp: json_parse_def parse_prefix_def valid_at_def split: option.splits if_splits)

lemma show_int_num: "list_all num_char (show_int i)"
  using scan_num_again [OF scan_num_show_int, of "[]" i] by simp

lemma printable_enc: "rawsValid j \<Longrightarrow> printable (enc j)"
proof (induction j)
  case (OInt i)
  with num_char_plain [OF show_int_num] show ?case by simp
next
  case (ORaw s)
  with compact_ok(1) show ?case by simp
next
  case (OArr es)
  then have "list_all printable (map enc es)" by (auto simp: list_all_iff)
  then show ?case by (simp add: enc_array_def printable_joinWith)
next
  case (OObj ms)
  then have "list_all (\<lambda>kv. printable (snd kv)) (map (\<lambda>m. (fst m, enc (snd m))) ms)"
    by (fastforce simp: list_all_iff)
  then show ?case by simp
qed auto

text \<open>Reading back what was written.\<close>

lemma reads_enc: "okOut d j \<Longrightarrow> d \<le> max_nesting \<Longrightarrow> reads d (enc j) (out_json j)"
proof (induction j arbitrary: d)
  case (ORaw s)
  then have "valid_at d s" by simp
  then obtain w' v where w: "compact s = w'" "printable w'" "reads d w' v" by (rule valid_at_squeezes)
  from reads_parse [OF w(3) ORaw.prems(2)] w show ?case by simp
next
  case (OArr es)
  then obtain e where d: "d = Suc e" by (cases d) auto
  have "list_all2 (reads e) (map enc es) (map out_json es)"
    using OArr d by (auto simp: list_all2_map1 list_all2_map2 list_all_iff intro!: list.rel_refl_strong)
  from reads_array [OF this] show ?case by (simp add: d zip_map_map comp_def zip_same_conv_map)
next
  case (OObj ms)
  then obtain e where d: "d = Suc e" by (cases d) auto
  have "list_all2 (\<lambda>kw v. reads e (snd kw) v) (map (\<lambda>m. (fst m, enc (snd m))) ms) (map (\<lambda>m. out_json (snd m)) ms)"
    using OObj d by (fastforce simp: list_all2_map1 list_all2_map2 list_all_iff intro!: list.rel_refl_strong)
  from reads_object [OF this] show ?case
    by (simp add: d zip_map_map comp_def zip_same_conv_map member_val_def)
qed (auto intro: reads_string reads_int reads_null reads_true reads_false)

lemma parse_enc: "okOut max_nesting j \<Longrightarrow> json_parse (enc j) = Some (out_json j)"
  using reads_parse [OF reads_enc [OF _ order_refl] order_refl] by blast

section \<open>Members\<close>

type_synonym members = "(string \<times> jout) list"

definition omitStr :: "string \<Rightarrow> string \<Rightarrow> members" where
  "omitStr k s = (if s = [] then [] else [(k, OStr s)])"

definition omitInt :: "string \<Rightarrow> int \<Rightarrow> members" where
  "omitInt k i = (if i = 0 then [] else [(k, OInt i)])"

definition omitBool :: "string \<Rightarrow> bool \<Rightarrow> members" where
  "omitBool k b = (if b then [(k, OBool b)] else [])"

definition omitRaw :: "string \<Rightarrow> string \<Rightarrow> members" where
  "omitRaw k s = (if s = [] then [] else [(k, ORaw s)])"

definition omitPtr :: "string \<Rightarrow> ('a \<Rightarrow> jout) \<Rightarrow> 'a option \<Rightarrow> members" where
  "omitPtr k f x = (case x of None \<Rightarrow> [] | Some y \<Rightarrow> [(k, f y)])"

definition omitList :: "string \<Rightarrow> ('a \<Rightarrow> jout) \<Rightarrow> 'a list \<Rightarrow> members" where
  "omitList k f xs = (if xs = [] then [] else [(k, OArr (map f xs))])"

definition orNull :: "('a \<Rightarrow> jout) \<Rightarrow> 'a option \<Rightarrow> jout" where
  "orNull f x = (case x of None \<Rightarrow> ONull | Some y \<Rightarrow> f y)"

section \<open>Anthropic types\<close>

definition outCacheControl :: "AnthropicCacheControl \<Rightarrow> jout" where
  "outCacheControl c = OObj ([(''type'', OStr (ccType c))] @ omitStr ''ttl'' (ccTTL c))"

definition outImageSource :: "AnthropicImageSource \<Rightarrow> jout" where
  "outImageSource s = OObj [(''type'', OStr (imType s)), (''media_type'', OStr (imMediaType s)), (''data'', OStr (imData s))]"

text \<open>
  \<^verbatim>\<open>AnthropicContentBlock.MarshalJSON\<close>: the required field of a text or thinking block comes first, and
  hides the \<^verbatim>\<open>omitempty\<close> field of the same name.
\<close>

definition outContentBlock :: "AnthropicContentBlock \<Rightarrow> jout" where
  "outContentBlock b = OObj (
     (if cbType b = ''text'' then [(''text'', OStr (cbText b))]
      else if cbType b = ''thinking'' then [(''thinking'', OStr (cbThinking b))] else [])
     @ [(''type'', OStr (cbType b))]
     @ omitPtr ''cache_control'' outCacheControl (cbCacheControl b)
     @ (if cbType b = ''text'' then [] else omitStr ''text'' (cbText b))
     @ (if cbType b = ''thinking'' then [] else omitStr ''thinking'' (cbThinking b))
     @ omitStr ''signature'' (cbSignature b)
     @ omitPtr ''source'' outImageSource (cbSource b)
     @ omitStr ''id'' (cbID b) @ omitStr ''name'' (cbName b) @ omitRaw ''input'' (cbInput b)
     @ omitStr ''tool_use_id'' (cbToolUseID b) @ omitRaw ''content'' (cbContent b)
     @ omitBool ''is_error'' (cbIsError b))"

definition outUsage :: "AnthropicUsage \<Rightarrow> jout" where
  "outUsage u = OObj [(''input_tokens'', OInt (auInputTokens u)), (''output_tokens'', OInt (auOutputTokens u)),
     (''cache_creation_input_tokens'', OInt (auCacheCreationInputTokens u)),
     (''cache_read_input_tokens'', OInt (auCacheReadInputTokens u))]"

definition outResponse :: "AnthropicResponse \<Rightarrow> jout" where
  "outResponse r = OObj ([(''id'', OStr (rmID r)), (''type'', OStr (rmType r)), (''role'', OStr (rmRole r)),
     (''content'', OArr (map outContentBlock (rmContent r))), (''model'', OStr (rmModel r)),
     (''stop_reason'', orNull OStr (rmStopReason r))]
     @ omitPtr ''stop_sequence'' OStr (rmStopSequence r) @ [(''usage'', outUsage (rmUsage r))])"

definition outDelta :: "AnthropicDelta \<Rightarrow> jout" where
  "outDelta d = OObj (omitStr ''type'' (adType d) @ omitStr ''text'' (adText d)
     @ omitStr ''partial_json'' (adPartialJSON d) @ omitStr ''thinking'' (adThinking d)
     @ omitStr ''signature'' (adSignature d) @ omitStr ''stop_reason'' (adStopReason d)
     @ omitPtr ''stop_sequence'' OStr (adStopSequence d))"

definition outError :: "AnthropicError \<Rightarrow> jout" where
  "outError e = OObj [(''type'', OStr (aeType e)), (''message'', OStr (aeMessage e))]"

definition outStreamEvent :: "AnthropicStreamEvent \<Rightarrow> jout" where
  "outStreamEvent e = OObj ([(''type'', OStr (seType e))] @ omitPtr ''message'' outResponse (seMessage e)
     @ omitPtr ''index'' OInt (seIndex e) @ omitPtr ''content_block'' outContentBlock (seContentBlock e)
     @ omitPtr ''delta'' outDelta (seDelta e) @ omitPtr ''usage'' outUsage (seUsage e)
     @ omitPtr ''error'' outError (seError e))"

section \<open>Responses request types\<close>

definition outContentPart :: "ResponsesContentPart \<Rightarrow> jout" where
  "outContentPart p = OObj ([(''type'', OStr (cpType p))] @ omitStr ''text'' (cpText p)
     @ omitStr ''image_url'' (cpImageURL p))"

definition outInputItem :: "ResponsesInputItem \<Rightarrow> jout" where
  "outInputItem i = OObj (omitStr ''type'' (iiType i) @ omitStr ''role'' (iiRole i)
     @ omitList ''content'' outContentPart (iiContent i) @ omitStr ''encrypted_content'' (iiEncryptedContent i)
     @ omitStr ''call_id'' (iiCallID i) @ omitStr ''name'' (iiName i) @ omitStr ''arguments'' (iiArguments i)
     @ omitStr ''output'' (iiOutput i))"

definition outTool :: "ResponsesTool \<Rightarrow> jout" where
  "outTool t = OObj ([(''type'', OStr (tlType t))] @ omitStr ''name'' (tlName t)
     @ omitStr ''description'' (tlDescription t) @ omitRaw ''parameters'' (tlParameters t)
     @ omitPtr ''strict'' OBool (tlStrict t))"

definition outReasoning :: "ResponsesReasoning \<Rightarrow> jout" where
  "outReasoning r = OObj ([(''effort'', OStr (rrEffort r))] @ omitStr ''summary'' (rrSummary r))"

definition outText :: "ResponsesText \<Rightarrow> jout" where
  "outText t = OObj (omitStr ''verbosity'' (rtVerbosity t))"

text \<open>An empty \<^verbatim>\<open>input\<close> is a nil slice, which is written as \<^verbatim>\<open>null\<close>.\<close>

definition outRequest :: "ResponsesRequest \<Rightarrow> jout" where
  "outRequest r = OObj ([(''model'', OStr (rqModel r))] @ omitStr ''instructions'' (rqInstructions r)
     @ [(''input'', if rqInput r = [] then ONull else OArr (map outInputItem (rqInput r)))]
     @ omitPtr ''max_output_tokens'' OInt (rqMaxOutputTokens r) @ omitBool ''stream'' (rqStream r)
     @ omitList ''tools'' outTool (rqTools r) @ omitList ''include'' OStr (rqInclude r)
     @ omitPtr ''store'' OBool (rqStore r) @ omitPtr ''parallel_tool_calls'' OBool (rqParallelToolCalls r)
     @ omitPtr ''reasoning'' outReasoning (rqReasoning r) @ omitPtr ''text'' outText (rqText r)
     @ omitRaw ''tool_choice'' (rqToolChoice r))"

end
