(* ===== verification/Sse_Codec.thy ===== *)
theory Sse_Codec
  imports Sse Json_Marshal
begin

text \<open>
  The codec of \<^verbatim>\<open>internal/protocol/sse.go\<close> as a whole: how lines come out of the buffered reader, the goroutine
  that reads frames (\<^verbatim>\<open>decodeResponseFrames\<close> of \<^verbatim>\<open>internal/server/stream.go\<close>), the encoder of Anthropic events,
  and that decoding undoes encoding. The contract between a writer of events and the reader of frames is the
  locale \<open>sse_payload\<close>, interpreted on the encoder's Anthropic events.
\<close>

section \<open>Lines\<close>

text \<open>
  Where the buffer happens to cut it, a line of at most the allowed length is read as it is: the buffer of
  4096 bytes is not visible.
\<close>

lemma dropCR_simps: "dropCR (xs @ ys) = (if ys = [] then dropCR xs else xs @ dropCR ys)"
  by (auto simp: dropCR_def butlast_append)

lemma bufReadLine_short:
  "LF \<notin> set l \<Longrightarrow> length l < bufSize \<Longrightarrow>
     bufReadLine (l @ LF # t) e = (\<lparr>frBytes = dropCR l, frMore = False, frErr = None\<rparr>, t)"
proof -
  assume l: "LF \<notin> set l" "length l < bufSize"
  have "LF \<in> set (take bufSize (l @ LF # t))"
    using l(2) by (cases "bufSize - length l") auto
  moreover have "takeWhile (\<lambda>c. c \<noteq> LF) (l @ LF # t) = l"
    using l(1) by (subst takeWhile_append2) auto
  ultimately show ?thesis by (simp add: bufReadLine_def Let_def)
qed

lemma bufReadLine_long:
  assumes "LF \<notin> set l" "bufSize \<le> length l"
  obtains k where "bufReadLine (l @ t) e = (\<lparr>frBytes = take k l, frMore = True, frErr = None\<rparr>, drop k l @ t)"
    "0 < k" "k \<le> length l" "k \<le> bufSize" "dropCR l = take k l @ dropCR (drop k l)"
proof -
  let ?w = "take bufSize l"
  have w: "take bufSize (l @ t) = ?w" using assms(2) by simp
  have lf: "LF \<notin> set ?w" using assms(1) by (auto dest: in_set_takeD)
  have len: "length ?w = bufSize" using assms(2) by simp
  show ?thesis
  proof (cases "last ?w = CR")
    case True
    have b: "butlast ?w = take (bufSize - 1) l" using assms(2) by (simp add: butlast_take)
    have "drop (bufSize - 1) l \<noteq> []" using assms(2) by (simp add: bufSize_def)
    then have "dropCR l = take (bufSize - 1) l @ dropCR (drop (bufSize - 1) l)"
      using dropCR_simps [of "take (bufSize - 1) l" "drop (bufSize - 1) l"] by simp
    moreover have "bufReadLine (l @ t) e =
        (\<lparr>frBytes = take (bufSize - 1) l, frMore = True, frErr = None\<rparr>, drop (bufSize - 1) l @ t)"
      using True lf assms(2) b unfolding bufReadLine_def Let_def w by simp
    ultimately show ?thesis using that [of "bufSize - 1"] assms(2) by (simp add: bufSize_def)
  next
    case False
    have "dropCR l = ?w @ dropCR (drop bufSize l)"
    proof (cases "drop bufSize l = []")
      case True
      then have "l = ?w" by simp
      with False have "last l \<noteq> CR" by metis
      with True show ?thesis by (simp add: dropCR_def)
    next
      case nz: False
      then show ?thesis using dropCR_simps [of ?w "drop bufSize l"] by simp
    qed
    moreover have "bufReadLine (l @ t) e = (\<lparr>frBytes = ?w, frMore = True, frErr = None\<rparr>, drop bufSize l @ t)"
      using False lf assms(2) unfolding bufReadLine_def Let_def w by simp
    ultimately show ?thesis using that [of bufSize] assms(2) by (simp add: bufSize_def)
  qed
qed

lemma readLine_line:
  "LF \<notin> set l \<Longrightarrow> int (length acc + length l) \<le> m \<Longrightarrow>
     readLine m e acc (l @ LF # t) = ((acc @ dropCR l, None), t)"
proof (induction "length l" arbitrary: l acc rule: less_induct)
  case less
  show ?case
  proof (cases "length l < bufSize")
    case True
    with less.prems show ?thesis by (simp add: readLine.simps [of m e acc] bufReadLine_short)
  next
    case False
    then obtain k where k: "bufReadLine (l @ LF # t) e = (\<lparr>frBytes = take k l, frMore = True, frErr = None\<rparr>, drop k l @ LF # t)"
      "0 < k" "k \<le> length l" "dropCR l = take k l @ dropCR (drop k l)"
      using bufReadLine_long [OF less.prems(1)] by (metis not_less)
    have "readLine m e (acc @ take k l) (drop k l @ LF # t) = (((acc @ take k l) @ dropCR (drop k l), None), t)"
      using less.prems k(2,3) by (intro less.hyps) (auto dest: in_set_dropD)
    then show ?thesis using k less.prems(2) by (simp add: readLine.simps [of m e acc])
  qed
qed

text \<open>A line that is too long is noticed after one buffer more at the latest.\<close>

lemma bufReadLine_bound:
  "bufReadLine s e = (f, r) \<Longrightarrow> length (frBytes f) \<le> bufSize \<and> length (frBytes f) \<le> length s - length r"
proof -
  assume b: "bufReadLine s e = (f, r)"
  let ?l = "takeWhile (\<lambda>c. c \<noteq> LF) s"
  have d: "length (dropCR ?l) \<le> length ?l" by (simp add: dropCR_def)
  have t: "LF \<in> set (take bufSize s) \<Longrightarrow> length ?l < length s \<and> length ?l \<le> bufSize"
  proof -
    assume lf: "LF \<in> set (take bufSize s)"
    have s: "s = take bufSize s @ drop bufSize s" by simp
    have "?l = takeWhile (\<lambda>c. c \<noteq> LF) (take bufSize s)"
      by (subst s, subst takeWhile_append1 [OF lf]) auto
    moreover have "length (takeWhile (\<lambda>c. c \<noteq> LF) (take bufSize s)) \<le> bufSize"
      using length_takeWhile_le [of _ "take bufSize s"] le_trans by fastforce
    moreover have "?l \<noteq> s" using lf by (auto simp: takeWhile_eq_all_conv dest: in_set_takeD)
    then have "length ?l < length s"
      using length_takeWhile_le [of "\<lambda>c. c \<noteq> LF" s] takeWhile_eq_take [of "\<lambda>c. c \<noteq> LF" s] by (metis le_neq_implies_less take_all_iff)
    ultimately show ?thesis by simp
  qed
  show ?thesis using b d t by (auto simp: bufReadLine_def Let_def bufSize_def split: if_splits)
qed

lemma readLine_bound:
  "readLine m e acc s = ((line, err), r) \<Longrightarrow> int (length acc) \<le> max m 0 \<Longrightarrow>
     int (length line) \<le> max m 0 + int bufSize"
proof (induction m e acc s arbitrary: line err r rule: readLine.induct)
  case (1 m e acc s)
  obtain f rest where b: "bufReadLine s e = (f, rest)" by (cases "bufReadLine s e")
  note f = bufReadLine_bound [OF b]
  show ?case
  proof (cases "frErr f = None \<and> frMore f \<and> \<not> int (length (acc @ frBytes f)) > m")
    case True
    then have rec: "readLine m e (acc @ frBytes f) rest = ((line, err), r)"
      using 1(2) b by (simp add: readLine.simps [of m e acc s])
    have "int (length (acc @ frBytes f)) \<le> max m 0" using True by simp
    from 1(1) [OF b [symmetric] refl _ _ _ rec this] True show ?thesis by simp
  next
    case False
    with 1(2,3) b f show ?thesis
      by (auto simp: readLine.simps [of m e acc s] Let_def split: option.splits if_splits)
  qed
qed


section \<open>Frames\<close>

text \<open>One line that is not blank, and the blank line that ends a frame.\<close>

lemma nextLoop_line:
  assumes "sdInput d = l @ LF # t" "LF \<notin> set l" "l \<noteq> []" "last l \<noteq> CR" "sdFirst d \<Longrightarrow> trimBOM l = l"
    "0 \<le> used" "used + int (length l) + 1 \<le> sdMaxBytes d" "parseSSELine l frame data = (frame1, data1)"
  shows "nextLoop frame data used d =
    nextLoop frame1 data1 (used + int (length l) + 1) (d\<lparr>sdInput := t, sdFirst := False\<rparr>)"
proof -
  have cr: "dropCR l = l" using assms(4) by (simp add: dropCR_def)
  have "readLine (sdMaxBytes d) (sdEnd d) [] (sdInput d) = ((l, None), t)"
    using readLine_line [OF assms(2), of "[]" "sdMaxBytes d"] assms(1,6,7) cr by simp
  then show ?thesis
    using assms(3,5,7,8) by (subst nextLoop.simps) (cases "data = []"; simp add: isEOF_def Let_def)
qed

lemma nextLoop_blank:
  assumes "sdInput d = LF # t" "data \<noteq> []" "0 \<le> sdMaxBytes d"
  shows "nextLoop frame data used d = (Inr (finishFrame frame data), d\<lparr>sdInput := t, sdFirst := False\<rparr>)"
proof -
  have "readLine (sdMaxBytes d) (sdEnd d) [] (sdInput d) = (([], None), t)"
    using readLine_line [of "[]" "[]" "sdMaxBytes d"] assms(1,3) by (simp add: dropCR_def)
  then show ?thesis using assms(2)
    by (subst nextLoop.simps) (simp add: isEOF_def Let_def trimBOM_def hasPrefix_def byteOrderMark_def)
qed

lemma parse_event_line: "parseSSELine (''event: '' @ v) frame data = (frame\<lparr>sfEvent := v\<rparr>, data)"
  by (simp add: parseSSELine_def cutColon_def hasPrefix_def)

lemma parse_data_line: "parseSSELine (''data: '' @ v) frame data = (frame, data @ [v])"
  by (simp add: parseSSELine_def cutColon_def hasPrefix_def)

section \<open>The goroutine that reads the frames\<close>

text \<open>One round of the loop: what it read of the frame, and what it does next.\<close>

definition lineRead :: "int \<Rightarrow> SSEFrame \<times> string list \<times> int \<Rightarrow> SSEFrame \<times> string list \<times> int \<Rightarrow> bool" where
  "lineRead m s s1 \<longleftrightarrow> s1 = s \<or> (case (s, s1) of ((frame, data, used), (frame1, data1, used1)) \<Rightarrow>
     \<exists>line. line \<noteq> [] \<and> parseSSELine line frame data = (frame1, data1) \<and> used1 = used + int (length line) + 1 \<and> used1 \<le> m)"

text \<open>How the stream can end: an event over the limit, the end of the input, or the error the reader met.\<close>

definition endError :: "go_error \<Rightarrow> go_error \<Rightarrow> bool" where
  "endError e err \<longleftrightarrow> err = ErrSSEEventTooLarge \<or> err = (if errorsIs e IoEOF then IoEOF else e)"

lemma bufReadLine_error: "bufReadLine s e = (f, r) \<Longrightarrow> frErr f = Some err \<Longrightarrow> err = e"
  by (auto simp: bufReadLine_def Let_def split: if_splits)

lemma readLine_error: "readLine m e acc s = ((line, Some err), r) \<Longrightarrow> err = ErrSSEEventTooLarge \<or> err = e"
proof (induction m e acc s arbitrary: line err r rule: readLine.induct)
  case (1 m e acc s)
  obtain f rest where b: "bufReadLine s e = (f, rest)" by (cases "bufReadLine s e")
  show ?case
  proof (cases "frErr f = None \<and> frMore f \<and> \<not> int (length (acc @ frBytes f)) > m")
    case True
    then have "readLine m e (acc @ frBytes f) rest = ((line, Some err), r)"
      using 1(2) b by (simp add: readLine.simps [of m e acc s])
    from 1(1) [OF b [symmetric] refl _ _ _ this] True show ?thesis by simp
  next
    case False
    with 1(2) b bufReadLine_error [OF b] show ?thesis
      by (auto simp: readLine.simps [of m e acc s] Let_def split: option.splits if_splits)
  qed
qed

lemma nextLoop_cases:
  obtains (error) err d' where "nextLoop frame data used d = (Inl err, d')" "endError (sdEnd d) err"
  | (dispatched) frame1 data1 used1 rest where "nextLoop frame data used d = (Inr (finishFrame frame1 data1), d\<lparr>sdInput := rest, sdFirst := False\<rparr>)"
      "lineRead (sdMaxBytes d) (frame, data, used) (frame1, data1, used1)" "data1 \<noteq> []"
      "length rest < length (sdInput d) \<or> data1 = data \<and> rest = []"
  | (again) rest where "nextLoop frame data used d = nextLoop zeroSSEFrame [] 0 (d\<lparr>sdInput := rest, sdFirst := False\<rparr>)"
      "length rest < length (sdInput d)"
  | (more) frame1 data1 used1 rest where "nextLoop frame data used d = nextLoop frame1 data1 used1 (d\<lparr>sdInput := rest, sdFirst := False\<rparr>)"
      "lineRead (sdMaxBytes d) (frame, data, used) (frame1, data1, used1)" "length rest < length (sdInput d)"
proof -
  obtain raw err rest where r: "readLine (sdMaxBytes d) (sdEnd d) [] (sdInput d) = ((raw, err), rest)"
    by (metis surj_pair)
  define line where "line = (if sdFirst d then trimBOM raw else raw)"
  obtain frame1 data1 where p: "(if line \<noteq> [] then parseSSELine line frame data else (frame, data)) = (frame1, data1)"
    by (metis surj_pair)
  define used1 where "used1 = (if line \<noteq> [] then used + int (length line) + 1 else used)"
  define d1 where "d1 = d\<lparr>sdInput := rest, sdFirst := False\<rparr>"
  note eq = nextLoop.simps [of frame data used d, unfolded r Let_def prod.case, folded line_def, unfolded p prod.case, folded used1_def d1_def]
  have progress: "err = None \<Longrightarrow> length rest < length (sdInput d)"
    using readLine_progress [of raw rest "sdMaxBytes d" "sdEnd d" "[]" "sdInput d"] r by simp
  have short: "length rest < length (sdInput d) \<or> data1 = data \<and> rest = []"
  proof (cases "sdInput d = []")
    case True
    with r have "raw = []" "rest = []" by (simp_all add: readLine_empty)
    moreover have "line = []" using \<open>raw = []\<close> by (simp add: line_def trimBOM_def hasPrefix_def byteOrderMark_def)
    ultimately show ?thesis using p by simp
  next
    case False
    with readLine_rest [OF r] show ?thesis by simp
  qed
  have read: "lineRead (sdMaxBytes d) (frame, data, used) (frame1, data1, used1)" if "\<not> (line \<noteq> [] \<and> used1 > sdMaxBytes d)"
    using that p by (auto simp: lineRead_def used1_def split: if_splits)
  have ended: "\<And>x. err = Some x \<Longrightarrow> x = ErrSSEEventTooLarge \<or> x = sdEnd d"
    using readLine_error r by blast
  consider (bad) "line \<noteq> [] \<and> used1 > sdMaxBytes d \<or> err \<noteq> None \<and> \<not> isEOF err"
    | (out) "\<not> (line \<noteq> [] \<and> used1 > sdMaxBytes d)" "\<not> (err \<noteq> None \<and> \<not> isEOF err)" "(line = [] \<or> isEOF err) \<and> data1 \<noteq> []"
    | (eof) "\<not> (line \<noteq> [] \<and> used1 > sdMaxBytes d)" "\<not> (err \<noteq> None \<and> \<not> isEOF err)" "\<not> ((line = [] \<or> isEOF err) \<and> data1 \<noteq> [])" "isEOF err"
    | (blank) "\<not> (line \<noteq> [] \<and> used1 > sdMaxBytes d)" "\<not> (err \<noteq> None \<and> \<not> isEOF err)" "\<not> ((line = [] \<or> isEOF err) \<and> data1 \<noteq> [])" "\<not> isEOF err" "line = []"
    | (go) "\<not> (line \<noteq> [] \<and> used1 > sdMaxBytes d)" "\<not> (err \<noteq> None \<and> \<not> isEOF err)" "\<not> ((line = [] \<or> isEOF err) \<and> data1 \<noteq> [])" "\<not> isEOF err" "line \<noteq> []"
    by blast
  then show thesis
  proof cases
    case bad
    then have "\<exists>x. nextLoop frame data used d = (Inl x, d1) \<and> endError (sdEnd d) x"
      unfolding eq using ended by (auto simp: endError_def isEOF_def split: option.splits)
    then show thesis by (elim exE conjE, intro error)
  next
    case out
    then have "nextLoop frame data used d = (Inr (finishFrame frame1 data1), d1)" unfolding eq by auto
    with out short read show thesis by (intro dispatched [of frame1 data1 rest used1]) (simp_all add: d1_def)
  next
    case eof
    then have "nextLoop frame data used d = (Inl IoEOF, d1)" unfolding eq by auto
    moreover have "endError (sdEnd d) IoEOF" using eof(4) ended by (auto simp: endError_def isEOF_def split: option.splits)
    ultimately show thesis by (intro error)
  next
    case blank
    then have "nextLoop frame data used d = nextLoop zeroSSEFrame [] 0 d1" unfolding eq by auto
    with blank progress show thesis by (intro again [of rest]) (auto simp: d1_def isEOF_def)
  next
    case go
    then have "nextLoop frame data used d = nextLoop frame1 data1 used1 d1" unfolding eq by auto
    with go progress read show thesis by (intro more [of frame1 data1 used1 rest]) (auto simp: d1_def)
  qed
qed

lemma nextLoop_shorter:
  "nextLoop frame data used d = (Inr f, d') \<Longrightarrow>
     length (sdInput d') \<le> length (sdInput d) \<and> (data = [] \<longrightarrow> length (sdInput d') < length (sdInput d))
       \<and> sdEnd d' = sdEnd d"
proof (induction "length (sdInput d)" arbitrary: frame data used d rule: less_induct)
  case less
  show ?case
  proof (cases rule: nextLoop_cases [of frame data used d])
    case (again rest)
    with less.hyps [of "d\<lparr>sdInput := rest, sdFirst := False\<rparr>" zeroSSEFrame "[]" 0] less.prems show ?thesis by simp
  next
    case (more frame1 data1 used1 rest)
    with less.hyps [of "d\<lparr>sdInput := rest, sdFirst := False\<rparr>" frame1 data1 used1] less.prems show ?thesis by simp
  qed (use less.prems in auto)
qed

lemma nextLoop_error: "nextLoop frame data used d = (Inl err, d') \<Longrightarrow> endError (sdEnd d) err"
proof (induction "length (sdInput d)" arbitrary: frame data used d rule: less_induct)
  case less
  show ?case
  proof (cases rule: nextLoop_cases [of frame data used d])
    case (again rest)
    with less.hyps [of "d\<lparr>sdInput := rest, sdFirst := False\<rparr>" zeroSSEFrame "[]" 0] less.prems show ?thesis by simp
  next
    case (more frame1 data1 used1 rest)
    with less.hyps [of "d\<lparr>sdInput := rest, sdFirst := False\<rparr>" frame1 data1 used1] less.prems show ?thesis by simp
  qed (use less.prems in auto)
qed

lemma sseNext_shorter: "(Inr f, d') = sseNext d \<Longrightarrow> length (sdInput d') < length (sdInput d)"
  using nextLoop_shorter [of zeroSSEFrame "[]" 0 d f d'] by (simp add: sseNext_def)

text \<open>The size of what a frame holds, counted against the limit.\<close>

definition heldBytes :: "SSEFrame \<Rightarrow> string list \<Rightarrow> nat" where
  "heldBytes frame data = length (sfEvent frame) + length (sfID frame) + (\<Sum>v\<leftarrow>data. length v + 1)"

lemma cutColon_length: "cutColon line = (k, value, found) \<Longrightarrow>
    length k + length value + (if found then 1 else 0) = length line"
proof -
  assume c: "cutColon line = (k, value, found)"
  have len: "length line = length (takeWhile (\<lambda>c. c \<noteq> CHR '':'') line) + length (dropWhile (\<lambda>c. c \<noteq> CHR '':'') line)"
    unfolding length_append [symmetric] by simp
  show ?thesis using c unfolding len cutColon_def Let_def
    by (cases "dropWhile (\<lambda>c. c \<noteq> CHR '':'') line") auto
qed

lemma parse_held:
  assumes "parseSSELine line frame data = (frame1, data1)"
  shows "heldBytes frame1 data1 \<le> heldBytes frame data + length line"
proof -
  obtain k val found where c: "cutColon line = (k, val, found)" by (metis surj_pair)
  define v where "v = (if \<not> found then [] else if hasPrefix val '' '' then tl val else val)"
  have v: "length v + (if k = ''data'' then 1 else 0) \<le> length line"
    using cutColon_length [OF c] by (auto simp: v_def split: if_splits)
  show ?thesis
  proof (cases "line = [] \<or> hd line = CHR '':''")
    case False
    then show ?thesis using assms v unfolding parseSSELine_def c Let_def prod.case v_def [symmetric]
      by (auto simp: heldBytes_def split: if_splits)
  qed (use assms in \<open>auto simp: parseSSELine_def\<close>)
qed

definition heldOk :: "int \<Rightarrow> SSEFrame \<times> string list \<times> int \<Rightarrow> bool" where
  "heldOk m s \<longleftrightarrow> (case s of (frame, data, used) \<Rightarrow> int (heldBytes frame data) \<le> used \<and> (data \<noteq> [] \<longrightarrow> used \<le> m))"

lemma heldOk_zero [simp]: "heldOk m (zeroSSEFrame, [], 0)"
  by (simp add: heldOk_def heldBytes_def zeroSSEFrame_def)

lemma heldOk_read: "lineRead m s s1 \<Longrightarrow> heldOk m s \<Longrightarrow> heldOk m s1"
  by (cases s; cases s1) (fastforce simp: lineRead_def heldOk_def dest: parse_held)

lemma joinWith_length: "vs \<noteq> [] \<Longrightarrow> length (joinWith [c] vs) + 1 = (\<Sum>v\<leftarrow>vs. length v + 1)"
  by (induction "[c]" vs rule: joinWith.induct) auto

definition frameFits :: "int \<Rightarrow> SSEFrame \<Rightarrow> bool" where
  "frameFits m f \<longleftrightarrow> int (length (sfData f) + length (sfID f) + (if sfEvent f = ''message'' then 0 else length (sfEvent f))) < m"

lemma nextLoop_fits:
  "nextLoop frame data used d = (Inr f, d') \<Longrightarrow> heldOk (sdMaxBytes d) (frame, data, used) \<Longrightarrow>
     frameFits (sdMaxBytes d) f \<and> sdMaxBytes d' = sdMaxBytes d"
proof (induction "length (sdInput d)" arbitrary: frame data used d rule: less_induct)
  case less
  show ?case
  proof (cases rule: nextLoop_cases [of frame data used d])
    case (error err d1)
    with less.prems(1) show ?thesis by simp
  next
    case (dispatched frame1 data1 used1 rest)
    from heldOk_read [OF dispatched(2) less.prems(2)] joinWith_length [OF dispatched(3), of LF] dispatched(1,3) less.prems(1)
    show ?thesis by (auto simp: heldOk_def heldBytes_def frameFits_def finishFrame_def)
  next
    case (again rest)
    with less.hyps [of "d\<lparr>sdInput := rest, sdFirst := False\<rparr>" zeroSSEFrame "[]" 0] less.prems show ?thesis by simp
  next
    case (more frame1 data1 used1 rest)
    with less.hyps [of "d\<lparr>sdInput := rest, sdFirst := False\<rparr>" frame1 data1 used1] less.prems
      heldOk_read [OF more(2) less.prems(2)]
    show ?thesis by simp
  qed
qed

type_synonym frameResult = "SSEFrame result"

function framesFrom :: "SSEDecoder \<Rightarrow> frameResult list" where
  "framesFrom d = (case sseNext d of (Inl err, d1) \<Rightarrow> [Inl err] | (Inr frame, d1) \<Rightarrow> Inr frame # framesFrom d1)"
  by pat_completeness auto
termination
  by (relation "measure (\<lambda>d. length (sdInput d))") (auto dest: sseNext_shorter)

declare framesFrom.simps [simp del]

definition decodeResponseFrames :: "string \<Rightarrow> go_error \<Rightarrow> int \<Rightarrow> frameResult list" where
  "decodeResponseFrames body e maxEventBytes = framesFrom (NewSSEDecoder body e maxEventBytes)"

section \<open>Writing and reading back\<close>

definition sseText :: "string \<Rightarrow> string \<Rightarrow> string" where
  "sseText name body = ''event: '' @ name @ [LF] @ ''data: '' @ body @ [LF, LF]"

text \<open>
  What the writer of a stream of events promises: a name that is a part of one line, a body that is a
  part of one line and not empty.
\<close>

definition oneLine :: "string \<Rightarrow> bool" where
  "oneLine w \<longleftrightarrow> w \<noteq> [] \<and> LF \<notin> set w \<and> CR \<notin> set w"

locale sse_payload =
  fixes ok :: "'e \<Rightarrow> bool" and name :: "'e \<Rightarrow> string" and body :: "'e \<Rightarrow> string"
  assumes name_line: "ok e \<Longrightarrow> oneLine (name e)"
    and body_line: "ok e \<Longrightarrow> oneLine (body e)"
begin

definition bytes :: "'e list \<Rightarrow> string" where
  "bytes es = concat (map (\<lambda>e. sseText (name e) (body e)) es)"

definition frameOf :: "'e \<Rightarrow> SSEFrame" where
  "frameOf e = \<lparr>sfEvent = name e, sfData = body e, sfID = []\<rparr>"

definition fits :: "int \<Rightarrow> 'e \<Rightarrow> bool" where
  "fits m e \<longleftrightarrow> int (length (name e) + length (body e)) + 15 \<le> m"

lemma next_frame:
  assumes "ok e" "fits (sdMaxBytes d) e" "sdInput d = sseText (name e) (body e) @ t"
  shows "sseNext d = (Inr (frameOf e), d\<lparr>sdInput := t, sdFirst := False\<rparr>)"
proof -
  let ?n = "''event: '' @ name e" and ?b = "''data: '' @ body e"
  let ?d = "d\<lparr>sdInput := ?b @ LF # LF # t, sdFirst := False\<rparr>"
  note n = name_line [OF assms(1)] and b = body_line [OF assms(1)]
  have last: "oneLine w \<Longrightarrow> last w \<noteq> CR" for w by (auto simp: oneLine_def dest: last_in_set)
  have "nextLoop zeroSSEFrame [] 0 d =
      nextLoop (zeroSSEFrame\<lparr>sfEvent := name e\<rparr>) [] (0 + int (length ?n) + 1) ?d"
    using assms(2,3) n last [OF n]
    by (intro nextLoop_line parse_event_line)
      (auto simp: fits_def sseText_def oneLine_def trimBOM_def hasPrefix_def byteOrderMark_def)
  also have "\<dots> = nextLoop (zeroSSEFrame\<lparr>sfEvent := name e\<rparr>) ([] @ [body e])
      (0 + int (length ?n) + 1 + int (length ?b) + 1) (?d\<lparr>sdInput := LF # t, sdFirst := False\<rparr>)"
    using assms(2) b last [OF b] by (intro nextLoop_line parse_data_line) (auto simp: fits_def oneLine_def)
  also have "\<dots> = (Inr (frameOf e), d\<lparr>sdInput := t, sdFirst := False\<rparr>)"
    using assms(2) n by (subst nextLoop_blank) (auto simp: fits_def finishFrame_def frameOf_def zeroSSEFrame_def oneLine_def)
  finally show ?thesis by (simp add: sseNext_def)
qed

lemma frames_roundtrip:
  "list_all ok es \<Longrightarrow> list_all (fits (sdMaxBytes d)) es \<Longrightarrow> sdInput d = bytes es @ t \<Longrightarrow>
     framesFrom d = map (\<lambda>e. Inr (frameOf e)) es @ framesFrom (if es = [] then d else d\<lparr>sdInput := t, sdFirst := False\<rparr>)"
proof (induction es arbitrary: d)
  case Nil
  then show ?case by (simp add: bytes_def)
next
  case (Cons e es)
  let ?d = "d\<lparr>sdInput := bytes es @ t, sdFirst := False\<rparr>"
  have "sseNext d = (Inr (frameOf e), ?d)"
    using Cons.prems by (intro next_frame) (auto simp: bytes_def)
  then have "framesFrom d = Inr (frameOf e) # framesFrom ?d" by (simp add: framesFrom.simps [of d])
  with Cons.IH [of ?d] Cons.prems show ?case by (cases "es = []") (auto simp: bytes_def)
qed

end


lemma framesFrom_ends:
  "\<exists>fs err. framesFrom d = map Inr fs @ [Inl err] \<and> length fs \<le> length (sdInput d) \<and> endError (sdEnd d) err"
proof (induction d rule: framesFrom.induct)
  case (1 d)
  obtain r d1 where n: "sseNext d = (r, d1)" by (cases "sseNext d")
  show ?case
  proof (cases r)
    case (Inl err)
    then have "framesFrom d = map Inr [] @ [Inl err]" using n by (simp add: framesFrom.simps [of d])
    moreover have "endError (sdEnd d) err" using nextLoop_error n Inl by (simp add: sseNext_def)
    ultimately show ?thesis by (intro exI [of _ "[]"]) auto
  next
    case (Inr f)
    from 1 [OF n [symmetric] Inr] obtain fs err where
      "framesFrom d1 = map Inr fs @ [Inl err]" "length fs \<le> length (sdInput d1)" "endError (sdEnd d1) err" by (elim exE conjE)
    moreover have "length (sdInput d1) < length (sdInput d)" "sdEnd d1 = sdEnd d"
      using nextLoop_shorter [of zeroSSEFrame "[]" 0 d f d1] n Inr by (simp_all add: sseNext_def)
    ultimately show ?thesis using n Inr
      by (intro exI [of _ "f # fs"] exI [of _ err]) (simp add: framesFrom.simps [of d])
  qed
qed

lemma framesFrom_fit: "Inr f \<in> set (framesFrom d) \<Longrightarrow> frameFits (sdMaxBytes d) f"
proof (induction d rule: framesFrom.induct)
  case (1 d)
  obtain r d1 where n: "sseNext d = (r, d1)" by (cases "sseNext d")
  show ?case
  proof (cases r)
    case (Inl err)
    with 1 n show ?thesis by (simp add: framesFrom.simps [of d])
  next
    case (Inr g)
    note fits = nextLoop_fits [of zeroSSEFrame "[]" 0 d g d1]
    from 1(2) have "f = g \<or> Inr f \<in> set (framesFrom d1)" using n Inr by (simp add: framesFrom.simps [of d])
    with 1(1) [OF n [symmetric] Inr] fits n Inr show ?thesis by (auto simp: sseNext_def)
  qed
qed

section \<open>The Anthropic events\<close>

definition EncodeAnthropicSSE :: "AnthropicStreamEvent \<Rightarrow> string result" where
  "EncodeAnthropicSSE event =
     (if seType event = [] \<or> CR \<in> set (seType event) \<or> LF \<in> set (seType event)
      then Inl (ErrNew ''encode Anthropic SSE event: invalid type'')
      else (case marshal (outStreamEvent event) of
          None \<Rightarrow> Inl (ErrWrap ''encode Anthropic SSE event: '' ErrJson)
        | Some data \<Rightarrow> Inr (''event: '' @ seType event @ [LF] @ ''data: '' @ data @ [LF, LF])))"

definition encodable :: "AnthropicStreamEvent \<Rightarrow> bool" where
  "encodable event \<longleftrightarrow> oneLine (seType event) \<and> rawsValid (outStreamEvent event)"

lemma enc_OObj_ne: "enc (OObj ms) \<noteq> []"
  by (simp add: enc_object_def)

lemma printable_lines: "printable w \<Longrightarrow> LF \<notin> set w \<and> CR \<notin> set w"
  by (auto simp: printable_def list_all_iff)

lemma outStreamEvent_ne: "enc (outStreamEvent e) \<noteq> []"
  unfolding outStreamEvent_def by (rule enc_OObj_ne)

interpretation anthropic_sse: sse_payload encodable seType "\<lambda>e. enc (outStreamEvent e)"
proof
  fix e assume e: "encodable e"
  then show "oneLine (seType e)" by (simp add: encodable_def)
  from e have "printable (enc (outStreamEvent e))" by (intro printable_enc) (simp add: encodable_def)
  from printable_lines [OF this] outStreamEvent_ne show "oneLine (enc (outStreamEvent e))" by (simp add: oneLine_def)
qed

lemma encode_iff: "EncodeAnthropicSSE e = Inr w \<longleftrightarrow> encodable e \<and> w = sseText (seType e) (enc (outStreamEvent e))"
  by (auto simp: EncodeAnthropicSSE_def encodable_def oneLine_def marshal_def sseText_def)

definition eventFrame :: "AnthropicStreamEvent \<Rightarrow> SSEFrame" where
  "eventFrame e = \<lparr>sfEvent = seType e, sfData = enc (outStreamEvent e), sfID = []\<rparr>"

lemma framesFrom_empty: "sdInput d = [] \<Longrightarrow> isEOF (Some (sdEnd d)) \<Longrightarrow> framesFrom d = [Inl IoEOF]"
proof -
  assume d: "sdInput d = []" "isEOF (Some (sdEnd d))"
  have "\<exists>d1. sseNext d = (Inl IoEOF, d1)" unfolding sseNext_def
    using d by (subst nextLoop.simps) (simp add: readLine_empty trimBOM_def hasPrefix_def byteOrderMark_def)
  then obtain d1 where "sseNext d = (Inl IoEOF, d1)" ..
  then show ?thesis by (simp add: framesFrom.simps [of d])
qed

context sse_payload
begin

lemma decode_all:
  assumes "list_all ok es" "list_all (fits m) es"
  shows "decodeResponseFrames (bytes es) IoEOF m = map (\<lambda>e. Inr (frameOf e)) es @ [Inl IoEOF]"
proof -
  let ?d = "NewSSEDecoder (bytes es) IoEOF m"
  have f: "list_all (fits (sdMaxBytes ?d)) es"
    using assms(2) by (auto simp: list_all_iff fits_def NewSSEDecoder_def)
  have "framesFrom ?d = map (\<lambda>e. Inr (frameOf e)) es @ framesFrom (if es = [] then ?d else ?d\<lparr>sdInput := [], sdFirst := False\<rparr>)"
    using frames_roundtrip [OF assms(1) f, of "[]"] by (simp add: NewSSEDecoder_def)
  moreover have "framesFrom (if es = [] then ?d else ?d\<lparr>sdInput := [], sdFirst := False\<rparr>) = [Inl IoEOF]"
    by (intro framesFrom_empty) (auto simp: NewSSEDecoder_def isEOF_def bytes_def)
  ultimately show ?thesis by (simp add: decodeResponseFrames_def)
qed

end

text \<open>An event for the concrete instances below.\<close>

definition stopEvent :: AnthropicStreamEvent where
  "stopEvent = zeroAnthropicStreamEvent\<lparr>seType := ''message_stop''\<rparr>"

lemma stopEvent_type [simp]: "seType stopEvent = ''message_stop''"
  by (simp add: stopEvent_def)

lemma stopEvent_text: "EncodeAnthropicSSE stopEvent = Inr (sseText ''message_stop'' (enc (outStreamEvent stopEvent)))"
  by (simp add: encode_iff encodable_def oneLine_def stopEvent_def zeros outStreamEvent_def omitPtr_def)

lemma stopEvent_enc: "enc (outStreamEvent stopEvent) = enc_object [(''type'', enc_string ''message_stop'')]"
  by (simp add: stopEvent_def zeros outStreamEvent_def omitPtr_def)

lemma stopEvent_length: "length (enc (outStreamEvent stopEvent)) = 23"
  unfolding stopEvent_enc by code_simp

lemma decode_bytes:
  assumes "list_all encodable es" "list_all (anthropic_sse.fits m) es"
  shows "decodeResponseFrames (anthropic_sse.bytes es) IoEOF m = map (\<lambda>e. Inr (eventFrame e)) es @ [Inl IoEOF]"
  using anthropic_sse.decode_all [OF assms] by (simp add: anthropic_sse.frameOf_def eventFrame_def)

text \<open>
  C9: An SSE round trip. What \<^verbatim>\<open>EncodeAnthropicSSE\<close> writes for a sequence of events, read back by the decoder,
  is one frame per event, in order, with the event's type and its JSON text, then the end of the input;
  nothing is split, merged, lost or altered, whatever the events contain and however the lines fall into
  the reader's buffer.
\<close>

theorem sse_roundtrip:
  assumes "list_all2 (\<lambda>e w. EncodeAnthropicSSE e = Inr w \<and> int (length w) \<le> m) es ws"
  shows "decodeResponseFrames (concat ws) IoEOF m = map (\<lambda>e. Inr (eventFrame e)) es @ [Inl IoEOF]"
proof -
  have "list_all encodable es" using assms by (induction rule: list_all2_induct) (auto simp: encode_iff)
  moreover have "concat ws = anthropic_sse.bytes es"
    using assms by (induction rule: list_all2_induct) (auto simp: encode_iff anthropic_sse.bytes_def)
  moreover have "list_all (anthropic_sse.fits m) es"
    using assms by (induction rule: list_all2_induct) (auto simp: encode_iff anthropic_sse.fits_def sseText_def)
  ultimately show ?thesis using decode_bytes by simp
qed

theorem sse_roundtrip_witness:
  "decodeResponseFrames (concat (replicate 2 (sseText ''message_stop'' (enc (outStreamEvent stopEvent))))) IoEOF 100
    = [Inr (eventFrame stopEvent), Inr (eventFrame stopEvent), Inl IoEOF]"
  using sse_roundtrip [of 100 "[stopEvent, stopEvent]" "replicate 2 (sseText ''message_stop'' (enc (outStreamEvent stopEvent)))"]
  by (simp add: stopEvent_text stopEvent_length sseText_def numeral_2_eq_2)

text \<open>
  C10: The size limit. No frame the decoder hands out holds as much as \<^verbatim>\<open>maxBytes\<close> bytes (of data, event name
  and id together; a name that defaults to \<^verbatim>\<open>message\<close> is not counted), whatever the upstream sends.
\<close>

theorem sse_frame_bounded:
  assumes "Inr f \<in> set (decodeResponseFrames body e m)"
  shows "int (length (sfData f) + length (sfID f) + (if sfEvent f = ''message'' then 0 else length (sfEvent f)))
    < (if m \<le> 0 then 16777216 else m)"
  using framesFrom_fit [of f] assms
  by (fastforce simp: decodeResponseFrames_def frameFits_def NewSSEDecoder_def DefaultMaxSSEEventBytes_def)

theorem sse_frame_bounded_witness:
  "int (length (sfData (eventFrame stopEvent)) + length (sfID (eventFrame stopEvent)) + length (sfEvent (eventFrame stopEvent))) < 51"
proof -
  let ?t = "sseText ''message_stop'' (enc (outStreamEvent stopEvent))"
  let ?d = "NewSSEDecoder ?t IoEOF 51"
  have "sseNext ?d = (Inr (anthropic_sse.frameOf stopEvent), ?d\<lparr>sdInput := [], sdFirst := False\<rparr>)"
    using stopEvent_text
    by (intro anthropic_sse.next_frame)
      (auto simp: encode_iff anthropic_sse.fits_def NewSSEDecoder_def stopEvent_length stopEvent_type)
  then have "Inr (eventFrame stopEvent) \<in> set (decodeResponseFrames ?t IoEOF 51)"
    by (simp add: decodeResponseFrames_def framesFrom.simps [of ?d] anthropic_sse.frameOf_def eventFrame_def stopEvent_type)
  from sse_frame_bounded [OF this] show ?thesis by (simp add: eventFrame_def stopEvent_type)
qed

text \<open>
  C11: The reading loop ends. Whatever the bytes and however the connection ends, the goroutine delivers
  finitely many frames, at most one per byte, and then exactly one error, after which it stops: the end of
  the input when the connection closed, the read error when it broke, or the size limit.
\<close>

theorem sse_decoding_ends:
  "\<exists>fs err. decodeResponseFrames body e m = map Inr fs @ [Inl err] \<and> length fs \<le> length body
     \<and> (err = ErrSSEEventTooLarge \<or> err = (if errorsIs e IoEOF then IoEOF else e))"
  using framesFrom_ends [of "NewSSEDecoder body e m"]
  by (simp add: decodeResponseFrames_def NewSSEDecoder_def endError_def)


end
