(* ===== verification/Http.thy ===== *)
theory Http
  imports Go_Prelude Json_Text
begin

text \<open>
  What the adapter uses of \<^verbatim>\<open>net/http\<close>: header collections and their case-insensitive access.
\<close>

type_synonym headers = "(string \<times> string) list"

definition lowerByte :: "char \<Rightarrow> char" where
  "lowerByte c = (if in_byte 0x41 0x5A c then char_of (byte_val c + 32) else c)"

abbreviation lowerASCII :: "string \<Rightarrow> string" where
  "lowerASCII s \<equiv> map lowerByte s"

definition headerGet :: "string \<Rightarrow> headers \<Rightarrow> string" where
  "headerGet name hs = (case find (\<lambda>h. lowerASCII (fst h) = lowerASCII name) hs of None \<Rightarrow> [] | Some h \<Rightarrow> snd h)"

definition headerDel :: "string \<Rightarrow> headers \<Rightarrow> headers" where
  "headerDel name hs = filter (\<lambda>h. lowerASCII (fst h) \<noteq> lowerASCII name) hs"

definition headerSet :: "string \<Rightarrow> string \<Rightarrow> headers \<Rightarrow> headers" where
  "headerSet name v hs = headerDel name hs @ [(name, v)]"

lemma find_append: "find p (xs @ ys) = (case find p xs of None \<Rightarrow> find p ys | Some x \<Rightarrow> Some x)"
  by (induction xs) auto

lemma find_filter_other: "(\<And>x. p x \<Longrightarrow> q x) \<Longrightarrow> find p (filter q xs) = find p xs"
  by (induction xs) auto

lemma headerGet_set: "headerGet name (headerSet name' v hs) =
    (if lowerASCII name = lowerASCII name' then v else headerGet name hs)"
proof (cases "lowerASCII name = lowerASCII name'")
  case True
  then have "find (\<lambda>h. lowerASCII (fst h) = lowerASCII name) (headerDel name' hs) = None"
    by (auto simp: headerDel_def find_None_iff)
  with True show ?thesis by (simp add: headerGet_def headerSet_def find_append)
next
  case False
  then show ?thesis
    by (simp add: headerGet_def headerSet_def headerDel_def find_append find_filter_other split: option.split)
qed

lemma headerGet_del: "headerGet name (headerDel name' hs) =
    (if lowerASCII name = lowerASCII name' then [] else headerGet name hs)"
proof (cases "lowerASCII name = lowerASCII name'")
  case True
  then have "find (\<lambda>h. lowerASCII (fst h) = lowerASCII name) (headerDel name' hs) = None"
    by (auto simp: headerDel_def find_None_iff)
  with True show ?thesis by (simp add: headerGet_def)
next
  case False
  then show ?thesis by (simp add: headerGet_def headerDel_def find_filter_other)
qed

lemma headerSet_set: "(n, v) \<in> set (headerSet name w hs) \<Longrightarrow> (n, v) \<in> set hs \<or> (n = name \<and> v = w)"
  by (auto simp: headerSet_def headerDel_def)

lemma headerDel_set: "(n, v) \<in> set (headerDel name hs) \<Longrightarrow> (n, v) \<in> set hs"
  by (simp add: headerDel_def)

end
