(* ===== verification/Json_Any.thy ===== *)
theory Json_Any
  imports Json_Marshal "HOL-Library.AList"
begin

text \<open>
  JSON decoded into \<^verbatim>\<open>any\<close> with \<^verbatim>\<open>UseNumber\<close>, as the Codex package handles it: objects are Go maps, here
  association lists without duplicate keys, numbers keep their text. \<^verbatim>\<open>json.Marshal\<close> of such a value writes the
  members in the order of their keys.
\<close>

datatype anyval =
    ANull
  | ABool bool
  | ANum string
  | AStr string
  | AArr "anyval list"
  | AObj "(string \<times> anyval) list"

type_synonym gomap = "(string \<times> anyval) list"

section \<open>Maps\<close>

abbreviation get :: "string \<Rightarrow> gomap \<Rightarrow> anyval option" where
  "get k m \<equiv> map_of m k"

definition put :: "string \<Rightarrow> anyval \<Rightarrow> gomap \<Rightarrow> gomap" where
  "put k v m = AList.update k v m"

definition del :: "string \<Rightarrow> gomap \<Rightarrow> gomap" where
  "del k m = AList.delete k m"

lemma get_put [simp]: "get k (put k' v m) = (if k = k' then Some v else get k m)"
  by (simp add: put_def update_conv')

lemma get_del [simp]: "get k (del k' m) = (if k = k' then None else get k m)"
  by (simp add: del_def delete_conv')

definition keyed :: "gomap \<Rightarrow> bool" where
  "keyed m \<longleftrightarrow> distinct (map fst m)"

lemma keyed_simps [simp]: "keyed []" "keyed m \<Longrightarrow> keyed (put k v m)" "keyed m \<Longrightarrow> keyed (del k m)"
  by (simp_all add: keyed_def put_def del_def distinct_update distinct_delete)

section \<open>Decoding\<close>

definition fromPairs :: "(string \<times> anyval) list \<Rightarrow> gomap" where
  "fromPairs kvs = fold (\<lambda>kv m. put (fst kv) (snd kv) m) kvs []"

lemma keyed_fromPairs [simp]: "keyed (fromPairs kvs)"
proof -
  have "keyed m \<Longrightarrow> keyed (fold (\<lambda>kv m. put (fst kv) (snd kv) m) kvs m)" for m
    by (induction kvs arbitrary: m) auto
  then show ?thesis by (simp add: fromPairs_def)
qed

fun toAny :: "json \<Rightarrow> anyval" where
  "toAny JNull = ANull"
| "toAny (JBool b) = ABool b"
| "toAny (JNum l) = ANum l"
| "toAny (JStr s) = AStr s"
| "toAny (JArr es) = AArr (map (\<lambda>e. toAny (snd e)) es)"
| "toAny (JObj ms) = AObj (fromPairs (map (\<lambda>m. (fst m, toAny (snd (snd m)))) ms))"

text \<open>\<^verbatim>\<open>Decoder.Decode\<close> of the first value of a text: the value and what follows it.\<close>

definition decodeAny :: "string \<Rightarrow> (anyval \<times> string) option" where
  "decodeAny s = map_option (\<lambda>(j, r). (toAny j, r)) (parse_prefix (skip_ws s))"

section \<open>Encoding\<close>

fun outAny :: "anyval \<Rightarrow> jout" where
  "outAny ANull = ONull"
| "outAny (ABool b) = OBool b"
| "outAny (ANum l) = ORaw l"
| "outAny (AStr s) = OStr s"
| "outAny (AArr es) = OArr (map outAny es)"
| "outAny (AObj ms) = OObj (sort_key fst (map (\<lambda>m. (fst m, outAny (snd m))) ms))"

definition marshalAny :: "anyval \<Rightarrow> string" where
  "marshalAny v = enc (outAny v)"

text \<open>Every value the decoder gives has valid numbers, so that marshalling it cannot fail.\<close>

fun numsValid :: "anyval \<Rightarrow> bool" where
  "numsValid (ANum l) \<longleftrightarrow> json_parse l \<noteq> None"
| "numsValid (AArr es) \<longleftrightarrow> list_all numsValid es"
| "numsValid (AObj ms) \<longleftrightarrow> list_all (\<lambda>m. numsValid (snd m)) ms"
| "numsValid v \<longleftrightarrow> True"

lemma rawsValid_outAny: "numsValid v \<Longrightarrow> rawsValid (outAny v)"
  by (induction v) (auto simp: list_all_iff numsValid.simps(3))


definition okMap :: "gomap \<Rightarrow> bool" where
  "okMap m \<longleftrightarrow> list_all (\<lambda>kv. numsValid (snd kv)) m"

lemma okMap_simps [simp]: "okMap []" "okMap ((k, v) # m) \<longleftrightarrow> numsValid v \<and> okMap m"
  "numsValid (AObj m) \<longleftrightarrow> okMap m"
  by (simp_all add: okMap_def)

declare numsValid.simps(3) [simp del]

lemma okMap_put [intro]: "okMap m \<Longrightarrow> numsValid v \<Longrightarrow> okMap (put k v m)"
  by (induction m) (auto simp: put_def)

lemma okMap_del [intro]: "okMap m \<Longrightarrow> okMap (del k m)"
  by (auto simp: okMap_def del_def list_all_iff AList.delete_eq)

lemma okMap_get: "okMap m \<Longrightarrow> get k m = Some v \<Longrightarrow> numsValid v"
  by (fastforce simp: okMap_def list_all_iff dest: map_of_SomeD)

lemma okMap_fold_put: "okMap kvs \<Longrightarrow> okMap m \<Longrightarrow> okMap (fold (\<lambda>kv m. put (fst kv) (snd kv) m) kvs m)"
proof (induction kvs arbitrary: m)
  case (Cons kv kvs)
  then have "okMap (put (fst kv) (snd kv) m)" "okMap kvs" by (cases kv; auto)+
  from Cons.IH [OF this(2,1)] show ?case by simp
qed simp

lemma okMap_fromPairs: "okMap kvs \<Longrightarrow> okMap (fromPairs kvs)"
  using okMap_fold_put [of kvs "[]"] by (simp add: fromPairs_def)

fun jsonNums :: "json \<Rightarrow> bool" where
  "jsonNums (JNum l) \<longleftrightarrow> json_parse l \<noteq> None"
| "jsonNums (JArr es) \<longleftrightarrow> list_all (\<lambda>e. jsonNums (snd e)) es"
| "jsonNums (JObj ms) \<longleftrightarrow> list_all (\<lambda>m. jsonNums (snd (snd m))) ms"
| "jsonNums v \<longleftrightarrow> True"

lemma numsValid_toAny: "jsonNums j \<Longrightarrow> numsValid (toAny j)"
proof (induction j)
  case (JArr es)
  then show ?case by (fastforce simp: list_all_iff snds.simps)
next
  case (JObj ms)
  then have "okMap (map (\<lambda>m. (fst m, toAny (snd (snd m)))) ms)"
    by (fastforce simp: okMap_def list_all_iff snds.simps)
  from okMap_fromPairs [OF this] show ?case by simp
qed auto

lemma scan_num_valid: "scan_num s = Some (l, r) \<Longrightarrow> json_parse l \<noteq> None"
  using reads_parse [OF reads_number order_refl] by auto

lemma parse_nums:
  "(\<forall>d s v r. parse_value n d s = Some (v, r) \<longrightarrow> jsonNums v) \<and>
   (\<forall>d s es r. parse_elems n d s = Some (es, r) \<longrightarrow> list_all (\<lambda>e. jsonNums (snd e)) es) \<and>
   (\<forall>d s ms r. parse_members n d s = Some (ms, r) \<longrightarrow> list_all (\<lambda>m. jsonNums (snd (snd m))) ms)"
proof (induction n)
  case 0
  show ?case by (simp add: parse_value.simps parse_elems.simps parse_members.simps)
next
  case (Suc n)
  then have V: "\<And>d s v r. parse_value n d s = Some (v, r) \<Longrightarrow> jsonNums v"
    and E: "\<And>d s es r. parse_elems n d s = Some (es, r) \<Longrightarrow> list_all (\<lambda>e. jsonNums (snd e)) es"
    and M: "\<And>d s ms r. parse_members n d s = Some (ms, r) \<Longrightarrow> list_all (\<lambda>m. jsonNums (snd (snd m))) ms"
    by blast+
  have "jsonNums v" if "parse_value (Suc n) d s = Some (v, r)" for d s v r
    using that by (auto simp: parse_value.simps split: list.splits if_splits option.splits
        dest: scan_num_valid E M)
  moreover have "list_all (\<lambda>e. jsonNums (snd e)) es" if "parse_elems (Suc n) d s = Some (es, r)" for d s es r
    using that by (auto simp: parse_elems.simps split: list.splits if_splits option.splits dest!: V E)
  moreover have "list_all (\<lambda>m. jsonNums (snd (snd m))) ms" if "parse_members (Suc n) d s = Some (ms, r)" for d s ms r
    using that by (auto simp: parse_members.simps split: list.splits if_splits option.splits dest!: V M)
  ultimately show ?case by blast
qed

lemma decodeAny_valid: "decodeAny s = Some (v, r) \<Longrightarrow> numsValid v"
  by (auto simp: decodeAny_def parse_prefix_def intro!: numsValid_toAny parse_nums [THEN conjunct1, rule_format])

end
