(* ===== verification/Sha256.thy ===== *)
theory Sha256
  imports Json_Encode "HOL-Library.Word"
begin

unbundle bit_operations_syntax

text \<open>
  \<^verbatim>\<open>crypto/sha256.Sum256\<close> and the lower-case hexadecimal text of \<^verbatim>\<open>encoding/hex\<close>, which the session and call
  identifiers are made of.
\<close>

type_synonym w32 = "32 word"

text \<open>The first 32 bits of the fractional parts of the cube and square roots of the first primes.\<close>

definition sha_k :: "w32 list" where
  "sha_k =
    [1116352408, 1899447441, 3049323471, 3921009573, 961987163, 1508970993, 2453635748, 2870763221,
     3624381080, 310598401, 607225278, 1426881987, 1925078388, 2162078206, 2614888103, 3248222580,
     3835390401, 4022224774, 264347078, 604807628, 770255983, 1249150122, 1555081692, 1996064986,
     2554220882, 2821834349, 2952996808, 3210313671, 3336571891, 3584528711, 113926993, 338241895,
     666307205, 773529912, 1294757372, 1396182291, 1695183700, 1986661051, 2177026350, 2456956037,
     2730485921, 2820302411, 3259730800, 3345764771, 3516065817, 3600352804, 4094571909, 275423344,
     430227734, 506948616, 659060556, 883997877, 958139571, 1322822218, 1537002063, 1747873779,
     1955562222, 2024104815, 2227730452, 2361852424, 2428436474, 2756734187, 3204031479, 3329325298]"

definition sha_init :: "w32 list" where
  "sha_init = [1779033703, 3144134277, 1013904242, 2773480762, 1359893119, 2600822924, 528734635, 1541459225]"

definition rotr :: "nat \<Rightarrow> w32 \<Rightarrow> w32" where
  "rotr n x = drop_bit n x OR push_bit (32 - n) x"

text \<open>The message schedule: each further word from the sixteen before it, newest first.\<close>

definition sigma0 :: "w32 \<Rightarrow> w32" where
  "sigma0 x = rotr 7 x XOR rotr 18 x XOR drop_bit 3 x"

definition sigma1 :: "w32 \<Rightarrow> w32" where
  "sigma1 x = rotr 17 x XOR rotr 19 x XOR drop_bit 10 x"

fun expand :: "nat \<Rightarrow> w32 list \<Rightarrow> w32 list" where
  "expand 0 ws = ws"
| "expand (Suc n) ws = expand n ((sigma1 (ws ! 1) + ws ! 6 + sigma0 (ws ! 14) + ws ! 15) # ws)"

definition shaRound :: "w32 \<times> w32 \<Rightarrow> w32 list \<Rightarrow> w32 list" where
  "shaRound kw st = (case st of
     [a, b, c, d, e, f, g, h] \<Rightarrow>
       let s1 = rotr 6 e XOR rotr 11 e XOR rotr 25 e;
           ch = (e AND f) XOR (NOT e AND g);
           t1 = h + s1 + ch + fst kw + snd kw;
           s0 = rotr 2 a XOR rotr 13 a XOR rotr 22 a;
           maj = (a AND b) XOR (a AND c) XOR (b AND c);
           t2 = s0 + maj
       in [t1 + t2, a, b, c, d + t1, e, f, g]
   | _ \<Rightarrow> st)"

definition be_word :: "string \<Rightarrow> w32" where
  "be_word bs = word_of_nat (foldl (\<lambda>n c. 256 * n + byte_val c) 0 bs)"

fun chunks :: "nat \<Rightarrow> nat \<Rightarrow> 'a list \<Rightarrow> 'a list list" where
  "chunks 0 k xs = []"
| "chunks (Suc n) k xs = take k xs # chunks n k (drop k xs)"

definition shaBlock :: "w32 list \<Rightarrow> string \<Rightarrow> w32 list" where
  "shaBlock st block =
     (let schedule = rev (expand 48 (rev (map be_word (chunks 16 4 block))))
      in map2 (+) st (fold shaRound (zip sha_k schedule) st))"

fun be_bytes :: "nat \<Rightarrow> nat \<Rightarrow> string" where
  "be_bytes 0 n = []"
| "be_bytes (Suc k) n = be_bytes k (n div 256) @ [char_of (n mod 256)]"

definition shaPad :: "string \<Rightarrow> string" where
  "shaPad s = s @ CHR 0x80 # replicate ((119 - length s mod 64) mod 64) (CHR 0x00) @ be_bytes 8 (8 * length s)"

definition sha256 :: "string \<Rightarrow> string" where
  "sha256 s = concat (map (\<lambda>w. be_bytes 4 (unat w))
     (fold (\<lambda>block st. shaBlock st block) (chunks (length (shaPad s) div 64) 64 (shaPad s)) sha_init))"

definition hexString :: "string \<Rightarrow> string" where
  "hexString bs = concat (map (\<lambda>c. [hex_digit (byte_val c div 16), hex_digit (byte_val c mod 16)]) bs)"

section \<open>Sizes\<close>

lemma length_be_bytes [simp]: "length (be_bytes k n) = k"
  by (induction k n rule: be_bytes.induct) simp_all

lemma length_shaRound: "length st = 8 \<Longrightarrow> length (shaRound kw st) = 8"
  by (auto simp: shaRound_def Let_def length_Suc_conv numeral_eq_Suc split: list.splits)

lemma length_fold_shaRound: "length st = 8 \<Longrightarrow> length (fold shaRound kws st) = 8"
  by (induction kws arbitrary: st) (auto simp: length_shaRound)

lemma length_shaBlock: "length st = 8 \<Longrightarrow> length (shaBlock st block) = 8"
  by (simp add: shaBlock_def Let_def length_fold_shaRound)

lemma length_fold_shaBlock: "length st = 8 \<Longrightarrow> length (fold (\<lambda>b st. shaBlock st b) bs st) = 8"
  by (induction bs arbitrary: st) (auto simp: length_shaBlock)

lemma length_sha256 [simp]: "length (sha256 s) = 32"
proof -
  have "length (fold (\<lambda>b st. shaBlock st b) bs sha_init) = 8" for bs
    by (rule length_fold_shaBlock) (simp add: sha_init_def)
  then show ?thesis by (simp add: sha256_def length_concat comp_def sum_list_triv)
qed

lemma length_hexString [simp]: "length (hexString bs) = 2 * length bs"
  by (induction bs) (simp_all add: hexString_def)

lemma hex_digit_set: "n < 16 \<Longrightarrow> hex_digit n \<in> set ''0123456789abcdef''"
proof -
  have "list_all (\<lambda>n. hex_digit n \<in> set ''0123456789abcdef'') [0..<16]" by code_simp
  then show "n < 16 \<Longrightarrow> ?thesis" by (simp add: list_all_iff)
qed

lemma hexString_set: "set (hexString bs) \<subseteq> set ''0123456789abcdef''"
proof
  fix x assume "x \<in> set (hexString bs)"
  then obtain c where "x = hex_digit (byte_val c div 16) \<or> x = hex_digit (byte_val c mod 16)"
    by (auto simp: hexString_def)
  moreover have "byte_val c div 16 < 16" using nat_of_char_less_256 [of c] by linarith
  ultimately show "x \<in> set ''0123456789abcdef''"
    using hex_digit_set [of "byte_val c div 16"] hex_digit_set [of "byte_val c mod 16"] by auto
qed


end
