(* ===== verification/Codex_Session.thy ===== *)
theory Codex_Session
  imports Http Json_Any Sha256 Request_Translator
begin

text \<open>
  The session identity of \<^verbatim>\<open>internal/upstream/codex/session.go\<close>: the seed, by priority the client's header,
  the user id of the metadata, a stable part of the request; the key, a digest of the seed; the UUID sent
  upstream.
\<close>

section \<open>Digests\<close>

record Session =
  snKey :: string
  snID :: string
  snSource :: string

text \<open>\<^verbatim>\<open>fmt.Sprintf("%x-%x-%x-%x-%x", \<dots>)\<close> of the digest with the version and variant bits set.\<close>

definition deterministicUUID :: "string \<Rightarrow> string" where
  "deterministicUUID seed =
     (let d0 = sha256 seed;
          d1 = d0[6 := char_of (byte_val (d0 ! 6) mod 16 + 0x40)];
          d = d1[8 := char_of (byte_val (d1 ! 8) mod 64 + 0x80)]
      in hexString (take 4 d) @ ''-'' @ hexString (take 2 (drop 4 d)) @ ''-'' @ hexString (take 2 (drop 6 d))
         @ ''-'' @ hexString (take 2 (drop 8 d)) @ ''-'' @ hexString (take 6 (drop 10 d)))"

definition newSession :: "string \<Rightarrow> string \<Rightarrow> Session" where
  "newSession source seed =
     (let key = hexString (sha256 (''cc-gpt-adapter:claude-session:v1:'' @ seed))
      in \<lparr>snKey = key, snID = deterministicUUID key, snSource = source\<rparr>)"

section \<open>The seed in the metadata\<close>

text \<open>
  The pattern \<^verbatim>\<open>(?i)_session_([a-f0-9-]+)$\<close>: the text ends in a run of hexadecimal digits and dashes, and
  what precedes the whole run ends in \<^verbatim>\<open>_session_\<close>, up to case (the long s folds to s). The run cannot start
  inside itself: the underscore front it is not of the run.
\<close>

definition hexDash :: "char \<Rightarrow> bool" where
  "hexDash c \<longleftrightarrow> c = CHR ''-'' \<or> in_byte 48 57 c \<or> in_byte 97 102 c \<or> in_byte 65 70 c"

fun endsFolded :: "string \<Rightarrow> string \<Rightarrow> bool" where
  "endsFolded [] s \<longleftrightarrow> True"
| "endsFolded (p # ps) [] \<longleftrightarrow> False"
| "endsFolded (p # ps) (c # s) \<longleftrightarrow>
     (if lowerByte c = p then endsFolded ps s
      else p = CHR ''s'' \<and> c = CHR 0xBF \<and> hasPrefix s [CHR 0xC5] \<and> endsFolded ps (tl s))"

definition claudeSessionSuffix :: "string \<Rightarrow> string option" where
  "claudeSessionSuffix s =
     (let run = rev (takeWhile hexDash (rev s)); front = dropWhile hexDash (rev s)
      in if run \<noteq> [] \<and> endsFolded (rev ''_session_'') front then Some run else None)"

definition stringField :: "string \<Rightarrow> string \<Rightarrow> string option" where
  "stringField name s = unmarshal [] (decStruct [field name decString (\<lambda>x. x) (\<lambda>f. f)]) s"

definition metadataSessionID :: "AnthropicRequest \<Rightarrow> string" where
  "metadataSessionID request =
     (if isBlank (arMetadata request) then []
      else (case stringField ''user_id'' (arMetadata request) of
          None \<Rightarrow> []
        | Some userID0 \<Rightarrow>
            let userID = trimSpace userID0 in
            (case claudeSessionSuffix userID of
               Some match \<Rightarrow> match
             | None \<Rightarrow>
                 if hasPrefix userID ''{'' then
                   (case stringField ''session_id'' userID of Some sessionID \<Rightarrow> trimSpace sessionID | None \<Rightarrow> [])
                 else [])))"

section \<open>The seed in the request\<close>

definition canonicalJSON :: "string \<Rightarrow> string" where
  "canonicalJSON raw =
     (if isBlank raw then []
      else (case decodeAny raw of
          None \<Rightarrow> trimSpace raw
        | Some (v, rest) \<Rightarrow> (case marshal (outAny v) of None \<Rightarrow> trimSpace raw | Some encoded \<Rightarrow> encoded)))"

definition outAnthropicTool :: "AnthropicTool \<Rightarrow> jout" where
  "outAnthropicTool t = OObj (omitStr ''type'' (atType t) @ [(''name'', OStr (atName t))]
     @ omitStr ''description'' (atDescription t) @ omitRaw ''input_schema'' (atInputSchema t)
     @ omitPtr ''cache_control'' outCacheControl (atCacheControl t))"

definition outTools :: "AnthropicRequest \<Rightarrow> jout" where
  "outTools request = (if arToolsNil request then ONull else OArr (map outAnthropicTool (arTools request)))"

definition canonicalValue :: "jout \<Rightarrow> string" where
  "canonicalValue value = (case marshal value of None \<Rightarrow> [] | Some encoded \<Rightarrow> canonicalJSON encoded)"

definition firstUser :: "AnthropicRequest \<Rightarrow> string" where
  "firstUser request =
     (case find (\<lambda>m. amRole m = ''user'') (arMessages request) of None \<Rightarrow> [] | Some m \<Rightarrow> amContent m)"

definition stableRequestSeed :: "AnthropicRequest \<Rightarrow> string" where
  "stableRequestSeed request =
     joinWith [CHR 0x00] [canonicalJSON (arSystem request), canonicalValue (outTools request),
       canonicalJSON (firstUser request)]"

definition ResolveSession :: "headers \<Rightarrow> AnthropicRequest \<Rightarrow> Session" where
  "ResolveSession headers request =
     (let seed = trimSpace (headerGet ''X-Claude-Code-Session-Id'' headers) in
      if seed \<noteq> [] then newSession ''header'' seed
      else
        let seed = metadataSessionID request in
        if seed \<noteq> [] then newSession ''metadata'' seed
        else newSession ''request'' (''request-prefix:'' @ stableRequestSeed request))"

end
