(* ===== verification/Codex_Transform.thy ===== *)
theory Codex_Transform
  imports Json_Any Sha256
begin

text \<open>
  The request normalisation of \<^verbatim>\<open>internal/upstream/codex/transform.go\<close>: the body as a Go map, the fields the
  endpoint forces, the ones it does not support, tools, tool choice and input items.
\<close>

section \<open>Constants\<close>

definition Model :: string where
  "Model = ''gpt-5.6-sol''"

definition defaultInstructions :: string where
  "defaultInstructions = ''You are a helpful coding assistant.''"

definition callIDMaxLength :: nat where
  "callIDMaxLength = 64"

definition callIDPrefix :: string where
  "callIDPrefix = ''fc_''"

definition reasoningInclude :: string where
  "reasoningInclude = ''reasoning.encrypted_content''"

definition unsupportedFields :: "string list" where
  "unsupportedFields =
     [''user'', ''metadata'', ''prompt_cache_key'', ''prompt_cache_retention'', ''safety_identifier'',
      ''stream_options'', ''max_output_tokens'', ''max_completion_tokens'', ''temperature'', ''top_p'',
      ''frequency_penalty'', ''presence_penalty'']"

section \<open>Reading values\<close>

definition stringValue :: "anyval option \<Rightarrow> string" where
  "stringValue v = (case v of Some (AStr s) \<Rightarrow> trimSpace s | _ \<Rightarrow> [])"

text \<open>The type assertion to \<^verbatim>\<open>map[string]anyval\<close>.\<close>

definition asMap :: "anyval option \<Rightarrow> gomap option" where
  "asMap v = (case v of Some (AObj m) \<Rightarrow> Some m | _ \<Rightarrow> None)"

definition asList :: "anyval option \<Rightarrow> anyval list option" where
  "asList v = (case v of Some (AArr es) \<Rightarrow> Some es | _ \<Rightarrow> None)"

lemma as_simps [simp]:
  "asMap (Some (AObj m)) = Some m" "asList (Some (AArr es)) = Some es" "asMap None = None" "asList None = None"
  "asMap (Some (AArr es)) = None" "asMap (Some (AStr s)) = None" "asList (Some (AStr s)) = None"
  "stringValue (Some (AStr s)) = trimSpace s" "stringValue None = []"
  by (simp_all add: asMap_def asList_def stringValue_def)

lemma asMap_Some: "asMap v = Some m \<longleftrightarrow> v = Some (AObj m)"
  by (auto simp: asMap_def split: option.splits anyval.splits)

lemma asList_Some: "asList v = Some es \<longleftrightarrow> v = Some (AArr es)"
  by (auto simp: asList_def split: option.splits anyval.splits)

section \<open>Instructions and reasoning\<close>

definition normalizeInstructions :: "gomap \<Rightarrow> gomap" where
  "normalizeInstructions request =
     (case get ''instructions'' request of
        Some (AStr instructions) \<Rightarrow>
          if isBlank instructions then put ''instructions'' (AStr defaultInstructions) request else request
      | _ \<Rightarrow> put ''instructions'' (AStr defaultInstructions) request)"

definition ensureReasoningInclude :: "gomap \<Rightarrow> gomap" where
  "ensureReasoningInclude request =
     (case asMap (get ''reasoning'' request) of
        None \<Rightarrow> request
      | Some reasoning \<Rightarrow>
          if reasoning = [] then request
          else (case asList (get ''include'' request) of
              None \<Rightarrow> put ''include'' (AArr [AStr reasoningInclude]) request
            | Some include \<Rightarrow>
                if AStr reasoningInclude \<in> set include then request
                else put ''include'' (AArr (include @ [AStr reasoningInclude])) request))"

section \<open>Tools\<close>

definition functionTool :: "anyval \<Rightarrow> anyval" where
  "functionTool function = AObj [(''type'', AStr ''function''), (''function'', function)]"

definition namedChoice :: "string \<Rightarrow> anyval" where
  "namedChoice name = AObj [(''type'', AStr ''function''), (''name'', AStr name)]"

definition legacyFunctions :: "gomap \<Rightarrow> gomap" where
  "legacyFunctions request =
     (case get ''functions'' request of
        None \<Rightarrow> request
      | Some rawFunctions \<Rightarrow>
          del ''functions''
            (case rawFunctions of
               AArr functions \<Rightarrow> put ''tools'' (AArr (map functionTool functions)) request
             | _ \<Rightarrow> request))"

definition legacyChoice :: "gomap \<Rightarrow> gomap" where
  "legacyChoice request =
     (case get ''function_call'' request of
        None \<Rightarrow> request
      | Some rawChoice \<Rightarrow>
          del ''function_call''
            (case rawChoice of
               AStr choice \<Rightarrow> put ''tool_choice'' (AStr choice) request
             | AObj choice \<Rightarrow>
                 (let name = stringValue (get ''name'' choice)
                  in if name \<noteq> [] then put ''tool_choice'' (namedChoice name) request else request)
             | _ \<Rightarrow> request))"

definition normalizeLegacyFunctions :: "gomap \<Rightarrow> gomap" where
  "normalizeLegacyFunctions request = legacyChoice (legacyFunctions request)"

text \<open>The fields of a nested \<^verbatim>\<open>function\<close> object that move to the tool, where the tool does not have them.\<close>

fun liftFields :: "string list \<Rightarrow> gomap \<Rightarrow> gomap \<Rightarrow> gomap" where
  "liftFields [] function tool = tool"
| "liftFields (f # fs) function tool =
     liftFields fs function
       (if get f tool = None then
          (case get f function of None \<Rightarrow> tool | Some v \<Rightarrow> put f v tool)
        else tool)"

text \<open>One tool: kept, changed, or dropped.\<close>

definition normalizeTool :: "anyval \<Rightarrow> anyval option" where
  "normalizeTool rawTool =
     (case rawTool of
        AObj tool \<Rightarrow>
          if stringValue (get ''type'' tool) \<noteq> ''function'' then Some rawTool
          else if stringValue (get ''name'' tool) = [] then
            (case asMap (get ''function'' tool) of
               None \<Rightarrow> None
             | Some function \<Rightarrow>
                 if stringValue (get ''name'' function) = [] then None
                 else Some (AObj (del ''function''
                   (liftFields [''name'', ''description'', ''parameters'', ''strict''] function tool))))
          else Some (AObj (del ''function'' tool))
      | _ \<Rightarrow> Some rawTool)"

definition normalizeTools :: "gomap \<Rightarrow> gomap" where
  "normalizeTools request =
     (case asList (get ''tools'' request) of
        None \<Rightarrow> request
      | Some tools \<Rightarrow> put ''tools'' (AArr (List.map_filter normalizeTool tools)) request)"

definition toolsContain :: "anyval option \<Rightarrow> (gomap \<Rightarrow> bool) \<Rightarrow> bool" where
  "toolsContain rawTools p =
     (case asList rawTools of
        None \<Rightarrow> False
      | Some tools \<Rightarrow> list_ex (\<lambda>rawTool. case rawTool of AObj tool \<Rightarrow> p tool | _ \<Rightarrow> False) tools)"

definition toolsContainFunction :: "anyval option \<Rightarrow> string \<Rightarrow> bool" where
  "toolsContainFunction rawTools name = toolsContain rawTools
     (\<lambda>tool. stringValue (get ''type'' tool) = ''function'' \<and> stringValue (get ''name'' tool) = name)"

definition toolsContainType :: "anyval option \<Rightarrow> string \<Rightarrow> bool" where
  "toolsContainType rawTools toolType = toolsContain rawTools
     (\<lambda>tool. stringValue (get ''type'' tool) = toolType)"

definition normalizeToolChoice :: "gomap \<Rightarrow> gomap" where
  "normalizeToolChoice request =
     (case asMap (get ''tool_choice'' request) of
        None \<Rightarrow> request
      | Some choice \<Rightarrow>
          let choiceType = stringValue (get ''type'' choice) in
          if choiceType = [] then request
          else if choiceType = ''function'' then
            let name = (if stringValue (get ''name'' choice) = [] then
                  (case asMap (get ''function'' choice) of
                     Some function \<Rightarrow> stringValue (get ''name'' function)
                   | None \<Rightarrow> [])
                else stringValue (get ''name'' choice))
            in if name = [] \<or> \<not> toolsContainFunction (get ''tools'' request) name
               then put ''tool_choice'' (AStr ''auto'') request
               else put ''tool_choice'' (namedChoice name) request
          else if \<not> toolsContainType (get ''tools'' request) choiceType
            then put ''tool_choice'' (AStr ''auto'') request
          else request)"

section \<open>Input items\<close>

definition compactCallIDIfNeeded :: "string \<Rightarrow> string" where
  "compactCallIDIfNeeded callID =
     (if length callID \<le> callIDMaxLength then callID
      else callIDPrefix @ take (callIDMaxLength - length callIDPrefix)
             (hexString (sha256 (''sub2api:codex-call-id:v1:'' @ callID))))"

definition isToolCallItem :: "string \<Rightarrow> bool" where
  "isToolCallItem itemType \<longleftrightarrow> itemType \<in> set
     [''function_call'', ''tool_call'', ''local_shell_call'', ''tool_search_call'', ''custom_tool_call'',
      ''mcp_tool_call'', ''function_call_output'', ''mcp_tool_call_output'', ''custom_tool_call_output'',
      ''tool_search_output'']"

definition requiresToolName :: "string \<Rightarrow> bool" where
  "requiresToolName itemType \<longleftrightarrow>
     itemType = ''function_call'' \<or> itemType = ''custom_tool_call'' \<or> itemType = ''mcp_tool_call''"

definition normalizeReasoningItem :: "gomap \<Rightarrow> gomap" where
  "normalizeReasoningItem item =
     (let item1 = del ''id'' item in
      if get ''summary'' item1 = None \<or> get ''summary'' item1 = Some ANull
      then put ''summary'' (AArr []) item1 else item1)"

definition normalizeCallID :: "string \<Rightarrow> gomap \<Rightarrow> gomap" where
  "normalizeCallID itemType item =
     (if isToolCallItem itemType then
        let callID = (if stringValue (get ''call_id'' item) = [] then stringValue (get ''id'' item)
              else stringValue (get ''call_id'' item))
        in if callID \<noteq> [] then put ''call_id'' (AStr (compactCallIDIfNeeded callID)) item else item
      else del ''call_id'' item)"

definition normalizeToolName :: "string \<Rightarrow> gomap \<Rightarrow> gomap" where
  "normalizeToolName itemType item =
     (if requiresToolName itemType \<and> stringValue (get ''name'' item) = [] then
        let name0 = stringValue (get ''tool_name'' item);
            name1 = (if name0 = [] then
                (case asMap (get ''function'' item) of
                   Some function \<Rightarrow> stringValue (get ''name'' function)
                 | None \<Rightarrow> name0)
              else name0)
        in put ''name'' (AStr (if name1 = [] then ''tool'' else name1)) item
      else item)"

definition normalizeItem :: "anyval \<Rightarrow> anyval" where
  "normalizeItem rawItem =
     (case rawItem of
        AObj item \<Rightarrow>
          let itemType = stringValue (get ''type'' item);
              item1 = (if itemType = ''reasoning'' then normalizeReasoningItem item else item)
          in AObj (normalizeToolName itemType (normalizeCallID itemType item1))
      | _ \<Rightarrow> rawItem)"

definition normalizeInput :: "gomap \<Rightarrow> gomap" where
  "normalizeInput request =
     (case get ''input'' request of
        Some (AStr input) \<Rightarrow>
          if isBlank input then put ''input'' (AArr []) request
          else put ''input'' (AArr [AObj [(''type'', AStr ''message''), (''role'', AStr ''user''),
            (''content'', AStr input)]]) request
      | Some (AArr input) \<Rightarrow> put ''input'' (AArr (map normalizeItem input)) request
      | Some ANull \<Rightarrow> put ''input'' (AArr []) request
      | None \<Rightarrow> put ''input'' (AArr []) request
      | _ \<Rightarrow> request)"

section \<open>The whole transform\<close>

definition forceFields :: "gomap \<Rightarrow> gomap" where
  "forceFields request =
     fold del unsupportedFields
       (put ''store'' (ABool False) (put ''stream'' (ABool True) (put ''model'' (AStr Model) request)))"

definition transformRequest :: "gomap \<Rightarrow> gomap" where
  "transformRequest request =
     normalizeInput (normalizeToolChoice (normalizeTools (normalizeLegacyFunctions
       (ensureReasoningInclude (normalizeInstructions (forceFields request))))))"

definition ensureJSONEOF :: "string \<Rightarrow> go_error option" where
  "ensureJSONEOF rest =
     (if skip_ws rest = [] then None
      else (case decodeAny rest of
          Some _ \<Rightarrow> Some (ErrNew ''transform Codex request: multiple JSON values'')
        | None \<Rightarrow> Some (ErrWrap ''transform Codex request: decode trailing JSON: '' ErrJson)))"

definition Transform :: "string \<Rightarrow> string result" where
  "Transform body =
     (if skip_ws body = [] then Inl (ErrWrap ''transform Codex request: decode JSON: '' IoEOF)
      else (case decodeAny body of
          Some (AObj request, rest) \<Rightarrow>
            (case ensureJSONEOF rest of
               Some err \<Rightarrow> Inl err
             | None \<Rightarrow>
                 (case marshal (outAny (AObj (transformRequest request))) of
                    None \<Rightarrow> Inl (ErrWrap ''transform Codex request: encode JSON: '' ErrJson)
                  | Some transformed \<Rightarrow> Inr transformed))
        | Some (ANull, rest) \<Rightarrow> Inl (ErrNew ''transform Codex request: body must be a JSON object'')
        | _ \<Rightarrow> Inl (ErrWrap ''transform Codex request: decode JSON: '' ErrJson)))"

end
