(* ===== verification/Turn_State.thy ===== *)
theory Turn_State
  imports Go_Prelude
begin

text \<open>
  The turn-state store of \<^verbatim>\<open>internal/upstream/codex/turn_state.go\<close>: an opaque continuation value per session,
  forgotten after a time to live. Times are nanoseconds; the mutex makes each operation one step, so that
  goroutines interleave whole operations. The clock is read inside the operations, so \<open>Get\<close> and \<open>Put\<close> take
  the time they read.
\<close>

section \<open>The store\<close>

definition DefaultTurnStateTTL :: int where
  "DefaultTurnStateTTL = 30 * 60 * 10 ^ 9"

record turnStateEntry =
  teValue :: string
  teExpiresAt :: int

record TurnStateStore =
  tsTTL :: int
  tsEntries :: "string \<rightharpoonup> turnStateEntry"

definition NewTurnStateStore :: "int \<Rightarrow> TurnStateStore" where
  "NewTurnStateStore ttl = \<lparr>tsTTL = (if ttl \<le> 0 then DefaultTurnStateTTL else ttl), tsEntries = Map.empty\<rparr>"

definition tsGet :: "int \<Rightarrow> string \<Rightarrow> TurnStateStore \<Rightarrow> string option \<times> TurnStateStore" where
  "tsGet now sessionKey store =
     (if isBlank sessionKey then (None, store)
      else (case tsEntries store sessionKey of
          None \<Rightarrow> (None, store)
        | Some entry \<Rightarrow>
            if \<not> now < teExpiresAt entry
            then (None, store\<lparr>tsEntries := (tsEntries store)(sessionKey := None)\<rparr>)
            else (Some (teValue entry), store)))"

definition tsPut :: "int \<Rightarrow> string \<Rightarrow> string \<Rightarrow> TurnStateStore \<Rightarrow> TurnStateStore" where
  "tsPut now sessionKey state store =
     (if isBlank sessionKey then store
      else if trimSpace state = []
        then store\<lparr>tsEntries := (tsEntries store)(sessionKey := None)\<rparr>
      else store\<lparr>tsEntries := (tsEntries store)(sessionKey \<mapsto>
             \<lparr>teValue = trimSpace state, teExpiresAt = now + tsTTL store\<rparr>)\<rparr>)"

definition tsDelete :: "string \<Rightarrow> TurnStateStore \<Rightarrow> TurnStateStore" where
  "tsDelete sessionKey store = store\<lparr>tsEntries := (tsEntries store)(sessionKey := None)\<rparr>"

section \<open>Runs\<close>

text \<open>A sequence of operations, as the goroutines' calls come in under the lock.\<close>

datatype tsOp = GetOp int string | PutOp int string string | DeleteOp string

fun tsStep :: "tsOp \<Rightarrow> TurnStateStore \<Rightarrow> TurnStateStore" where
  "tsStep (GetOp now k) store = snd (tsGet now k store)"
| "tsStep (PutOp now k state) store = tsPut now k state store"
| "tsStep (DeleteOp k) store = tsDelete k store"

abbreviation tsRun :: "tsOp list \<Rightarrow> TurnStateStore \<Rightarrow> TurnStateStore" where
  "tsRun ops store \<equiv> fold tsStep ops store"

section \<open>The specification: the last write of a session, while it is young\<close>

text \<open>The last operation that wrote to a session's entry: when, and the value, or none for a removal.\<close>

fun lastWrite :: "string \<Rightarrow> tsOp list \<Rightarrow> (int \<times> string) option" where
  "lastWrite k [] = None"
| "lastWrite k (PutOp now j state # ops) =
     (if j = k then (if trimSpace state = [] then None else Some (now, trimSpace state)) else lastWrite k ops)"
| "lastWrite k (DeleteOp j # ops) = (if j = k then None else lastWrite k ops)"
| "lastWrite k (GetOp now j # ops) = lastWrite k ops"

text \<open>The clock never goes back along the operations.\<close>

fun opTimes :: "tsOp \<Rightarrow> int list" where
  "opTimes (GetOp now k) = [now]"
| "opTimes (PutOp now k state) = [now]"
| "opTimes (DeleteOp k) = []"

definition sessionState :: "int \<Rightarrow> int \<Rightarrow> string \<Rightarrow> tsOp list \<Rightarrow> string option" where
  "sessionState ttl now k newestFirst =
     (case lastWrite k newestFirst of None \<Rightarrow> None | Some (t, v) \<Rightarrow> if now < t + ttl then Some v else None)"

text \<open>
  The store holds, for each session, its last write, unless that has been found expired by a read.
\<close>

definition keyOk :: "int \<Rightarrow> int list \<Rightarrow> (int \<times> string) option \<Rightarrow> turnStateEntry option \<Rightarrow> bool" where
  "keyOk ttl ts w entry \<longleftrightarrow>
     (case entry of
        None \<Rightarrow> (case w of None \<Rightarrow> True | Some (t, v) \<Rightarrow> list_ex (\<lambda>s. t + ttl \<le> s) ts)
      | Some e \<Rightarrow> w = Some (teExpiresAt e - ttl, teValue e))"

abbreviation timesOf :: "tsOp list \<Rightarrow> int list" where
  "timesOf ops \<equiv> concat (map opTimes ops)"

definition tsInv :: "tsOp list \<Rightarrow> TurnStateStore \<Rightarrow> bool" where
  "tsInv newestFirst store \<longleftrightarrow>
     (\<forall>k. \<not> isBlank k \<longrightarrow>
        keyOk (tsTTL store) (timesOf newestFirst) (lastWrite k newestFirst) (tsEntries store k))"

lemma keyOk_more: "keyOk ttl ts w e \<Longrightarrow> keyOk ttl (us @ ts) w e"
  by (auto simp: keyOk_def list_ex_iff split: option.splits)

lemma keyOk_expired: "keyOk ttl ts w (Some e) \<Longrightarrow> teExpiresAt e \<le> now \<Longrightarrow> keyOk ttl (now # ts) w None"
  by (simp add: keyOk_def)

lemma keyOk_removed: "keyOk ttl ts None None"
  by (simp add: keyOk_def)

lemma keyOk_written: "keyOk ttl ts (Some (now, v)) (Some \<lparr>teValue = v, teExpiresAt = now + ttl\<rparr>)"
  by (simp add: keyOk_def)

lemma tsTTL_step [simp]: "tsTTL (tsStep opr store) = tsTTL store"
  by (cases opr) (auto simp: tsGet_def tsPut_def tsDelete_def split: option.split)

lemma tsEntries_step:
  "tsEntries (tsStep opr store) k =
     (case opr of
        GetOp now j \<Rightarrow> (case tsEntries store k of None \<Rightarrow> None
          | Some e \<Rightarrow> if j = k \<and> \<not> isBlank k \<and> teExpiresAt e \<le> now then None else Some e)
      | PutOp now j state \<Rightarrow>
          if j = k \<and> \<not> isBlank k then
            (if trimSpace state = [] then None
             else Some \<lparr>teValue = trimSpace state, teExpiresAt = now + tsTTL store\<rparr>)
          else tsEntries store k
      | DeleteOp j \<Rightarrow> if j = k then None else tsEntries store k)"
  by (cases opr) (auto simp: tsGet_def tsPut_def tsDelete_def split: option.split)

declare tsStep.simps [simp del]

lemma keyOk_step:
  assumes "keyOk (tsTTL store) (timesOf ops) (lastWrite k ops) (tsEntries store k)" "\<not> isBlank k"
  shows "keyOk (tsTTL store) (timesOf (opr # ops)) (lastWrite k (opr # ops)) (tsEntries (tsStep opr store) k)"
proof (cases opr)
  case (GetOp now j)
  show ?thesis
  proof (cases "tsEntries store k")
    case None
    with assms(1) keyOk_more [of _ _ _ None "[now]"] show ?thesis by (simp add: GetOp tsEntries_step)
  next
    case (Some e)
    with assms(1) keyOk_more [of _ _ _ "Some e" "[now]"] keyOk_expired [of _ _ _ e now]
    show ?thesis by (simp add: GetOp tsEntries_step)
  qed
next
  case (PutOp now j state)
  with assms keyOk_more [of _ _ _ "tsEntries store k" "[now]"] keyOk_written keyOk_removed show ?thesis
    by (simp add: tsEntries_step)
next
  case (DeleteOp j)
  with assms keyOk_removed show ?thesis by (simp add: tsEntries_step)
qed

lemma tsInv_step: "tsInv ops store \<Longrightarrow> tsInv (opr # ops) (tsStep opr store)"
  using keyOk_step by (auto simp: tsInv_def simp del: lastWrite.simps)

lemma tsInv_run: "tsInv old store \<Longrightarrow> tsInv (rev ops @ old) (tsRun ops store)"
proof (induction ops arbitrary: old store)
  case (Cons opr ops)
  from Cons.IH [OF tsInv_step [OF Cons.prems, of opr]] show ?case by simp
qed simp

lemma tsTTL_run [simp]: "tsTTL (tsRun ops store) = tsTTL store"
  by (induction ops arbitrary: store) simp_all

lemma tsInv_new: "tsInv [] (NewTurnStateStore ttl)"
  by (simp add: tsInv_def NewTurnStateStore_def keyOk_removed)

text \<open>
  C16: The turn-state store refines \<open>last write of the session, while it is young\<close>: after any interleaving of
  reads, writes and removals of any sessions, a read gives a session exactly the value last put under its own
  key, trimmed, if that was not removed or blank and is younger than the time to live; expired entries that
  earlier reads dropped and the traffic of other sessions do not show.
\<close>

theorem turn_state_refines:
  assumes "\<forall>opr\<in>set ops. \<forall>t\<in>set (opTimes opr). t \<le> now"
  shows "fst (tsGet now k (tsRun ops (NewTurnStateStore ttl))) =
    (if isBlank k then None else sessionState (if ttl \<le> 0 then DefaultTurnStateTTL else ttl) now k (rev ops))"
proof (cases "isBlank k")
  case True
  then show ?thesis by (simp add: tsGet_def)
next
  case False
  define store where "store = tsRun ops (NewTurnStateStore ttl)"
  have ttl: "tsTTL store = (if ttl \<le> 0 then DefaultTurnStateTTL else ttl)"
    by (simp add: store_def NewTurnStateStore_def)
  have inv: "keyOk (tsTTL store) (timesOf (rev ops)) (lastWrite k (rev ops)) (tsEntries store k)"
    using tsInv_run [OF tsInv_new, of ops ttl] False by (simp add: tsInv_def store_def)
  have times: "list_all (\<lambda>t. t \<le> now) (timesOf (rev ops))" using assms by (auto simp: list_all_iff)
  have "fst (tsGet now k store) = sessionState (tsTTL store) now k (rev ops)"
  proof (cases "tsEntries store k")
    case None
    have "now < t + tsTTL store \<Longrightarrow> False" if "lastWrite k (rev ops) = Some (t, v)" for t v
      using inv None that times by (fastforce simp: keyOk_def list_ex_iff list_all_iff)
    with None False show ?thesis by (auto simp: tsGet_def sessionState_def split: option.split)
  next
    case (Some e)
    with inv False show ?thesis by (simp add: tsGet_def sessionState_def keyOk_def)
  qed
  with False ttl show ?thesis by (simp add: store_def)
qed

theorem turn_state_refines_witness:
  "fst (tsGet 5 ''a'' (tsRun [PutOp 1 ''a'' ''s'', PutOp 2 ''b'' ''t'', GetOp 3 ''b''] (NewTurnStateStore 10))) = Some ''s''"
proof -
  have t: "trimSpace ''a'' = ''a''" "trimSpace ''s'' = ''s''" by code_simp+
  show ?thesis
    using turn_state_refines [of "[PutOp 1 ''a'' ''s'', PutOp 2 ''b'' ''t'', GetOp 3 ''b'']" 5 "''a''" 10]
    by (simp add: sessionState_def isBlank_def t)
qed


section \<open>The contract the client relies on\<close>

text \<open>
  What the upstream client needs of the store: a value just put is read back while it is young, and the
  operations on one session do not touch what the others read.
\<close>

locale continuation_store =
  fixes fetch :: "int \<Rightarrow> string \<Rightarrow> 's \<Rightarrow> string option \<times> 's"
    and remember :: "int \<Rightarrow> string \<Rightarrow> string \<Rightarrow> 's \<Rightarrow> 's"
    and ttl :: "'s \<Rightarrow> int"
  assumes fetch_remember: "\<not> isBlank k \<Longrightarrow> \<not> isBlank v \<Longrightarrow> now < t + ttl s \<Longrightarrow>
      fst (fetch now k (remember t k v s)) = Some (trimSpace v)"
    and fetch_remember_other: "k \<noteq> j \<Longrightarrow> fst (fetch now k (remember t j v s)) = fst (fetch now k s)"
    and fetch_fetch_other: "k \<noteq> j \<Longrightarrow> fst (fetch now k (snd (fetch t j s))) = fst (fetch now k s)"
    and ttl_fetch: "ttl (snd (fetch t j s)) = ttl s"
begin

text \<open>One exchange of a session: the state is fetched for the request and, where there is one, remembered from the response.\<close>

definition exchange :: "int \<Rightarrow> int \<Rightarrow> string \<Rightarrow> string option \<Rightarrow> 's \<Rightarrow> 's" where
  "exchange now1 now2 k answer s =
     (case answer of None \<Rightarrow> snd (fetch now1 k s) | Some v \<Rightarrow> remember now2 k v (snd (fetch now1 k s)))"

lemma exchange_own:
  assumes "\<not> isBlank k" "\<not> isBlank v" "now < now2 + ttl s"
  shows "fst (fetch now k (exchange now1 now2 k (Some v) s)) = Some (trimSpace v)"
  using assms by (simp add: exchange_def fetch_remember ttl_fetch)

lemma exchange_other: "k \<noteq> j \<Longrightarrow> fst (fetch now k (exchange now1 now2 j answer s)) = fst (fetch now k s)"
  by (simp add: exchange_def fetch_remember_other fetch_fetch_other split: option.split)

end

interpretation turn_states: continuation_store tsGet tsPut tsTTL
proof
  fix k v :: string and now t :: int and s :: TurnStateStore
  assume "\<not> isBlank k" "\<not> isBlank v" "now < t + tsTTL s"
  then show "fst (tsGet now k (tsPut t k v s)) = Some (trimSpace v)"
    by (simp add: tsGet_def tsPut_def isBlank_def)
next
  fix k j v :: string and now t :: int and s :: TurnStateStore
  assume "k \<noteq> j"
  then show "fst (tsGet now k (tsPut t j v s)) = fst (tsGet now k s)"
    by (auto simp: tsGet_def tsPut_def split: option.split)
next
  fix k j :: string and now t :: int and s :: TurnStateStore
  assume "k \<noteq> j"
  then show "fst (tsGet now k (snd (tsGet t j s))) = fst (tsGet now k s)"
    by (auto simp: tsGet_def split: option.split)
next
  fix j :: string and t :: int and s :: TurnStateStore
  show "tsTTL (snd (tsGet t j s)) = tsTTL s"
    by (auto simp: tsGet_def split: option.split)
qed

end
