(* ===== verification/Codex_Client.thy ===== *)
theory Codex_Client
  imports Codex_Session Codex_Transform Turn_State
begin

text \<open>
  The upstream client of \<^verbatim>\<open>internal/upstream/codex/client.go\<close>. \<^verbatim>\<open>http.Client.Do\<close> is a parameter: a function
  of the request and of the world it acts on. \<^verbatim>\<open>url.Parse\<close> is a parameter of the constructor, as the parts of
  the URL the code looks at.
\<close>

section \<open>Constants and types\<close>

definition DefaultEndpoint :: string where
  "DefaultEndpoint = ''https://chatgpt.com/backend-api/codex/responses''"

definition ClientVersion :: string where
  "ClientVersion = ''0.146.0''"

definition Originator :: string where
  "Originator = ''codex-tui''"

definition UserAgent :: string where
  "UserAgent = Originator @ ''/'' @ ClientVersion @ '' (Ubuntu 22.4.0; x86_64) xterm-256color''"

definition OpenAIBeta :: string where
  "OpenAIBeta = ''responses=experimental''"

definition AccountIDHeader :: string where
  "AccountIDHeader = ''chatgpt-account-id''"

definition TurnStateHeader :: string where
  "TurnStateHeader = ''x-codex-turn-state''"

record Credentials =
  crAccessToken :: string
  crAccountID :: string

record Client =
  clEndpoint :: string
  clTurnStates :: TurnStateStore

record HttpRequest =
  hqMethod :: string
  hqURL :: string
  hqHeader :: headers
  hqBody :: string

text \<open>A response: the status, the headers, the body it still delivers and how that ends.\<close>

record HttpResponse =
  hrStatus :: int
  hrHeader :: headers
  hrBody :: string
  hrEnd :: go_error

record parsedURL =
  puScheme :: string
  puHost :: string
  puUser :: bool
  puString :: string

definition NewClient :: "(string \<Rightarrow> parsedURL option) \<Rightarrow> string \<Rightarrow> TurnStateStore option \<Rightarrow> Client result" where
  "NewClient parse endpoint turnStates =
     (case parse (trimSpace endpoint) of
        None \<Rightarrow> Inl (ErrNew ''create Codex client: endpoint must be an absolute HTTP(S) URL'')
      | Some u \<Rightarrow>
          if puScheme u = [] \<or> puHost u = [] then
            Inl (ErrNew ''create Codex client: endpoint must be an absolute HTTP(S) URL'')
          else if puScheme u \<noteq> ''http'' \<and> puScheme u \<noteq> ''https'' then
            Inl (ErrNew ''create Codex client: endpoint must use HTTP(S)'')
          else if puUser u then
            Inl (ErrNew ''create Codex client: endpoint must not contain credentials'')
          else Inr \<lparr>clEndpoint = puString u,
            clTurnStates = (case turnStates of None \<Rightarrow> NewTurnStateStore 0 | Some s \<Rightarrow> s)\<rparr>)"

section \<open>Headers\<close>

text \<open>Ranging over the runes of a string, no rune but an ASCII one is below 0x20 or equal to 0x7f.\<close>

definition invalidHeaderValue :: "string \<Rightarrow> bool" where
  "invalidHeaderValue v = list_ex (\<lambda>c. byte_val c < 0x20 \<or> byte_val c = 0x7F) v"

definition applyHeaders :: "headers \<Rightarrow> Credentials \<Rightarrow> headers result" where
  "applyHeaders headers credentials =
     (let token = trimSpace (crAccessToken credentials); accountID = trimSpace (crAccountID credentials) in
      if token = [] then Inl (ErrNew ''create Codex request: missing access token'')
      else if accountID = [] then Inl (ErrNew ''create Codex request: missing account ID'')
      else if invalidHeaderValue token \<or> invalidHeaderValue accountID then
        Inl (ErrNew ''create Codex request: credentials contain invalid header characters'')
      else Inr (headerSet ''Authorization'' (''Bearer '' @ token)
        (headerSet AccountIDHeader accountID (headerSet ''OpenAI-Beta'' OpenAIBeta
        (headerSet ''version'' ClientVersion (headerSet ''originator'' Originator
        (headerSet ''User-Agent'' UserAgent headers)))))))"

section \<open>Requests\<close>

text \<open>
  Building the request for \<^verbatim>\<open>POST\<close> fails only for an endpoint that does not parse, which \<open>NewClient\<close> has ruled
  out. Reading the turn state may drop an expired entry of the store.
\<close>

definition NewRequest :: "int \<Rightarrow> string \<Rightarrow> Credentials \<Rightarrow> Session \<Rightarrow> Client \<Rightarrow> HttpRequest result \<times> Client" where
  "NewRequest now responsesBody credentials session client =
     (if snKey session = [] \<or> snID session = []
      then (Inl (ErrNew ''create Codex request: unresolved session''), client)
      else (case Transform responsesBody of
          Inl err \<Rightarrow> (Inl err, client)
        | Inr body \<Rightarrow>
            (case applyHeaders [] credentials of
               Inl err \<Rightarrow> (Inl err, client)
             | Inr h0 \<Rightarrow>
                 let h1 = headerDel ''conversation_id'' (headerSet ''session_id'' (snID session)
                       (headerSet ''Accept'' ''text/event-stream'' (headerSet ''Content-Type'' ''application/json'' h0)));
                     (found, states) = tsGet now (snKey session) (clTurnStates client);
                     h2 = (case found of Some state \<Rightarrow> headerSet TurnStateHeader state h1 | None \<Rightarrow> h1)
                 in (Inr \<lparr>hqMethod = ''POST'', hqURL = clEndpoint client, hqHeader = h2, hqBody = body\<rparr>,
                     client\<lparr>clTurnStates := states\<rparr>))))"

text \<open>The transport acts on a world of its own; the two clock readings are the ones of \<open>Get\<close> and \<open>Put\<close>.\<close>

type_synonym 'w transport = "HttpRequest \<Rightarrow> 'w \<Rightarrow> HttpResponse result \<times> 'w"

definition Do :: "'w transport \<Rightarrow> int \<Rightarrow> int \<Rightarrow> string \<Rightarrow> Credentials \<Rightarrow> Session \<Rightarrow> Client \<times> 'w \<Rightarrow>
    HttpResponse result \<times> Client \<times> 'w" where
  "Do send now1 now2 responsesBody credentials session s =
     (case s of (client, w) \<Rightarrow>
        (case NewRequest now1 responsesBody credentials session client of
           (Inl err, client1) \<Rightarrow> (Inl err, client1, w)
         | (Inr request, client1) \<Rightarrow>
             (case send request w of
                (Inl err, w1) \<Rightarrow> (Inl (ErrWrap ''send Codex request: '' err), client1, w1)
              | (Inr response, w1) \<Rightarrow>
                  let state = headerGet TurnStateHeader (hrHeader response) in
                  (Inr response,
                   (if 200 \<le> hrStatus response \<and> hrStatus response < 300 \<and> trimSpace state \<noteq> []
                    then client1\<lparr>clTurnStates := tsPut now2 (snKey session) state (clTurnStates client1)\<rparr>
                    else client1), w1))))"

end
