(* ===== verification/Transform_Properties.thy ===== *)
theory Transform_Properties
  imports Codex_Transform
begin

text \<open>
  What the Codex transform guarantees: the forced and removed fields, the call identifiers and their
  pairing, a tool choice the tools can satisfy, and that a second transform changes nothing.
\<close>

named_theorems transform_step "what a field of the request is after one step of the transform"

section \<open>One step\<close>

lemma get_fold_del: "get k (fold del ks m) = (if k \<in> set ks then None else get k m)"
  by (induction ks arbitrary: m) auto

lemma get_forceFields [transform_step]:
  "get k (forceFields m) =
     (if k \<in> set unsupportedFields then None else if k = ''store'' then Some (ABool False)
      else if k = ''stream'' then Some (ABool True) else if k = ''model'' then Some (AStr Model) else get k m)"
  by (simp add: forceFields_def get_fold_del unsupportedFields_def)

lemma get_normalizeInstructions [transform_step]:
  "get k (normalizeInstructions m) =
     (if k = ''instructions'' \<and> stringValue (get k m) = [] then Some (AStr defaultInstructions) else get k m)"
  by (auto simp: normalizeInstructions_def stringValue_def isBlank_def split: option.splits anyval.splits)

lemma get_ensureReasoningInclude [transform_step]:
  "k \<noteq> ''include'' \<Longrightarrow> get k (ensureReasoningInclude m) = get k m"
  by (auto simp: ensureReasoningInclude_def split: option.splits)

lemma get_normalizeLegacyFunctions [transform_step]:
  "k \<noteq> ''tools'' \<Longrightarrow> k \<noteq> ''tool_choice'' \<Longrightarrow>
     get k (normalizeLegacyFunctions m) = (if k = ''functions'' \<or> k = ''function_call'' then None else get k m)"
  by (auto simp: normalizeLegacyFunctions_def legacyChoice_def legacyFunctions_def Let_def
      split: option.splits anyval.splits)

lemma get_normalizeTools [transform_step]:
  "get k (normalizeTools m) =
     (if k = ''tools'' then (case asList (get k m) of None \<Rightarrow> get k m
        | Some tools \<Rightarrow> Some (AArr (List.map_filter normalizeTool tools))) else get k m)"
  by (auto simp: normalizeTools_def split: option.splits)

lemma get_normalizeToolChoice [transform_step]:
  "k \<noteq> ''tool_choice'' \<Longrightarrow> get k (normalizeToolChoice m) = get k m"
  by (simp add: normalizeToolChoice_def Let_def split: option.splits)

lemma get_normalizeInput [transform_step]:
  "k \<noteq> ''input'' \<Longrightarrow> get k (normalizeInput m) = get k m"
  by (auto simp: normalizeInput_def split: option.splits anyval.splits)

lemma get_normalizeInput_list: "get ''input'' m = Some (AArr items) \<Longrightarrow>
    get ''input'' (normalizeInput m) = Some (AArr (map normalizeItem items))"
  by (simp add: normalizeInput_def)

lemma default_not_blank: "trimSpace defaultInstructions \<noteq> []"
  by code_simp

section \<open>Success\<close>

lemma okMap_AObj: "okMap m \<Longrightarrow> get k m = Some (AObj x) \<Longrightarrow> okMap x"
    and okMap_AArr: "okMap m \<Longrightarrow> get k m = Some (AArr xs) \<Longrightarrow> numsValid (AArr xs)"
  using okMap_get [of m k "AObj x"] okMap_get [of m k "AArr xs"] by simp_all

lemma okMap_lift: "okMap fn \<Longrightarrow> okMap tool \<Longrightarrow> okMap (liftFields fs fn tool)"
proof (induction fs fn tool rule: liftFields.induct)
  case (2 f fs fn tool)
  have "okMap (if get f tool = None then (case get f fn of None \<Rightarrow> tool | Some v \<Rightarrow> put f v tool) else tool)"
    using 2(2,3) okMap_get [of fn f] by (auto split: option.split)
  from 2(1) [OF 2(2) this] show ?case by simp
qed simp

declare liftFields.simps [simp del]

lemma normalizeTool_ok:
  assumes "numsValid t" "normalizeTool t = Some t'"
  shows "numsValid t'"
proof (cases t)
  case (AObj tool)
  with assms(1) have tool: "okMap tool" by simp
  show ?thesis
  proof (cases "asMap (get ''function'' tool)")
    case None
    then show ?thesis using assms(2) AObj okMap_del [OF tool] tool by (auto simp: normalizeTool_def split: if_splits)
  next
    case (Some fn)
    then have "okMap fn" using okMap_AObj [OF tool, of "''function''" fn] by (simp add: asMap_Some)
    from okMap_del [OF okMap_lift [OF this tool]] show ?thesis
      using assms(2) AObj Some okMap_del [OF tool] tool by (auto simp: normalizeTool_def split: if_splits)
  qed
qed (use assms in \<open>auto simp: normalizeTool_def\<close>)

lemma okMap_item: "okMap m \<Longrightarrow> okMap (normalizeReasoningItem m)" "okMap m \<Longrightarrow> okMap (normalizeCallID t m)"
    "okMap m \<Longrightarrow> okMap (normalizeToolName t m)"
  unfolding normalizeReasoningItem_def normalizeCallID_def normalizeToolName_def Let_def
  by (simp_all add: okMap_put okMap_del)

lemma normalizeItem_ok: "numsValid t \<Longrightarrow> numsValid (normalizeItem t)"
  by (cases t) (simp_all add: normalizeItem_def Let_def okMap_item)

lemma okMap_fold_del: "okMap m \<Longrightarrow> okMap (fold del ks m)"
  by (induction ks arbitrary: m) (simp_all add: okMap_del)

lemma okMap_forceFields: "okMap m \<Longrightarrow> okMap (forceFields m)"
  unfolding forceFields_def by (intro okMap_fold_del okMap_put) simp_all

lemma okMap_instructions: "okMap m \<Longrightarrow> okMap (normalizeInstructions m)"
  by (auto simp: normalizeInstructions_def split: option.split anyval.split)

lemma okMap_include: "okMap m \<Longrightarrow> okMap (ensureReasoningInclude m)"
proof (cases "asList (get ''include'' m)")
  case (Some xs)
  assume m: "okMap m"
  have "numsValid (AArr xs)" by (rule okMap_AArr [OF m]) (use Some in \<open>simp add: asList_Some\<close>)
  with m Some show ?thesis
    by (simp add: ensureReasoningInclude_def okMap_put split: option.split)
qed (simp add: ensureReasoningInclude_def okMap_put split: option.split)

lemma okMap_functions: "okMap m \<Longrightarrow> okMap (legacyFunctions m)"
proof -
  assume m: "okMap m"
  have "numsValid (AArr (map functionTool xs))" if "get ''functions'' m = Some (AArr xs)" for xs
    using okMap_AArr [OF m that] by (simp add: list_all_iff functionTool_def)
  then show ?thesis using m
    by (auto simp: legacyFunctions_def split: option.split anyval.split intro!: okMap_del okMap_put simp del: numsValid.simps)
qed

lemma okMap_choices: "okMap m \<Longrightarrow> okMap (legacyChoice m)"
  by (auto simp: legacyChoice_def Let_def namedChoice_def split: option.split anyval.split intro!: okMap_put okMap_del)

lemma okMap_legacy: "okMap m \<Longrightarrow> okMap (normalizeLegacyFunctions m)"
  by (simp add: normalizeLegacyFunctions_def okMap_choices okMap_functions)

lemma okMap_tools: "okMap m \<Longrightarrow> okMap (normalizeTools m)"
proof (cases "asList (get ''tools'' m)")
  case (Some xs)
  assume m: "okMap m"
  have xs: "numsValid (AArr xs)" by (rule okMap_AArr [OF m]) (use Some in \<open>simp add: asList_Some\<close>)
  have "numsValid (AArr (List.map_filter normalizeTool xs))"
    using xs by (auto simp: list_all_iff List.map_filter_def intro: normalizeTool_ok)
  with m Some show ?thesis by (simp add: normalizeTools_def okMap_put del: numsValid.simps)
qed (simp add: normalizeTools_def)

lemma okMap_choice: "okMap m \<Longrightarrow> okMap (normalizeToolChoice m)"
  by (auto simp: normalizeToolChoice_def Let_def namedChoice_def split: option.split)

lemma okMap_input: "okMap m \<Longrightarrow> okMap (normalizeInput m)"
proof -
  assume m: "okMap m"
  have "numsValid (AArr (map normalizeItem xs))" if "get ''input'' m = Some (AArr xs)" for xs
    using okMap_AArr [OF m that] by (simp add: list_all_iff normalizeItem_ok)
  then show ?thesis using m
    by (auto simp: normalizeInput_def split: option.split anyval.split)
qed

lemma okMap_transform: "okMap m \<Longrightarrow> okMap (transformRequest m)"
  unfolding transformRequest_def
  by (intro okMap_input okMap_choice okMap_tools okMap_legacy okMap_include okMap_instructions okMap_forceFields)


section \<open>Properties\<close>

lemma decodeAny_parse:
  "(\<exists>r. decodeAny s = Some (v, r) \<and> skip_ws r = []) \<longleftrightarrow> (\<exists>j. json_parse s = Some j \<and> toAny j = v)"
  by (auto simp: decodeAny_def json_parse_def split: option.splits if_splits prod.splits)

lemma toAny_AObj: "toAny j = AObj m \<Longrightarrow> \<exists>ms. j = JObj ms"
  by (cases j) auto

lemma transform_ok:
  "Transform body = Inr sent \<longleftrightarrow>
     (\<exists>ms request. json_parse body = Some (JObj ms) \<and> toAny (JObj ms) = AObj request
        \<and> sent = marshalAny (AObj (transformRequest request)))" (is "?l \<longleftrightarrow> ?r")
proof
  assume ?l
  then obtain request rest where d: "decodeAny body = Some (AObj request, rest)" "ensureJSONEOF rest = None"
      "marshal (outAny (AObj (transformRequest request))) = Some sent"
    by (auto simp: Transform_def split: if_splits option.splits anyval.splits)
  have "skip_ws rest = []" using d(2) by (auto simp: ensureJSONEOF_def split: if_splits option.splits)
  with d(1) obtain j where j: "json_parse body = Some j" "toAny j = AObj request"
    using decodeAny_parse [of body "AObj request"] by auto
  obtain ms where "j = JObj ms" using toAny_AObj [OF j(2)] ..
  moreover have "sent = marshalAny (AObj (transformRequest request))"
    using d(3) by (simp add: marshal_def marshalAny_def split: if_splits)
  ultimately show ?r using j by blast
next
  assume ?r
  then obtain ms request where r: "json_parse body = Some (JObj ms)" "toAny (JObj ms) = AObj request"
      "sent = marshalAny (AObj (transformRequest request))" by blast
  then obtain rest where d: "decodeAny body = Some (AObj request, rest)" "skip_ws rest = []"
    using decodeAny_parse [of body "AObj request"] by auto
  have "skip_ws body \<noteq> []"
    using r(1) by (auto simp: json_parse_def parse_prefix_def parse_value.simps)
  moreover have "okMap (transformRequest request)"
    using decodeAny_valid [OF d(1)] by (simp add: okMap_transform)
  then have "rawsValid (outAny (AObj (transformRequest request)))" by (intro rawsValid_outAny) simp
  ultimately show ?l using d r(3)
    by (simp add: Transform_def ensureJSONEOF_def marshal_def marshalAny_def del: outAny.simps)
qed

text \<open>
  The transform of a body succeeds exactly when the body is one JSON object, and then sends the JSON
  text of the normalised object; encoding never fails. A second JSON value, \<^verbatim>\<open>null\<close>, any other value or
  broken text is an error.
\<close>

theorem transform_succeeds_iff:
  "Transform body = Inr sent \<longleftrightarrow>
     (\<exists>ms request. json_parse body = Some (JObj ms) \<and> toAny (JObj ms) = AObj request
        \<and> sent = marshalAny (AObj (transformRequest request)))"
  by (rule transform_ok)

lemma transform_forced:
  "get ''model'' (transformRequest request) = Some (AStr Model)
   \<and> get ''stream'' (transformRequest request) = Some (ABool True)
   \<and> get ''store'' (transformRequest request) = Some (ABool False)
   \<and> stringValue (get ''instructions'' (transformRequest request)) \<noteq> []
   \<and> list_all (\<lambda>k. get k (transformRequest request) = None) (''functions'' # ''function_call'' # unsupportedFields)"
  using default_not_blank by (simp add: transformRequest_def transform_step unsupportedFields_def)

text \<open>
  C12: Whatever the client asked for, the object sent upstream names the one model, streams, is not stored,
  has instructions that are not blank, and has none of the unsupported or legacy fields; every field the
  transform does not speak of is kept.
\<close>

theorem transform_forces_fields:
  "get ''model'' (transformRequest request) = Some (AStr Model)
   \<and> get ''stream'' (transformRequest request) = Some (ABool True)
   \<and> get ''store'' (transformRequest request) = Some (ABool False)
   \<and> stringValue (get ''instructions'' (transformRequest request)) \<noteq> []
   \<and> list_all (\<lambda>k. get k (transformRequest request) = None) (''functions'' # ''function_call'' # unsupportedFields)
   \<and> (k \<notin> set ([''model'', ''stream'', ''store'', ''instructions'', ''include'', ''tools'', ''tool_choice'', ''input'',
         ''functions'', ''function_call''] @ unsupportedFields) \<longrightarrow> get k (transformRequest request) = get k request)"
  using transform_forced [of request]
  by (simp add: transformRequest_def transform_step unsupportedFields_def)


theorem transform_forces_fields_witness:
  "get ''reasoning'' (transformRequest [(''model'', AStr ''x''), (''reasoning'', AObj []), (''user'', ANull)]) = Some (AObj [])"
  using transform_forces_fields [of "[(''model'', AStr ''x''), (''reasoning'', AObj []), (''user'', ANull)]" "''reasoning''"]
  by (simp add: unsupportedFields_def)

section \<open>Call identifiers\<close>

text \<open>The identifier a tool call item is known by before the transform.\<close>

definition callRef :: "gomap \<Rightarrow> string" where
  "callRef item = (if stringValue (get ''call_id'' item) = [] then stringValue (get ''id'' item)
     else stringValue (get ''call_id'' item))"

lemma compact_length: "length (compactCallIDIfNeeded c) \<le> 64"
  by (simp add: compactCallIDIfNeeded_def callIDMaxLength_def callIDPrefix_def)

lemma get_normalizeReasoningItem: "k \<noteq> ''id'' \<Longrightarrow> k \<noteq> ''summary'' \<Longrightarrow> get k (normalizeReasoningItem m) = get k m"
  by (auto simp: normalizeReasoningItem_def Let_def)

lemma get_normalizeToolName: "k \<noteq> ''name'' \<Longrightarrow> get k (normalizeToolName t m) = get k m"
  by (simp add: normalizeToolName_def Let_def)

lemma get_normalizeCallID:
  "get k (normalizeCallID t m) =
     (if k = ''call_id'' then
        (if isToolCallItem t then
           (if callRef m = [] then get k m else Some (AStr (compactCallIDIfNeeded (callRef m))))
         else None)
      else get k m)"
  by (simp add: normalizeCallID_def callRef_def Let_def)

lemma reasoning_not_call: "\<not> isToolCallItem ''reasoning''"
  by (simp add: isToolCallItem_def)

lemma callRef_reasoning: "isToolCallItem t \<Longrightarrow> callRef (if t = ''reasoning'' then normalizeReasoningItem m else m) = callRef m"
  using reasoning_not_call by auto

lemma normalizeItem_AObj:
  assumes "t = stringValue (get ''type'' item)"
  obtains item' where "normalizeItem (AObj item) = AObj item'" "get ''type'' item' = get ''type'' item"
    "get ''call_id'' item' = (if isToolCallItem t then
       (if callRef item = [] then get ''call_id'' item else Some (AStr (compactCallIDIfNeeded (callRef item))))
     else None)"
proof
  let ?i = "if t = ''reasoning'' then normalizeReasoningItem item else item"
  let ?r = "normalizeToolName t (normalizeCallID t ?i)"
  show "normalizeItem (AObj item) = AObj ?r" by (simp add: normalizeItem_def Let_def assms)
  show "get ''type'' ?r = get ''type'' item"
    by (simp add: get_normalizeToolName get_normalizeCallID get_normalizeReasoningItem)
  show "get ''call_id'' ?r = (if isToolCallItem t then
       (if callRef item = [] then get ''call_id'' item else Some (AStr (compactCallIDIfNeeded (callRef item))))
     else None)"
    using callRef_reasoning [of t item]
    by (simp add: get_normalizeToolName get_normalizeCallID get_normalizeReasoningItem)
qed

lemma transform_input: "get ''input'' request = Some (AArr items) \<Longrightarrow>
    get ''input'' (transformRequest request) = Some (AArr (map normalizeItem items))"
  unfolding transformRequest_def by (rule get_normalizeInput_list) (simp add: transform_step unsupportedFields_def)

text \<open>
  What an input item becomes, written out. An item that is no object is sent as it is. An object keeps its place
  and every field but the few named here: a reasoning item loses its identifier and has a summary; a tool call
  or tool output item is sent with the identifier it is known by, the \<^verbatim>\<open>call_id\<close> or else the \<^verbatim>\<open>id\<close>, which is
  kept when it has at most 64 bytes and replaced by a digest of it when it is longer; every other item has no
  \<^verbatim>\<open>call_id\<close>; and a name is never changed, only one that was missing is filled in.
\<close>

definition callTypes :: "string list" where
  "callTypes = [''function_call'', ''custom_tool_call'', ''mcp_tool_call'', ''tool_call'', ''local_shell_call'',
     ''tool_search_call'', ''function_call_output'', ''custom_tool_call_output'', ''mcp_tool_call_output'',
     ''tool_search_output'']"

definition shortened :: "string \<Rightarrow> string" where
  "shortened c = ''fc_'' @ take 61 (hexString (sha256 (''sub2api:codex-call-id:v1:'' @ c)))"

definition sentCallID :: "gomap \<Rightarrow> anyval option" where
  "sentCallID m =
     (if stringValue (get ''type'' m) \<notin> set callTypes then None
      else if callRef m = [] then get ''call_id'' m
      else Some (AStr (if length (callRef m) \<le> 64 then callRef m else shortened (callRef m))))"

definition sentFields :: "gomap \<Rightarrow> gomap \<Rightarrow> bool" where
  "sentFields m m' \<longleftrightarrow>
     (\<forall>k. k \<notin> set [''call_id'', ''id'', ''summary'', ''name''] \<longrightarrow> get k m' = get k m)
     \<and> get ''call_id'' m' = sentCallID m
     \<and> (if stringValue (get ''type'' m) = ''reasoning'' then get ''id'' m' = None \<and> get ''summary'' m' \<notin> {None, Some ANull}
        else get ''id'' m' = get ''id'' m \<and> get ''summary'' m' = get ''summary'' m)
     \<and> (stringValue (get ''name'' m) \<noteq> [] \<longrightarrow> get ''name'' m' = get ''name'' m)"

fun sentItem :: "anyval \<Rightarrow> anyval \<Rightarrow> bool" where
  "sentItem (AObj m) item' \<longleftrightarrow> (\<exists>m'. item' = AObj m' \<and> sentFields m m')"
| "sentItem item item' \<longleftrightarrow> item' = item"

text \<open>The call that the item at a position names, if it is a tool call or tool output item.\<close>

definition callAt :: "anyval list \<Rightarrow> nat \<Rightarrow> string option" where
  "callAt items i = (if length items \<le> i then None else
     (case items ! i of
        AObj m \<Rightarrow> if stringValue (get ''type'' m) \<in> set callTypes \<and> callRef m \<noteq> [] then Some (callRef m) else None
      | _ \<Rightarrow> None))"

lemma isToolCallItem_types: "isToolCallItem t \<longleftrightarrow> t \<in> set callTypes"
  by (auto simp: isToolCallItem_def callTypes_def)

lemma compact_eq: "compactCallIDIfNeeded c = (if length c \<le> 64 then c else shortened c)"
  by (simp add: compactCallIDIfNeeded_def shortened_def callIDMaxLength_def callIDPrefix_def)

lemma normalizeItem_sent: "sentItem item (normalizeItem item)"
proof (cases item)
  case (AObj m)
  define t where "t = stringValue (get ''type'' m)"
  let ?i = "if t = ''reasoning'' then normalizeReasoningItem m else m"
  let ?r = "normalizeToolName t (normalizeCallID t ?i)"
  have "get ''call_id'' ?r = sentCallID m"
    using callRef_reasoning [of t m]
    by (simp add: get_normalizeToolName get_normalizeCallID get_normalizeReasoningItem sentCallID_def
        isToolCallItem_types compact_eq flip: t_def)
  moreover have "get ''name'' ?r = get ''name'' m" if "stringValue (get ''name'' m) \<noteq> []"
    using that by (simp add: normalizeToolName_def get_normalizeCallID get_normalizeReasoningItem)
  moreover have "get k ?r = get k m" if "k \<notin> set [''call_id'', ''id'', ''summary'', ''name'']" for k
    using that by (simp add: get_normalizeToolName get_normalizeCallID get_normalizeReasoningItem)
  moreover have "if t = ''reasoning'' then get ''id'' ?r = None \<and> get ''summary'' ?r \<notin> {None, Some ANull}
      else get ''id'' ?r = get ''id'' m \<and> get ''summary'' ?r = get ''summary'' m"
    by (simp add: get_normalizeToolName get_normalizeCallID normalizeReasoningItem_def Let_def)
  ultimately have "sentFields m ?r" unfolding sentFields_def t_def [symmetric] by blast
  moreover have "normalizeItem (AObj m) = AObj ?r" by (simp add: normalizeItem_def Let_def t_def)
  ultimately show ?thesis by (simp add: AObj)
qed (simp_all add: normalizeItem_def)

lemma sent_callAt:
  assumes "list_all2 sentItem items items'" "callAt items i = Some c"
  shows "\<exists>m'. items' ! i = AObj m' \<and> get ''call_id'' m' = Some (AStr (if length c \<le> 64 then c else shortened c))"
proof -
  have i: "i < length items" using assms(2) by (auto simp: callAt_def split: if_splits)
  obtain m where m: "items ! i = AObj m" "stringValue (get ''type'' m) \<in> set callTypes" "callRef m = c" "c \<noteq> []"
    using assms(2) by (cases "items ! i") (auto simp: callAt_def split: if_splits)
  have "sentItem (AObj m) (items' ! i)" using list_all2_nthD [OF assms(1) i] unfolding m(1) .
  then obtain m' where "items' ! i = AObj m'" "sentFields m m'" by auto
  then show ?thesis using m(2-4) unfolding sentFields_def sentCallID_def by simp
qed

text \<open>
  C13: Call identifiers. Item by item and in their order, the input items are sent as written out above. So a tool
  call or tool output at any position is sent at that position with a \<^verbatim>\<open>call_id\<close> of at most 64 bytes, which is
  the identifier it was known by when that has at most 64 bytes; two such items that named the same call still
  do, and two that named different calls still differ, unless the shortened forms of the two collide or one
  identifier is itself the shortened form of the other.
\<close>

theorem call_ids_fit_and_pair:
  assumes "get ''input'' request = Some (AArr items)"
  shows "\<exists>items'. get ''input'' (transformRequest request) = Some (AArr items') \<and> list_all2 sentItem items items'
     \<and> (\<forall>i c. callAt items i = Some c \<longrightarrow> (\<exists>m' x. items' ! i = AObj m' \<and> get ''call_id'' m' = Some (AStr x)
          \<and> length x \<le> 64 \<and> (length c \<le> 64 \<longrightarrow> x = c)))
     \<and> (\<forall>i j c d. callAt items i = Some c \<and> callAt items j = Some d \<longrightarrow>
          (\<exists>a b. items' ! i = AObj a \<and> items' ! j = AObj b
             \<and> (c = d \<longrightarrow> get ''call_id'' a = get ''call_id'' b)
             \<and> (get ''call_id'' a = get ''call_id'' b \<longrightarrow>
                  c = d \<or> shortened c = shortened d \<or> c = shortened d \<or> d = shortened c)))"
proof -
  let ?s = "map normalizeItem items"
  have sent: "list_all2 sentItem items ?s" by (simp add: list_all2_conv_all_nth normalizeItem_sent)
  have "length (shortened c) \<le> 64" for c by (simp add: shortened_def)
  then have "\<exists>m' x. ?s ! i = AObj m' \<and> get ''call_id'' m' = Some (AStr x) \<and> length x \<le> 64 \<and> (length c \<le> 64 \<longrightarrow> x = c)"
    if "callAt items i = Some c" for i c
    using sent_callAt [OF sent that] that by (cases "length c \<le> 64") (auto simp del: nth_map)
  moreover have "\<exists>a b. ?s ! i = AObj a \<and> ?s ! j = AObj b
       \<and> (c = d \<longrightarrow> get ''call_id'' a = get ''call_id'' b)
       \<and> (get ''call_id'' a = get ''call_id'' b \<longrightarrow> c = d \<or> shortened c = shortened d \<or> c = shortened d \<or> d = shortened c)"
    if calls: "callAt items i = Some c \<and> callAt items j = Some d" for i j c d
  proof -
    obtain a b where "?s ! i = AObj a" "get ''call_id'' a = Some (AStr (if length c \<le> 64 then c else shortened c))"
      "?s ! j = AObj b" "get ''call_id'' b = Some (AStr (if length d \<le> 64 then d else shortened d))"
      using sent_callAt [OF sent conjunct1 [OF calls]] sent_callAt [OF sent conjunct2 [OF calls]] by blast
    then show ?thesis by (auto split: if_splits)
  qed
  ultimately show ?thesis using sent transform_input [OF assms] by blast
qed

theorem call_ids_fit_and_pair_witness:
  "\<exists>items' a b. get ''input'' (transformRequest
      [(''input'', AArr [AStr ''x'', AObj [(''type'', AStr ''function_call''), (''call_id'', AStr ''c'')],
                         AObj [(''type'', AStr ''function_call_output''), (''call_id'', AStr ''c'')]])])
     = Some (AArr items') \<and> length items' = 3 \<and> items' ! 1 = AObj a \<and> items' ! 2 = AObj b
     \<and> get ''call_id'' a = Some (AStr ''c'') \<and> get ''call_id'' b = Some (AStr ''c'') \<and> get ''type'' b = Some (AStr ''function_call_output'')"
proof -
  let ?items = "[AStr ''x'', AObj [(''type'', AStr ''function_call''), (''call_id'', AStr ''c'')],
     AObj [(''type'', AStr ''function_call_output''), (''call_id'', AStr ''c'')]]"
  have t: "trimSpace ''function_call'' = ''function_call''" "trimSpace ''c'' = ''c''"
    "trimSpace ''function_call_output'' = ''function_call_output''" by code_simp+
  have at: "callAt ?items 1 = Some ''c''" "callAt ?items 2 = Some ''c''"
    by (simp_all add: callAt_def callTypes_def callRef_def t)
  have input: "get ''input'' [(''input'', AArr ?items)] = Some (AArr ?items)" by simp
  obtain items' where i: "get ''input'' (transformRequest [(''input'', AArr ?items)]) = Some (AArr items')"
    "list_all2 sentItem ?items items'"
    "\<And>i c. callAt ?items i = Some c \<Longrightarrow> \<exists>m' x. items' ! i = AObj m' \<and> get ''call_id'' m' = Some (AStr x)
       \<and> length x \<le> 64 \<and> (length c \<le> 64 \<longrightarrow> x = c)"
    using call_ids_fit_and_pair [OF input] by blast
  have len: "length items' = 3" using list_all2_lengthD [OF i(2)] by simp
  have "sentItem (?items ! 2) (items' ! 2)" by (rule list_all2_nthD [OF i(2)]) simp
  moreover have "?items ! 2 = AObj [(''type'', AStr ''function_call_output''), (''call_id'', AStr ''c'')]" by simp
  ultimately obtain b where b: "items' ! 2 = AObj b"
      "sentFields [(''type'', AStr ''function_call_output''), (''call_id'', AStr ''c'')] b"
    by (auto simp del: nth.simps)
  have "get ''type'' b = get ''type'' [(''type'', AStr ''function_call_output''), (''call_id'', AStr ''c'')]"
    using b(2) unfolding sentFields_def by simp
  then have "get ''type'' b = Some (AStr ''function_call_output'')" by simp
  moreover have "get ''call_id'' b = Some (AStr ''c'')" using i(3) [OF at(2)] b(1) by fastforce
  moreover obtain a where "items' ! 1 = AObj a" "get ''call_id'' a = Some (AStr ''c'')"
    using i(3) [OF at(1)] by fastforce
  ultimately show ?thesis using i(1) len b(1) by blast
qed

section \<open>Tools and tool choice\<close>

text \<open>The tools of a request that are objects, and what a choice among them has to be, both written out.\<close>

definition offeredTool :: "anyval option \<Rightarrow> gomap \<Rightarrow> bool" where
  "offeredTool tools tool \<longleftrightarrow> (\<exists>list. tools = Some (AArr list) \<and> AObj tool \<in> set list)"

definition choiceFits :: "anyval option \<Rightarrow> anyval option \<Rightarrow> bool" where
  "choiceFits tools choice \<longleftrightarrow>
     (case asMap choice of
        None \<Rightarrow> True
      | Some c \<Rightarrow>
          stringValue (get ''type'' c) = []
          \<or> (if stringValue (get ''type'' c) = ''function''
             then (\<exists>name tool. name \<noteq> [] \<and> trimSpace name = name
                     \<and> choice = Some (AObj [(''type'', AStr ''function''), (''name'', AStr name)])
                     \<and> offeredTool tools tool \<and> stringValue (get ''type'' tool) = ''function''
                     \<and> stringValue (get ''name'' tool) = name)
             else (\<exists>tool. offeredTool tools tool \<and> stringValue (get ''type'' tool) = stringValue (get ''type'' c))))"

lemma toolsContain_offered: "toolsContain tools p \<longleftrightarrow> (\<exists>tool. offeredTool tools tool \<and> p tool)"
proof (cases "asList tools")
  case None
  then show ?thesis by (auto simp: toolsContain_def offeredTool_def)
next
  case (Some list)
  then have "tools = Some (AArr list)" by (auto simp: asList_def split: option.splits anyval.splits)
  moreover have "(case x of AObj tool \<Rightarrow> p tool | _ \<Rightarrow> False) \<longleftrightarrow> (\<exists>tool. x = AObj tool \<and> p tool)" for x
    by (cases x) auto
  ultimately show ?thesis by (auto simp: toolsContain_def offeredTool_def list_ex_iff)
qed

lemma tools_offered:
  "toolsContainFunction tools name \<longleftrightarrow> (\<exists>tool. offeredTool tools tool
     \<and> stringValue (get ''type'' tool) = ''function'' \<and> stringValue (get ''name'' tool) = name)"
  "toolsContainType tools t \<longleftrightarrow> (\<exists>tool. offeredTool tools tool \<and> stringValue (get ''type'' tool) = t)"
  by (simp_all add: toolsContainFunction_def toolsContainType_def toolsContain_offered)

lemma trim_stringValue [simp]: "trimSpace (stringValue v) = stringValue v"
  by (auto simp: stringValue_def split: option.splits anyval.splits)

lemma normalizeToolChoice_fits:
  "choiceFits (get ''tools'' (normalizeToolChoice m)) (get ''tool_choice'' (normalizeToolChoice m))"
proof (cases "asMap (get ''tool_choice'' m)")
  case None
  then show ?thesis by (simp add: normalizeToolChoice_def choiceFits_def)
next
  case (Some c)
  define name where "name = (if stringValue (get ''name'' c) = [] then
      (case asMap (get ''function'' c) of Some fn \<Rightarrow> stringValue (get ''name'' fn) | None \<Rightarrow> [])
    else stringValue (get ''name'' c))"
  have name: "trimSpace name = name" by (simp add: name_def split: option.split)
  have choice: "normalizeToolChoice m = (if name = [] \<or> \<not> toolsContainFunction (get ''tools'' m) name
      then put ''tool_choice'' (AStr ''auto'') m else put ''tool_choice'' (namedChoice name) m)"
    if "stringValue (get ''type'' c) = ''function''"
    using that Some by (simp add: normalizeToolChoice_def Let_def name_def)
  have trim: "trimSpace ''function'' = ''function''" by code_simp
  consider "stringValue (get ''type'' c) = []" | "stringValue (get ''type'' c) = ''function''"
    | "stringValue (get ''type'' c) \<noteq> []" "stringValue (get ''type'' c) \<noteq> ''function''" by blast
  then show ?thesis
  proof cases
    case 1
    then show ?thesis using Some by (simp add: normalizeToolChoice_def choiceFits_def)
  next
    case 2
    then show ?thesis using name trim unfolding choice [OF 2]
      by (auto simp: choiceFits_def namedChoice_def tools_offered)
  next
    case 3
    then show ?thesis using Some
      by (auto simp: normalizeToolChoice_def choiceFits_def Let_def tools_offered)
  qed
qed

text \<open>
  C14: Tool choice. Whatever tools and choice were asked for, in the current or the legacy form, a choice sent
  upstream as an object with a type is one of two things: exactly the choice of a function by a name that is not
  blank, and the tools sent have an object of the type function with that very name; or the choice of another
  tool type, and the tools sent have an object of that type.
\<close>

theorem tool_choice_available:
  "choiceFits (get ''tools'' (transformRequest request)) (get ''tool_choice'' (transformRequest request))"
  unfolding transformRequest_def using normalizeToolChoice_fits
  by (simp add: get_normalizeInput)

section \<open>Idempotence\<close>

lemma put_same: "get k m = Some v \<Longrightarrow> put k v m = m"
  unfolding put_def by (rule update_triv)

lemma del_absent: "get k m = None \<Longrightarrow> del k m = m"
  unfolding del_def by (simp add: map_of_eq_None_iff)


lemma trim_edges:
  assumes "s \<noteq> []" "hd s \<notin> set (map hd space_runes)" "last s \<notin> set (map last space_runes)"
  shows "trimSpace s = s"
proof -
  have ne: "\<forall>w\<in>set space_runes. w \<noteq> []" by (simp add: space_runes_def)
  have left: "stripOne ws t = None" if "\<forall>w\<in>set ws. w \<noteq> [] \<longrightarrow> hd w \<noteq> hd t" "t \<noteq> []" for ws t
    using that by (induction ws) (auto simp: hasPrefix_iff)
  have "\<forall>w\<in>set space_runes. w \<noteq> [] \<longrightarrow> hd w \<noteq> hd s"
    using assms(2) by (metis image_eqI set_map)
  then have "stripOne space_runes s = None" using assms(1) by (rule left)
  moreover have "stripOne (map rev space_runes) (rev s) = None"
  proof (rule left)
    show "\<forall>w\<in>set (map rev space_runes). w \<noteq> [] \<longrightarrow> hd w \<noteq> hd (rev s)"
      using assms(1,3) ne by (auto simp: hd_rev) (metis image_eqI)
  qed (use assms(1) in simp)
  ultimately show ?thesis by (simp add: trimSpace_def trimRight_def)
qed

lemma trim_shortened: "trimSpace (shortened c) = shortened c"
proof (rule trim_edges)
  let ?h = "take 61 (hexString (sha256 (''sub2api:codex-call-id:v1:'' @ c)))"
  show "shortened c \<noteq> []" by (simp add: shortened_def)
  have "CHR ''f'' \<notin> set (map hd space_runes)" by code_simp
  then show "hd (shortened c) \<notin> set (map hd space_runes)" by (simp add: shortened_def)
  have "length ?h \<noteq> 0" by simp
  then have ne: "?h \<noteq> []" by (rule contrapos_nn) (simp only: list.size)
  then have "last ?h \<in> set ''0123456789abcdef''"
    using last_in_set [OF ne] in_set_takeD hexString_set by fast
  moreover have "list_all (\<lambda>c. c \<notin> set (map last space_runes)) ''0123456789abcdef''" by code_simp
  then have "\<forall>c\<in>set ''0123456789abcdef''. c \<notin> set (map last space_runes)" by (simp only: list_all_iff)
  ultimately have "last ?h \<notin> set (map last space_runes)" by (rule bspec [rotated])
  moreover have "last (shortened c) = last ?h" using ne by (simp add: shortened_def)
  ultimately show "last (shortened c) \<notin> set (map last space_runes)" by argo
qed

lemma compact_stable: "compactCallIDIfNeeded (compactCallIDIfNeeded c) = compactCallIDIfNeeded c"
  using compact_length [of c] by (subst compact_eq) simp

lemma compact_trim: "trimSpace c = c \<Longrightarrow> trimSpace (compactCallIDIfNeeded c) = compactCallIDIfNeeded c"
  by (simp add: compact_eq trim_shortened)

lemma compact_ne: "c \<noteq> [] \<Longrightarrow> compactCallIDIfNeeded c \<noteq> []"
  by (simp add: compact_eq shortened_def)

lemma trim_callRef [simp]: "trimSpace (callRef m) = callRef m"
  by (simp add: callRef_def)

text \<open>Items\<close>

lemma reasoning_stable: "normalizeReasoningItem (normalizeReasoningItem m) = normalizeReasoningItem m"
proof -
  let ?r = "normalizeReasoningItem m"
  have id: "get ''id'' ?r = None" by (simp add: normalizeReasoningItem_def Let_def)
  have summary: "get ''summary'' ?r \<noteq> None \<and> get ''summary'' ?r \<noteq> Some ANull"
    by (auto simp: normalizeReasoningItem_def Let_def)
  show ?thesis by (subst normalizeReasoningItem_def) (use summary in \<open>auto simp: Let_def del_absent [OF id]\<close>)
qed

lemma normalizeCallID_eq: "normalizeCallID t m =
    (if isToolCallItem t then
       if callRef m = [] then m else put ''call_id'' (AStr (compactCallIDIfNeeded (callRef m))) m
     else del ''call_id'' m)"
  by (simp add: normalizeCallID_def callRef_def Let_def)

lemma callRef_put: "callRef m \<noteq> [] \<Longrightarrow>
    callRef (put ''call_id'' (AStr (compactCallIDIfNeeded (callRef m))) m) = compactCallIDIfNeeded (callRef m)"
  using compact_ne [of "callRef m"] compact_trim [OF trim_callRef, of m] by (subst callRef_def) simp

lemma callID_stable: "normalizeCallID t (normalizeCallID t m) = normalizeCallID t m"
proof (cases "isToolCallItem t \<and> callRef m \<noteq> []")
  case True
  then have n: "normalizeCallID t m = put ''call_id'' (AStr (compactCallIDIfNeeded (callRef m))) m"
    by (simp add: normalizeCallID_eq)
  show ?thesis unfolding n using True compact_ne [of "callRef m"]
    by (simp add: normalizeCallID_eq callRef_put compact_stable put_same)
next
  case False
  then show ?thesis by (auto simp: normalizeCallID_eq del_absent)
qed


lemma toolName_stable: "normalizeToolName t (normalizeToolName t m) = normalizeToolName t m"
proof (cases "requiresToolName t \<and> stringValue (get ''name'' m) = []")
  case True
  define name where "name = (let name0 = stringValue (get ''tool_name'' m);
            name1 = (if name0 = [] then
                (case asMap (get ''function'' m) of Some fn \<Rightarrow> stringValue (get ''name'' fn) | None \<Rightarrow> name0)
              else name0)
      in if name1 = [] then ''tool'' else name1)"
  have n: "normalizeToolName t m = put ''name'' (AStr name) m"
    using True by (simp add: normalizeToolName_def name_def Let_def)
  have "trimSpace ''tool'' = ''tool''" by code_simp
  then have "trimSpace name = name" "name \<noteq> []" by (auto simp: name_def Let_def split: option.splits if_splits)
  then have "stringValue (get ''name'' (put ''name'' (AStr name) m)) \<noteq> []" by simp
  then show ?thesis unfolding n by (simp only: normalizeToolName_def if_False simp_thms)
next
  case False
  then show ?thesis by (auto simp: normalizeToolName_def)
qed

lemma get_toolName_other: "k \<noteq> ''name'' \<Longrightarrow> get k (normalizeToolName t m) = get k m"
  by (rule get_normalizeToolName)

text \<open>The three steps on an item touch different keys, so that they commute.\<close>

lemma callRef_toolName: "callRef (normalizeToolName t m) = callRef m"
  by (simp add: callRef_def get_normalizeToolName)

lemma callID_after_name: "normalizeCallID t m = m \<Longrightarrow> normalizeCallID t (normalizeToolName t m) = normalizeToolName t m"
proof -
  assume stable: "normalizeCallID t m = m"
  show ?thesis
  proof (cases "isToolCallItem t")
    case True
    show ?thesis
    proof (cases "callRef m = []")
      case False
      have "get ''call_id'' (normalizeCallID t m) = Some (AStr (compactCallIDIfNeeded (callRef m)))"
        using True False by (simp add: get_normalizeCallID)
      then have "get ''call_id'' (normalizeToolName t m) = Some (AStr (compactCallIDIfNeeded (callRef m)))"
        using stable by (simp add: get_normalizeToolName)
      then show ?thesis using True False by (simp add: normalizeCallID_eq callRef_toolName put_same)
    qed (simp add: normalizeCallID_eq callRef_toolName True)
  next
    case False
    then have "get ''call_id'' m = None" using stable get_normalizeCallID [where k = "''call_id''" and t = t and m = m] by simp
    then show ?thesis using False by (simp add: normalizeCallID_eq del_absent get_normalizeToolName)
  qed
qed

lemma reasoning_after: 
  assumes "normalizeReasoningItem m = m"
  shows "normalizeReasoningItem (normalizeToolName t (normalizeCallID t m)) = normalizeToolName t (normalizeCallID t m)"
proof -
  let ?r = "normalizeToolName t (normalizeCallID t m)"
  have "get ''id'' m = None"
    using arg_cong [OF assms, of "get ''id''"] by (simp add: normalizeReasoningItem_def Let_def split: if_splits)
  then have id: "get ''id'' ?r = None" by (simp add: get_normalizeToolName get_normalizeCallID)
  have "get ''summary'' (normalizeReasoningItem m) \<noteq> None \<and> get ''summary'' (normalizeReasoningItem m) \<noteq> Some ANull"
    by (auto simp: normalizeReasoningItem_def Let_def)
  then have "get ''summary'' ?r \<noteq> None \<and> get ''summary'' ?r \<noteq> Some ANull"
    using assms by (simp add: get_normalizeToolName get_normalizeCallID)
  then show ?thesis by (subst normalizeReasoningItem_def) (auto simp: Let_def del_absent [OF id])
qed

lemma normalizeItem_stable: "normalizeItem (normalizeItem v) = normalizeItem v"
proof (cases v)
  case (AObj item)
  define t where "t = stringValue (get ''type'' item)"
  define i1 where "i1 = (if t = ''reasoning'' then normalizeReasoningItem item else item)"
  define i2 where "i2 = normalizeCallID t i1"
  define r where "r = normalizeToolName t i2"
  have v: "normalizeItem v = AObj r"
    by (simp add: AObj normalizeItem_def Let_def t_def i1_def i2_def r_def)
  have t: "stringValue (get ''type'' r) = t"
    by (simp add: r_def i2_def i1_def t_def get_normalizeToolName get_normalizeCallID get_normalizeReasoningItem)
  have "(if t = ''reasoning'' then normalizeReasoningItem r else r) = r"
    unfolding r_def i2_def i1_def by (simp add: reasoning_after [OF reasoning_stable])
  moreover have "normalizeCallID t r = r"
    unfolding r_def by (rule callID_after_name) (simp add: i2_def callID_stable)
  moreover have "normalizeToolName t r = r" by (simp add: r_def toolName_stable)
  ultimately show ?thesis unfolding v by (simp add: normalizeItem_def t Let_def)
qed (simp_all add: normalizeItem_def)


text \<open>Tools\<close>

lemma get_lift: "get k (liftFields fs fn tool) = (if k \<in> set fs \<and> get k tool = None then get k fn else get k tool)"
proof (induction fs fn tool rule: liftFields.induct)
  case (1 fn tool)
  then show ?case by (simp add: liftFields.simps)
next
  case (2 f fs fn tool)
  then show ?case by (cases "get f tool"; cases "get f fn") (auto simp: liftFields.simps)
qed

text \<open>
  No function tool carries a name of its own that is blank, or no string, next to a nested definition. A tool of
  another type, and a function tool with no nested definition, may have any name.
\<close>

definition named :: "anyval \<Rightarrow> bool" where
  "named rawTool \<longleftrightarrow> (case rawTool of
       AObj tool \<Rightarrow> stringValue (get ''type'' tool) = ''function'' \<and> asMap (get ''function'' tool) \<noteq> None \<longrightarrow>
         get ''name'' tool = None \<or> stringValue (get ''name'' tool) \<noteq> []
     | _ \<Rightarrow> True)"

lemma normalizeTool_stable:
  assumes "named v" "normalizeTool v = Some v'"
  shows "normalizeTool v' = Some v'"
proof (cases v)
  case (AObj tool)
  show ?thesis
  proof (cases "stringValue (get ''type'' tool) = ''function''")
    case True
    show ?thesis
    proof (cases "stringValue (get ''name'' tool) = []")
      case blank: True
      obtain fn where fn: "asMap (get ''function'' tool) = Some fn" "stringValue (get ''name'' fn) \<noteq> []"
          "v' = AObj (del ''function'' (liftFields [''name'', ''description'', ''parameters'', ''strict''] fn tool))"
        using assms(2) AObj True blank by (auto simp: normalizeTool_def split: option.splits if_splits)
      then have none: "get ''name'' tool = None" using assms(1) AObj True blank by (simp add: named_def)
      have "stringValue (get ''type'' (liftFields [''name'', ''description'', ''parameters'', ''strict''] fn tool)) = ''function''"
        "stringValue (get ''name'' (liftFields [''name'', ''description'', ''parameters'', ''strict''] fn tool)) \<noteq> []"
        using True none fn(2) by (simp_all add: get_lift)
      then show ?thesis unfolding fn(3) by (simp add: normalizeTool_def del_absent)
    next
      case False
      then have "v' = AObj (del ''function'' tool)" using assms(2) AObj True by (simp add: normalizeTool_def)
      then show ?thesis using True False by (simp add: normalizeTool_def del_absent)
    qed
  next
    case False
    then show ?thesis using assms(2) AObj by (auto simp: normalizeTool_def)
  qed
qed (use assms in \<open>auto simp: normalizeTool_def\<close>)

lemma normalizeTools_stable: "list_all named ts \<Longrightarrow>
    List.map_filter normalizeTool (List.map_filter normalizeTool ts) = List.map_filter normalizeTool ts"
proof (induction ts)
  case (Cons v ts)
  show ?case
  proof (cases "normalizeTool v")
    case None
    with Cons show ?thesis by (simp add: List.map_filter_def)
  next
    case (Some v')
    have "normalizeTool v' = Some v'" by (rule normalizeTool_stable [OF _ Some]) (use Cons.prems in simp)
    with Some Cons show ?thesis by (simp add: List.map_filter_def)
  qed
qed (simp add: List.map_filter_def)

text \<open>The whole request\<close>

lemma fold_del_absent: "list_all (\<lambda>k. get k m = None) ks \<Longrightarrow> fold del ks m = m"
  by (induction ks) (simp_all add: del_absent)

lemma normalizeInstructions_same: "stringValue (get ''instructions'' m) \<noteq> [] \<Longrightarrow> normalizeInstructions m = m"
  by (auto simp: normalizeInstructions_def stringValue_def isBlank_def split: option.splits anyval.splits)

definition allNamed :: "anyval option \<Rightarrow> bool" where
  "allNamed rawTools \<longleftrightarrow> (case asList rawTools of None \<Rightarrow> True | Some ts \<Rightarrow> list_all named ts)"

lemma allNamed_legacy:
  assumes "allNamed (get ''tools'' m)"
  shows "allNamed (get ''tools'' (normalizeLegacyFunctions m))"
proof -
  have fresh: "named (functionTool f)" for f by (simp add: named_def functionTool_def)
  have "allNamed (get ''tools'' (legacyFunctions m))"
    using assms fresh by (auto simp: legacyFunctions_def allNamed_def list_all_iff split: option.split anyval.split)
  moreover have "get ''tools'' (legacyChoice m') = get ''tools'' m'" for m'
    by (auto simp: legacyChoice_def Let_def split: option.split anyval.split)
  ultimately show ?thesis by (simp add: normalizeLegacyFunctions_def)
qed

lemma include_there:
  assumes "asMap (get ''reasoning'' m) = Some r" "r \<noteq> []"
  shows "\<exists>xs. get ''include'' (ensureReasoningInclude m) = Some (AArr xs) \<and> AStr reasoningInclude \<in> set xs"
  using assms by (auto simp: ensureReasoningInclude_def asList_Some split: option.split)

lemma choice_stable:
  assumes "choiceFits (get ''tools'' m) (get ''tool_choice'' m)"
  shows "normalizeToolChoice m = m"
proof (cases "asMap (get ''tool_choice'' m)")
  case None
  then show ?thesis by (simp add: normalizeToolChoice_def)
next
  case (Some c)
  consider "stringValue (get ''type'' c) = []" | "stringValue (get ''type'' c) = ''function''"
    | "stringValue (get ''type'' c) \<noteq> []" "stringValue (get ''type'' c) \<noteq> ''function''" by blast
  then show ?thesis
  proof cases
    case 1
    with Some show ?thesis by (simp add: normalizeToolChoice_def)
  next
    case 2
    with assms Some obtain name where name: "name \<noteq> []" "trimSpace name = name"
        "get ''tool_choice'' m = Some (namedChoice name)" "toolsContainFunction (get ''tools'' m) name"
      by (auto simp: choiceFits_def namedChoice_def tools_offered)
    have "trimSpace ''function'' = ''function''" by code_simp
    with name show ?thesis
      by (simp add: normalizeToolChoice_def Let_def namedChoice_def put_same)
  next
    case 3
    with assms Some show ?thesis by (simp add: normalizeToolChoice_def choiceFits_def Let_def tools_offered)
  qed
qed

lemma input_stable: "normalizeInput (normalizeInput m) = normalizeInput m"
proof -
  have msg: "normalizeItem (AObj [(''type'', AStr ''message''), (''role'', AStr ''user''), (''content'', AStr x)])
      = AObj [(''type'', AStr ''message''), (''role'', AStr ''user''), (''content'', AStr x)]" for x
  proof -
    have "trimSpace ''message'' = ''message''" by code_simp
    then show ?thesis
      by (simp add: normalizeItem_def Let_def normalizeCallID_def isToolCallItem_def normalizeToolName_def
          requiresToolName_def del_absent)
  qed
  have items: "map normalizeItem (map normalizeItem xs) = map normalizeItem xs" for xs
    by (simp add: normalizeItem_stable)
  show ?thesis
  proof (cases "get ''input'' m")
    case None
    then show ?thesis by (simp add: normalizeInput_def put_same)
  next
    case (Some v)
    then show ?thesis
      by (cases v) (simp_all add: normalizeInput_def put_same msg items del: map_map)
  qed
qed


text \<open>
  C15: The transform is idempotent: transforming an object that was already transformed changes nothing, not
  even the order of the members, provided no function tool carries a blank name of its own (or one that is no
  string) next to a nested definition.
\<close>

theorem transform_idempotent:
  assumes "allNamed (get ''tools'' request)"
  shows "transformRequest (transformRequest request) = transformRequest request"
proof -
  define m1 where "m1 = normalizeInstructions (forceFields request)"
  define m2 where "m2 = ensureReasoningInclude m1"
  define m3 where "m3 = normalizeLegacyFunctions m2"
  define m4 where "m4 = normalizeTools m3"
  define m5 where "m5 = normalizeToolChoice m4"
  define r where "r = normalizeInput m5"
  have r: "transformRequest request = r"
    by (simp add: transformRequest_def m1_def m2_def m3_def m4_def m5_def r_def)
  note forced = transform_forced [of request, unfolded r]
  have "forceFields r = r"
    using forced fold_del_absent by (simp add: forceFields_def put_same)
  moreover have "normalizeInstructions r = r"
    using forced by (simp add: normalizeInstructions_same)
  moreover have "ensureReasoningInclude r = r"
  proof (cases "asMap (get ''reasoning'' m1) = None \<or> asMap (get ''reasoning'' m1) = Some []")
    case True
    have "get ''reasoning'' r = get ''reasoning'' m1"
      by (simp add: r_def m5_def m4_def m3_def m2_def transform_step)
    with True show ?thesis by (auto simp: ensureReasoningInclude_def)
  next
    case False
    then obtain z where "asMap (get ''reasoning'' m1) = Some z" "z \<noteq> []" by auto
    from include_there [OF this] obtain xs where
      xs: "get ''include'' m2 = Some (AArr xs)" "AStr reasoningInclude \<in> set xs" by (auto simp: m2_def)
    moreover have "get ''include'' r = get ''include'' m2"
      by (simp add: r_def m5_def m4_def m3_def transform_step)
    ultimately show ?thesis by (simp add: ensureReasoningInclude_def split: option.split)
  qed
  moreover have "normalizeLegacyFunctions r = r"
    using forced by (simp add: normalizeLegacyFunctions_def legacyFunctions_def legacyChoice_def)
  moreover have "normalizeTools r = r"
  proof -
    have "get ''tools'' m2 = get ''tools'' request"
      by (simp add: m2_def m1_def transform_step unsupportedFields_def)
    then have n: "allNamed (get ''tools'' m3)" using allNamed_legacy [of m2] assms by (simp add: m3_def)
    have "get ''tools'' r = get ''tools'' m4" by (simp add: r_def m5_def transform_step)
    then show ?thesis using n normalizeTools_stable
      by (auto simp: m4_def normalizeTools_def allNamed_def put_same split: option.splits)
  qed
  moreover have "normalizeToolChoice r = r"
    using normalizeToolChoice_fits [of m4] by (intro choice_stable) (simp add: r_def m5_def transform_step)
  moreover have "normalizeInput r = r" by (simp add: r_def input_stable)
  ultimately show ?thesis unfolding r by (simp add: transformRequest_def)
qed

text \<open>A blank name of its own is not filled from the nested definition, which is removed all the same.\<close>

theorem transform_idempotent_witness:
  "transformRequest (transformRequest [(''tools'', AArr [AObj [(''type'', AStr ''function''), (''name'', AStr ''f'')]])])
     = transformRequest [(''tools'', AArr [AObj [(''type'', AStr ''function''), (''name'', AStr ''f'')]])]"
proof (rule transform_idempotent)
  have "trimSpace ''f'' = ''f''" by code_simp
  then show "allNamed (get ''tools'' [(''tools'', AArr [AObj [(''type'', AStr ''function''), (''name'', AStr ''f'')]])])"
    by (simp add: allNamed_def named_def)
qed

theorem blank_tool_name_lost:
  "normalizeTool (AObj [(''type'', AStr ''function''), (''name'', AStr []),
       (''function'', AObj [(''name'', AStr ''lookup'')])])
     = Some (AObj [(''type'', AStr ''function''), (''name'', AStr [])])"
proof -
  have "trimSpace ''lookup'' = ''lookup''" "trimSpace ''function'' = ''function''" by code_simp+
  then show ?thesis by (simp add: normalizeTool_def liftFields.simps del_def)
qed

end
