(* ===== verification/Codex_Properties.thy ===== *)
theory Codex_Properties
  imports Codex_Client Transform_Properties
begin

text \<open>
  What the session identity and the upstream client guarantee: a well-formed UUID, the same session for the
  same seed and for every later turn of a conversation, requests with exactly the intended headers, and a
  continuation state that stays with its session.
\<close>

section \<open>Sessions\<close>

definition hexText :: "nat \<Rightarrow> string \<Rightarrow> bool" where
  "hexText n s \<longleftrightarrow> length s = n \<and> set s \<subseteq> set ''0123456789abcdef''"

lemma hexText_hexString: "n = 2 * length bs \<Longrightarrow> hexText n (hexString bs)"
  using hexString_set by (simp add: hexText_def)

lemma hexString_Cons: "hexString (b # bs) = hex_digit (byte_val b div 16) # hex_digit (byte_val b mod 16) # hexString bs"
  by (simp add: hexString_def)

lemma hd_hexString: "bs \<noteq> [] \<Longrightarrow> hd (hexString bs) = hex_digit (byte_val (hd bs) div 16)"
  by (cases bs) (simp_all add: hexString_Cons)

lemma hd_take_drop: "n < length xs \<Longrightarrow> 0 < k \<Longrightarrow> hd (take k (drop n xs)) = xs ! n"
  by (simp add: hd_drop_conv_nth)

text \<open>
  C17: Session identity. Every request gets a session whose key is 64 hexadecimal digits and whose identifier
  is a version 4, variant 1 UUID, both determined by the seed alone: a session the client names in its header
  and one it names in the metadata are the same when the name is the same.
\<close>

theorem session_is_uuid:
  "\<exists>a b c d e. snID (newSession source seed) = a @ ''-'' @ b @ ''-'' @ c @ ''-'' @ d @ ''-'' @ e
     \<and> hexText 8 a \<and> hexText 4 b \<and> hexText 4 c \<and> hexText 4 d \<and> hexText 12 e
     \<and> hd c = CHR ''4'' \<and> hd d \<in> set ''89ab''
     \<and> hexText 64 (snKey (newSession source seed))
     \<and> snKey (newSession source seed) = snKey (newSession source' seed)
     \<and> snID (newSession source seed) = snID (newSession source' seed)"
proof -
  define key where "key = hexString (sha256 (''cc-gpt-adapter:claude-session:v1:'' @ seed))"
  define d0 where "d0 = sha256 key"
  define dg where "dg = d0[6 := char_of (byte_val (d0 ! 6) mod 16 + 0x40), 8 := char_of (byte_val (d0 ! 8) mod 64 + 0x80)]"
  have len: "length dg = 32" by (simp add: dg_def d0_def)
  have id: "snID (newSession source seed) = hexString (take 4 dg) @ ''-'' @ hexString (take 2 (drop 4 dg)) @ ''-''
      @ hexString (take 2 (drop 6 dg)) @ ''-'' @ hexString (take 2 (drop 8 dg)) @ ''-'' @ hexString (take 6 (drop 10 dg))"
    by (simp add: newSession_def deterministicUUID_def Let_def dg_def d0_def key_def)
  have c: "hd (hexString (take 2 (drop 6 dg))) = CHR ''4''"
  proof -
    have "hd (hexString (take 2 (drop 6 dg))) = hex_digit (byte_val (dg ! 6) div 16)"
      using len by (simp add: hd_hexString hd_take_drop del: hd_take)
    also have "dg ! 6 = char_of (byte_val (d0 ! 6) mod 16 + 0x40)" by (simp add: dg_def d0_def)
    also have "byte_val (char_of (byte_val (d0 ! 6) mod 16 + 0x40) :: char) div 16 = 4" by simp
    finally have "hd (hexString (take 2 (drop 6 dg))) = hex_digit 4" .
    moreover have "hex_digit 4 = CHR ''4''" by code_simp
    ultimately show ?thesis by (rule trans)
  qed
  have d: "hd (hexString (take 2 (drop 8 dg))) \<in> set ''89ab''"
  proof -
    have "hd (hexString (take 2 (drop 8 dg))) = hex_digit (byte_val (dg ! 8) div 16)"
      using len by (simp add: hd_hexString hd_take_drop del: hd_take)
    also have "dg ! 8 = char_of (byte_val (d0 ! 8) mod 64 + 0x80)" by (simp add: dg_def d0_def)
    also have "byte_val (char_of (byte_val (d0 ! 8) mod 64 + 0x80) :: char) div 16 = (byte_val (d0 ! 8) mod 64) div 16 + 8" by simp
    finally have e: "hd (hexString (take 2 (drop 8 dg))) = hex_digit ((byte_val (d0 ! 8) mod 64) div 16 + 8)" .
    have "(byte_val (d0 ! 8) mod 64) div 16 < 4" by simp
    then have "(byte_val (d0 ! 8) mod 64) div 16 \<in> {0, 1, 2, 3}" by auto
    moreover have "list_all (\<lambda>n. hex_digit (n + 8) \<in> set ''89ab'') [0, 1, 2, 3]" by code_simp
    ultimately show ?thesis unfolding e by (auto simp only: list_all_iff set_simps)
  qed
  have hex: "hexText 8 (hexString (take 4 dg))" "hexText 4 (hexString (take 2 (drop 4 dg)))"
    "hexText 4 (hexString (take 2 (drop 6 dg)))" "hexText 4 (hexString (take 2 (drop 8 dg)))"
    "hexText 12 (hexString (take 6 (drop 10 dg)))" "hexText 64 (snKey (newSession source seed))"
    using len by (auto intro!: hexText_hexString simp: newSession_def Let_def)
  show ?thesis
    using id c d hex
    by (intro exI [of _ "hexString (take 4 dg)"] exI [of _ "hexString (take 2 (drop 4 dg))"]
        exI [of _ "hexString (take 2 (drop 6 dg))"] exI [of _ "hexString (take 2 (drop 8 dg))"]
        exI [of _ "hexString (take 6 (drop 10 dg))"]) (simp add: newSession_def Let_def)
qed

text \<open>
  C18: A conversation keeps its session. Without a header, later turns that only add messages (and may change
  model, limits, streaming, thinking, tool choice or effort) resolve to the very session of the first turn,
  since the seed depends only on the system prompt, the tools and the first user message, or on the metadata.
\<close>

theorem session_stable_over_turns:
  assumes "arSystem later = arSystem first" "arTools later = arTools first" "arToolsNil later = arToolsNil first"
    "arMetadata later = arMetadata first" "arMessages later = arMessages first @ added"
    "\<exists>m\<in>set (arMessages first). amRole m = ''user''" 
    "trimSpace (headerGet ''X-Claude-Code-Session-Id'' headers) = trimSpace (headerGet ''X-Claude-Code-Session-Id'' headers')"
  shows "ResolveSession headers later = ResolveSession headers' first"
proof -
  have "find (\<lambda>m. amRole m = ''user'') (arMessages later) = find (\<lambda>m. amRole m = ''user'') (arMessages first)"
    using assms(5,6) by (auto simp: find_append find_None_iff split: option.split)
  then have "firstUser later = firstUser first" by (simp add: firstUser_def)
  moreover have "metadataSessionID later = metadataSessionID first" by (simp add: metadataSessionID_def assms(4))
  moreover have "outTools later = outTools first" by (simp add: outTools_def assms(2,3))
  ultimately show ?thesis unfolding ResolveSession_def stableRequestSeed_def using assms(1,7) by (simp add: Let_def)
qed


theorem session_stable_over_turns_witness:
  "let first = zeroAnthropicRequest\<lparr>arMessages := [\<lparr>amRole = ''user'', amContent = ''1''\<rparr>]\<rparr>
   in ResolveSession [] (first\<lparr>arModel := ''m'', arMessages := arMessages first @ [\<lparr>amRole = ''assistant'', amContent = ''2''\<rparr>]\<rparr>)
     = ResolveSession [] first"
  unfolding Let_def by (rule session_stable_over_turns [where added = "[\<lparr>amRole = ''assistant'', amContent = ''2''\<rparr>]"]) simp_all

section \<open>Requests\<close>

lemma NewRequest_Inr:
  assumes "NewRequest now responsesBody credentials session client = (Inr request, client1)"
  obtains body where "Transform responsesBody = Inr body" "snKey session \<noteq> []" "snID session \<noteq> []"
    "trimSpace (crAccessToken credentials) \<noteq> []" "trimSpace (crAccountID credentials) \<noteq> []"
    "\<not> invalidHeaderValue (trimSpace (crAccessToken credentials))"
    "\<not> invalidHeaderValue (trimSpace (crAccountID credentials))"
    "client1 = client\<lparr>clTurnStates := snd (tsGet now (snKey session) (clTurnStates client))\<rparr>"
    "request = \<lparr>hqMethod = ''POST'', hqURL = clEndpoint client,
       hqHeader = (case fst (tsGet now (snKey session) (clTurnStates client)) of None \<Rightarrow> id | Some state \<Rightarrow> headerSet TurnStateHeader state)
         (headerDel ''conversation_id'' (headerSet ''session_id'' (snID session)
           (headerSet ''Accept'' ''text/event-stream'' (headerSet ''Content-Type'' ''application/json''
           (headerSet ''Authorization'' (''Bearer '' @ trimSpace (crAccessToken credentials))
           (headerSet AccountIDHeader (trimSpace (crAccountID credentials)) (headerSet ''OpenAI-Beta'' OpenAIBeta
           (headerSet ''version'' ClientVersion (headerSet ''originator'' Originator
           (headerSet ''User-Agent'' UserAgent [])))))))))), hqBody = body\<rparr>"
  using assms
  by (auto simp: NewRequest_def applyHeaders_def Let_def split: if_splits sum.splits prod.splits option.splits)

lemma lower_names:
  "lowerASCII ''Authorization'' = ''authorization''" "lowerASCII ''session_id'' = ''session_id''"
  "lowerASCII ''Accept'' = ''accept''" "lowerASCII ''Content-Type'' = ''content-type''"
  "lowerASCII AccountIDHeader = ''chatgpt-account-id''" "lowerASCII ''OpenAI-Beta'' = ''openai-beta''"
  "lowerASCII ''version'' = ''version''" "lowerASCII ''originator'' = ''originator''"
  "lowerASCII ''User-Agent'' = ''user-agent''" "lowerASCII TurnStateHeader = ''x-codex-turn-state''"
  "lowerASCII ''conversation_id'' = ''conversation_id''"
  by code_simp+

lemma headerGet_Nil: "headerGet n [] = []"
  by (simp add: headerGet_def)

text \<open>
  C19: A request that is sent has exactly the intended identity: one bearer token and one account, free of
  control characters, the session's identifier, no conversation identifier, the transformed body, and the
  continuation state the store holds for this very session, or none.
\<close>

theorem request_headers:
  assumes "NewRequest now responsesBody credentials session client = (Inr request, client1)"
  shows "hqMethod request = ''POST'' \<and> hqURL request = clEndpoint client
     \<and> Transform responsesBody = Inr (hqBody request)
     \<and> headerGet ''authorization'' (hqHeader request) = ''Bearer '' @ trimSpace (crAccessToken credentials)
     \<and> headerGet AccountIDHeader (hqHeader request) = trimSpace (crAccountID credentials)
     \<and> \<not> invalidHeaderValue (headerGet ''authorization'' (hqHeader request) @ headerGet AccountIDHeader (hqHeader request))
     \<and> headerGet ''session_id'' (hqHeader request) = snID session
     \<and> headerGet ''conversation_id'' (hqHeader request) = []
     \<and> headerGet TurnStateHeader (hqHeader request) =
         (case fst (tsGet now (snKey session) (clTurnStates client)) of None \<Rightarrow> [] | Some state \<Rightarrow> state)"
proof -
  from NewRequest_Inr [OF assms] obtain body where b: "Transform responsesBody = Inr body"
    "\<not> invalidHeaderValue (trimSpace (crAccessToken credentials))"
    "\<not> invalidHeaderValue (trimSpace (crAccountID credentials))"
    and r: "request = \<lparr>hqMethod = ''POST'', hqURL = clEndpoint client,
       hqHeader = (case fst (tsGet now (snKey session) (clTurnStates client)) of None \<Rightarrow> id | Some state \<Rightarrow> headerSet TurnStateHeader state)
         (headerDel ''conversation_id'' (headerSet ''session_id'' (snID session)
           (headerSet ''Accept'' ''text/event-stream'' (headerSet ''Content-Type'' ''application/json''
           (headerSet ''Authorization'' (''Bearer '' @ trimSpace (crAccessToken credentials))
           (headerSet AccountIDHeader (trimSpace (crAccountID credentials)) (headerSet ''OpenAI-Beta'' OpenAIBeta
           (headerSet ''version'' ClientVersion (headerSet ''originator'' Originator
           (headerSet ''User-Agent'' UserAgent [])))))))))), hqBody = body\<rparr>" by blast
  have names: "lowerASCII ''authorization'' = ''authorization''" by code_simp
  have a: "lowerByte CHR ''a'' = CHR ''a''" "lowerByte CHR ''A'' = CHR ''a''" by code_simp+
  have bearer: "\<not> invalidHeaderValue ''Bearer ''" by code_simp
  show ?thesis
    unfolding r using b bearer
    by (cases "fst (tsGet now (snKey session) (clTurnStates client))")
      (simp_all add: headerGet_set headerGet_del headerGet_Nil lower_names names a invalidHeaderValue_def)
qed


lemma hexText_not_blank: "0 < n \<Longrightarrow> hexText n s \<Longrightarrow> \<not> isBlank s"
proof -
  assume h: "0 < n" "hexText n s"
  then have ne: "s \<noteq> []" by (auto simp: hexText_def)
  have edges: "list_all (\<lambda>c. c \<notin> set (map hd space_runes) \<and> c \<notin> set (map last space_runes)) ''0123456789abcdef''" by code_simp
  then have edge: "\<forall>c\<in>set ''0123456789abcdef''. c \<notin> set (map hd space_runes) \<and> c \<notin> set (map last space_runes)"
    by (simp only: list_all_iff)
  have sub: "set s \<subseteq> set ''0123456789abcdef''" using h(2) unfolding hexText_def by (rule conjunct2)
  have out: "c \<notin> set (map hd space_runes) \<and> c \<notin> set (map last space_runes)" if "c \<in> set s" for c
    by (rule bspec [OF edge subsetD [OF sub that]])
  have "trimSpace s = s" by (rule trim_edges [OF ne out [OF hd_in_set [OF ne], THEN conjunct1] out [OF last_in_set [OF ne], THEN conjunct2]])
  with ne show ?thesis by (simp add: isBlank_def)
qed

lemma newSession_key_not_blank: "\<not> isBlank (snKey (newSession source seed))"
  by (rule hexText_not_blank [of 64]) (simp_all add: newSession_def Let_def hexText_hexString)

lemma NewRequest_ok:
  assumes "snKey session \<noteq> []" "snID session \<noteq> []" "Transform responsesBody = Inr body"
    "trimSpace (crAccessToken credentials) \<noteq> []" "trimSpace (crAccountID credentials) \<noteq> []"
    "\<not> invalidHeaderValue (trimSpace (crAccessToken credentials))"
    "\<not> invalidHeaderValue (trimSpace (crAccountID credentials))"
  shows "\<exists>request client1. NewRequest now responsesBody credentials session client = (Inr request, client1)"
  using assms by (simp add: NewRequest_def applyHeaders_def Let_def split: prod.split)

lemma transform_empty: "\<exists>body. Transform ''{}'' = Inr body"
proof -
  have "json_parse ''{}'' = Some (JObj [])" by code_simp
  moreover have "toAny (JObj []) = AObj []" by (simp add: fromPairs_def)
  ultimately show ?thesis using transform_ok by blast
qed

text \<open>A request that can be sent, for the concrete instances below.\<close>

lemma sample_request:
  obtains request client1 where "NewRequest 0 ''{}'' \<lparr>crAccessToken = ''t'', crAccountID = ''a''\<rparr> (newSession ''header'' ''s'')
      \<lparr>clEndpoint = DefaultEndpoint, clTurnStates = NewTurnStateStore 0\<rparr> = (Inr request, client1)"
proof -
  let ?cr = "\<lparr>crAccessToken = ''t'', crAccountID = ''a''\<rparr>"
  let ?cl = "\<lparr>clEndpoint = DefaultEndpoint, clTurnStates = NewTurnStateStore 0\<rparr>"
  obtain body where body: "Transform ''{}'' = Inr body" using transform_empty ..
  have t: "trimSpace ''t'' = ''t''" "trimSpace ''a'' = ''a''" "\<not> invalidHeaderValue ''t''" "\<not> invalidHeaderValue ''a''" by code_simp+
  have "length (snKey (newSession ''header'' ''s'')) \<noteq> 0" by (simp add: newSession_def Let_def)
  then have key: "snKey (newSession ''header'' ''s'') \<noteq> []" by (rule contrapos_nn) (simp only: list.size)
  have "snID (newSession ''header'' ''s'') \<noteq> []" by (simp add: newSession_def deterministicUUID_def Let_def)
  from NewRequest_ok [OF key this body] t
  have "\<exists>request client1. NewRequest 0 ''{}'' ?cr (newSession ''header'' ''s'') ?cl = (Inr request, client1)" by simp
  with that show thesis by blast
qed

theorem request_headers_witness:
  "\<exists>request client1. NewRequest 0 ''{}'' \<lparr>crAccessToken = ''t'', crAccountID = ''a''\<rparr> (newSession ''header'' ''s'')
      \<lparr>clEndpoint = DefaultEndpoint, clTurnStates = NewTurnStateStore 0\<rparr> = (Inr request, client1)
    \<and> headerGet ''authorization'' (hqHeader request) = ''Bearer t''"
proof -
  obtain request client1 where r: "NewRequest 0 ''{}'' \<lparr>crAccessToken = ''t'', crAccountID = ''a''\<rparr> (newSession ''header'' ''s'')
      \<lparr>clEndpoint = DefaultEndpoint, clTurnStates = NewTurnStateStore 0\<rparr> = (Inr request, client1)"
    by (rule sample_request)
  have "trimSpace ''t'' = ''t''" by code_simp
  with request_headers [OF r] have "headerGet ''authorization'' (hqHeader request) = ''Bearer t''" by simp
  with r show ?thesis by blast
qed

section \<open>Continuation state\<close>

text \<open>
  C20: Continuation. The state a successful response carries is sent with the next request of the same session
  while it is young, and no exchange changes what the requests of any other session carry; a response without
  a state, or with an error status, leaves the store as the request found it.
\<close>

theorem turn_state_follows_session:
  assumes "Do send now1 now2 responsesBody credentials session (client, w) = (Inr response, client1, w1)"
    "\<not> isBlank (snKey session)" "now < now2 + tsTTL (clTurnStates client)"
  shows "fst (tsGet now (snKey session) (clTurnStates client1)) =
      (if 200 \<le> hrStatus response \<and> hrStatus response < 300 \<and> trimSpace (headerGet TurnStateHeader (hrHeader response)) \<noteq> []
       then Some (trimSpace (headerGet TurnStateHeader (hrHeader response)))
       else fst (tsGet now (snKey session) (snd (tsGet now1 (snKey session) (clTurnStates client)))))
    \<and> (\<forall>k. k \<noteq> snKey session \<longrightarrow> fst (tsGet now k (clTurnStates client1)) = fst (tsGet now k (clTurnStates client)))"
proof -
  let ?s = "snd (tsGet now1 (snKey session) (clTurnStates client))"
  have n: "\<exists>request. NewRequest now1 responsesBody credentials session client = (Inr request, client\<lparr>clTurnStates := ?s\<rparr>)"
  proof -
    obtain r client2 where nr: "NewRequest now1 responsesBody credentials session client = (r, client2)" by fastforce
    then obtain request where "r = Inr request" using assms(1) by (cases r) (auto simp: Do_def)
    with nr NewRequest_Inr [of now1 responsesBody credentials session client request client2] show ?thesis by blast
  qed
  define answer where "answer =
    (if 200 \<le> hrStatus response \<and> hrStatus response < 300 \<and> trimSpace (headerGet TurnStateHeader (hrHeader response)) \<noteq> []
     then Some (headerGet TurnStateHeader (hrHeader response)) else None)"
  from n have c1: "clTurnStates client1 = turn_states.exchange now1 now2 (snKey session) answer (clTurnStates client)"
    using assms(1) by (auto simp: Do_def Let_def answer_def turn_states.exchange_def split: prod.splits sum.splits)
  show ?thesis
  proof (intro conjI allI impI)
    show "fst (tsGet now (snKey session) (clTurnStates client1)) =
      (if 200 \<le> hrStatus response \<and> hrStatus response < 300 \<and> trimSpace (headerGet TurnStateHeader (hrHeader response)) \<noteq> []
       then Some (trimSpace (headerGet TurnStateHeader (hrHeader response)))
       else fst (tsGet now (snKey session) ?s))"
      using turn_states.exchange_own [OF assms(2) _ assms(3)]
      by (simp add: c1 answer_def isBlank_def) (simp add: turn_states.exchange_def)
    show "fst (tsGet now k (clTurnStates client1)) = fst (tsGet now k (clTurnStates client))" if "k \<noteq> snKey session" for k
      unfolding c1 using that by (rule turn_states.exchange_other)
  qed
qed

theorem turn_state_follows_session_witness:
  "\<exists>client1. fst (tsGet 1 (snKey (newSession ''header'' ''s'')) (clTurnStates client1)) = Some ''x''
     \<and> Do (\<lambda>request w. (Inr \<lparr>hrStatus = 200, hrHeader = [(TurnStateHeader, ''x'')], hrBody = [], hrEnd = IoEOF\<rparr>, w)) 0 0 ''{}''
         \<lparr>crAccessToken = ''t'', crAccountID = ''a''\<rparr> (newSession ''header'' ''s'')
         (\<lparr>clEndpoint = DefaultEndpoint, clTurnStates = NewTurnStateStore 0\<rparr>, ())
       = (Inr \<lparr>hrStatus = 200, hrHeader = [(TurnStateHeader, ''x'')], hrBody = [], hrEnd = IoEOF\<rparr>, client1, ())"
proof -
  let ?resp = "\<lparr>hrStatus = 200, hrHeader = [(TurnStateHeader, ''x'')], hrBody = [], hrEnd = IoEOF\<rparr>"
  let ?send = "\<lambda>request w. (Inr ?resp, w)"
  let ?cr = "\<lparr>crAccessToken = ''t'', crAccountID = ''a''\<rparr>"
  let ?s = "newSession ''header'' ''s''"
  let ?cl = "\<lparr>clEndpoint = DefaultEndpoint, clTurnStates = NewTurnStateStore 0\<rparr>"
  obtain request client1 where r: "NewRequest 0 ''{}'' ?cr ?s ?cl = (Inr request, client1)" by (rule sample_request)
  then obtain client2 where d: "Do ?send 0 0 ''{}'' ?cr ?s (?cl, ()) = (Inr ?resp, client2, ())"
    by (simp add: Do_def Let_def)
  have get: "headerGet TurnStateHeader [(TurnStateHeader, ''x'')] = ''x''" by (simp add: headerGet_def)
  have x: "trimSpace ''x'' = ''x''" by code_simp
  have "fst (tsGet 1 (snKey ?s) (clTurnStates client2)) = Some ''x''"
    using turn_state_follows_session [OF d newSession_key_not_blank, of 1]
    by (simp add: get x NewTurnStateStore_def DefaultTurnStateTTL_def)
  with d show ?thesis by blast
qed

end
