(* ===== verification/Server_Response.thy ===== *)
theory Server_Response
  imports Http Sse_Codec Response_Blocks
begin

text \<open>
  What the handlers of \<^verbatim>\<open>internal/server\<close> write: the \<^verbatim>\<open>http.ResponseWriter\<close>, JSON bodies and errors, and the
  messages of errors that may be shown to a client.
\<close>

section \<open>The response writer\<close>

text \<open>
  The headers are sent with the status by the first \<^verbatim>\<open>WriteHeader\<close> or \<^verbatim>\<open>Write\<close>; a later status is ignored.
  \<open>rwRoom\<close> is how many bytes of body the connection still takes before it breaks, if it does: a write that does
  not fit delivers what fits and fails.
\<close>

record ResponseWriter =
  rwHeader :: headers
  rwSent :: "(int \<times> headers) option"
  rwBody :: string
  rwRoom :: "nat option"

definition newWriter :: "nat option \<Rightarrow> ResponseWriter" where
  "newWriter room = \<lparr>rwHeader = [], rwSent = None, rwBody = [], rwRoom = room\<rparr>"

definition setHeader :: "string \<Rightarrow> string \<Rightarrow> ResponseWriter \<Rightarrow> ResponseWriter" where
  "setHeader name v w = w\<lparr>rwHeader := headerSet name v (rwHeader w)\<rparr>"

definition writeHeader :: "int \<Rightarrow> ResponseWriter \<Rightarrow> ResponseWriter" where
  "writeHeader status w = (case rwSent w of None \<Rightarrow> w\<lparr>rwSent := Some (status, rwHeader w)\<rparr> | Some _ \<Rightarrow> w)"

definition writeBytes :: "string \<Rightarrow> ResponseWriter \<Rightarrow> ResponseWriter \<times> bool" where
  "writeBytes bs w =
     (let w1 = writeHeader 200 w in
      case rwRoom w1 of
        None \<Rightarrow> (w1\<lparr>rwBody := rwBody w1 @ bs\<rparr>, True)
      | Some n \<Rightarrow> (w1\<lparr>rwBody := rwBody w1 @ take n bs, rwRoom := Some (n - length bs)\<rparr>, length bs \<le> n))"

lemma writer_simps [simp]:
  "rwSent (setHeader n v w) = rwSent w" "rwBody (setHeader n v w) = rwBody w" "rwRoom (setHeader n v w) = rwRoom w"
  "rwHeader (setHeader n v w) = headerSet n v (rwHeader w)"
  "rwBody (writeHeader st w) = rwBody w" "rwRoom (writeHeader st w) = rwRoom w" "rwHeader (writeHeader st w) = rwHeader w"
  "rwSent (writeHeader st w) = (case rwSent w of None \<Rightarrow> Some (st, rwHeader w) | Some x \<Rightarrow> Some x)"
  by (simp_all add: setHeader_def writeHeader_def split: option.split)

section \<open>JSON bodies\<close>

text \<open>The encoder writes the value and a line feed at once, or nothing when it cannot encode it.\<close>

definition writeJSON :: "int \<Rightarrow> jout \<Rightarrow> ResponseWriter \<Rightarrow> ResponseWriter" where
  "writeJSON status v w =
     (let w1 = writeHeader status (setHeader ''Content-Type'' ''application/json'' w)
      in case marshal v of None \<Rightarrow> w1 | Some bs \<Rightarrow> fst (writeBytes (bs @ [LF]) w1))"

definition writeError :: "int \<Rightarrow> string \<Rightarrow> string \<Rightarrow> ResponseWriter \<Rightarrow> ResponseWriter" where
  "writeError status errorType message =
     writeJSON status (outStreamEvent (NewAnthropicErrorEvent errorType message))"

section \<open>Error texts\<close>

text \<open>
  \<^verbatim>\<open>Error()\<close> of an error value. \<open>quote\<close> is \<^verbatim>\<open>strconv.Quote\<close>, which needs the Unicode tables; \<open>opaque\<close> gives the
  texts of errors the standard library makes.
\<close>

fun errorText :: "(string \<Rightarrow> string) \<Rightarrow> (go_error \<Rightarrow> string) \<Rightarrow> go_error \<Rightarrow> string" where
  "errorText quote opaque (ErrNew s) = s"
| "errorText quote opaque (ErrQuoted p s) = p @ quote s"
| "errorText quote opaque (ErrWrap p e) = p @ errorText quote opaque e"
| "errorText quote opaque (ErrWrapQuoted p s m e) = p @ quote s @ m @ errorText quote opaque e"
| "errorText quote opaque (UpstreamResponseError code message) = upstreamErrorText code message"
| "errorText quote opaque ErrMissingTerminalEvent = ''Responses stream ended without a terminal event''"
| "errorText quote opaque ErrSSEEventTooLarge = ''SSE event exceeds configured size limit''"
| "errorText quote opaque ErrResponsesDone = ''Responses stream sent [DONE]''"
| "errorText quote opaque ErrSSEIdleTimeout = ''upstream SSE idle timeout''"
| "errorText quote opaque ErrNotLoggedIn = ''not logged in''"
| "errorText quote opaque e = opaque e"

text \<open>\<^verbatim>\<open>publicMessage\<close>: control characters but the tab dropped, invalid bytes replaced, at most 512 bytes.\<close>

definition shown :: "char \<Rightarrow> bool" where
  "shown c \<longleftrightarrow> 0x20 \<le> byte_val c \<or> c = CHR 0x09"

definition publicMessage :: "string \<Rightarrow> string \<Rightarrow> string" where
  "publicMessage errText fallback =
     (let message = trimSpace (filter shown (to_utf8 errText)) in
      if message = [] then fallback else take 512 message)"

text \<open>\<^verbatim>\<open>errors.As\<close> with a \<^verbatim>\<open>*protocol.UpstreamResponseError\<close>.\<close>

fun asUpstream :: "go_error \<Rightarrow> (string \<times> string) option" where
  "asUpstream (UpstreamResponseError code message) = Some (code, message)"
| "asUpstream (ErrWrap p e) = asUpstream e"
| "asUpstream (ErrWrapQuoted p s m e) = asUpstream e"
| "asUpstream e = None"

definition processingMessage :: "go_error \<Rightarrow> string" where
  "processingMessage err =
     (if errorsIs err ErrSSEIdleTimeout then ''Upstream response timed out''
      else (case asUpstream err of
          Some (code, message) \<Rightarrow> publicMessage (upstreamErrorText code message) ''Upstream response stream failed''
        | None \<Rightarrow> ''Upstream response stream failed''))"

text \<open>\<^verbatim>\<open>writeProcessingError\<close>: a JSON error before the stream has started, an error event after.\<close>

definition writeProcessingError :: "go_error \<Rightarrow> bool \<Rightarrow> ResponseWriter \<Rightarrow> ResponseWriter" where
  "writeProcessingError err started w =
     (if \<not> started then writeError 502 ''api_error'' (processingMessage err) w
      else (case EncodeAnthropicSSE (NewAnthropicErrorEvent ''api_error'' (processingMessage err)) of
          Inl e \<Rightarrow> w
        | Inr bs \<Rightarrow> fst (writeBytes bs w)))"

end
