(* ===== verification/Server_Stream.thy ===== *)
theory Server_Stream
  imports Server_Response Stream_Converter Accumulator_Laws
begin

text \<open>
  \<^verbatim>\<open>internal/server/stream.go\<close>: how the handler waits for the next frame of the upstream stream, and the two
  loops that serve a response, streamed or as a whole. The goroutine that reads frames is \<open>decodeResponseFrames\<close>;
  what the select statement sees is a schedule of wake-ups.
\<close>

section \<open>Waiting for a frame\<close>

text \<open>
  One wake-up of the \<^verbatim>\<open>select\<close> in \<^verbatim>\<open>nextFrame\<close>: the request's context is done (with its error); the body
  delivered bytes; the frame channel is ready, with the next result or, when the reader has stopped after its
  error, closed; it is closed before that, because the reader has seen the context end; the timer fired, with
  activity pending or not. The flag of a result says whether the request's context has ended by the time the
  handler looks at it.
\<close>

datatype wake =
    CtxDone go_error
  | Active
  | Received bool
  | Stopped_Reader
  | TimerFired bool bool

text \<open>The result, whether the request has ended, and what is left; \<open>None\<close> while still waiting.\<close>

fun nextFrame :: "frameResult list \<Rightarrow> wake list \<Rightarrow> ((SSEFrame result \<times> bool) \<times> frameResult list \<times> wake list) option" where
  "nextFrame frames [] = None"
| "nextFrame frames (CtxDone err # ws) = Some ((Inl err, True), frames, ws)"
| "nextFrame frames (Active # ws) = nextFrame frames ws"
| "nextFrame frames (Received ended # ws) =
     (case frames of
        [] \<Rightarrow> Some ((Inl IoEOF, ended), [], ws)
      | result # rest \<Rightarrow> Some ((result, ended), rest, ws))"
| "nextFrame frames (Stopped_Reader # ws) = Some ((Inl IoEOF, True), frames, ws)"
| "nextFrame frames (TimerFired activity ended # ws) =
     (if activity then nextFrame frames ws else Some ((Inl ErrSSEIdleTimeout, ended), frames, ws))"

lemma nextFrame_shorter: "nextFrame frames ws = Some (r, frames', ws') \<Longrightarrow> length ws' < length ws"
  by (induction frames ws rule: nextFrame.induct) (auto split: list.splits if_splits)

section \<open>Streaming\<close>

text \<open>How a handler ends: with what it has written, and whether it has cancelled the upstream request itself.\<close>

record served =
  svWriter :: ResponseWriter
  svCancelled :: bool

definition startStream :: "ResponseWriter \<Rightarrow> ResponseWriter" where
  "startStream w = writeHeader 200 (setHeader ''Connection'' ''keep-alive''
     (setHeader ''Cache-Control'' ''no-cache'' (setHeader ''Content-Type'' ''text/event-stream'' w)))"

text \<open>The events of one step, written one by one; the last component is false when one could not be.\<close>

fun sendEvents :: "AnthropicStreamEvent list \<Rightarrow> bool \<Rightarrow> ResponseWriter \<Rightarrow> bool \<times> ResponseWriter \<times> bool" where
  "sendEvents [] started w = (started, w, True)"
| "sendEvents (event # events) started w =
     (let w1 = (if started then w else startStream w) in
      case EncodeAnthropicSSE event of
        Inl err \<Rightarrow> (True, w1, False)
      | Inr encoded \<Rightarrow>
          (case writeBytes encoded w1 of
             (w2, False) \<Rightarrow> (True, w2, False)
           | (w2, True) \<Rightarrow> sendEvents events True w2))"

text \<open>The end of a stream: nothing to report, or an error that cancels the upstream request and is reported.\<close>

definition finish :: "go_error option \<Rightarrow> bool \<Rightarrow> ResponseWriter \<Rightarrow> served" where
  "finish err started w =
     (case err of
        None \<Rightarrow> \<lparr>svWriter = w, svCancelled = False\<rparr>
      | Some e \<Rightarrow> \<lparr>svWriter = writeProcessingError e started w, svCancelled = True\<rparr>)"

definition endOfStream :: "go_error \<Rightarrow> bool" where
  "endOfStream err \<longleftrightarrow> errorsIs err IoEOF \<or> errorsIs err ErrResponsesDone"

function streamLoop :: "ResponsesStreamConverter \<Rightarrow> bool \<Rightarrow> ResponseWriter \<Rightarrow> frameResult list \<Rightarrow> wake list \<Rightarrow> served option" where
  "streamLoop converter started w frames wakes =
     (case nextFrame frames wakes of
        None \<Rightarrow> None
      | Some ((Inl err, ended), frames1, wakes1) \<Rightarrow>
          if errorsIs err CtxCanceled \<or> errorsIs err CtxDeadlineExceeded \<or> ended
          then Some \<lparr>svWriter = w, svCancelled = True\<rparr>
          else Some (finish (if endOfStream err then converterFinalize converter else Some err) started w)
      | Some ((Inr frame, ended), frames1, wakes1) \<Rightarrow>
          (case DecodeResponsesEvent frame of
             Inl err \<Rightarrow>
               Some (finish (if errorsIs err ErrResponsesDone then converterFinalize converter else Some err) started w)
           | Inr event \<Rightarrow>
               (case process converter event of
                  (converter1, Inl err) \<Rightarrow> Some (finish (Some err) started w)
                | (converter1, Inr events) \<Rightarrow>
                    (case sendEvents events started w of
                       (started1, w1, False) \<Rightarrow> Some \<lparr>svWriter = w1, svCancelled = True\<rparr>
                     | (started1, w1, True) \<Rightarrow>
                         if isTerminalResponsesEvent (evType event)
                         then Some \<lparr>svWriter = w1, svCancelled = False\<rparr>
                         else streamLoop converter1 started1 w1 frames1 wakes1))))"
  by pat_completeness auto
termination
  by (relation "measure (\<lambda>(c, s, w, fs, ws). length ws)") (auto dest: nextFrame_shorter)

declare streamLoop.simps [simp del]

definition streamResponse :: "int \<Rightarrow> string \<Rightarrow> ResponseWriter \<Rightarrow> string \<Rightarrow> go_error \<Rightarrow> wake list \<Rightarrow> served option" where
  "streamResponse maxSSEEventBytes model w body e wakes =
     streamLoop (NewResponsesStreamConverter model) False w (decodeResponseFrames body e maxSSEEventBytes) wakes"

section \<open>Not streaming\<close>

text \<open>
  The errors of \<^verbatim>\<open>Finalize\<close> and of the conversion after a terminal event are reported without cancelling the
  upstream request. A panic of the accumulator ends the handler (\<^verbatim>\<open>net/http\<close> recovers it and drops the
  connection).
\<close>

definition answer :: "string \<Rightarrow> ResponseWriter \<Rightarrow> ResponseAccumulator \<Rightarrow> served" where
  "answer model w accumulator =
     (case accFinalize accumulator of
        Inl err \<Rightarrow> \<lparr>svWriter = writeProcessingError err False w, svCancelled = False\<rparr>
      | Inr terminal \<Rightarrow>
          (case ResponsesToAnthropic (Some terminal) model of
             Inl err \<Rightarrow> \<lparr>svWriter = writeProcessingError err False w, svCancelled = False\<rparr>
           | Inr response \<Rightarrow> \<lparr>svWriter = writeJSON 200 (outResponse response) w, svCancelled = False\<rparr>))"

function nonStreamLoop :: "string \<Rightarrow> ResponseAccumulator \<Rightarrow> ResponseWriter \<Rightarrow> frameResult list \<Rightarrow> wake list \<Rightarrow> served go option" where
  "nonStreamLoop model accumulator w frames wakes =
     (case nextFrame frames wakes of
        None \<Rightarrow> None
      | Some ((Inl err, ended), frames1, wakes1) \<Rightarrow>
          if ended then Some (Ret \<lparr>svWriter = w, svCancelled = True\<rparr>)
          else Some (Ret (finish (if endOfStream err then accFinalError accumulator else Some err) False w))
      | Some ((Inr frame, ended), frames1, wakes1) \<Rightarrow>
          (case DecodeResponsesEvent frame of
             Inl err \<Rightarrow>
               Some (Ret (finish (if errorsIs err ErrResponsesDone then accFinalError accumulator else Some err) False w))
           | Inr event \<Rightarrow>
               (case accProcess accumulator event of
                  Panic p \<Rightarrow> Some (Panic p)
                | Ret (accumulator1, Some err) \<Rightarrow> Some (Ret (finish (Some err) False w))
                | Ret (accumulator1, None) \<Rightarrow>
                    if isTerminalResponsesEvent (evType event) then Some (Ret (answer model w accumulator1))
                    else nonStreamLoop model accumulator1 w frames1 wakes1)))"
  by pat_completeness auto
termination
  by (relation "measure (\<lambda>(m, a, w, fs, ws). length ws)") (auto dest: nextFrame_shorter)

declare nonStreamLoop.simps [simp del]

definition nonStreamResponse :: "int \<Rightarrow> string \<Rightarrow> ResponseWriter \<Rightarrow> string \<Rightarrow> go_error \<Rightarrow> wake list \<Rightarrow> served go option" where
  "nonStreamResponse maxSSEEventBytes model w body e wakes =
     nonStreamLoop model NewResponseAccumulator w (decodeResponseFrames body e maxSSEEventBytes) wakes"

end
