(* ===== verification/Json_Stream.thy ===== *)
theory Json_Stream
  imports Json_Decode
begin

text \<open>
  \<^verbatim>\<open>json.Decoder\<close>: one value read from a stream of bytes that ends, or breaks off, with an error. Whether a text
  without a complete value is wrong or only incomplete is decided by the scanner, a machine over single bytes.
\<close>

section \<open>The scanner\<close>

datatype scan_state =
    ScBeginValue | ScBeginValueOrEmpty | ScBeginString | ScBeginStringOrEmpty | ScEndValue | ScEndTop
  | ScString | ScEscape | ScHex nat | ScNeg | ScZero | ScDigits | ScDot | ScFraction | ScExp | ScExpSign | ScExpDigits
  | ScLiteral string

datatype enclosing = ObjectKey | ObjectValue | ArrayValue

type_synonym scanner = "scan_state \<times> enclosing list"

definition pushState :: "scan_state \<Rightarrow> enclosing \<Rightarrow> enclosing list \<Rightarrow> scanner option" where
  "pushState s e stack = (if length stack < max_nesting then Some (s, e # stack) else None)"

definition popState :: "enclosing list \<Rightarrow> scanner option" where
  "popState stack = Some (if stack = [] then ScEndTop else ScEndValue, stack)"

definition stateBeginValue :: "enclosing list \<Rightarrow> char \<Rightarrow> scanner option" where
  "stateBeginValue stack c =
     (if json_space c then Some (ScBeginValue, stack)
      else if c = CHR ''{'' then pushState ScBeginStringOrEmpty ObjectKey stack
      else if c = CHR ''['' then pushState ScBeginValueOrEmpty ArrayValue stack
      else if c = quote_char then Some (ScString, stack)
      else if c = CHR ''-'' then Some (ScNeg, stack)
      else if c = CHR ''0'' then Some (ScZero, stack)
      else if is_digit c then Some (ScDigits, stack)
      else if c = CHR ''t'' then Some (ScLiteral ''rue'', stack)
      else if c = CHR ''f'' then Some (ScLiteral ''alse'', stack)
      else if c = CHR ''n'' then Some (ScLiteral ''ull'', stack)
      else None)"

definition stateBeginString :: "enclosing list \<Rightarrow> char \<Rightarrow> scanner option" where
  "stateBeginString stack c =
     (if json_space c then Some (ScBeginString, stack)
      else if c = quote_char then Some (ScString, stack)
      else None)"

fun stateEndValue :: "enclosing list \<Rightarrow> char \<Rightarrow> scanner option" where
  "stateEndValue [] c = Some (ScEndTop, [])"
| "stateEndValue (e # stack) c =
     (if json_space c then Some (ScEndValue, e # stack)
      else case e of
          ObjectKey \<Rightarrow> if c = CHR '':'' then Some (ScBeginValue, ObjectValue # stack) else None
        | ObjectValue \<Rightarrow>
            if c = CHR '','' then Some (ScBeginString, ObjectKey # stack)
            else if c = CHR ''}'' then popState stack else None
        | ArrayValue \<Rightarrow>
            if c = CHR '','' then Some (ScBeginValue, ArrayValue # stack)
            else if c = CHR '']'' then popState stack else None)"

definition stateNumber :: "enclosing list \<Rightarrow> char \<Rightarrow> scanner option" where
  "stateNumber stack c =
     (if c = CHR ''.'' then Some (ScDot, stack)
      else if c = CHR ''e'' \<or> c = CHR ''E'' then Some (ScExp, stack)
      else stateEndValue stack c)"

fun scanStep :: "scanner \<Rightarrow> char \<Rightarrow> scanner option" where
  "scanStep (ScBeginValue, stack) c = stateBeginValue stack c"
| "scanStep (ScBeginValueOrEmpty, stack) c =
     (if json_space c then Some (ScBeginValueOrEmpty, stack)
      else if c = CHR '']'' then stateEndValue stack c else stateBeginValue stack c)"
| "scanStep (ScBeginString, stack) c = stateBeginString stack c"
| "scanStep (ScBeginStringOrEmpty, stack) c =
     (if json_space c then Some (ScBeginStringOrEmpty, stack)
      else if c = CHR ''}'' then stateEndValue (ObjectValue # tl stack) c else stateBeginString stack c)"
| "scanStep (ScEndValue, stack) c = stateEndValue stack c"
| "scanStep (ScEndTop, stack) c = Some (ScEndTop, stack)"
| "scanStep (ScString, stack) c =
     (if c = quote_char then Some (ScEndValue, stack)
      else if c = backslash then Some (ScEscape, stack)
      else if byte_val c < 0x20 then None else Some (ScString, stack))"
| "scanStep (ScEscape, stack) c =
     (if c = CHR ''u'' then Some (ScHex 4, stack)
      else if simple_escape c \<noteq> None then Some (ScString, stack) else None)"
| "scanStep (ScHex n, stack) c =
     (if hex_val c = None then None else Some (if n \<le> 1 then ScString else ScHex (n - 1), stack))"
| "scanStep (ScNeg, stack) c =
     (if c = CHR ''0'' then Some (ScZero, stack) else if is_digit c then Some (ScDigits, stack) else None)"
| "scanStep (ScZero, stack) c = stateNumber stack c"
| "scanStep (ScDigits, stack) c = (if is_digit c then Some (ScDigits, stack) else stateNumber stack c)"
| "scanStep (ScDot, stack) c = (if is_digit c then Some (ScFraction, stack) else None)"
| "scanStep (ScFraction, stack) c =
     (if is_digit c then Some (ScFraction, stack)
      else if c = CHR ''e'' \<or> c = CHR ''E'' then Some (ScExp, stack) else stateEndValue stack c)"
| "scanStep (ScExp, stack) c =
     (if c = CHR ''+'' \<or> c = CHR ''-'' then Some (ScExpSign, stack)
      else if is_digit c then Some (ScExpDigits, stack) else None)"
| "scanStep (ScExpSign, stack) c = (if is_digit c then Some (ScExpDigits, stack) else None)"
| "scanStep (ScExpDigits, stack) c = (if is_digit c then Some (ScExpDigits, stack) else stateEndValue stack c)"
| "scanStep (ScLiteral [], stack) c = stateEndValue stack c"
| "scanStep (ScLiteral (x # xs), stack) c =
     (if c = x then Some (if xs = [] then ScEndValue else ScLiteral xs, stack) else None)"

fun scanAll :: "scanner \<Rightarrow> string \<Rightarrow> scanner option" where
  "scanAll sc [] = Some sc"
| "scanAll sc (c # s) = (case scanStep sc c of None \<Rightarrow> None | Some sc1 \<Rightarrow> scanAll sc1 s)"

definition scanFails :: "string \<Rightarrow> bool" where
  "scanFails s \<longleftrightarrow> scanAll (ScBeginValue, []) s = None"

section \<open>Reading a value\<close>

definition scalar :: "json \<Rightarrow> bool" where
  "scalar j = (case j of JArr es \<Rightarrow> False | JObj ms \<Rightarrow> False | _ \<Rightarrow> True)"

text \<open>
  The value, its text, and what is left. A scalar is only known to be complete at the byte after it or at the
  end of the input; an error of the reader before that wins.
\<close>

definition readValue :: "string \<Rightarrow> go_error \<Rightarrow> (json \<times> string \<times> string) result" where
  "readValue s e =
     (if skip_ws s = [] then Inl e
      else (case parse_prefix (skip_ws s) of
          Some (j, rest) \<Rightarrow>
            if scalar j \<and> rest = [] \<and> e \<noteq> IoEOF then Inl e
            else Inr (j, take (length (skip_ws s) - length rest) (skip_ws s), rest)
        | None \<Rightarrow>
            if scanFails s then Inl ErrJson else if e = IoEOF then Inl (ReadError ''unexpected EOF'') else Inl e))"

text \<open>\<^verbatim>\<open>Decode\<close> into a fresh value, and the test that nothing but white space follows it.\<close>

definition decodeStream :: "'a \<Rightarrow> 'a dec \<Rightarrow> string \<Rightarrow> go_error \<Rightarrow> ('a \<times> string) result" where
  "decodeStream zero dec s e =
     (case readValue s e of
        Inl err \<Rightarrow> Inl err
      | Inr (j, raw, rest) \<Rightarrow> (case dec zero raw j of None \<Rightarrow> Inl ErrJson | Some v \<Rightarrow> Inr (v, rest)))"

definition streamEnds :: "string \<Rightarrow> go_error \<Rightarrow> bool" where
  "streamEnds rest e \<longleftrightarrow> skip_ws rest = [] \<and> e = IoEOF"

end
