(* ===== verification/Token_Types.thy ===== *)
theory Token_Types
  imports Json_Reads
begin

text \<open>
  The credentials of \<^verbatim>\<open>internal/auth\<close>, what makes them valid, and what of them the server sees.
\<close>

definition CredentialsVersion :: int where
  "CredentialsVersion = 1"

text \<open>
  A point in time is its number of nanoseconds since the epoch; \<open>zeroTime\<close> is Go's zero \<^verbatim>\<open>time.Time\<close>, the first
  of January of the year 1. A time keeps no more than its instant: the zone only shows in its text.
\<close>

type_synonym time = int

definition zeroTime :: time where
  "zeroTime = - 62135596800 * 1000000000"

record AuthCredentials =
  acVersion :: int
  acAccessToken :: string
  acRefreshToken :: string
  acExpiresAt :: time
  acAccountID :: string
  acLocalSecret :: string

definition zeroAuthCredentials :: AuthCredentials where
  "zeroAuthCredentials = \<lparr>acVersion = 0, acAccessToken = [], acRefreshToken = [], acExpiresAt = zeroTime,
     acAccountID = [], acLocalSecret = []\<rparr>"

record Access =
  axAccessToken :: string
  axAccountID :: string

definition accessFromCredentials :: "AuthCredentials \<Rightarrow> Access" where
  "accessFromCredentials c = \<lparr>axAccessToken = acAccessToken c, axAccountID = acAccountID c\<rparr>"

text \<open>Ranging over the runes of a string, none but an ASCII one is below 0x20 or equal to 0x7f.\<close>

definition controlFree :: "string \<Rightarrow> bool" where
  "controlFree v = (\<not> list_ex (\<lambda>c. byte_val c < 0x20 \<or> byte_val c = 0x7F) v)"

definition requiredFields :: "AuthCredentials \<Rightarrow> bool" where
  "requiredFields c \<longleftrightarrow> \<not> isBlank (acAccessToken c) \<and> \<not> isBlank (acRefreshToken c) \<and> \<not> isBlank (acAccountID c)
     \<and> \<not> isBlank (acLocalSecret c) \<and> acExpiresAt c \<noteq> zeroTime"

definition validateCredentials :: "AuthCredentials \<Rightarrow> go_error option" where
  "validateCredentials c =
     (if acVersion c \<noteq> CredentialsVersion then
        Some (ErrNew (''validate credentials: unsupported version '' @ show_int (acVersion c)))
      else if \<not> requiredFields c then Some (ErrNew ''validate credentials: required field is missing'')
      else if \<not> list_all controlFree [acAccessToken c, acRefreshToken c, acAccountID c, acLocalSecret c] then
        Some (ErrNew ''validate credentials: field contains control characters'')
      else None)"

lemma valid_iff: "validateCredentials c = None \<longleftrightarrow>
    acVersion c = CredentialsVersion \<and> requiredFields c
    \<and> list_all controlFree [acAccessToken c, acRefreshToken c, acAccountID c, acLocalSecret c]"
  by (simp add: validateCredentials_def)

end
