(* ===== verification/Server_Handler.thy ===== *)
theory Server_Handler
  imports Server_Stream Codex_Client Json_Stream Token_Types Json_Marshal
begin

text \<open>
  \<^verbatim>\<open>internal/server/handler.go\<close>: construction, routing, authentication of the local client, decoding and
  validation of the request, the call of the upstream with one retry, and the answer.
\<close>

section \<open>Construction\<close>

definition DefaultMaxRequestBytes :: int where
  "DefaultMaxRequestBytes = 33554432"

definition DefaultSSEIdleTimeout :: int where
  "DefaultSSEIdleTimeout = 90 * 1000000000"

text \<open>The two interfaces the handler calls; both act on a world.\<close>

record 'w TokenProvider =
  tpGetValidToken :: "'w \<Rightarrow> Access result \<times> 'w"
  tpForceRefresh :: "string \<Rightarrow> 'w \<Rightarrow> Access result \<times> 'w"

type_synonym 'w Upstream = "string \<Rightarrow> Credentials \<Rightarrow> Session \<Rightarrow> 'w \<Rightarrow> HttpResponse result \<times> 'w"

record 'w ServerConfig =
  scLocalSecret :: string
  scTokens :: "'w TokenProvider option"
  scUpstream :: "'w Upstream option"
  scMaxRequestBytes :: int
  scSSEIdleTimeout :: int
  scMaxSSEEventBytes :: int

record 'w Handler =
  hdLocalSecret :: string
  hdTokens :: "'w TokenProvider"
  hdUpstream :: "'w Upstream"
  hdMaxRequestBytes :: int
  hdSSEIdleTimeout :: int
  hdMaxSSEEventBytes :: int

definition orDefault :: "int \<Rightarrow> int \<Rightarrow> int" where
  "orDefault x d = (if x \<le> 0 then d else x)"

definition NewHandler :: "'w ServerConfig \<Rightarrow> 'w Handler result" where
  "NewHandler config =
     (if isBlank (scLocalSecret config) then Inl (ErrNew ''create server: local secret is required'')
      else (case (scTokens config, scUpstream config) of
          (Some tokens, Some upstream) \<Rightarrow>
            Inr \<lparr>hdLocalSecret = scLocalSecret config, hdTokens = tokens, hdUpstream = upstream,
              hdMaxRequestBytes = orDefault (scMaxRequestBytes config) DefaultMaxRequestBytes,
              hdSSEIdleTimeout = orDefault (scSSEIdleTimeout config) DefaultSSEIdleTimeout,
              hdMaxSSEEventBytes = orDefault (scMaxSSEEventBytes config) DefaultMaxSSEEventBytes\<rparr>
        | _ \<Rightarrow> Inl (ErrNew ''create server: token provider and upstream are required'')))"

section \<open>Requests of the local client\<close>

text \<open>The declared length is -1 when unknown; \<open>sqEnd\<close> is how the body ends.\<close>

record ServerRequest =
  sqMethod :: string
  sqPath :: string
  sqHeader :: headers
  sqContentLength :: int
  sqBody :: string
  sqEnd :: go_error

text \<open>\<^verbatim>\<open>strings.Fields\<close>. No encoding of a space starts inside another rune.\<close>

fun untilSpace :: "string \<Rightarrow> string" where
  "untilSpace [] = []"
| "untilSpace (c # s) = (if stripOne space_runes (c # s) = None then c # untilSpace s else [])"

lemma untilSpace_ne: "s \<noteq> [] \<Longrightarrow> stripOne space_runes s = None \<Longrightarrow> untilSpace s \<noteq> []"
  by (cases s) auto

function fieldsOf :: "string \<Rightarrow> string list" where
  "fieldsOf s =
     (let t = trimLeft space_runes s in
      if t = [] then [] else untilSpace t # fieldsOf (drop (length (untilSpace t)) t))"
  by pat_completeness auto
termination
proof (relation "measure length")
  fix s t :: string
  assume t: "t = trimLeft space_runes s" and ne: "t \<noteq> []"
  then have "untilSpace t \<noteq> []" by (intro untilSpace_ne) auto
  then have "length (drop (length (untilSpace t)) t) < length t" using ne by simp
  also have "\<dots> \<le> length s" unfolding t by (rule suffix_length_le [OF trimLeft_suffix])
  finally show "(drop (length (untilSpace t)) t, s) \<in> measure length" by simp
qed simp

declare fieldsOf.simps [simp del]

text \<open>
  \<^verbatim>\<open>strings.EqualFold\<close> with \<^verbatim>\<open>Bearer\<close>, whose letters have no other case variants than their ASCII ones; and
  \<^verbatim>\<open>subtle.ConstantTimeCompare\<close>, as a result.
\<close>

definition candidates :: "headers \<Rightarrow> string list" where
  "candidates headers =
     trimSpace (headerGet ''x-api-key'' headers) #
     (case fieldsOf (headerGet ''Authorization'' headers) of
        [scheme, credential] \<Rightarrow> if lowerASCII scheme = ''bearer'' then [credential] else []
      | _ \<Rightarrow> [])"

definition authenticated :: "'w Handler \<Rightarrow> ServerRequest \<Rightarrow> bool" where
  "authenticated handler request = list_ex (\<lambda>c. c = hdLocalSecret handler) (candidates (sqHeader request))"

section \<open>Decoding and validation\<close>

text \<open>\<^verbatim>\<open>http.MaxBytesReader\<close>: no more than the limit, then an error of its own.\<close>

definition maxBytesReader :: "int \<Rightarrow> string \<Rightarrow> go_error \<Rightarrow> string \<times> go_error" where
  "maxBytesReader n body e = (if int (length body) \<le> n then (body, e) else (take (nat n) body, MaxBytesError))"

definition decodeFailed :: "go_error \<Rightarrow> ResponseWriter \<Rightarrow> ResponseWriter" where
  "decodeFailed err w =
     (if errorsIs err MaxBytesError then writeError 413 ''invalid_request_error'' ''Request body is too large'' w
      else if errorsIs err IoEOF then writeError 400 ''invalid_request_error'' ''Request body is empty'' w
      else writeError 400 ''invalid_request_error'' ''Failed to parse request body'' w)"

text \<open>The decoded request, or what has been written instead.\<close>

definition decodeRequest :: "'w Handler \<Rightarrow> ServerRequest \<Rightarrow> ResponseWriter \<Rightarrow> ResponseWriter + AnthropicRequest" where
  "decodeRequest handler request w =
     (if sqContentLength request > hdMaxRequestBytes handler then
        Inl (writeError 413 ''invalid_request_error'' ''Request body is too large'' w)
      else
        (case maxBytesReader (hdMaxRequestBytes handler) (sqBody request) (sqEnd request) of
           (body, e) \<Rightarrow>
             (case decodeStream zeroAnthropicRequest decRequest body e of
                Inl err \<Rightarrow> Inl (decodeFailed err w)
              | Inr (decoded, rest) \<Rightarrow>
                  if streamEnds rest e then Inr decoded
                  else Inl (writeError 400 ''invalid_request_error'' ''Request body must contain one JSON object'' w))))"

definition validateMessagesRequest :: "AnthropicRequest \<Rightarrow> string option" where
  "validateMessagesRequest request =
     (if isBlank (arModel request) then Some ''model is required''
      else if arMessages request = [] then Some ''messages must contain at least one message''
      else if arMaxTokens request \<le> 0 then Some ''max_tokens must be positive''
      else None)"

section \<open>The upstream call\<close>

definition upstreamCredentials :: "Access \<Rightarrow> Credentials" where
  "upstreamCredentials access = \<lparr>crAccessToken = axAccessToken access, crAccountID = axAccountID access\<rparr>"

definition callUpstream :: "'w Handler \<Rightarrow> string \<Rightarrow> Session \<Rightarrow> 'w \<Rightarrow> HttpResponse result \<times> 'w" where
  "callUpstream handler body session w =
     (case tpGetValidToken (hdTokens handler) w of
        (Inl err, w1) \<Rightarrow> (Inl err, w1)
      | (Inr access, w1) \<Rightarrow>
          (case hdUpstream handler body (upstreamCredentials access) session w1 of
             (Inl err, w2) \<Rightarrow> (Inl err, w2)
           | (Inr response, w2) \<Rightarrow>
               if hrStatus response \<noteq> 401 then (Inr response, w2)
               else
                 (case tpForceRefresh (hdTokens handler) (axAccessToken access) w2 of
                    (Inl err, w3) \<Rightarrow> (Inl err, w3)
                  | (Inr refreshed, w3) \<Rightarrow> hdUpstream handler body (upstreamCredentials refreshed) session w3)))"

definition writeUpstreamHTTPError :: "HttpResponse \<Rightarrow> ResponseWriter \<Rightarrow> ResponseWriter" where
  "writeUpstreamHTTPError response w =
     (if hrStatus response = 429 then writeError 429 ''rate_limit_error'' ''Upstream rate limit exceeded'' w
      else if hrStatus response = 401 then writeError 502 ''api_error'' ''Upstream authentication failed after token refresh'' w
      else if hrStatus response = 400 then writeError 502 ''api_error'' ''Upstream rejected the translated request'' w
      else writeError 502 ''api_error'' ''Upstream request failed'' w)"

section \<open>The messages handler\<close>

text \<open>
  \<open>ended\<close> says whether the client's request has ended by the time a failed call is looked at. The result is
  \<open>None\<close> while the schedule of wake-ups leaves the handler waiting. \<open>quote\<close> and \<open>opaque\<close> give the texts of errors.
\<close>

definition servedWriter :: "served option \<Rightarrow> ResponseWriter go option" where
  "servedWriter r = map_option (\<lambda>sv. Ret (svWriter sv)) r"

definition respond :: "'w Handler \<Rightarrow> AnthropicRequest \<Rightarrow> HttpResponse \<Rightarrow> wake list \<Rightarrow> ResponseWriter \<Rightarrow> ResponseWriter go option" where
  "respond handler request response wakes w =
     (if hrStatus response < 200 \<or> 300 \<le> hrStatus response then Some (Ret (writeUpstreamHTTPError response w))
      else if arStream request then
        servedWriter (streamResponse (hdMaxSSEEventBytes handler) (arModel request) w (hrBody response) (hrEnd response) wakes)
      else
        map_option (\<lambda>r. bind_go r (\<lambda>sv. Ret (svWriter sv)))
          (nonStreamResponse (hdMaxSSEEventBytes handler) (arModel request) w (hrBody response) (hrEnd response) wakes))"

definition messages :: "(string \<Rightarrow> string) \<Rightarrow> (go_error \<Rightarrow> string) \<Rightarrow> 'w Handler \<Rightarrow> ServerRequest \<Rightarrow> bool \<Rightarrow> wake list \<Rightarrow>
    ResponseWriter \<Rightarrow> 'w \<Rightarrow> ResponseWriter go option \<times> 'w" where
  "messages quote opaque handler request ended wakes w world =
     (case decodeRequest handler request w of
        Inl w1 \<Rightarrow> (Some (Ret w1), world)
      | Inr anthropicRequest \<Rightarrow>
     (case validateMessagesRequest anthropicRequest of
        Some message \<Rightarrow> (Some (Ret (writeError 400 ''invalid_request_error'' message w)), world)
      | None \<Rightarrow>
     (case AnthropicToResponses (Some anthropicRequest) of
        Inl err \<Rightarrow>
          (Some (Ret (writeError 400 ''invalid_request_error''
             (publicMessage (errorText quote opaque err) ''Invalid Messages request'') w)), world)
      | Inr responsesRequest \<Rightarrow>
     (case marshal (outRequest responsesRequest) of
        None \<Rightarrow> (Some (Ret (writeError 500 ''api_error'' ''Failed to build upstream request'' w)), world)
      | Some responsesBody \<Rightarrow>
     (case callUpstream handler responsesBody (ResolveSession (sqHeader request) anthropicRequest) world of
        (Inl err, world1) \<Rightarrow>
          (Some (Ret (if ended then w else writeError 502 ''api_error'' ''Upstream request failed'' w)), world1)
      | (Inr response, world1) \<Rightarrow> (respond handler anthropicRequest response wakes w, world1))))))"

end
