(* ===== verification/Token_Count.thy ===== *)
theory Token_Count
  imports Server_Handler
begin

text \<open>
  \<^verbatim>\<open>internal/server/token_count.go\<close>: the local estimate of the number of input tokens, and its handler. \<open>cjk\<close>
  is the test of a rune (given by its UTF-8 encoding) for the scripts Han, Hiragana, Katakana and Hangul, whose
  tables are part of Go's package \<^verbatim>\<open>unicode\<close>. Counts are Go \<^verbatim>\<open>int\<close>s; they are bounded by a small multiple of the
  size of one request and cannot overflow.
\<close>

section \<open>Texts\<close>

text \<open>The runes of a string; an invalid byte counts as U+FFFD, which is three bytes long.\<close>

function runesOf :: "string \<Rightarrow> string list" where
  "runesOf s =
     (if s = [] then []
      else if rune_len s = 0 then replacement # runesOf (tl s)
      else take (rune_len s) s # runesOf (drop (rune_len s) s))"
  by pat_completeness auto
termination
  by (relation "measure length") auto

declare runesOf.simps [simp del]

definition flushLatin :: "nat \<Rightarrow> nat \<Rightarrow> nat" where
  "flushLatin acc latinBytes = (if latinBytes > 0 then acc + (latinBytes + 3) div 4 else acc)"

fun countRunes :: "(string \<Rightarrow> bool) \<Rightarrow> nat \<Rightarrow> nat \<Rightarrow> string list \<Rightarrow> nat" where
  "countRunes cjk acc latinBytes [] = flushLatin acc latinBytes"
| "countRunes cjk acc latinBytes (r # rs) =
     (if cjk r then countRunes cjk (flushLatin acc latinBytes + 1) 0 rs
      else countRunes cjk acc (latinBytes + length r) rs)"

definition estimateTextTokens :: "(string \<Rightarrow> bool) \<Rightarrow> string \<Rightarrow> nat" where
  "estimateTextTokens cjk txt =
     (if trimSpace txt = [] then 0 else countRunes cjk 0 0 (runesOf (trimSpace txt)))"

text \<open>\<^verbatim>\<open>json.Compact\<close>: white space outside strings is dropped; a text that is not JSON is kept as it is.\<close>

fun squeezeJSON :: "bool \<Rightarrow> string \<Rightarrow> string" where
  "squeezeJSON quoted [] = []"
| "squeezeJSON False (c # s) =
     (if json_space c then squeezeJSON False s else c # squeezeJSON (c = quote_char) s)"
| "squeezeJSON True [c] = [c]"
| "squeezeJSON True (c # d # s) =
     (if c = backslash then c # d # squeezeJSON True s else c # squeezeJSON (c \<noteq> quote_char) (d # s))"

definition compactJSON :: "string \<Rightarrow> string" where
  "compactJSON raw = (if json_parse raw = None then raw else squeezeJSON False raw)"

section \<open>Requests\<close>

definition estimatedImageTokens :: nat where
  "estimatedImageTokens = 1024"

definition partTokens :: "(string \<Rightarrow> bool) \<Rightarrow> ResponsesContentPart \<Rightarrow> nat" where
  "partTokens cjk part = 1 + (if cpType part = ''input_image'' then estimatedImageTokens else estimateTextTokens cjk (cpText part))"

definition itemTokens :: "(string \<Rightarrow> bool) \<Rightarrow> ResponsesInputItem \<Rightarrow> nat" where
  "itemTokens cjk item = 3 + estimateTextTokens cjk (iiType item) + estimateTextTokens cjk (iiRole item)
     + estimateTextTokens cjk (iiName item) + estimateTextTokens cjk (iiCallID item)
     + estimateTextTokens cjk (iiArguments item) + estimateTextTokens cjk (iiOutput item)
     + sum_list (map (partTokens cjk) (iiContent item))"

fun toolTokens :: "(string \<Rightarrow> bool) \<Rightarrow> nat \<Rightarrow> ResponsesTool list \<Rightarrow> nat result" where
  "toolTokens cjk acc [] = Inr acc"
| "toolTokens cjk acc (tool # tools) =
     (case marshal (outTool tool) of
        None \<Rightarrow> Inl ErrJson
      | Some encoded \<Rightarrow> toolTokens cjk (acc + estimateTextTokens cjk (compactJSON encoded)) tools)"

definition requestTokens :: "(string \<Rightarrow> bool) \<Rightarrow> ResponsesRequest \<Rightarrow> nat result" where
  "requestTokens cjk responses =
     (case toolTokens cjk (estimateTextTokens cjk (rqInstructions responses)
             + sum_list (map (itemTokens cjk) (rqInput responses))) (rqTools responses) of
        Inl err \<Rightarrow> Inl err
      | Inr acc0 \<Rightarrow>
          let acc = (if isBlank (rqToolChoice responses) then acc0
                       else acc0 + estimateTextTokens cjk (compactJSON (rqToolChoice responses)))
          in Inr (if acc < 1 then 1 else acc))"

definition EstimateInputTokens :: "(string \<Rightarrow> bool) \<Rightarrow> AnthropicRequest \<Rightarrow> nat result" where
  "EstimateInputTokens cjk request =
     (case AnthropicToResponses (Some request) of Inl err \<Rightarrow> Inl err | Inr responses \<Rightarrow> requestTokens cjk responses)"

definition countTokens :: "(string \<Rightarrow> bool) \<Rightarrow> 'w Handler \<Rightarrow> ServerRequest \<Rightarrow> ResponseWriter \<Rightarrow> ResponseWriter" where
  "countTokens cjk handler request w =
     (case decodeRequest handler request w of
        Inl w1 \<Rightarrow> w1
      | Inr anthropicRequest \<Rightarrow>
          if isBlank (arModel anthropicRequest) then writeError 400 ''invalid_request_error'' ''model is required'' w
          else if arMessages anthropicRequest = [] then
            writeError 400 ''invalid_request_error'' ''messages must contain at least one message'' w
          else (case EstimateInputTokens cjk anthropicRequest of
              Inl err \<Rightarrow> writeError 400 ''invalid_request_error'' ''Failed to estimate input tokens'' w
            | Inr count \<Rightarrow> writeJSON 200 (OObj [(''input_tokens'', OInt (int count))]) w))"

section \<open>What the estimate is\<close>

lemma runesOf_sizes: "list_all (\<lambda>r. 0 < length r \<and> length r \<le> 4) (runesOf s)"
proof (induction s rule: runesOf.induct)
  case (1 s)
  have l: "rune_len s \<le> 4" by (cases s) (auto simp: seq_len_def split: list.split)
  show ?case
    using 1 l rune_len_le [of s] by (subst runesOf.simps) (auto simp: replacement_def)
qed

lemma runesOf_concat: "concat (runesOf s) = to_utf8 s"
proof (induction s rule: runesOf.induct)
  case (1 s)
  then show ?case by (subst runesOf.simps, subst to_utf8.simps) simp
qed

lemma flushLatin_bounds: "4 * acc + n \<le> 4 * flushLatin acc n" "flushLatin acc n \<le> acc + n"
  unfolding flushLatin_def by presburger+

lemma countRunes_lower: "list_all (\<lambda>r. 0 < length r \<and> length r \<le> 4) rs \<Longrightarrow>
    4 * acc + n + length (concat rs) \<le> 4 * countRunes cjk acc n rs"
proof (induction cjk acc n rs rule: countRunes.induct)
  case (1 cjk acc n)
  then show ?case using flushLatin_bounds(1) [of acc n] by simp
next
  case (2 cjk acc n r rs)
  have r: "length r \<le> 4" "list_all (\<lambda>r. 0 < length r \<and> length r \<le> 4) rs" using "2.prems" by auto
  have "length (concat (r # rs)) = length r + length (concat rs)" by simp
  with r(1) "2.IH" [OF _ r(2)] flushLatin_bounds(1) [of acc n] show ?case
    unfolding countRunes.simps by (auto split: if_split)
qed

lemma countRunes_upper: "list_all (\<lambda>r. 0 < length r \<and> length r \<le> 4) rs \<Longrightarrow>
    countRunes cjk acc n rs \<le> acc + n + length (concat rs)"
proof (induction cjk acc n rs rule: countRunes.induct)
  case (1 cjk acc n)
  then show ?case using flushLatin_bounds(2) [of acc n] by simp
next
  case (2 cjk acc n r rs)
  have r: "1 \<le> length r" "list_all (\<lambda>r. 0 < length r \<and> length r \<le> 4) rs" using "2.prems" by (auto simp: Suc_le_eq)
  have "length (concat (r # rs)) = length r + length (concat rs)" by simp
  with r(1) "2.IH" [OF _ r(2)] flushLatin_bounds(2) [of acc n] show ?case
    unfolding countRunes.simps by (auto split: if_split)
qed

lemma estimateText_bounds:
  "length (to_utf8 (trimSpace txt)) \<le> 4 * estimateTextTokens cjk txt"
  "estimateTextTokens cjk txt \<le> length (to_utf8 (trimSpace txt))"
  using countRunes_lower [OF runesOf_sizes, of 0 0] countRunes_upper [OF runesOf_sizes, of cjk 0 0]
  by (auto simp: estimateTextTokens_def runesOf_concat)

end
