(* ===== verification/Server_Routes.thy ===== *)
theory Server_Routes
  imports Token_Count
begin

text \<open>
  The routes of the handler (\<^verbatim>\<open>New\<close> and \<^verbatim>\<open>ServeHTTP\<close> in \<^verbatim>\<open>internal/server/handler.go\<close>) and the HTTP server
  around it (\<^verbatim>\<open>internal/server/serve.go\<close>).
\<close>

section \<open>Routing\<close>

definition health :: "ResponseWriter \<Rightarrow> ResponseWriter" where
  "health w = writeJSON 200 (OObj [(''status'', OStr ''ok'')]) w"

type_synonym 'w answered = "ResponseWriter go option \<times> 'w"

definition requireAuthentication :: "'w Handler \<Rightarrow> (ResponseWriter \<Rightarrow> 'w \<Rightarrow> 'w answered) \<Rightarrow>
    ServerRequest \<Rightarrow> ResponseWriter \<Rightarrow> 'w \<Rightarrow> 'w answered" where
  "requireAuthentication handler handle request w world =
     (if \<not> authenticated handler request then
        (Some (Ret (writeError 401 ''authentication_error'' ''Invalid local API key'' w)), world)
      else handle w world)"

text \<open>
  The patterns of the multiplexer: a \<^verbatim>\<open>GET\<close> pattern also takes \<^verbatim>\<open>HEAD\<close>. \<open>other\<close> is what \<^verbatim>\<open>ServeMux\<close> itself
  answers to a request that no pattern matches (not found, method not allowed, a redirect to the clean path);
  it has no access to the handler.
\<close>

record 'w serving =
  svQuote :: "string \<Rightarrow> string"
  svOpaque :: "go_error \<Rightarrow> string"
  svCJK :: "string \<Rightarrow> bool"
  svOther :: "ServerRequest \<Rightarrow> ResponseWriter \<Rightarrow> ResponseWriter"
  svHandler :: "'w Handler"

definition ServeHTTP :: "'w serving \<Rightarrow> ServerRequest \<Rightarrow> bool \<Rightarrow> wake list \<Rightarrow> ResponseWriter \<Rightarrow> 'w \<Rightarrow> 'w answered" where
  "ServeHTTP s request ended wakes w0 world =
     (let w = setHeader ''X-Content-Type-Options'' ''nosniff'' w0; handler = svHandler s in
      if sqPath request = ''/healthz'' \<and> (sqMethod request = ''GET'' \<or> sqMethod request = ''HEAD'') then
        (Some (Ret (health w)), world)
      else if sqPath request = ''/v1/messages'' \<and> sqMethod request = ''POST'' then
        requireAuthentication handler (messages (svQuote s) (svOpaque s) handler request ended wakes) request w world
      else if sqPath request = ''/v1/messages/count_tokens'' \<and> sqMethod request = ''POST'' then
        requireAuthentication handler (\<lambda>w1 world1. (Some (Ret (countTokens (svCJK s) handler request w1)), world1)) request w world
      else (Some (Ret (svOther s request w)), world))"

section \<open>The listening server\<close>

definition DefaultListenAddress :: string where
  "DefaultListenAddress = ''127.0.0.1:8787''"

text \<open>\<^verbatim>\<open>net.SplitHostPort\<close>; its errors are not looked at.\<close>

definition lastColon :: "string \<Rightarrow> nat option" where
  "lastColon s = (if CHR '':'' \<in> set s then Some (length s - 1 - length (takeWhile (\<lambda>c. c \<noteq> CHR '':'') (rev s))) else None)"

definition SplitHostPort :: "string \<Rightarrow> (string \<times> string) option" where
  "SplitHostPort hostport =
     (case lastColon hostport of
        None \<Rightarrow> None
      | Some i \<Rightarrow>
          if hasPrefix hostport ''['' then
            (let e = length (takeWhile (\<lambda>c. c \<noteq> CHR '']'') hostport) in
             if e + 1 \<noteq> i then None
             else if CHR ''['' \<in> set (drop 1 hostport) \<or> CHR '']'' \<in> set (drop (e + 1) hostport) then None
             else Some (take (e - 1) (drop 1 hostport), drop (i + 1) hostport))
          else if CHR '':'' \<in> set (take i hostport) then None
          else if CHR ''['' \<in> set hostport \<or> CHR '']'' \<in> set hostport then None
          else Some (take i hostport, drop (i + 1) hostport))"

record 'h HTTPServer =
  hsAddr :: string
  hsHandler :: 'h
  hsReadHeaderTimeout :: int
  hsReadTimeout :: int
  hsIdleTimeout :: int
  hsMaxHeaderBytes :: int

definition NewHTTPServer :: "string \<Rightarrow> 'h option \<Rightarrow> 'h HTTPServer result" where
  "NewHTTPServer address0 handler =
     (let address = (if isBlank address0 then DefaultListenAddress else trimSpace address0);
          ok = (case SplitHostPort address of None \<Rightarrow> False | Some (host, port) \<Rightarrow> host = ''127.0.0.1'' \<and> port \<noteq> [])
      in if \<not> ok then Inl (ErrNew ''create HTTP server: listen address must be 127.0.0.1:<port>'')
         else (case handler of
             None \<Rightarrow> Inl (ErrNew ''create HTTP server: handler is required'')
           | Some h \<Rightarrow> Inr \<lparr>hsAddr = address, hsHandler = h, hsReadHeaderTimeout = 10 * 1000000000,
               hsReadTimeout = 30 * 1000000000, hsIdleTimeout = 60 * 1000000000, hsMaxHeaderBytes = 65536\<rparr>))"

text \<open>
  \<^verbatim>\<open>Serve\<close> returns when the listener has been closed, by a shutdown or by a failure. \<open>listen\<close> opens the
  address, \<open>accept\<close> is the error the accept loop ends with.
\<close>

definition Serve :: "(string \<Rightarrow> go_error option) \<Rightarrow> ('h HTTPServer \<Rightarrow> go_error) \<Rightarrow> string \<Rightarrow> 'h option \<Rightarrow> go_error option" where
  "Serve listen accept address handler =
     (case NewHTTPServer address handler of
        Inl err \<Rightarrow> Some err
      | Inr server \<Rightarrow>
          (case listen (hsAddr server) of
             Some err \<Rightarrow> Some (ErrWrap (''listen on '' @ hsAddr server @ '': '') err)
           | None \<Rightarrow>
               if errorsIs (accept server) ServerClosed then None
               else Some (ErrWrap (''serve on '' @ hsAddr server @ '': '') (accept server))))"

section \<open>Only the loopback address\<close>

lemma lastColon_split:
  assumes "lastColon s = Some i"
  obtains p where "s = take i s @ CHR '':'' # p" "CHR '':'' \<notin> set p" "drop (i + 1) s = p"
proof -
  let ?t = "takeWhile (\<lambda>c. c \<noteq> CHR '':'') (rev s)" and ?d = "dropWhile (\<lambda>c. c \<noteq> CHR '':'') (rev s)"
  have c: "CHR '':'' \<in> set s" and i: "i = length s - 1 - length ?t" using assms by (auto simp: lastColon_def split: if_splits)
  have "?d \<noteq> []" using c by (simp add: dropWhile_eq_Nil_conv)
  then obtain d where d: "?d = CHR '':'' # d" using hd_dropWhile [of "\<lambda>c. c \<noteq> CHR '':''" "rev s"] by (cases ?d) auto
  have r: "rev s = ?t @ CHR '':'' # d" using takeWhile_dropWhile_id [of "\<lambda>c. c \<noteq> CHR '':''" "rev s"] d by simp
  have s: "s = rev d @ CHR '':'' # rev ?t" using arg_cong [OF r, of rev] by simp
  have n: "CHR '':'' \<notin> set (rev ?t)" by (auto dest: set_takeWhileD)
  have len: "length s = Suc (length d + length ?t)" using arg_cong [OF r, of length] by simp
  then have "i = length d" using i by simp
  then have "take i s = rev d" "drop (i + 1) s = rev ?t" by (subst s, simp)+
  with s n that [of "rev ?t"] show thesis by simp
qed

lemma first_other:
  assumes "length (takeWhile P u) < length u"
  shows "\<exists>c r. u = takeWhile P u @ c # r \<and> \<not> P c"
proof -
  have "dropWhile P u \<noteq> []" using assms takeWhile_dropWhile_id [of P u] by (metis append_Nil2 less_irrefl)
  then obtain c r where d: "dropWhile P u = c # r" by (cases "dropWhile P u") auto
  then have "u = takeWhile P u @ c # r" by (metis takeWhile_dropWhile_id)
  moreover have "\<not> P c" using d by (metis hd_dropWhile list.distinct(1) list.sel(1))
  ultimately show ?thesis by blast
qed

text \<open>The accepted addresses: the host in front of the last colon is the loopback address, plain or in brackets.\<close>

lemma splitHostPort_host:
  assumes "SplitHostPort s = Some (host, port)" "host \<noteq> []"
  shows "(s = host @ '':'' @ port \<or> s = ''['' @ host @ '']:'' @ port) \<and> CHR '':'' \<notin> set port"
proof -
  obtain i where i: "lastColon s = Some i" using assms(1) by (auto simp: SplitHostPort_def split: option.splits)
  obtain p where p: "s = take i s @ CHR '':'' # p" "CHR '':'' \<notin> set p" "drop (i + 1) s = p"
    using lastColon_split [OF i] by blast
  show ?thesis
  proof (cases "hasPrefix s ''[''")
    case False
    with assms(1) i p show ?thesis by (auto simp: SplitHostPort_def split: if_splits)
  next
    case True
    let ?e = "length (takeWhile (\<lambda>c. c \<noteq> CHR '']'') s)"
    have e: "?e + 1 = i" "host = take (?e - 1) (drop 1 s)" "port = p"
      using assms(1) i True p(3) by (simp_all add: SplitHostPort_def Let_def split: if_splits)
    obtain u where u: "s = CHR ''['' # u" using True by (cases s) (auto simp: hasPrefix_def)
    let ?t = "takeWhile (\<lambda>c. c \<noteq> CHR '']'') u"
    have e1: "?e = Suc (length ?t)" by (simp add: u)
    have "i < length s" using arg_cong [OF p(1), of length] by simp
    then have "length ?t < length u" using e(1) e1 u by simp
    then obtain t r where r: "u = t @ CHR '']'' # r" "?t = t"
      using first_other [of "\<lambda>c. c \<noteq> CHR '']''" u] by metis
    have e2: "?e = Suc (length t)" using e1 r(2) by simp
    have su: "s = CHR ''['' # t @ CHR '']'' # r" using u r(1) by simp
    have "i = Suc (Suc (length t))" using e(1) unfolding e2 by simp
    then have "take i s = CHR ''['' # t @ [CHR '']'']" unfolding su by simp
    moreover have "host = t" using e(2) unfolding e2 unfolding su by simp
    ultimately show ?thesis using p(1,2) e(3) by simp
  qed
qed

end
