(* ===== verification/Server_Events.thy ===== *)
theory Server_Events
  imports Server_Stream Stream_Properties
begin

text \<open>
  Every event the converter emits can be encoded, so that \<^verbatim>\<open>EncodeAnthropicSSE\<close> never fails in the streaming
  loop; and what the loop then writes.
\<close>

section \<open>The events are encodable\<close>

definition plainBlock :: "AnthropicContentBlock \<Rightarrow> bool" where
  "plainBlock b \<longleftrightarrow> (cbInput b = [] \<or> cbInput b = ''{}'') \<and> cbContent b = []"

lemma parse_empty_object: "json_parse ''{}'' \<noteq> None"
  using json_object_empty by (auto simp: json_object_def)

lemma raws_simps [simp]:
  "rawsValid (outUsage u)" "rawsValid (outError e)" "rawsValid (outDelta d)"
  "list_all (\<lambda>m. rawsValid (snd m)) (omitStr k s)"
  "list_all (\<lambda>m. rawsValid (snd m)) (omitBool k b)"
  "list_all (\<lambda>m. rawsValid (snd m)) (omitRaw k s) \<longleftrightarrow> s = [] \<or> json_parse s \<noteq> None"
  "list_all (\<lambda>m. rawsValid (snd m)) (omitPtr k f x) \<longleftrightarrow> (case x of None \<Rightarrow> True | Some y \<Rightarrow> rawsValid (f y))"
  "rawsValid (outCacheControl c)" "rawsValid (outImageSource s')"
  by (auto simp: outUsage_def outError_def outDelta_def omitStr_def omitBool_def omitRaw_def omitPtr_def
      outCacheControl_def outImageSource_def split: option.split)

lemma rawsValid_block: "plainBlock b \<Longrightarrow> rawsValid (outContentBlock b)"
  using parse_empty_object by (auto simp: outContentBlock_def plainBlock_def split: option.split)

lemma rawsValid_event:
  "rawsValid (outStreamEvent e) \<longleftrightarrow>
     (case seMessage e of None \<Rightarrow> True | Some m \<Rightarrow> rawsValid (outResponse m))
     \<and> (case seContentBlock e of None \<Rightarrow> True | Some b \<Rightarrow> rawsValid (outContentBlock b))"
  by (auto simp: outStreamEvent_def split: option.split)

lemma encodable_simps [simp]:
  "encodable (blockDelta i d)" "encodable (blockStop i)" "encodable (messageStart r m)" "encodable (messageDelta sr u)"
  "encodable messageStop" "encodable (blockStart i b) \<longleftrightarrow> rawsValid (outContentBlock b)"
  by (simp_all add: encodable_def oneLine_def rawsValid_event blockDelta_def blockStop_def messageStart_def
      messageDelta_def messageStop_def blockStart_def outResponse_def orNull_def zeros)

definition sends :: "step_result \<Rightarrow> bool" where
  "sends r \<longleftrightarrow> (case snd r of Inl err \<Rightarrow> True | Inr events \<Rightarrow> list_all encodable events)"

lemma sends_simps [simp]: "sends (c, Inl err)" "sends (c, Inr events) \<longleftrightarrow> list_all encodable events"
    "sends (converterFail c err)"
  by (simp_all add: sends_def converterFail_def)

lemma plain_simps [simp]: "plainBlock (zeroAnthropicContentBlock\<lparr>cbType := k\<rparr>)"
    "plainBlock (zeroAnthropicContentBlock\<lparr>cbType := k, cbID := i, cbName := n, cbInput := ''{}''\<rparr>)"
  by (simp_all add: plainBlock_def zeros)

lemma close_sends: "closeActive c = (c1, events) \<Longrightarrow> list_all encodable events"
  by (auto simp: closeActive_def split: option.splits)

lemma ensure_sends: "ensureMessageStart c = (c1, events) \<Longrightarrow> list_all encodable events"
  by (auto simp: ensureMessageStart_def split: if_splits)

lemma open_sends: "openBlockFor c event k = (c1, b, events) \<Longrightarrow> list_all encodable events"
  by (auto simp: openBlockFor_def rawsValid_block dest: close_sends split: option.splits if_splits prod.splits)

lemma handler_sends:
  "sends (let (c1, events) = ensureMessageStart c in (c1, Inr events))"
  "sends (handleTextDelta c event)" "sends (handleReasoningDelta c event)" "sends (handleReasoningDone c event)"
  "sends (handleToolDelta c event custom)" "sends (handleToolDone c event custom)" "sends (closing c)"
  "sends (handleItemAdded c event)"
  by (auto simp: handleTextDelta_def handleReasoningDelta_def handleReasoningDone_def handleToolDelta_def
      handleToolDone_def closing_def handleItemAdded_def rawsValid_block Let_def
      dest!: close_sends ensure_sends open_sends split: option.split sum.split prod.split)

lemma itemDone_sends: "sends (handleItemDone c event)"
  using handler_sends(6,7) by (simp add: handleItemDone_def split: option.split)

lemma textDone_sends: "sends (handleTextDone c event)"
proof -
  have d: "list_all encodable events" if "handleTextDelta c e = (c1, Inr events)" for e c1 events
    using handler_sends(2) [of c e] that by simp
  show ?thesis
    by (auto simp: handleTextDone_def Let_def dest!: close_sends dest: d split: prod.split sum.split option.split)
qed

definition outputBlock :: "AnthropicContentBlock \<Rightarrow> bool" where
  "outputBlock b \<longleftrightarrow> cbType b \<in> {''text'', ''thinking'', ''tool_use''} \<and> cbContent b = []
     \<and> (cbType b \<noteq> ''tool_use'' \<longrightarrow> cbInput b = [])"

lemma output_plain: "outputItemBlocks i item = Inr (blocks, tool) \<Longrightarrow>
    list_all outputBlock blocks"
  by (auto simp: outputItemBlocks_def outputBlock_def zeros list_all_iff split: if_splits sum.splits)

lemma outputs_plain: "outputBlocksFrom i items = Inr (blocks, tool) \<Longrightarrow>
    list_all outputBlock blocks"
proof (induction items arbitrary: i blocks tool)
  case (Cons item items)
  then obtain bs1 t1 bs2 t2 where "outputItemBlocks i item = Inr (bs1, t1)" "outputBlocksFrom (Suc i) items = Inr (bs2, t2)"
      "blocks = bs1 @ bs2" by (auto split: sum.splits prod.splits)
  with output_plain [of i item] Cons.IH [of "Suc i"] show ?case by simp
qed simp

lemma blockEvents_sends:
  assumes "outputBlock b"
  shows "list_all encodable (blockEvents n b)"
proof -
  have plain: "cbType b \<noteq> ''tool_use'' \<Longrightarrow> plainBlock (b\<lparr>cbText := []\<rparr>)"
    "cbType b \<noteq> ''tool_use'' \<Longrightarrow> plainBlock (b\<lparr>cbThinking := [], cbSignature := []\<rparr>)"
    "plainBlock (b\<lparr>cbInput := ''{}''\<rparr>)"
    using assms by (simp_all add: outputBlock_def plainBlock_def)
  consider "cbType b = ''text''" | "cbType b = ''thinking''" | "cbType b = ''tool_use''"
    using assms by (auto simp: outputBlock_def)
  then show ?thesis
  proof cases
    case 1
    then show ?thesis using rawsValid_block [OF plain(1)] by (simp add: blockEvents_def)
  next
    case 2
    then show ?thesis using rawsValid_block [OF plain(2)] by (simp add: blockEvents_def)
  next
    case 3
    then show ?thesis using rawsValid_block [OF plain(3)] by (simp add: blockEvents_def)
  qed
qed

lemma full_sends: "list_all outputBlock blocks \<Longrightarrow> list_all encodable (fullEvents n blocks)"
  by (induction blocks arbitrary: n) (simp_all add: blockEvents_sends)

lemma finish_sends: "list_all encodable events \<Longrightarrow> sends (finishStream d event events)"
  by (simp add: finishStream_def)

lemma streamFull_sends: "streamFullOutput items n = Inr (full, tool) \<Longrightarrow> list_all encodable full"
  using full_sends outputs_plain
  by (auto simp: streamFullOutput_def responseOutputToBlocks_def split: sum.splits)

lemma terminal_sends: "sends (handleTerminal c event)"
proof -
  obtain c1 ev where e: "ensureMessageStart c = (c1, ev)" by (cases "ensureMessageStart c")
  obtain c2 closed where cl: "closeActive c1 = (c2, closed)" by (cases "closeActive c1")
  have closing: "sends (finishStream c2 event (ev @ closed))"
    using ensure_sends [OF e] close_sends [OF cl] by (intro finish_sends) simp
  show ?thesis
  proof (cases "streamFullOutput (rpOutput (the (evResponse event))) (cvNextBlockIndex c1)")
    case (Inl err)
    with e cl closing show ?thesis by (simp add: handleTerminal_def)
  next
    case (Inr p)
    obtain full tool where p: "p = (full, tool)" by (cases p)
    have "sends (finishStream d event (ev @ full))" for d
      using ensure_sends [OF e] streamFull_sends Inr p by (intro finish_sends) simp
    with e cl closing Inr p show ?thesis by (simp add: handleTerminal_def)
  qed
qed

lemma process_sends: "process c event = (c1, Inr events) \<Longrightarrow> list_all encodable events"
proof -
  have "sends (dispatch d event)" for d
    by (rule dispatch_rule) (rule handler_sends itemDone_sends textDone_sends terminal_sends | simp)+
  then have "sends (process c event)" by (simp add: process_def)
  then show "process c event = (c1, Inr events) \<Longrightarrow> ?thesis" by simp
qed

end
