(* ===== verification/Server_Loops.thy ===== *)
theory Server_Loops
  imports Server_Events
begin

text \<open>
  What the two serving loops guarantee, for every upstream body, every way the connection ends, every
  schedule of wake-ups: what has been written when the handler returns, that it returns, and that success is
  never reported for an incomplete upstream stream.
\<close>

section \<open>Writing events\<close>

definition eventText :: "AnthropicStreamEvent \<Rightarrow> string" where
  "eventText e = sseText (seType e) (enc (outStreamEvent e))"

definition eventsText :: "AnthropicStreamEvent list \<Rightarrow> string" where
  "eventsText es = concat (map eventText es)"

lemma eventsText_simps [simp]: "eventsText [] = []" "eventsText (e # es) = eventText e @ eventsText es"
    "eventsText (es @ es') = eventsText es @ eventsText es'"
  by (simp_all add: eventsText_def)

definition streamHeaders :: "headers \<Rightarrow> headers" where
  "streamHeaders hs = headerSet ''Connection'' ''keep-alive'' (headerSet ''Cache-Control'' ''no-cache''
     (headerSet ''Content-Type'' ''text/event-stream'' hs))"

text \<open>A writer nothing has been written to, which has the headers set before the handler was called; the writer of a
  stream of events, before the first and after.\<close>

definition freshWriter :: "headers \<Rightarrow> ResponseWriter" where
  "freshWriter hs = \<lparr>rwHeader = hs, rwSent = None, rwBody = [], rwRoom = None\<rparr>"

definition written :: "headers \<Rightarrow> AnthropicStreamEvent list \<Rightarrow> ResponseWriter" where
  "written hs es = \<lparr>rwHeader = (if es = [] then hs else streamHeaders hs),
     rwSent = (if es = [] then None else Some (200, streamHeaders hs)), rwBody = eventsText es, rwRoom = None\<rparr>"

lemma written_Nil [simp]: "written hs [] = freshWriter hs"
  by (simp add: written_def freshWriter_def)

lemma encode_event: "encodable e \<Longrightarrow> EncodeAnthropicSSE e = Inr (eventText e)"
  by (simp add: encode_iff eventText_def)

lemma start_written: "(if es \<noteq> [] then written hs es else startStream (written hs es))
    = \<lparr>rwHeader = streamHeaders hs, rwSent = Some (200, streamHeaders hs), rwBody = eventsText es, rwRoom = None\<rparr>"
  by (simp add: written_def startStream_def streamHeaders_def setHeader_def writeHeader_def freshWriter_def)

lemma write_event: "writeBytes (eventText e) (if es \<noteq> [] then written hs es else startStream (written hs es)) = (written hs (es @ [e]), True)"
  unfolding start_written by (simp add: writeBytes_def writeHeader_def written_def)

lemma sendEvents_written:
  "list_all encodable new \<Longrightarrow> sendEvents new (es \<noteq> []) (written hs es) = (es @ new \<noteq> [], written hs (es @ new), True)"
proof (induction new arbitrary: es)
  case (Cons e new)
  from Cons.IH [of "es @ [e]"] Cons.prems write_event [of e es] show ?case
    by (simp add: Let_def encode_event)
qed simp

section \<open>The streaming loop\<close>

lemma process_live:
  assumes "wfConverter c" "\<not> cvTerminal c" "process c event = (c1, Inr events)"
  shows "accepts (phaseOf c) events = Some (phaseOf c1)" "wfConverter c1"
    "cvTerminal c1 = isTerminalResponsesEvent (evType event)" "list_all encodable events"
proof -
  show "accepts (phaseOf c) events = Some (phaseOf c1)" "wfConverter c1"
    using process_ok [OF assms(1,2), of event] assms(3) by (simp_all add: stepOk_Inr)
  let ?d = "captureMetadata c (evResponse event)"
  have d: "dispatch ?d event = (c1, Inr events)" using assms(2,3) by (simp add: process_def)
  show "cvTerminal c1 = isTerminalResponsesEvent (evType event)"
    using dispatch_closes [of event ?d] dispatch_staysOpen [of event ?d] assms(2) d
    by (cases "isTerminalResponsesEvent (evType event)") (simp_all add: staysOpen_def)
  show "list_all encodable events" using assms(3) by (rule process_sends)
qed

definition live :: "phase \<Rightarrow> bool" where
  "live ph \<longleftrightarrow> ph \<noteq> Ending \<and> ph \<noteq> Stopped"

text \<open>The three ways a stream can have been served, after the events \<open>es\<close>.\<close>

definition completed :: "headers \<Rightarrow> AnthropicStreamEvent list \<Rightarrow> served \<Rightarrow> bool" where
  "completed hs es sv \<longleftrightarrow> accepts Fresh es = Some Stopped \<and> sv = \<lparr>svWriter = written hs es, svCancelled = False\<rparr>"

definition abandoned :: "headers \<Rightarrow> AnthropicStreamEvent list \<Rightarrow> served \<Rightarrow> bool" where
  "abandoned hs es sv \<longleftrightarrow> (\<exists>ph. accepts Fresh es = Some ph \<and> live ph) \<and> sv = \<lparr>svWriter = written hs es, svCancelled = True\<rparr>"

definition errorEvent :: "go_error \<Rightarrow> AnthropicStreamEvent" where
  "errorEvent err = NewAnthropicErrorEvent ''api_error'' (processingMessage err)"

definition failedWith :: "headers \<Rightarrow> go_error \<Rightarrow> AnthropicStreamEvent list \<Rightarrow> served \<Rightarrow> bool" where
  "failedWith hs err es sv \<longleftrightarrow> (\<exists>ph. accepts Fresh es = Some ph \<and> live ph)
     \<and> sv = \<lparr>svWriter = (if es = [] then writeError 502 ''api_error'' (processingMessage err) (freshWriter hs)
          else written hs (es @ [errorEvent err])), svCancelled = True\<rparr>"

lemma encodable_error [simp]: "encodable (errorEvent err)"
  by (simp add: errorEvent_def NewAnthropicErrorEvent_def encodable_def oneLine_def rawsValid_event zeros)

lemma processingError_written:
  "writeProcessingError err (es \<noteq> []) (written hs es) =
     (if es = [] then writeError 502 ''api_error'' (processingMessage err) (freshWriter hs) else written hs (es @ [errorEvent err]))"
proof (cases "es = []")
  case False
  then show ?thesis using write_event [of "errorEvent err" es] encode_event [OF encodable_error, of err]
    by (simp add: writeProcessingError_def errorEvent_def)
qed (simp add: writeProcessingError_def)

lemma finish_failed:
  assumes "accepts Fresh es = Some ph" "live ph"
  shows "failedWith hs err es (finish (Some err) (es \<noteq> []) (written hs es))"
  using assms by (auto simp: failedWith_def finish_def processingError_written)

text \<open>
  When the client is gone: a wake-up says that its request has ended, or the body of the upstream response ends in
  the error of an ended context.
\<close>

fun clientLeft :: "wake \<Rightarrow> bool" where
  "clientLeft (CtxDone err) = True"
| "clientLeft Active = False"
| "clientLeft (Received ended) = ended"
| "clientLeft Stopped_Reader = True"
| "clientLeft (TimerFired activity ended) = (\<not> activity \<and> ended)"

definition contextEnded :: "go_error \<Rightarrow> bool" where
  "contextEnded err \<longleftrightarrow> errorsIs err CtxCanceled \<or> errorsIs err CtxDeadlineExceeded"

lemma nextFrame_left: "nextFrame frames ws = Some ((r, ended), frames', ws') \<Longrightarrow>
    set frames' \<subseteq> set frames \<and> set ws' \<subseteq> set ws \<and> (ended \<longrightarrow> (\<exists>w\<in>set ws. clientLeft w))
    \<and> (\<not> ended \<longrightarrow> r \<in> insert (Inl IoEOF) (insert (Inl ErrSSEIdleTimeout) (set frames)))"
  by (induction frames ws rule: nextFrame.induct) (auto split: list.splits if_splits)

text \<open>How a stream may be served; only when the client is gone may it break off in silence.\<close>

definition servedOk :: "headers \<Rightarrow> bool \<Rightarrow> served \<Rightarrow> bool" where
  "servedOk hs left sv \<longleftrightarrow> (\<exists>es. list_all encodable es
     \<and> (completed hs es sv \<or> left \<and> abandoned hs es sv \<or> (\<exists>err. failedWith hs err es sv)))"

lemma phase_live: "\<not> cvTerminal c \<Longrightarrow> live (phaseOf c)"
  using phaseOf_live [of c] by (simp add: live_def)

lemma streamLoop_ok:
  assumes "wfConverter c" "\<not> cvTerminal c" "accepts Fresh es = Some (phaseOf c)" "list_all encodable es"
    "streamLoop c (es \<noteq> []) (written hs es) frames wakes = Some sv"
    "\<forall>w\<in>set wakes. clientLeft w \<longrightarrow> left" "\<forall>err. Inl err \<in> set frames \<and> contextEnded err \<longrightarrow> left"
  shows "servedOk hs left sv"
  using assms
proof (induction "length wakes" arbitrary: c es frames wakes rule: less_induct)
  case less
  note live = phase_live [OF less.prems(2)]
  have unfinished: "converterFinalize c = Some ErrMissingTerminalEvent"
    using less.prems(2) by (simp add: converterFinalize_def)
  have failed: "servedOk hs left (finish (Some err) (es \<noteq> []) (written hs es))" for err
    using finish_failed [OF less.prems(3) live] less.prems(4) by (auto simp: servedOk_def)
  have gone: "servedOk hs left \<lparr>svWriter = written hs es, svCancelled = True\<rparr>" if left
    using that less.prems(3,4) live by (auto simp: servedOk_def abandoned_def)
  note eq = less.prems(5) [unfolded streamLoop.simps [of c]]
  obtain r ended frames1 wakes1 where n: "nextFrame frames wakes = Some ((r, ended), frames1, wakes1)"
    using eq by (auto split: option.splits)
  note seen = nextFrame_left [OF n]
  have quiet: "left" if "r = Inl err" "contextEnded err \<or> ended" for err
    using that seen less.prems(6,7) by (auto simp: contextEnded_def)
  show ?case
  proof (cases r)
    case (Inl err)
    then show ?thesis using eq n failed gone [OF quiet [OF Inl]] unfinished by (auto simp: contextEnded_def split: if_splits)
  next
    case (Inr frame)
    show ?thesis
    proof (cases "DecodeResponsesEvent frame")
      case (Inl err)
      then show ?thesis using eq n Inr failed unfinished by (auto split: if_splits)
    next
      case event: (Inr event)
      obtain c1 p where p: "process c event = (c1, p)" by (cases "process c event")
      show ?thesis
      proof (cases p)
        case (Inl err)
        then show ?thesis using eq n Inr event p failed by auto
      next
        case events: (Inr events)
        note step = process_live [OF less.prems(1,2) p [unfolded events]]
        have acc: "accepts Fresh (es @ events) = Some (phaseOf c1)"
          using less.prems(3) step(1) by (simp add: accepts_append)
        have enc: "list_all encodable (es @ events)" using less.prems(4) step(4) by simp
        note sent = sendEvents_written [OF step(4), of es]
        show ?thesis
        proof (cases "isTerminalResponsesEvent (evType event)")
          case True
          then have sv: "sv = \<lparr>svWriter = written hs (es @ events), svCancelled = False\<rparr>"
            using eq n Inr event p events sent by simp
          have "phaseOf c1 = Stopped" using step(3) True by (simp add: phaseOf_def)
          with acc sv have "completed hs (es @ events) sv" by (simp add: completed_def)
          with enc show ?thesis unfolding servedOk_def by blast
        next
          case False
          then have "streamLoop c1 (es @ events \<noteq> []) (written hs (es @ events)) frames1 wakes1 = Some sv"
            using eq n Inr event p events sent by simp
          moreover have "\<not> cvTerminal c1" using step(3) False by simp
          ultimately show ?thesis
            using less.hyps [OF nextFrame_shorter [OF n] step(2) _ acc enc] less.prems(6,7) seen by blast
        qed
      qed
    qed
  qed
qed

lemma frames_contextEnded:
  assumes "Inl err \<in> set (decodeResponseFrames body e m)" "contextEnded err"
  shows "contextEnded e"
  using framesFrom_ends [of "NewSSEDecoder body e m"] assms
  by (auto simp: decodeResponseFrames_def NewSSEDecoder_def endError_def contextEnded_def split: if_splits)

lemma streamResponse_ok:
  assumes "streamResponse maxBytes model (freshWriter hs) body e wakes = Some sv"
  shows "servedOk hs (list_ex clientLeft wakes \<or> contextEnded e) sv"
  using assms unfolding streamResponse_def
  by (intro streamLoop_ok [OF wf_new, of model "[]"]) (auto simp: list_ex_iff intro: frames_contextEnded)

section \<open>Wake-ups\<close>

text \<open>A wake-up that is not mere activity of the body.\<close>

fun effective :: "wake \<Rightarrow> bool" where
  "effective Active = False"
| "effective (TimerFired activity ended) = (\<not> activity)"
| "effective _ = True"

abbreviation wakeups :: "wake list \<Rightarrow> nat" where
  "wakeups ws \<equiv> length (filter effective ws)"

lemma nextFrame_None: "nextFrame frames ws = None \<longleftrightarrow> wakeups ws = 0"
  by (induction frames ws rule: nextFrame.induct) (auto split: list.splits)

lemma nextFrame_Some: "nextFrame frames ws = Some ((r, ended), frames', ws') \<Longrightarrow>
    wakeups ws = Suc (wakeups ws') \<and> (\<forall>f. r = Inr f \<longrightarrow> frames = Inr f # frames')"
  by (induction frames ws rule: nextFrame.induct) (auto split: list.splits if_splits)

section \<open>The whole response\<close>

text \<open>The upstream events the frames hold, up to the first frame that is none.\<close>

fun decoded :: "frameResult list \<Rightarrow> ResponsesStreamEvent list" where
  "decoded [] = []"
| "decoded (Inl err # frames) = []"
| "decoded (Inr frame # frames) =
     (case DecodeResponsesEvent frame of Inl err \<Rightarrow> [] | Inr event \<Rightarrow> event # decoded frames)"

definition answeredFrom :: "string \<Rightarrow> ResponseAccumulator \<Rightarrow> ResponseWriter \<Rightarrow> frameResult list \<Rightarrow> served \<Rightarrow> bool" where
  "answeredFrom model a w frames sv \<longleftrightarrow> (\<exists>es a'. prefix es (decoded frames) \<and> es \<noteq> []
     \<and> isTerminalResponsesEvent (evType (last es)) \<and> feed accStep a es = Some a' \<and> sv = answer model w a')"

lemma answeredFrom_step:
  assumes "decoded frames = event # decoded frames1" "accStep a event = Some a1" "answeredFrom model a1 w frames1 sv"
  shows "answeredFrom model a w frames sv"
proof -
  obtain es a' where es: "prefix es (decoded frames1)" "es \<noteq> []" "isTerminalResponsesEvent (evType (last es))"
      "feed accStep a1 es = Some a'" "sv = answer model w a'"
    using assms(3) by (auto simp: answeredFrom_def)
  then show ?thesis unfolding answeredFrom_def using assms(1,2)
    by (intro exI [of _ "event # es"] exI [of _ a']) simp
qed

lemma accStep_continues:
  assumes "wfAcc a" "\<not> acTerminal a" "accStep a event = Some a1" "\<not> isTerminalResponsesEvent (evType event)"
  shows "wfAcc a1" "\<not> acTerminal a1" "accProcess a event = Ret (a1, None)"
  using accDispatch_ok [OF assms(1), of event] accDispatch_staysOpen [OF assms(4), of a] assms(2,3)
  by (auto simp: accStep_def accProcess_def accStepOk_def accStaysOpen_def split: go.splits)

lemma nonStreamLoop_ok:
  assumes "nonStreamLoop model a w frames wakes = Some (Ret sv)" "wfAcc a" "\<not> acTerminal a"
  shows "sv = \<lparr>svWriter = w, svCancelled = True\<rparr> \<or> (\<exists>err. sv = finish (Some err) False w) \<or> answeredFrom model a w frames sv"
  using assms
proof (induction "length wakes" arbitrary: a frames wakes rule: less_induct)
  case less
  note eq = less.prems(1) [unfolded nonStreamLoop.simps [of model a]]
  have unfinished: "accFinalError a = Some ErrMissingTerminalEvent"
    using less.prems(2,3) by (simp add: accFinalError_simps)
  obtain r ended frames1 wakes1 where n: "nextFrame frames wakes = Some ((r, ended), frames1, wakes1)"
    using eq by (auto split: option.splits)
  note step = nextFrame_Some [OF n]
  show ?case
  proof (cases r)
    case (Inl err)
    then show ?thesis using eq n unfinished by (auto split: if_splits)
  next
    case (Inr frame)
    show ?thesis
    proof (cases "DecodeResponsesEvent frame")
      case (Inl err)
      then show ?thesis using eq n Inr unfinished by (auto split: if_splits)
    next
      case event: (Inr event)
      have d: "decoded frames = event # decoded frames1" using step Inr event by simp
      show ?thesis
      proof (cases "accProcess a event")
        case (Panic p)
        then show ?thesis using eq n Inr event by simp
      next
        case (Ret q)
        obtain a1 e1 where q: "q = (a1, e1)" by (cases q)
        show ?thesis
        proof (cases e1)
          case (Some err)
          then show ?thesis using eq n Inr event Ret q by auto
        next
          case None
          then have st: "accStep a event = Some a1" using Ret q by (simp add: accStep_def)
          show ?thesis
          proof (cases "isTerminalResponsesEvent (evType event)")
            case True
            then have "sv = answer model w a1" using eq n Inr event Ret q None by simp
            then have "answeredFrom model a w frames sv" unfolding answeredFrom_def
              using d st True by (intro exI [of _ "[event]"] exI [of _ a1]) simp
            then show ?thesis by simp
          next
            case False
            then have "nonStreamLoop model a1 w frames1 wakes1 = Some (Ret sv)"
              using eq n Inr event Ret q None by simp
            from less.hyps [OF nextFrame_shorter [OF n] this accStep_continues(1,2) [OF less.prems(2,3) st False]] show ?thesis
              using answeredFrom_step [OF d st] by blast
          qed
        qed
      qed
    qed
  qed
qed

section \<open>The handler returns\<close>

lemma streamLoop_returns: "length frames < wakeups wakes \<Longrightarrow> streamLoop c started w frames wakes \<noteq> None"
proof (induction "length wakes" arbitrary: c started w frames wakes rule: less_induct)
  case less
  have "nextFrame frames wakes \<noteq> None" using less.prems nextFrame_None [of frames wakes] by (metis not_less_zero)
  then obtain r ended frames1 wakes1 where n: "nextFrame frames wakes = Some ((r, ended), frames1, wakes1)"
    by (cases "nextFrame frames wakes") auto
  note step = nextFrame_Some [OF n] and shorter = nextFrame_shorter [OF n]
  have again: "streamLoop c' started' w' frames1 wakes1 \<noteq> None" if "r = Inr f" for c' started' w' f
    using that step less.prems by (intro less.hyps [OF shorter]) auto
  show ?case
    using again n by (subst streamLoop.simps) (auto split: sum.split prod.split bool.split)
qed

lemma nonStreamLoop_returns: "length frames < wakeups wakes \<Longrightarrow> nonStreamLoop model a w frames wakes \<noteq> None"
proof (induction "length wakes" arbitrary: a frames wakes rule: less_induct)
  case less
  have "nextFrame frames wakes \<noteq> None" using less.prems nextFrame_None [of frames wakes] by (metis not_less_zero)
  then obtain r ended frames1 wakes1 where n: "nextFrame frames wakes = Some ((r, ended), frames1, wakes1)"
    by (cases "nextFrame frames wakes") auto
  note step = nextFrame_Some [OF n] and shorter = nextFrame_shorter [OF n]
  have again: "nonStreamLoop model a' w frames1 wakes1 \<noteq> None" if "r = Inr f" for a' f
    using that step less.prems by (intro less.hyps [OF shorter]) auto
  show ?case
    using again n by (subst nonStreamLoop.simps) (auto split: sum.split prod.split go.split option.split)
qed

lemma frames_count: "length (decodeResponseFrames body e m) \<le> length body + 1"
  using framesFrom_ends [of "NewSSEDecoder body e m"] by (auto simp: decodeResponseFrames_def NewSSEDecoder_def)


end
