(* ===== verification/Server_Properties.thy ===== *)
theory Server_Properties
  imports Server_Loops Stream_Equivalence
begin

text \<open>
  What the two serving loops guarantee, and that both ways to serve one upstream body give the same message.
\<close>

section \<open>A patient schedule\<close>

text \<open>Nothing but the delivery of frames wakes the handler up for good: no cancellation, no idle timeout.\<close>

definition patient :: "wake list \<Rightarrow> bool" where
  "patient ws \<longleftrightarrow> list_all (\<lambda>w. effective w \<longrightarrow> w = Received False) ws"

lemma nextFrame_patient: "patient ws \<Longrightarrow> 0 < wakeups ws \<Longrightarrow>
    \<exists>ws'. nextFrame (Inr f # rest) ws = Some ((Inr f, False), rest, ws') \<and> patient ws' \<and> wakeups ws = Suc (wakeups ws')"
proof (induction ws)
  case (Cons w ws)
  then show ?case by (cases w) (auto simp: patient_def)
qed simp

lemma decoded_Cons: "decoded frames = event # events \<Longrightarrow>
    \<exists>f rest. frames = Inr f # rest \<and> DecodeResponsesEvent f = Inr event \<and> decoded rest = events"
  by (induction frames rule: decoded.induct) (auto split: sum.splits)

text \<open>The next event, as both loops see it.\<close>

lemma next_event:
  assumes "decoded frames = event # events" "patient wakes" "n < wakeups wakes"
  obtains f frames1 wakes1 where "nextFrame frames wakes = Some ((Inr f, False), frames1, wakes1)"
    "DecodeResponsesEvent f = Inr event" "decoded frames1 = events" "patient wakes1" "wakeups wakes = Suc (wakeups wakes1)"
  using decoded_Cons [OF assms(1)] nextFrame_patient [OF assms(2)] assms(3) that by (metis gr_implies_not0 neq0_conv)

lemma streamLoop_all:
  assumes "processAll c (es @ [t]) = (c', out, None)" "list_all nonTerminal es" "isTerminalResponsesEvent (evType t)"
    "decoded frames = es @ t # rest" "patient wakes" "length es < wakeups wakes" "wfConverter c" "\<not> cvTerminal c"
  shows "streamLoop c (sent \<noteq> []) (written hs sent) frames wakes = Some \<lparr>svWriter = written hs (sent @ out), svCancelled = False\<rparr>"
  using assms
proof (induction es arbitrary: c out sent frames wakes)
  case Nil
  obtain f frames1 wakes1 where n: "nextFrame frames wakes = Some ((Inr f, False), frames1, wakes1)"
      "DecodeResponsesEvent f = Inr t"
    using next_event [OF _ Nil.prems(5,6)] Nil.prems(4) by (metis append_Nil)
  have p: "process c t = (c', Inr out)" using Nil.prems(1) by (auto split: prod.splits sum.splits)
  note sent = sendEvents_written [OF process_live(4) [OF Nil.prems(7,8) p], of sent]
  show ?case using n p sent Nil.prems(3) by (simp add: streamLoop.simps [of c])
next
  case (Cons e es)
  obtain f frames1 wakes1 where n: "nextFrame frames wakes = Some ((Inr f, False), frames1, wakes1)"
      "DecodeResponsesEvent f = Inr e"
    and left: "decoded frames1 = es @ t # rest" "patient wakes1" "wakeups wakes = Suc (wakeups wakes1)"
    using next_event [OF _ Cons.prems(5,6)] Cons.prems(4) by (metis append_Cons)
  obtain c1 out1 out2 where p: "process c e = (c1, Inr out1)" "processAll c1 (es @ [t]) = (c', out2, None)" "out = out1 @ out2"
    using Cons.prems(1) by (auto split: prod.splits sum.splits)
  note step = process_live [OF Cons.prems(7,8) p(1)]
  note sent = sendEvents_written [OF step(4), of sent]
  have e: "\<not> isTerminalResponsesEvent (evType e)" using Cons.prems(2) by simp
  have "streamLoop c1 (sent @ out1 \<noteq> []) (written hs (sent @ out1)) frames1 wakes1
      = Some \<lparr>svWriter = written hs ((sent @ out1) @ out2), svCancelled = False\<rparr>"
    using Cons.prems(2,6) left(3) step(3) e
    by (intro Cons.IH [OF p(2) _ Cons.prems(3) left(1,2) _ step(2)]) simp_all
  then show ?case using n p sent e by (simp add: streamLoop.simps [of c])
qed

lemma nonStreamLoop_all:
  assumes "feed accStep a (es @ [t]) = Some a'" "accFinalize a' = Inr resp" "list_all nonTerminal es"
    "isTerminalResponsesEvent (evType t)" "decoded frames = es @ t # rest" "patient wakes" "length es < wakeups wakes"
    "wfAcc a" "\<not> acTerminal a"
  shows "nonStreamLoop model a w frames wakes = Some (Ret (answer model w a'))"
  using assms
proof (induction es arbitrary: a frames wakes)
  case Nil
  obtain f frames1 wakes1 where n: "nextFrame frames wakes = Some ((Inr f, False), frames1, wakes1)"
      "DecodeResponsesEvent f = Inr t"
    using next_event [OF _ Nil.prems(6,7)] Nil.prems(5) by (metis append_Nil)
  have "accStep a t = Some a'" using Nil.prems(1) by (simp split: option.splits)
  then obtain err where p: "accProcess a t = Ret (a', err)" by (auto simp: accStep_def split: go.splits prod.splits)
  have "acErr a' = None" using Nil.prems(2) by (simp add: accFinalize_def split: option.splits)
  then have "err = None"
    using accDispatch_ok [OF Nil.prems(8), of t] p Nil.prems(9) by (auto simp: accProcess_def accStepOk_def split: option.splits)
  then show ?case using n p Nil.prems(4) by (simp add: nonStreamLoop.simps [of model a])
next
  case (Cons e es)
  obtain f frames1 wakes1 where n: "nextFrame frames wakes = Some ((Inr f, False), frames1, wakes1)"
      "DecodeResponsesEvent f = Inr e"
    and left: "decoded frames1 = es @ t # rest" "patient wakes1" "wakeups wakes = Suc (wakeups wakes1)"
    using next_event [OF _ Cons.prems(6,7)] Cons.prems(5) by (metis append_Cons)
  obtain a1 where a1: "accStep a e = Some a1" "feed accStep a1 (es @ [t]) = Some a'"
    using Cons.prems(1) by (auto split: option.splits)
  have e: "\<not> isTerminalResponsesEvent (evType e)" using Cons.prems(3) by simp
  note step = accStep_continues [OF Cons.prems(8,9) a1(1) e]
  have "nonStreamLoop model a1 w frames1 wakes1 = Some (Ret (answer model w a'))"
    using Cons.IH [OF a1(2) Cons.prems(2) _ Cons.prems(4) left(1,2) _ step(1,2)] Cons.prems(3,7) left(3) by simp
  then show ?case using n step(3) e by (simp add: nonStreamLoop.simps [of model a])
qed

section \<open>A response streamed as the Responses API does\<close>

lemma stream_serves:
  assumes "responds i its fin es" "list_all okItem its" "model \<noteq> []"
    "decoded (decodeResponseFrames body e maxBytes) = es @ rest" "patient wakes" "length es \<le> wakeups wakes"
  shows "\<exists>out. streamResponse maxBytes model (freshWriter hs) body e wakes = Some \<lparr>svWriter = written hs out, svCancelled = False\<rparr>
    \<and> clientMessage out = Some (messageOf model i its fin)"
proof -
  obtain es' where es: "es = es' @ [fin]" "list_all nonTerminal es'" "isTerminalResponsesEvent (evType fin)"
    using responds_shape [OF assms(1)] .
  obtain c out where c: "processAll (NewResponsesStreamConverter model) (es' @ [fin]) = (c, out, None)"
      "clientMessage out = Some (messageOf model i its fin)"
    using streaming_message [OF assms(1-3)] unfolding es(1) by blast
  have frames: "decoded (decodeResponseFrames body e maxBytes) = es' @ fin # rest" and len: "length es' < wakeups wakes"
    using assms(4,6) es(1) by simp_all
  have "streamResponse maxBytes model (freshWriter hs) body e wakes = Some \<lparr>svWriter = written hs out, svCancelled = False\<rparr>"
    using streamLoop_all [OF c(1) es(2,3) frames assms(5) len wf_new, of "[]"] by (simp add: streamResponse_def)
  with c(2) show ?thesis by blast
qed

lemma whole_serves:
  assumes "responds i its fin es" "list_all okItem its" "model \<noteq> []"
    "decoded (decodeResponseFrames body e maxBytes) = es @ rest" "patient wakes" "length es \<le> wakeups wakes"
  shows "nonStreamResponse maxBytes model (freshWriter hs) body e wakes
     = Some (Ret \<lparr>svWriter = writeJSON 200 (outResponse (messageOf model i its fin)) (freshWriter hs), svCancelled = False\<rparr>)"
proof -
  obtain es' where es: "es = es' @ [fin]" "list_all nonTerminal es'" "isTerminalResponsesEvent (evType fin)"
    using responds_shape [OF assms(1)] .
  obtain a resp where a: "feed accStep NewResponseAccumulator (es' @ [fin]) = Some a" "accFinalize a = Inr resp"
      "ResponsesToAnthropic (Some resp) model = Inr (messageOf model i its fin)"
    using accumulated_message [OF assms(1-3)] unfolding es(1) by blast
  have frames: "decoded (decodeResponseFrames body e maxBytes) = es' @ fin # rest" and len: "length es' < wakeups wakes"
    using assms(4,6) es(1) by simp_all
  have "answer model (freshWriter hs) a
      = \<lparr>svWriter = writeJSON 200 (outResponse (messageOf model i its fin)) (freshWriter hs), svCancelled = False\<rparr>"
    using a(2,3) by (simp add: answer_def)
  then show ?thesis
    using nonStreamLoop_all [OF a(1,2) es(2,3) frames assms(5) len wfAcc_new new_open]
    by (simp add: nonStreamResponse_def)
qed

text \<open>The upstream writes its events the same way; a sample for the concrete instances.\<close>

interpretation upstream_sse: sse_payload "\<lambda>p. oneLine (fst p) \<and> oneLine (snd p)" fst snd
  by standard auto

definition sampleBefore :: "(string \<times> string) list" where
  \<open>sampleBefore =
    [(''response.created'', ''{"type":"response.created","response":{"id":"r1","status":"in_progress"}}''),
     (''response.in_progress'', ''{"type":"response.in_progress","response":{"id":"r1"}}''),
     (''response.output_item.added'', ''{"type":"response.output_item.added","item":{"id":"m1","type":"message","role":"assistant","content":[]}}''),
     (''response.content_part.added'', ''{"type":"response.content_part.added","item_id":"m1"}''),
     (''response.output_text.delta'', ''{"type":"response.output_text.delta","item_id":"m1","delta":"Hi"}'')]\<close>

definition sampleAfter :: "(string \<times> string) list" where
  \<open>sampleAfter =
    [(''response.output_text.done'', ''{"type":"response.output_text.done","item_id":"m1","text":"Hi"}''),
     (''response.output_item.done'', ''{"type":"response.output_item.done","item":{"id":"m1","type":"message","status":"completed","content":[{"type":"output_text","text":"Hi"}]}}''),
     (''response.completed'', ''{"type":"response.completed","response":{"id":"r1","status":"completed","output":[{"type":"message","content":[{"type":"output_text","text":"Hi"}]}],"usage":{"input_tokens":5,"output_tokens":7}}}'')]\<close>

definition samplePayloads :: "(string \<times> string) list" where
  "samplePayloads = sampleBefore @ sampleAfter"

abbreviation sampleBody :: string where
  "sampleBody \<equiv> upstream_sse.bytes samplePayloads"

text \<open>The events of the sample: a message, with passing events, identifiers, roles and a repeated output.\<close>

definition helloContent :: "ResponsesContentPart list" where
  "helloContent = [zeroResponsesContentPart\<lparr>cpType := ''output_text'', cpText := ''Hi''\<rparr>]"

definition helloBegun :: ResponsesResponse where
  "helloBegun = zeroResponsesResponse\<lparr>rpID := ''r1'', rpStatus := ''in_progress''\<rparr>"

definition helloEnd :: ResponsesStreamEvent where
  "helloEnd = zeroResponsesStreamEvent\<lparr>evType := ''response.completed'', evResponse := Some (zeroResponsesResponse\<lparr>
     rpID := ''r1'', rpStatus := ''completed'',
     rpOutput := [zeroResponsesOutput\<lparr>roType := ''message'', roContent := helloContent\<rparr>],
     rpUsage := Some (zeroResponsesUsage\<lparr>ruInputTokens := 5, ruOutputTokens := 7\<rparr>)\<rparr>)\<rparr>"

definition helloSaid :: "ResponsesStreamEvent list" where
  "helloSaid = (sampleEvent ''response.output_item.added'' 0 0 [])\<lparr>evItem := Some (zeroResponsesOutput\<lparr>roType := ''message'',
       roID := ''m1'', roRole := ''assistant''\<rparr>)\<rparr>
     # ([(sampleEvent ''response.output_text.delta'' 0 0 ''m1'')\<lparr>evDelta := ''Hi''\<rparr>]
        @ (sampleEvent ''response.output_text.done'' 0 0 ''m1'')\<lparr>evText := ''Hi''\<rparr> # [])
     @ [(sampleEvent ''response.output_item.done'' 0 0 [])\<lparr>evItem := Some (zeroResponsesOutput\<lparr>roType := ''message'',
       roID := ''m1'', roStatus := ''completed'', roContent := helloContent\<rparr>)\<rparr>]"

definition helloStream :: "ResponsesStreamEvent list" where
  "helloStream = zeroResponsesStreamEvent\<lparr>evType := ''response.created'', evResponse := Some helloBegun\<rparr>
     # (zeroResponsesStreamEvent\<lparr>evType := ''response.in_progress'', evResponse := Some (zeroResponsesResponse\<lparr>rpID := ''r1''\<rparr>)\<rparr>
        # hd helloSaid # sampleEvent ''response.content_part.added'' 0 0 ''m1'' # tl helloSaid)
     @ [helloEnd]"

lemma hello_said: "streamsItem 0 (UpText [Some ''Hi'']) helloSaid"
  unfolding helloSaid_def
proof (rule streamsItemI [where x = "zeroResponsesOutput\<lparr>roType := ''message'', roID := ''m1'', roRole := ''assistant''\<rparr>"
      and y = "zeroResponsesOutput\<lparr>roType := ''message'', roID := ''m1'', roStatus := ''completed'', roContent := helloContent\<rparr>"])
  show "itemBody 0 (UpText [Some ''Hi'']) ([(sampleEvent ''response.output_text.delta'' 0 0 ''m1'')\<lparr>evDelta := ''Hi''\<rparr>]
      @ (sampleEvent ''response.output_text.done'' 0 0 ''m1'')\<lparr>evText := ''Hi''\<rparr> # [])"
    unfolding itemBody.simps by (rule text_part [OF _ no_part]) (simp_all add: about_def says_def zeros)
qed (simp_all add: about_def helloContent_def zeros)

lemma hello_responds: "responds ''r1'' [UpText [Some ''Hi'']] helloEnd helloStream"
proof -
  let ?mid = "butlast (tl helloStream)"
  have "streamsItems 0 [UpText [Some ''Hi'']] (helloSaid @ [])"
    using hello_said by (intro streamsItems.intros) simp_all
  moreover have "filter (\<lambda>e. \<not> passing ''r1'' e) ?mid = helloSaid @ []" by code_simp
  moreover have "helloStream = hd helloStream # ?mid @ [helloEnd]" by (simp add: helloStream_def butlast_append)
  moreover have "opens ''r1'' helloBegun (hd helloStream)" by (simp add: opens_def helloStream_def helloBegun_def zeros)
  moreover have "closes ''r1'' [UpText [Some ''Hi'']] True helloBegun helloEnd"
    by (simp add: closes_def helloEnd_def helloBegun_def helloContent_def zeros)
  ultimately show ?thesis unfolding responds_def
    by (intro exI [of _ "hd helloStream"] exI [of _ helloBegun] exI [of _ ?mid] exI [of _ True]) simp
qed

lemma sample_lines: "list_all (\<lambda>p. oneLine (fst p) \<and> oneLine (snd p)) samplePayloads"
  by code_simp

lemma sample_fits: "list_all (\<lambda>p. length (fst p) + length (snd p) + 15 \<le> 1000) samplePayloads"
  by code_simp

definition frameEvent :: "string \<times> string \<Rightarrow> ResponsesStreamEvent result" where
  "frameEvent p = DecodeResponsesEvent \<lparr>sfEvent = fst p, sfData = snd p, sfID = []\<rparr>"

lemma sample_before: "map frameEvent sampleBefore = map Inr (take 5 helloStream)"
  by code_simp

lemma sample_after: "map frameEvent sampleAfter = map Inr (drop 5 helloStream)"
  by code_simp

lemma sample_events: "map (\<lambda>p. DecodeResponsesEvent \<lparr>sfEvent = fst p, sfData = snd p, sfID = []\<rparr>) samplePayloads
    = map Inr helloStream"
  unfolding frameEvent_def [symmetric] samplePayloads_def map_append sample_before sample_after map_append [symmetric]
    append_take_drop_id ..

lemma decoded_map: "map (\<lambda>d. DecodeResponsesEvent (f d)) ds = map Inr es \<Longrightarrow> decoded (map (\<lambda>d. Inr (f d)) ds @ [Inl err]) = es"
  by (induction ds arbitrary: es) (auto split: sum.split)

lemma sample_decoded: "decoded (decodeResponseFrames sampleBody IoEOF 1000) = helloStream"
proof -
  have "list_all (upstream_sse.fits 1000) samplePayloads"
    using sample_fits by (auto simp: list_all_iff upstream_sse.fits_def)
  from upstream_sse.decode_all [OF sample_lines this] show ?thesis
    using decoded_map [OF sample_events] by (simp add: upstream_sse.frameOf_def)
qed

text \<open>The sample is served.\<close>

definition sampleWakes :: "wake list" where
  "sampleWakes = Active # TimerFired True False # replicate 8 (Received False)"

lemma sample_wakes: "patient sampleWakes" "length helloStream \<le> wakeups sampleWakes"
proof -
  show "patient sampleWakes" by (simp add: patient_def sampleWakes_def list_all_iff)
  have "length helloStream = 8" by (simp add: helloStream_def helloSaid_def)
  moreover have "wakeups sampleWakes = 8" by (simp add: sampleWakes_def)
  ultimately show "length helloStream \<le> wakeups sampleWakes" by simp
qed

abbreviation sampleMessage :: AnthropicResponse where
  "sampleMessage \<equiv> messageOf ''m'' ''r1'' [UpText [Some ''Hi'']] helloEnd"

lemma sample_rest: "decoded (decodeResponseFrames sampleBody IoEOF 1000) = helloStream @ []" "''m'' \<noteq> []"
    "list_all okItem [UpText [Some ''Hi'']]"
  by (simp_all only: sample_decoded append_Nil2 list.distinct simp_thms list.pred_inject okItem.simps)

lemmas sample_hyps = hello_responds sample_rest(3,2,1) sample_wakes

section \<open>The properties\<close>

text \<open>
  C21: The streamed response. Whatever bytes the upstream sends, however its connection ends, whichever way the
  frames, the client's cancellation and the idle timer interleave: if the handler returns, it has written a
  well-formed Anthropic stream and nothing else under status 200, and either the stream is complete and the
  upstream request was not cut short, or it is incomplete, the upstream request is cancelled, and the
  client was told so by one error event at the very end, or by a 502 JSON error when no event had been sent.
  Only when the client itself was gone, that is when a wake-up found its request ended or the upstream body broke
  off with the error of an ended context, may the incomplete stream end without that error. An incomplete stream
  never looks complete.
\<close>

theorem stream_response_served:
  assumes "streamResponse maxBytes model (freshWriter hs) body e wakes = Some sv"
  shows "\<exists>es ph. accepts Fresh es = Some ph
     \<and> (ph = Stopped \<and> sv = \<lparr>svWriter = written hs es, svCancelled = False\<rparr>
        \<or> live ph \<and> sv = \<lparr>svWriter = written hs es, svCancelled = True\<rparr>
            \<and> (list_ex clientLeft wakes \<or> errorsIs e CtxCanceled \<or> errorsIs e CtxDeadlineExceeded)
        \<or> live ph \<and> (\<exists>err. sv = \<lparr>svWriter =
             (if es = [] then writeError 502 ''api_error'' (processingMessage err) (freshWriter hs)
              else written hs (es @ [errorEvent err])), svCancelled = True\<rparr>))"
  using streamResponse_ok [OF assms]
  unfolding servedOk_def completed_def abandoned_def failedWith_def contextEnded_def by blast

text \<open>A body whose connection is reset: a client that is still there is never left in silence.\<close>

theorem stream_response_served_witness:
  "\<exists>sv es ph. streamResponse 1000 ''m'' (freshWriter []) ''data:'' (OsError ''reset'') (replicate 7 (Received False)) = Some sv
     \<and> accepts Fresh es = Some ph
     \<and> (ph = Stopped \<and> sv = \<lparr>svWriter = written [] es, svCancelled = False\<rparr>
        \<or> live ph \<and> (\<exists>err. sv = \<lparr>svWriter =
             (if es = [] then writeError 502 ''api_error'' (processingMessage err) (freshWriter [])
              else written [] (es @ [errorEvent err])), svCancelled = True\<rparr>))"
proof -
  let ?ws = "replicate 7 (Received False)" and ?e = "OsError ''reset''"
  have here: "\<not> (list_ex clientLeft ?ws \<or> errorsIs ?e CtxCanceled \<or> errorsIs ?e CtxDeadlineExceeded)"
    by (simp add: numeral_eq_Suc)
  have "length (decodeResponseFrames ''data:'' ?e 1000) < wakeups ?ws"
    using frames_count [of "''data:''" ?e 1000] by simp
  from streamLoop_returns [OF this] obtain sv where
    sv: "streamResponse 1000 ''m'' (freshWriter []) ''data:'' ?e ?ws = Some sv" unfolding streamResponse_def by blast
  with stream_response_served [OF sv] here show ?thesis by blast
qed

text \<open>
  C22: What the client reads. A client that decodes the body of a streamed response with status 200 as server-sent
  events, with a limit the body does not exceed, gets frame by frame exactly the Anthropic events that were
  sent: a complete message stream, or an incomplete one that ends there or in one error event.
\<close>

theorem stream_client_reads:
  assumes "streamResponse maxBytes model (freshWriter hs) body e wakes = Some sv"
    "rwSent (svWriter sv) = Some (200, sent)" "int (length (rwBody (svWriter sv))) \<le> m"
  shows "\<exists>es. decodeResponseFrames (rwBody (svWriter sv)) IoEOF m = map (\<lambda>e. Inr (eventFrame e)) es @ [Inl IoEOF]
     \<and> (if svCancelled sv
        then \<exists>ph. live ph \<and> (accepts Fresh es = Some ph
               \<or> es \<noteq> [] \<and> accepts Fresh (butlast es) = Some ph \<and> seType (last es) = ''error'')
        else accepts Fresh es = Some Stopped)"
proof -
  obtain es where enc: "list_all encodable es"
      and c: "completed hs es sv \<or> abandoned hs es sv \<or> (\<exists>err. failedWith hs err es sv)"
    using streamResponse_ok [OF assms(1)] by (auto simp: servedOk_def)
  have reads: "decodeResponseFrames (eventsText es') IoEOF m = map (\<lambda>e. Inr (eventFrame e)) es' @ [Inl IoEOF]"
    if "list_all encodable es'" "int (length (eventsText es')) \<le> m" for es'
  proof -
    have "eventsText es' = anthropic_sse.bytes es'"
      by (simp add: eventsText_def eventText_def [abs_def] anthropic_sse.bytes_def)
    moreover have "list_all (anthropic_sse.fits m) es'"
      using that(2) by (induction es') (auto simp: anthropic_sse.fits_def eventText_def sseText_def)
    ultimately show ?thesis using decode_bytes that(1) by simp
  qed
  from c show ?thesis
  proof (elim disjE exE)
    assume "completed hs es sv"
    then show ?thesis using reads [OF enc] assms(3) by (intro exI [of _ es]) (simp add: completed_def written_def)
  next
    assume "abandoned hs es sv"
    then show ?thesis using reads [OF enc] assms(3) by (intro exI [of _ es]) (auto simp: abandoned_def written_def)
  next
    fix err assume f: "failedWith hs err es sv"
    have ne: "es \<noteq> []"
    proof
      assume "es = []"
      with f have "rwSent (svWriter sv) = rwSent (writeError 502 ''api_error'' (processingMessage err) (freshWriter hs))"
        by (simp add: failedWith_def)
      then show False using assms(2)
        by (simp add: writeError_def writeJSON_def writeBytes_def freshWriter_def Let_def split: option.splits)
    qed
    have "seType (errorEvent err) = ''error''" by (simp add: errorEvent_def NewAnthropicErrorEvent_def)
    then show ?thesis using f ne reads [of "es @ [errorEvent err]"] enc assms(3)
      by (intro exI [of _ "es @ [errorEvent err]"]) (auto simp: failedWith_def written_def)
  qed
qed

theorem stream_client_reads_witness:
  "\<exists>out es. rwBody (written [] out) \<noteq> [] \<and> accepts Fresh es = Some Stopped
     \<and> decodeResponseFrames (rwBody (written [] out)) IoEOF (int (length (rwBody (written [] out)))) = map (\<lambda>e. Inr (eventFrame e)) es @ [Inl IoEOF]"
proof -
  obtain out where out: "streamResponse 1000 ''m'' (freshWriter []) sampleBody IoEOF sampleWakes = Some \<lparr>svWriter = written [] out, svCancelled = False\<rparr>"
      "clientMessage out = Some sampleMessage"
    using stream_serves [OF sample_hyps, of "[]"] by blast
  have ne: "out \<noteq> []" using out(2) by (auto simp: clientMessage_def Let_def)
  then have "eventsText out \<noteq> []" by (cases out) (simp_all add: eventText_def sseText_def)
  moreover have "rwSent (written [] out) = Some (200, streamHeaders [])" using ne by (simp add: written_def)
  ultimately show ?thesis
    using stream_client_reads [OF out(1), of "streamHeaders []" "int (length (rwBody (written [] out)))"]
    by (simp add: written_def) blast
qed

text \<open>
  C23: The response as a whole. Whatever bytes the upstream sends and whichever way the frames, the client's
  cancellation and the idle timer interleave: if the handler returns, either the upstream request was cancelled
  and nothing was written, or one 502 JSON error was, or the upstream events up to a terminal one have been
  accumulated without error and their conversion was sent with status 200. Success is never reported for a
  stream that broke off.
\<close>

theorem whole_response_served:
  assumes "nonStreamResponse maxBytes model (freshWriter hs) body e wakes = Some (Ret sv)"
  shows "sv = \<lparr>svWriter = freshWriter hs, svCancelled = True\<rparr>
    \<or> (\<exists>err cancelled. sv = \<lparr>svWriter = writeError 502 ''api_error'' (processingMessage err) (freshWriter hs), svCancelled = cancelled\<rparr>)
    \<or> (\<exists>es a resp msg. prefix es (decoded (decodeResponseFrames body e maxBytes)) \<and> es \<noteq> []
         \<and> isTerminalResponsesEvent (evType (last es)) \<and> feed accStep NewResponseAccumulator es = Some a
         \<and> accFinalize a = Inr resp \<and> ResponsesToAnthropic (Some resp) model = Inr msg
         \<and> sv = \<lparr>svWriter = writeJSON 200 (outResponse msg) (freshWriter hs), svCancelled = False\<rparr>)"
proof -
  have unfinished: "\<exists>err c. sv = \<lparr>svWriter = writeError 502 ''api_error'' (processingMessage err) (freshWriter hs), svCancelled = c\<rparr>"
    if "sv = finish (Some err) False (freshWriter hs)" for err
    using that by (auto simp: finish_def writeProcessingError_def)
  from nonStreamLoop_ok [OF assms [unfolded nonStreamResponse_def] wfAcc_new new_open] show ?thesis
  proof (elim disjE exE)
    assume "answeredFrom model NewResponseAccumulator (freshWriter hs) (decodeResponseFrames body e maxBytes) sv"
    then obtain es a where es: "prefix es (decoded (decodeResponseFrames body e maxBytes))" "es \<noteq> []"
        "isTerminalResponsesEvent (evType (last es))" "feed accStep NewResponseAccumulator es = Some a"
        "sv = answer model (freshWriter hs) a"
      by (auto simp: answeredFrom_def)
    show ?thesis
    proof (cases "accFinalize a")
      case (Inl err)
      with es(5) show ?thesis by (auto simp: answer_def writeProcessingError_def)
    next
      case r: (Inr resp)
      show ?thesis
      proof (cases "ResponsesToAnthropic (Some resp) model")
        case (Inl err)
        with es(5) r show ?thesis by (auto simp: answer_def writeProcessingError_def)
      next
        case (Inr msg)
        then have "sv = \<lparr>svWriter = writeJSON 200 (outResponse msg) (freshWriter hs), svCancelled = False\<rparr>"
          using es(5) r by (simp add: answer_def)
        with es(1-4) r Inr show ?thesis by blast
      qed
    qed
  qed (use unfinished in auto)
qed

theorem whole_response_served_witness:
  "\<exists>sv. nonStreamResponse 1000 ''m'' (freshWriter []) sampleBody IoEOF sampleWakes = Some (Ret sv)
     \<and> (svWriter sv = freshWriter [] \<or> (\<exists>err. svWriter sv = writeError 502 ''api_error'' (processingMessage err) (freshWriter []))
        \<or> (\<exists>msg. svWriter sv = writeJSON 200 (outResponse msg) (freshWriter [])))"
  using whole_serves [OF sample_hyps, of "[]"] whole_response_served [of 1000 "''m''" "[]" sampleBody IoEOF sampleWakes] by fastforce

text \<open>
  One answer, served either way. When the upstream body, read as server-sent events, holds a response that
  streams its items the way the Responses API does, and neither a cancellation nor the idle timer interferes,
  then both handlers return, with status 200 and without cutting the upstream request short: the streaming one
  has sent exactly the events of a message, and that message is the JSON body the other one has sent.
\<close>

theorem http_modes_agree:
  assumes "responds i its fin es" "list_all okItem its" "model \<noteq> []"
    "decoded (decodeResponseFrames body e maxBytes) = es @ rest" "patient wakes" "length es \<le> wakeups wakes"
  shows "\<exists>out msg. streamResponse maxBytes model (freshWriter hs) body e wakes
       = Some \<lparr>svWriter = written hs out, svCancelled = False\<rparr>
    \<and> clientMessage out = Some msg
    \<and> nonStreamResponse maxBytes model (freshWriter hs) body e wakes
       = Some (Ret \<lparr>svWriter = writeJSON 200 (outResponse msg) (freshWriter hs), svCancelled = False\<rparr>)
    \<and> msg = messageOf model i its fin"
  using stream_serves [OF assms] whole_serves [OF assms] by blast

theorem http_modes_agree_witness:
  "nonStreamResponse 1000 ''m'' (freshWriter []) sampleBody IoEOF sampleWakes
     = Some (Ret \<lparr>svWriter = writeJSON 200 (outResponse sampleMessage) (freshWriter []), svCancelled = False\<rparr>)"
  using http_modes_agree [OF sample_hyps, of "[]"] by blast

text \<open>
  C24: Both handlers return. The schedule may contain any number of mere activity wake-ups; as soon as it has
  two more other wake-ups (a ready frame channel, the end of the request, an idle timeout) than the upstream
  body has bytes, the handler has returned. Since the idle timer fires when nothing else happens, a client is
  never left waiting for ever.
\<close>

theorem handlers_return:
  assumes "length body + 1 < wakeups wakes"
  shows "streamResponse maxBytes model w body e wakes \<noteq> None \<and> nonStreamResponse maxBytes model w body e wakes \<noteq> None"
proof -
  have "length (decodeResponseFrames body e maxBytes) < wakeups wakes"
    using frames_count [of body e maxBytes] assms by simp
  then show ?thesis
    unfolding streamResponse_def nonStreamResponse_def using streamLoop_returns nonStreamLoop_returns by blast
qed

theorem handlers_return_witness:
  "streamResponse 0 ''m'' (freshWriter []) ''x'' IoEOF (replicate 3 (TimerFired False False)) \<noteq> None"
  using handlers_return [of "''x''" "replicate 3 (TimerFired False False)"] by (simp add: numeral_eq_Suc)

end
