(* ===== verification/Handler_Properties.thy ===== *)
theory Handler_Properties
  imports Server_Routes Server_Properties Transform_Properties Request_Properties
begin

text \<open>
  What the HTTP server promises around the two serving loops: who may use it, what reaches the upstream and how
  often, and that a served request says what the upstream said.
\<close>

section \<open>A sample request\<close>

definition sampleText :: string where
  \<open>sampleText = ''{"model":"m","max_tokens":1,"messages":[{"role":"user","content":"hi"}]}''\<close>

definition sampleReq :: AnthropicRequest where
  \<open>sampleReq = zeroAnthropicRequest\<lparr>arModel := ''m'', arMaxTokens := 1,
     arMessages := [\<lparr>amRole = ''user'', amContent = ''"hi"''\<rparr>]\<rparr>\<close>

lemma sample_stream: "decodeStream zeroAnthropicRequest decRequest sampleText IoEOF = Inr (sampleReq, [])"
  by code_simp

lemma sample_valid: "validateMessagesRequest sampleReq = None"
  by code_simp

lemma sample_translates: "case AnthropicToResponses (Some sampleReq) of Inl err \<Rightarrow> False | Inr r \<Rightarrow> rawsValid (outRequest r)"
  by code_simp

definition sampleServerRequest :: ServerRequest where
  "sampleServerRequest = \<lparr>sqMethod = ''POST'', sqPath = ''/v1/messages'', sqHeader = [(''X-Api-Key'', ''s'')],
     sqContentLength = -1, sqBody = sampleText, sqEnd = IoEOF\<rparr>"

text \<open>A provider whose first token the upstream rejects.\<close>

definition sampleHandler :: "unit Handler" where
  "sampleHandler = \<lparr>hdLocalSecret = ''s'',
     hdTokens = \<lparr>tpGetValidToken = (\<lambda>w. (Inr \<lparr>axAccessToken = ''t'', axAccountID = ''a''\<rparr>, w)),
       tpForceRefresh = (\<lambda>t w. (Inr \<lparr>axAccessToken = ''u'', axAccountID = ''a''\<rparr>, w))\<rparr>,
     hdUpstream = (\<lambda>body c s w. (Inr \<lparr>hrStatus = (if crAccessToken c = ''t'' then 401 else 200), hrHeader = [],
       hrBody = sampleBody, hrEnd = IoEOF\<rparr>, w)),
     hdMaxRequestBytes = 1000, hdSSEIdleTimeout = 1, hdMaxSSEEventBytes = 1000\<rparr>"

lemma sample_decodes: "decodeRequest sampleHandler sampleServerRequest w = Inr sampleReq"
proof -
  have "length sampleText \<le> 1000" by code_simp
  then show ?thesis
    using sample_stream
    by (simp add: decodeRequest_def sampleHandler_def sampleServerRequest_def maxBytesReader_def streamEnds_def skip_ws_def)
qed

lemma sample_translation:
  obtains r where "AnthropicToResponses (Some sampleReq) = Inr r" "marshal (outRequest r) = Some (enc (outRequest r))"
  using sample_translates that by (auto simp: marshal_def split: sum.splits)

definition sampleConfig :: "unit ServerConfig" where
  "sampleConfig = \<lparr>scLocalSecret = ''s'', scTokens = Some (hdTokens sampleHandler), scUpstream = Some (hdUpstream sampleHandler),
     scMaxRequestBytes = 1000, scSSEIdleTimeout = 1, scMaxSSEEventBytes = 1000\<rparr>"

definition sampleServing :: "unit serving" where
  "sampleServing = \<lparr>svQuote = (\<lambda>s. s), svOpaque = (\<lambda>e. []), svCJK = (\<lambda>r. False), svOther = (\<lambda>request w. w),
     svHandler = sampleHandler\<rparr>"

section \<open>Access\<close>

definition carriesSecret :: "string \<Rightarrow> headers \<Rightarrow> bool" where
  "carriesSecret secret hs \<longleftrightarrow> trimSpace (headerGet ''x-api-key'' hs) = secret
     \<or> (\<exists>scheme. fieldsOf (headerGet ''Authorization'' hs) = [scheme, secret] \<and> lowerASCII scheme = ''bearer'')"

lemma authenticated_iff: "authenticated h request = carriesSecret (hdLocalSecret h) (sqHeader request)"
  by (auto simp: authenticated_def candidates_def carriesSecret_def split: list.split)

lemma unauthorized: "\<not> carriesSecret (hdLocalSecret h) (sqHeader request) \<Longrightarrow>
    requireAuthentication h handle request w world
      = (Some (Ret (writeError 401 ''authentication_error'' ''Invalid local API key'' w)), world)"
  by (simp add: requireAuthentication_def authenticated_iff)

definition nosniff :: "ResponseWriter \<Rightarrow> ResponseWriter" where
  "nosniff w = setHeader ''X-Content-Type-Options'' ''nosniff'' w"

lemma newHandler_secret: "NewHandler config = Inr h \<Longrightarrow>
    hdLocalSecret h = scLocalSecret config \<and> \<not> isBlank (scLocalSecret config)"
  by (auto simp: NewHandler_def split: if_splits option.splits)

text \<open>
  C25: The local secret guards everything. With a handler that \<^verbatim>\<open>New\<close> accepted, a request changes the world (the
  stored credentials, the upstream and its turn states) only if it is a \<^verbatim>\<open>POST\<close> of \<^verbatim>\<open>/v1/messages\<close> that carries the
  secret, which is not blank, as its API key or its bearer token. Without it, both routes of the API answer 401
  and nothing else.
\<close>

theorem local_secret_required:
  assumes "NewHandler config = Inr (svHandler s)" "ServeHTTP s request ended wakes w world = (result, world1)"
  shows "\<not> isBlank (scLocalSecret config)
    \<and> (world1 \<noteq> world \<longrightarrow> sqMethod request = ''POST'' \<and> sqPath request = ''/v1/messages''
          \<and> carriesSecret (scLocalSecret config) (sqHeader request))
    \<and> (\<not> carriesSecret (scLocalSecret config) (sqHeader request) \<and> sqMethod request = ''POST''
          \<and> sqPath request \<in> {''/v1/messages'', ''/v1/messages/count_tokens''} \<longrightarrow>
        result = Some (Ret (writeError 401 ''authentication_error'' ''Invalid local API key'' (nosniff w))) \<and> world1 = world)"
proof -
  have secret: "hdLocalSecret (svHandler s) = scLocalSecret config" "\<not> isBlank (scLocalSecret config)"
    using assms(1) newHandler_secret by blast+
  show ?thesis
  proof (cases "carriesSecret (scLocalSecret config) (sqHeader request)")
    case True
    then show ?thesis using secret assms(2)
      by (auto simp: ServeHTTP_def requireAuthentication_def Let_def split: if_splits)
  next
    case False
    then show ?thesis using secret assms(2)
      by (auto simp: ServeHTTP_def unauthorized nosniff_def Let_def split: if_splits)
  qed
qed

theorem local_secret_required_witness:
  "\<not> isBlank (scLocalSecret sampleConfig)
     \<and> ServeHTTP sampleServing (sampleServerRequest\<lparr>sqHeader := []\<rparr>) False [] (newWriter None) ()
       = (Some (Ret (writeError 401 ''authentication_error'' ''Invalid local API key'' (nosniff (newWriter None)))), ())"
proof -
  have "\<not> isBlank ''s''" by code_simp
  then have new: "NewHandler sampleConfig = Inr (svHandler sampleServing)"
    by (simp add: NewHandler_def sampleConfig_def sampleServing_def sampleHandler_def orDefault_def)
  have no: "\<not> carriesSecret (scLocalSecret sampleConfig) []"
    by (simp add: carriesSecret_def sampleConfig_def headerGet_def fieldsOf.simps [of "[]"])
  obtain result world1 where r: "ServeHTTP sampleServing (sampleServerRequest\<lparr>sqHeader := []\<rparr>) False [] (newWriter None) () = (result, world1)"
    by (rule prod.exhaust)
  from local_secret_required [OF new r] no show ?thesis unfolding r by (simp add: sampleServerRequest_def)
qed

section \<open>The upstream calls of one request\<close>

text \<open>A handler whose calls are recorded; a sent request is recorded with the status of its response, if any.\<close>

datatype call = GotToken | Sent string Credentials Session "int option" | Forced string

definition statusOf :: "HttpResponse result \<Rightarrow> int option" where
  "statusOf r = (case r of Inl err \<Rightarrow> None | Inr response \<Rightarrow> Some (hrStatus response))"

definition watched :: "'w Handler \<Rightarrow> ('w \<times> call list) Handler" where
  "watched h = \<lparr>hdLocalSecret = hdLocalSecret h,
     hdTokens = \<lparr>tpGetValidToken = (\<lambda>(w, l). case tpGetValidToken (hdTokens h) w of (r, w1) \<Rightarrow> (r, w1, l @ [GotToken])),
       tpForceRefresh = (\<lambda>t (w, l). case tpForceRefresh (hdTokens h) t w of (r, w1) \<Rightarrow> (r, w1, l @ [Forced t]))\<rparr>,
     hdUpstream = (\<lambda>body c s (w, l). case hdUpstream h body c s w of (r, w1) \<Rightarrow> (r, w1, l @ [Sent body c s (statusOf r)])),
     hdMaxRequestBytes = hdMaxRequestBytes h, hdSSEIdleTimeout = hdSSEIdleTimeout h, hdMaxSSEEventBytes = hdMaxSSEEventBytes h\<rparr>"

text \<open>What may be called, in which order, when one translated request is sent.\<close>

fun callsOk :: "string \<Rightarrow> Session \<Rightarrow> call list \<Rightarrow> bool" where
  "callsOk body s [] = True"
| "callsOk body s [GotToken] = True"
| "callsOk body s [GotToken, Sent b c t status] = (b = body \<and> t = s \<and> status \<noteq> Some 401)"
| "callsOk body s [GotToken, Sent b c t status, Forced token] =
     (b = body \<and> t = s \<and> status = Some 401 \<and> token = crAccessToken c)"
| "callsOk body s [GotToken, Sent b c t status, Forced token, Sent b' c' t' status'] =
     (b = body \<and> t = s \<and> status = Some 401 \<and> token = crAccessToken c \<and> b' = body \<and> t' = s)"
| "callsOk body s _ = False"

lemma callUpstream_watched:
  assumes "callUpstream (watched h) body s (w, []) = (r, w1, l)"
  shows "callUpstream h body s w = (r, w1) \<and> callsOk body s l"
  using assms
  by (auto simp: callUpstream_def watched_def upstreamCredentials_def statusOf_def split: prod.splits sum.splits if_splits)

lemma watched_simps [simp]: "decodeRequest (watched h) request w = decodeRequest h request w"
    "respond (watched h) a response wakes w = respond h a response wakes w"
  by (simp_all add: decodeRequest_def respond_def watched_def)

text \<open>
  C26: One request, one retry. However token provider and upstream behave, serving a \<^verbatim>\<open>/v1/messages\<close> request asks for
  one token and sends at most two upstream requests, both with the body the client's request translates to and
  the session it resolves to; the second is sent exactly after the first was answered 401 and the very token it
  carried has been reported as rejected. Requests that cannot be decoded, validated or translated call nothing.
  The recording changes neither the answer nor the world.
\<close>

theorem upstream_calls:
  assumes "messages quote opaque (watched h) request ended wakes w (world, []) = (result, world1, calls)"
  shows "messages quote opaque h request ended wakes w world = (result, world1)
    \<and> (calls = [] \<or> (\<exists>req r. decodeRequest h request w = Inr req \<and> validateMessagesRequest req = None
         \<and> AnthropicToResponses (Some req) = Inr r
         \<and> callsOk (enc (outRequest r)) (ResolveSession (sqHeader request) req) calls))"
proof (cases "\<exists>req r body. decodeRequest h request w = Inr req \<and> validateMessagesRequest req = None
    \<and> AnthropicToResponses (Some req) = Inr r \<and> marshal (outRequest r) = Some body")
  case False
  then show ?thesis using assms
    by (auto simp: messages_def split: sum.splits option.splits)
next
  case True
  then obtain req r body where ok: "decodeRequest h request w = Inr req" "validateMessagesRequest req = None"
      "AnthropicToResponses (Some req) = Inr r" "marshal (outRequest r) = Some body" by blast
  have body: "body = enc (outRequest r)" using ok(4) by (simp add: marshal_def split: if_splits)
  let ?s = "ResolveSession (sqHeader request) req"
  obtain c w1 l where c: "callUpstream (watched h) body ?s (world, []) = (c, w1, l)" by (metis surj_pair)
  note plain = callUpstream_watched [OF c]
  have "messages quote opaque h request ended wakes w world = (result, world1) \<and> calls = l"
    using assms ok c plain by (auto simp: messages_def split: sum.splits)
  with plain ok(1-3) body show ?thesis by blast
qed

theorem upstream_calls_witness:
  "\<exists>result b t. messages (\<lambda>s. s) (\<lambda>e. []) sampleHandler sampleServerRequest False sampleWakes (newWriter None) () = (result, ())
     \<and> callsOk b t [GotToken, Sent b \<lparr>crAccessToken = ''t'', crAccountID = ''a''\<rparr> t (Some 401), Forced ''t'',
          Sent b \<lparr>crAccessToken = ''u'', crAccountID = ''a''\<rparr> t (Some 200)]"
proof -
  obtain r where r: "AnthropicToResponses (Some sampleReq) = Inr r" "marshal (outRequest r) = Some (enc (outRequest r))"
    by (rule sample_translation)
  let ?b = "enc (outRequest r)" and ?t = "ResolveSession (sqHeader sampleServerRequest) sampleReq"
  let ?l = "[GotToken, Sent ?b \<lparr>crAccessToken = ''t'', crAccountID = ''a''\<rparr> ?t (Some 401), Forced ''t'',
          Sent ?b \<lparr>crAccessToken = ''u'', crAccountID = ''a''\<rparr> ?t (Some 200)]"
  have "\<exists>result. messages (\<lambda>s. s) (\<lambda>e. []) (watched sampleHandler) sampleServerRequest False sampleWakes (newWriter None) ((), []) = (result, (), ?l)"
    using r by (simp add: messages_def sample_decodes sample_valid callUpstream_def)
      (simp add: watched_def sampleHandler_def upstreamCredentials_def statusOf_def)
  then obtain result where "messages (\<lambda>s. s) (\<lambda>e. []) (watched sampleHandler) sampleServerRequest False sampleWakes (newWriter None) ((), []) = (result, (), ?l)" ..
  from upstream_calls [OF this] show ?thesis by auto
qed

section \<open>Size limits\<close>

text \<open>
  A request body over the limit never gets through: the answer is 413, or 400 when the bytes within the limit
  are already wrong, and the world is unchanged.
\<close>

theorem oversize_rejected:
  assumes "hdMaxRequestBytes h < int (length (sqBody request)) \<or> hdMaxRequestBytes h < sqContentLength request"
  shows "\<exists>status message. messages quote opaque h request ended wakes w world
      = (Some (Ret (writeError status ''invalid_request_error'' message w)), world) \<and> status \<in> {400, 413}"
proof -
  have "\<exists>status message. decodeRequest h request w = Inl (writeError status ''invalid_request_error'' message w) \<and> status \<in> {400, 413}"
  proof (cases "hdMaxRequestBytes h < sqContentLength request")
    case True
    then show ?thesis by (auto simp: decodeRequest_def)
  next
    case False
    then have r: "maxBytesReader (hdMaxRequestBytes h) (sqBody request) (sqEnd request)
        = (take (nat (hdMaxRequestBytes h)) (sqBody request), MaxBytesError)"
      using assms by (simp add: maxBytesReader_def)
    show ?thesis
    proof (cases "decodeStream zeroAnthropicRequest decRequest (take (nat (hdMaxRequestBytes h)) (sqBody request)) MaxBytesError")
      case (Inl err)
      then show ?thesis using False r by (auto simp: decodeRequest_def decodeFailed_def)
    next
      case (Inr p)
      then show ?thesis using False r by (cases p) (auto simp: decodeRequest_def streamEnds_def)
    qed
  qed
  then obtain status message where
    "decodeRequest h request w = Inl (writeError status ''invalid_request_error'' message w)" "status \<in> {400, 413}" by blast
  then show ?thesis by (intro exI [of _ status] exI [of _ message]) (simp add: messages_def)
qed

theorem oversize_rejected_witness:
  "\<exists>status message. messages (\<lambda>s. s) (\<lambda>e. []) (sampleHandler\<lparr>hdMaxRequestBytes := 3\<rparr>) sampleServerRequest False [] (newWriter None) ()
      = (Some (Ret (writeError status ''invalid_request_error'' message (newWriter None))), ()) \<and> status \<in> {400, 413}"
proof -
  have "3 < length sampleText" by code_simp
  then show ?thesis by (intro oversize_rejected) (simp add: sampleServerRequest_def)
qed

section \<open>What is sent upstream\<close>

lemma raws_omitList [simp]: "list_all (\<lambda>m. rawsValid (snd m)) (omitList k f xs) \<longleftrightarrow> list_all (\<lambda>x. rawsValid (f x)) xs"
  by (auto simp: omitList_def list_all_iff)

lemma raws_parts [simp]:
  "rawsValid (outContentPart p)" "rawsValid (outReasoning x)" "rawsValid (outText t)"
  by (simp_all add: outContentPart_def outReasoning_def outText_def)

lemma raws_item [simp]: "rawsValid (outInputItem i)"
  by (simp add: outInputItem_def list.pred_True)

lemma raws_omitPtr: "(\<And>y. rawsValid (f y)) \<Longrightarrow> list_all (\<lambda>m. rawsValid (snd m)) (omitPtr k f x)"
  by (simp split: option.split)

lemma raws_tool: "rawsValid (outTool t) \<longleftrightarrow> tlParameters t = [] \<or> json_parse (tlParameters t) \<noteq> None"
  using raws_omitPtr [of OBool "''strict''" "tlStrict t"] by (simp add: outTool_def del: raws_simps(7))

lemma raws_request:
  "rawsValid (outRequest r) \<longleftrightarrow> list_all (\<lambda>t. rawsValid (outTool t)) (rqTools r)
     \<and> (rqToolChoice r = [] \<or> json_parse (rqToolChoice r) \<noteq> None)"
proof -
  have "rawsValid (if rqInput r = [] then ONull else OArr (map outInputItem (rqInput r)))"
    by (simp add: list.pred_map list.pred_True comp_def)
  then show ?thesis
    using raws_omitPtr [of OInt _ "rqMaxOutputTokens r"] raws_omitPtr [of OBool _ "rqStore r"]
      raws_omitPtr [of OBool _ "rqParallelToolCalls r"] raws_omitPtr [of outReasoning _ "rqReasoning r"]
      raws_omitPtr [of outText _ "rqText r"]
    by (simp add: outRequest_def list.pred_True del: raws_simps(7))
qed

lemma choice_parses: "convertToolChoice raw = Inr c \<Longrightarrow> json_parse c \<noteq> None"
proof -
  have str: "json_parse (enc_string s) \<noteq> None" for s
    using reads_parse [OF reads_string order_refl] by simp
  have "json_parse (enc_object [(''type'', enc_string ''function''), (''name'', enc_string n)]) \<noteq> None" for n
    using parse_enc [of "OObj [(''type'', OStr ''function''), (''name'', OStr n)]"] by (simp add: max_nesting_def)
  then show "convertToolChoice raw = Inr c \<Longrightarrow> ?thesis"
    using str by (auto simp: convertToolChoice_def split: option.splits if_splits)
qed

lemma translated_valid: "AnthropicToResponses (Some req) = Inr r \<Longrightarrow> rawsValid (outRequest r)"
proof (elim AnthropicToResponses_Inr)
  fix input tools effort choice
  assume t: "(if arTools req \<noteq> [] then convertTools (arTools req) else Inr []) = Inr tools"
    and c: "(if \<not> isBlank (arToolChoice req) then convertToolChoice (arToolChoice req) else Inr []) = Inr choice"
    and r: "r = (requestBase req input)\<lparr>rqTools := tools,
       rqReasoning := Some \<lparr>rrEffort = effort, rrSummary = ''auto''\<rparr>, rqToolChoice := choice\<rparr>"
  have "json_parse (tlParameters tool) \<noteq> None" if tool: "tool \<in> set tools" for tool
  proof -
    have "mapE_from 0 convertTool (arTools req) = Inr tools" using t tool by (auto simp: convertTools_def split: if_splits)
    from mapE_from_elem [OF this tool] obtain k x where "convertTool k x = Inr tool" by blast
    then have "normalizeToolParameters (atInputSchema x) = Inr (tlParameters tool)"
      by (auto simp: convertTool_def split: sum.splits)
    from schema_has_properties [OF this] show ?thesis by auto
  qed
  then have "list_all (\<lambda>t. rawsValid (outTool t)) tools" by (simp add: list_all_iff raws_tool)
  moreover have "choice = [] \<or> json_parse choice \<noteq> None" using c choice_parses by (auto split: if_splits)
  ultimately show ?thesis by (simp add: raws_request r)
qed

lemma out_json_request: "\<exists>ms. out_json (outRequest r) = JObj ms"
  by (simp add: outRequest_def)

text \<open>
  C27: What is translated can be sent. A request that translates is marshalled without error and, nested no deeper
  than \<^verbatim>\<open>encoding/json\<close> reads, the mandatory transform accepts it: the upstream gets a JSON object that names the
  one model, streams, is not stored, and has instructions. So the handler never answers 500, and the upstream client
  never refuses the body.
\<close>

theorem translated_is_sent:
  assumes "AnthropicToResponses (Some req) = Inr r" "okOut max_nesting (outRequest r)"
  shows "\<exists>request. marshal (outRequest r) = Some (enc (outRequest r))
    \<and> Transform (enc (outRequest r)) = Inr (marshalAny (AObj (transformRequest request)))
    \<and> get ''model'' (transformRequest request) = Some (AStr Model)
    \<and> get ''stream'' (transformRequest request) = Some (ABool True)
    \<and> get ''store'' (transformRequest request) = Some (ABool False)
    \<and> stringValue (get ''instructions'' (transformRequest request)) \<noteq> []"
proof -
  obtain ms where ms: "out_json (outRequest r) = JObj ms" using out_json_request by blast
  have parse: "json_parse (enc (outRequest r)) = Some (JObj ms)" using parse_enc [OF assms(2)] ms by simp
  obtain request where request: "toAny (JObj ms) = AObj request" by simp
  have "Transform (enc (outRequest r)) = Inr (marshalAny (AObj (transformRequest request)))"
    using parse request transform_ok by blast
  with translated_valid [OF assms(1)] transform_forced [of request] show ?thesis
    by (intro exI [of _ request]) (simp add: marshal_def)
qed

theorem translated_is_sent_witness:
  "\<exists>r sent. AnthropicToResponses (Some sampleReq) = Inr r \<and> Transform (enc (outRequest r)) = Inr sent"
proof -
  have "case AnthropicToResponses (Some sampleReq) of Inl err \<Rightarrow> False | Inr r \<Rightarrow> okOut max_nesting (outRequest r)"
    by code_simp
  then obtain r where r: "AnthropicToResponses (Some sampleReq) = Inr r" "okOut max_nesting (outRequest r)"
    by (auto split: sum.splits)
  from translated_is_sent [OF r] r(1) show ?thesis by blast
qed

section \<open>The whole path\<close>

text \<open>
  C28: From request to answer. Take a request that decodes, validates and translates, whose upstream call is answered
  with a success status and a body that streams one successful response as the Responses API does (the same streams
  as for the equivalence of the two ways to serve one: identifiers, statuses, passing events and any of the three
  terminal events included; nothing is asked of what comes after the terminal event). If the client stays and takes
  what is written, and neither its request's context nor the idle timer ends the wait for a frame, then the handler
  answers, streamed or as a whole as the client asked, with exactly the message of that response under the client's
  own model name. A body that streams a failed response gives no message, and is not what this is about.
\<close>

theorem message_served:
  assumes "decodeRequest h request (freshWriter hs) = Inr req" "validateMessagesRequest req = None"
    "AnthropicToResponses (Some req) = Inr r"
    "callUpstream h (enc (outRequest r)) (ResolveSession (sqHeader request) req) world = (Inr response, world1)"
    "200 \<le> hrStatus response" "hrStatus response < 300"
    "responds i its fin es" "list_all okItem its"
    "decoded (decodeResponseFrames (hrBody response) (hrEnd response) (hdMaxSSEEventBytes h)) = es @ rest"
    "patient wakes" "length es \<le> wakeups wakes"
  shows "\<exists>out. clientMessage out = Some (messageOf (arModel req) i its fin)
    \<and> messages quote opaque h request ended wakes (freshWriter hs) world =
       (Some (Ret (if arStream req then written hs out
          else writeJSON 200 (outResponse (messageOf (arModel req) i its fin)) (freshWriter hs))), world1)"
proof -
  have model: "arModel req \<noteq> []" using assms(2) by (auto simp: validateMessagesRequest_def split: if_splits)
  have body: "marshal (outRequest r) = Some (enc (outRequest r))" using translated_valid [OF assms(3)] by (simp add: marshal_def)
  obtain out where out: "clientMessage out = Some (messageOf (arModel req) i its fin)"
    "respond h req response wakes (freshWriter hs) = Some (Ret (if arStream req then written hs out
          else writeJSON 200 (outResponse (messageOf (arModel req) i its fin)) (freshWriter hs)))"
    using stream_serves [OF assms(7,8) model assms(9-11), of hs] whole_serves [OF assms(7,8) model assms(9-11), of hs] assms(5,6)
    by (auto simp: respond_def servedWriter_def)
  then show ?thesis using assms(1-4) body by (intro exI [of _ out]) (simp add: messages_def)
qed

theorem message_served_witness:
  "messages (\<lambda>s. s) (\<lambda>e. []) sampleHandler sampleServerRequest False sampleWakes (freshWriter []) ()
     = (Some (Ret (writeJSON 200 (outResponse sampleMessage) (freshWriter []))), ())"
proof -
  obtain r where r: "AnthropicToResponses (Some sampleReq) = Inr r" by (rule sample_translation)
  let ?response = "\<lparr>hrStatus = 200, hrHeader = [], hrBody = sampleBody, hrEnd = IoEOF\<rparr>"
  have call: "callUpstream sampleHandler (enc (outRequest r)) (ResolveSession (sqHeader sampleServerRequest) sampleReq) () = (Inr ?response, ())"
    by (simp add: callUpstream_def sampleHandler_def upstreamCredentials_def)
  have req: "arModel sampleReq = ''m''" "\<not> arStream sampleReq" by (simp_all add: sampleReq_def zeros)
  have "decoded (decodeResponseFrames (hrBody ?response) (hrEnd ?response) (hdMaxSSEEventBytes sampleHandler)) = helloStream @ []"
    using sample_decoded by (simp add: sampleHandler_def)
  from message_served [OF sample_decodes sample_valid r call _ _ hello_responds sample_rest(3) this sample_wakes, of "\<lambda>s. s" "\<lambda>e. []" False] req
  show ?thesis by simp
qed

end
