(* ===== verification/Server_Bounds.thy ===== *)
theory Server_Bounds
  imports Handler_Properties
begin

text \<open>The token estimate lies between two multiples of what is counted, and the server only listens on loopback.\<close>

section \<open>The token estimate\<close>

definition textSize :: "string \<Rightarrow> nat" where
  "textSize s = length (to_utf8 (trimSpace s))"

definition itemTexts :: "ResponsesInputItem \<Rightarrow> string list" where
  "itemTexts i = [iiType i, iiRole i, iiName i, iiCallID i, iiArguments i, iiOutput i]
     @ map cpText (filter (\<lambda>p. cpType p \<noteq> ''input_image'') (iiContent i))"

definition countedTexts :: "ResponsesRequest \<Rightarrow> string list" where
  "countedTexts r = rqInstructions r # concat (map itemTexts (rqInput r))
     @ map (\<lambda>t. compactJSON (enc (outTool t))) (rqTools r)
     @ (if isBlank (rqToolChoice r) then [] else [compactJSON (rqToolChoice r)])"

definition textBytes :: "ResponsesRequest \<Rightarrow> nat" where
  "textBytes r = (\<Sum>s\<leftarrow>countedTexts r. textSize s)"

definition fixedCosts :: "ResponsesRequest \<Rightarrow> nat" where
  "fixedCosts r = (\<Sum>i\<leftarrow>rqInput r. 3 + (\<Sum>p\<leftarrow>iiContent i. if cpType p = ''input_image'' then 1025 else 1))"

text \<open>A request without its image data and its encrypted reasoning.\<close>

definition blindItem :: "ResponsesInputItem \<Rightarrow> ResponsesInputItem" where
  "blindItem i = i\<lparr>iiEncryptedContent := [], iiContent := map (\<lambda>p. p\<lparr>cpImageURL := []\<rparr>) (iiContent i)\<rparr>"

definition blind :: "ResponsesRequest \<Rightarrow> ResponsesRequest" where
  "blind r = r\<lparr>rqInput := map blindItem (rqInput r)\<rparr>"

text \<open>One text: a quarter of its size at least, its size at most.\<close>

definition priced :: "nat \<Rightarrow> nat \<Rightarrow> nat \<Rightarrow> bool" where
  "priced bytes cost n \<longleftrightarrow> bytes \<le> 4 * n \<and> n \<le> bytes + cost"

lemma priced_text: "priced (textSize s) 0 (estimateTextTokens cjk s)"
  using estimateText_bounds by (simp add: priced_def textSize_def)

lemma priced_add: "priced s c n \<Longrightarrow> priced s' c' n' \<Longrightarrow> priced (s + s') (c + c') (n + n')"
  by (simp add: priced_def)

lemma priced_const: "priced 0 c c"
  by (simp add: priced_def)

lemma priced_sum: "(\<And>x. x \<in> set xs \<Longrightarrow> priced (f x) (g x) (h x)) \<Longrightarrow>
    priced (\<Sum>x\<leftarrow>xs. f x) (\<Sum>x\<leftarrow>xs. g x) (\<Sum>x\<leftarrow>xs. h x)"
  by (induction xs) (auto intro: priced_add simp: priced_const)

lemma priced_part: "priced (if cpType p = ''input_image'' then 0 else textSize (cpText p))
    (if cpType p = ''input_image'' then 1025 else 1) (partTokens cjk p)"
  using priced_add [OF priced_const [of 1] priced_text [of "cpText p" cjk]]
  by (simp add: partTokens_def estimatedImageTokens_def priced_const)

lemma sum_filter_not: "(\<Sum>x\<leftarrow>filter (\<lambda>x. \<not> P x) xs. f x) = (\<Sum>x\<leftarrow>xs. if P x then 0 else (f x::nat))"
  by (induction xs) simp_all

lemma sum_concat: "(\<Sum>x\<leftarrow>concat (map g ys). f x) = (\<Sum>y\<leftarrow>ys. \<Sum>x\<leftarrow>g y. (f x::nat))"
  by (induction ys) simp_all

lemma priced_item: "priced (\<Sum>s\<leftarrow>itemTexts i. textSize s)
    (3 + (\<Sum>p\<leftarrow>iiContent i. if cpType p = ''input_image'' then 1025 else 1)) (itemTokens cjk i)"
proof -
  have t: "priced (\<Sum>s\<leftarrow>ts. textSize s) 0 (\<Sum>s\<leftarrow>ts. estimateTextTokens cjk s)" for ts
    using priced_sum [of ts textSize "\<lambda>_. 0" "estimateTextTokens cjk"] priced_text by simp
  have "priced (\<Sum>p\<leftarrow>iiContent i. if cpType p = ''input_image'' then 0 else textSize (cpText p))
      (\<Sum>p\<leftarrow>iiContent i. if cpType p = ''input_image'' then 1025 else 1) (\<Sum>p\<leftarrow>iiContent i. partTokens cjk p)"
    by (intro priced_sum priced_part)
  from priced_add [OF priced_add [OF priced_const [of 3] t [of "[iiType i, iiRole i, iiName i, iiCallID i, iiArguments i, iiOutput i]"]] this]
  show ?thesis by (simp add: itemTokens_def itemTexts_def sum_filter_not comp_def add.assoc)
qed

lemma toolTokens_Inr: "toolTokens cjk n ts = Inr m \<Longrightarrow> m = n + (\<Sum>t\<leftarrow>ts. estimateTextTokens cjk (compactJSON (enc (outTool t))))"
  by (induction cjk n ts rule: toolTokens.induct) (auto simp: marshal_def split: if_splits)

lemma toolTokens_ok: "list_all (\<lambda>t. rawsValid (outTool t)) ts \<Longrightarrow> \<exists>m. toolTokens cjk n ts = Inr m"
  by (induction ts arbitrary: n) (auto simp: marshal_def)

lemma requestTokens_bounds:
  assumes "requestTokens cjk r = Inr n"
  shows "1 \<le> n" "textBytes r \<le> 4 * n" "n \<le> 1 + textBytes r + fixedCosts r"
proof -
  define k where "k = estimateTextTokens cjk (rqInstructions r) + (\<Sum>i\<leftarrow>rqInput r. itemTokens cjk i)
     + (\<Sum>t\<leftarrow>rqTools r. estimateTextTokens cjk (compactJSON (enc (outTool t))))
     + (if isBlank (rqToolChoice r) then 0 else estimateTextTokens cjk (compactJSON (rqToolChoice r)))"
  have n: "n = (if k < 1 then 1 else k)"
  proof -
    obtain m where m: "toolTokens cjk (estimateTextTokens cjk (rqInstructions r) + (\<Sum>i\<leftarrow>rqInput r. itemTokens cjk i)) (rqTools r) = Inr m"
      using assms by (auto simp: requestTokens_def split: sum.splits)
    have "k = (if isBlank (rqToolChoice r) then m else m + estimateTextTokens cjk (compactJSON (rqToolChoice r)))"
      unfolding k_def toolTokens_Inr [OF m] by simp
    then show ?thesis using assms m by (auto simp: requestTokens_def Let_def split: if_splits)
  qed
  have choice: "priced (if isBlank (rqToolChoice r) then 0 else textSize (compactJSON (rqToolChoice r))) 0
      (if isBlank (rqToolChoice r) then 0 else estimateTextTokens cjk (compactJSON (rqToolChoice r)))"
    using priced_text by (simp add: priced_const)
  have tools: "priced (\<Sum>t\<leftarrow>rqTools r. textSize (compactJSON (enc (outTool t)))) (\<Sum>t\<leftarrow>rqTools r. 0)
      (\<Sum>t\<leftarrow>rqTools r. estimateTextTokens cjk (compactJSON (enc (outTool t))))"
    by (intro priced_sum priced_text)
  have items: "priced (\<Sum>i\<leftarrow>rqInput r. \<Sum>s\<leftarrow>itemTexts i. textSize s) (fixedCosts r) (\<Sum>i\<leftarrow>rqInput r. itemTokens cjk i)"
    unfolding fixedCosts_def by (intro priced_sum priced_item)
  have "priced (textSize (rqInstructions r) + (\<Sum>i\<leftarrow>rqInput r. \<Sum>s\<leftarrow>itemTexts i. textSize s)
      + (\<Sum>t\<leftarrow>rqTools r. textSize (compactJSON (enc (outTool t))))
      + (if isBlank (rqToolChoice r) then 0 else textSize (compactJSON (rqToolChoice r))))
      (0 + fixedCosts r + (\<Sum>t\<leftarrow>rqTools r. 0) + 0) k"
    unfolding k_def by (intro priced_add priced_text items tools choice)
  moreover have "textBytes r = textSize (rqInstructions r) + (\<Sum>i\<leftarrow>rqInput r. \<Sum>s\<leftarrow>itemTexts i. textSize s)
      + (\<Sum>t\<leftarrow>rqTools r. textSize (compactJSON (enc (outTool t))))
      + (if isBlank (rqToolChoice r) then 0 else textSize (compactJSON (rqToolChoice r)))"
    by (simp add: textBytes_def countedTexts_def sum_concat comp_def)
  ultimately have "priced (textBytes r) (fixedCosts r) k" by simp
  then show "1 \<le> n" "textBytes r \<le> 4 * n" "n \<le> 1 + textBytes r + fixedCosts r"
    using n by (auto simp: priced_def)
qed

lemma partTokens_blind [simp]: "partTokens cjk (p\<lparr>cpImageURL := []\<rparr>) = partTokens cjk p"
  by (cases "cpType p = ''input_image''") (simp_all add: partTokens_def)

lemma itemTokens_blind [simp]: "itemTokens cjk (blindItem i) = itemTokens cjk i"
  by (simp add: itemTokens_def blindItem_def comp_def)

lemma requestTokens_blind: "requestTokens cjk (blind r) = requestTokens cjk r"
  by (simp add: requestTokens_def blind_def comp_def split: sum.split)

text \<open>
  C29: The token estimate. It exists exactly for the requests that can be translated; it is positive, at least a
  quarter and at most all of the bytes of the counted texts plus fixed prices per item, part and image; and no
  image data and no encrypted reasoning has any influence on it.
\<close>

theorem token_estimate:
  "(\<exists>n. EstimateInputTokens cjk req = Inr n) = (\<exists>r. AnthropicToResponses (Some req) = Inr r)
   \<and> (EstimateInputTokens cjk req = Inr n \<longrightarrow>
       (\<exists>r. AnthropicToResponses (Some req) = Inr r \<and> 1 \<le> n \<and> textBytes r \<le> 4 * n \<and> n \<le> 1 + textBytes r + fixedCosts r
          \<and> (\<forall>r'. blind r' = blind r \<longrightarrow> requestTokens cjk r' = Inr n)))"
proof (cases "AnthropicToResponses (Some req)")
  case (Inl err)
  then show ?thesis by (simp add: EstimateInputTokens_def)
next
  case (Inr r)
  obtain m where "toolTokens cjk (estimateTextTokens cjk (rqInstructions r) + (\<Sum>i\<leftarrow>rqInput r. itemTokens cjk i)) (rqTools r) = Inr m"
    using toolTokens_ok translated_valid [OF Inr] by (metis raws_request)
  then obtain n0 where n0: "requestTokens cjk r = Inr n0" by (simp add: requestTokens_def Let_def)
  then have e: "EstimateInputTokens cjk req = Inr n0" using Inr by (simp add: EstimateInputTokens_def)
  have "\<forall>r'. blind r' = blind r \<longrightarrow> requestTokens cjk r' = Inr n0" using n0 requestTokens_blind by metis
  with requestTokens_bounds [OF n0] have "\<exists>r'. Inr r = (Inr r' :: ResponsesRequest result) \<and> 1 \<le> n0 \<and> textBytes r' \<le> 4 * n0
      \<and> n0 \<le> 1 + textBytes r' + fixedCosts r' \<and> (\<forall>r2. blind r2 = blind r' \<longrightarrow> requestTokens cjk r2 = Inr n0)"
    by blast
  then show ?thesis unfolding Inr e by simp
qed

theorem token_estimate_witness:
  "\<exists>n r. EstimateInputTokens (\<lambda>r. False) sampleReq = Inr n \<and> 1 \<le> n \<and> textBytes r \<le> 4 * n \<and> n \<le> 1 + textBytes r + fixedCosts r"
proof -
  obtain r where "AnthropicToResponses (Some sampleReq) = Inr r" by (rule sample_translation)
  then obtain n where n: "EstimateInputTokens (\<lambda>r. False) sampleReq = Inr n"
    using token_estimate [of "\<lambda>r. False" sampleReq] by blast
  with token_estimate [of "\<lambda>r. False" sampleReq n] show ?thesis by blast
qed

section \<open>The listening address\<close>

text \<open>
  Only loopback. Whatever address is configured, a server that is created listens on the IPv4 loopback
  address, written plain or in brackets, and on an explicit port; nothing else is accepted.
\<close>

theorem loopback_only:
  assumes "NewHTTPServer address handler = Inr server"
  shows "\<exists>port. port \<noteq> [] \<and> CHR '':'' \<notin> set port
    \<and> (hsAddr server = ''127.0.0.1:'' @ port \<or> hsAddr server = ''[127.0.0.1]:'' @ port)
    \<and> hsAddr server = (if isBlank address then DefaultListenAddress else trimSpace address) \<and> Some (hsHandler server) = handler"
proof -
  obtain port where p: "SplitHostPort (hsAddr server) = Some (''127.0.0.1'', port)" "port \<noteq> []"
    using assms by (auto simp: NewHTTPServer_def Let_def split: if_splits option.splits)
  from splitHostPort_host [OF p(1)] p(2) assms show ?thesis
    by (intro exI [of _ port]) (auto simp: NewHTTPServer_def Let_def split: if_splits option.splits)
qed

theorem loopback_only_witness:
  "\<exists>server port. NewHTTPServer ''127.0.0.1:80'' (Some ()) = Inr server
     \<and> (hsAddr server = ''127.0.0.1:'' @ port \<or> hsAddr server = ''[127.0.0.1]:'' @ port)"
proof -
  have "case NewHTTPServer ''127.0.0.1:80'' (Some ()) of Inl err \<Rightarrow> False | Inr s \<Rightarrow> True" by code_simp
  then obtain server where s: "NewHTTPServer ''127.0.0.1:80'' (Some ()) = Inr server" by (auto split: sum.splits)
  from loopback_only [OF s] s show ?thesis by blast
qed

end
