(* ===== verification/Indented_Json.thy ===== *)
theory Indented_Json
  imports Json_Stream Json_Reads Sse
begin

text \<open>
  \<^verbatim>\<open>json.MarshalIndent\<close> of a flat object, and that the decoder reads it back; a decoder that refuses unknown
  fields.
\<close>

section \<open>Writing\<close>

definition indentMember :: "string \<times> string \<Rightarrow> string" where
  "indentMember kw = enc_string (fst kw) @ '': '' @ snd kw"

definition memberBreak :: string where
  "memberBreak = '','' @ [LF] @ ''  ''"

definition indentObject :: "(string \<times> string) list \<Rightarrow> string" where
  "indentObject kws = ''{'' @ [LF] @ ''  '' @ joinWith memberBreak (map indentMember kws) @ [LF] @ ''}''"

section \<open>Reading back\<close>

text \<open>A value that ends by itself, whatever follows.\<close>

definition closed_text :: "string \<Rightarrow> json \<Rightarrow> bool" where
  "closed_text w v \<longleftrightarrow> reads 0 w v \<and> (\<forall>n d t. 0 < n \<longrightarrow> parse_value n d (w @ t) = Some (v, t))"

lemma closed_literal:
  assumes "lit_text b" "unquote b = s"
  shows "closed_text (quote_char # b @ [quote_char]) (JStr s)"
proof -
  have "parse_value n d (quote_char # b @ quote_char # t) = Some (JStr s, t)" if "0 < n" for n d t
    using that assms by (cases n) (simp_all add: parse_value.simps lit_text_def)
  then show ?thesis by (simp add: closed_text_def reads_literal [OF assms])
qed

lemma closed_string: "closed_text (enc_string s) (JStr (to_utf8 s))"
  using closed_literal [OF lit_text_escape unquote_escape, of s] by (simp add: enc_string_def)

lemma skip_space [simp]: "skip_ws (CHR '' '' # t) = skip_ws t" "skip_ws (LF # t) = skip_ws t"
  by (simp_all add: skip_ws_def json_space_def)

lemma indent_member_step:
  assumes "skip_ws (snd kw @ u) = snd kw @ u" "parse_value n d (snd kw @ u) = Some (v, u)"
  shows "parse_members (Suc n) d (indentMember kw @ u) = (case skip_ws u of [] \<Rightarrow> None
     | c # t \<Rightarrow> if c = CHR '','' then cons_fst (member_val kw v) (parse_members n d (skip_ws t))
         else if c = CHR ''}'' then Some ([member_val kw v], t) else None)"
proof -
  have split: "indentMember kw @ u = quote_char # (escape (fst kw) @ quote_char # CHR '':'' # CHR '' '' # (snd kw @ u))"
    by (simp add: indentMember_def enc_string_def)
  have key: "scan_str In (escape (fst kw) @ quote_char # t) = Some (escape (fst kw), t)" for t
    using lit_text_escape by (simp add: lit_text_def)
  have colon: "skip_ws (CHR '':'' # t) = CHR '':'' # t" for t by simp
  have value_text: "skip_ws (CHR '' '' # (snd kw @ u)) = snd kw @ u" using assms(1) by simp
  have len: "take (length (snd kw @ u) - length u) (snd kw @ u) = snd kw" by simp
  show ?thesis
    unfolding split parse_members.simps list.case simp_thms(6) if_False key option.case prod.case colon value_text assms(2) len
    by (auto simp: member_val_def unquote_escape split: list.split)
qed

lemma joinWith_starts: "kws \<noteq> [] \<Longrightarrow> \<exists>u. joinWith memberBreak (map indentMember kws) = quote_char # u"
  by (cases kws; cases "tl kws") (auto simp: indentMember_def enc_string_def)

lemma members_start: "skip_ws (joinWith memberBreak (map indentMember (kws @ [kw])) @ t) =
    joinWith memberBreak (map indentMember (kws @ [kw])) @ t"
  using joinWith_starts [of "kws @ [kw]"] by (auto simp: skip_ws_def json_space_def)

lemma parse_indented:
  assumes "list_all2 (\<lambda>kw v. reads 0 (snd kw) v) kws vs" "closed_text w v"
    "2 * length (joinWith memberBreak (map indentMember (kws @ [(k, w)])) @ LF # CHR ''}'' # t) < n"
  shows "parse_members n d (joinWith memberBreak (map indentMember (kws @ [(k, w)])) @ LF # CHR ''}'' # t)
    = Some (map2 member_val (kws @ [(k, w)]) (vs @ [v]), t)"
  using assms(1,3)
proof (induction kws arbitrary: vs n)
  case Nil
  have "skip_ws (w @ u) = w @ u" for u using assms(2) by (auto simp: closed_text_def)
  moreover obtain m where m: "n = Suc m" "0 < m"
    using Nil.prems(2) by (cases n) (auto simp: indentMember_def enc_string_def)
  ultimately show ?case using Nil.prems assms(2) indent_member_step [of "(k, w)" "LF # CHR ''}'' # t" m d v]
    by (simp add: closed_text_def)
next
  case (Cons kw kws)
  obtain x vs' where vs: "vs = x # vs'" and r: "reads 0 (snd kw) x" and rest: "list_all2 (\<lambda>kw v. reads 0 (snd kw) v) kws vs'"
    using Cons.prems(1) by (auto simp: list_all2_Cons1)
  obtain m where m: "n = Suc m" using Cons.prems(2) by (cases n) auto
  let ?r = "joinWith memberBreak (map indentMember (kws @ [(k, w)])) @ LF # CHR ''}'' # t"
  let ?u = "CHR '','' # LF # CHR '' '' # CHR '' '' # ?r"
  have shape: "joinWith memberBreak (map indentMember ((kw # kws) @ [(k, w)])) @ LF # CHR ''}'' # t = indentMember kw @ ?u"
    by (cases kws) (simp_all add: memberBreak_def)
  have len: "length (indentMember kw @ ?u) * 2 < Suc m" using Cons.prems(2) unfolding shape m by simp
  then have fuel: "2 * length (snd kw @ ?u) < m" "2 * length ?r < m" by (simp_all add: indentMember_def enc_string_def)
  have start: "skip_ws ?r = ?r" by (rule members_start)
  have comma: "skip_ws ?u = ?u" by simp
  have pv: "parse_value m d (snd kw @ ?u) = Some (x, ?u)"
    using readsD [OF r fuel(1), of d] by (simp add: delim_def)
  have sk: "skip_ws (snd kw @ ?u) = snd kw @ ?u" using r by (rule skip_ws_reads)
  have "parse_members m d ?r = Some (map2 member_val (kws @ [(k, w)]) (vs' @ [v]), t)"
    by (rule Cons.IH [OF rest fuel(2)])
  then show ?case
    unfolding shape m indent_member_step [OF sk pv] comma using start vs by simp
qed

lemma parse_indentObject:
  assumes "list_all2 (\<lambda>kw v. reads 0 (snd kw) v) kws vs" "closed_text w v"
  shows "parse_prefix (skip_ws (indentObject (kws @ [(k, w)]) @ t)) = Some (JObj (map2 member_val (kws @ [(k, w)]) (vs @ [v])), t)"
proof -
  let ?r = "joinWith memberBreak (map indentMember (kws @ [(k, w)])) @ LF # CHR ''}'' # t"
  have shape: "indentObject (kws @ [(k, w)]) @ t = CHR ''{'' # LF # CHR '' '' # CHR '' '' # ?r"
    by (simp add: indentObject_def)
  obtain u where q: "?r = quote_char # u" using joinWith_starts [of "kws @ [(k, w)]"] by auto
  have start: "skip_ws ?r = ?r" by (rule members_start)
  have s: "skip_ws (indentObject (kws @ [(k, w)]) @ t) = indentObject (kws @ [(k, w)]) @ t"
    by (simp add: shape skip_ws_def json_space_def)
  obtain n where n: "2 * length (indentObject (kws @ [(k, w)]) @ t) + 1 = Suc n" "2 * length ?r < n"
    by (simp add: shape)
  show ?thesis
    unfolding s parse_prefix_def n(1)
    using parse_indented [OF assms n(2), of "max_nesting - 1"] start q
    unfolding shape by (simp add: parse_value.simps max_nesting_def)
qed

section \<open>Unknown fields\<close>

text \<open>\<^verbatim>\<open>DisallowUnknownFields\<close>.\<close>

fun decMembersKnown :: "'a field_table \<Rightarrow> 'a \<Rightarrow> (string \<times> string \<times> json) list \<Rightarrow> 'a option" where
  "decMembersKnown fs v [] = Some v"
| "decMembersKnown fs v ((key, raw, j) # ms) =
     (case findField fs key of
        None \<Rightarrow> None
      | Some d \<Rightarrow> (case d v raw j of None \<Rightarrow> None | Some v1 \<Rightarrow> decMembersKnown fs v1 ms))"

definition decStructKnown :: "'a field_table \<Rightarrow> 'a dec" where
  "decStructKnown fs old raw j =
     (case j of JObj ms \<Rightarrow> decMembersKnown fs old ms | JNull \<Rightarrow> Some old | _ \<Rightarrow> None)"

end
