(* ===== verification/Time_Text.thy ===== *)
theory Time_Text
  imports Json_Decode Json_Reads Token_Types
begin

text \<open>
  What the credentials file needs of package \<^verbatim>\<open>time\<close>: the calendar, and the RFC 3339 text of an instant as
  \<^verbatim>\<open>MarshalJSON\<close> writes and \<^verbatim>\<open>UnmarshalJSON\<close> reads it. Whatever the clock and the time zone, what is
  written is read back as the same instant.
\<close>

section \<open>The calendar\<close>

text \<open>Years from 0 on, days counted from the first day of year 0, in the proleptic Gregorian calendar.\<close>

definition leapYear :: "nat \<Rightarrow> bool" where
  "leapYear y \<longleftrightarrow> y mod 4 = 0 \<and> (y mod 100 \<noteq> 0 \<or> y mod 400 = 0)"

definition daysBeforeYear :: "nat \<Rightarrow> nat" where
  "daysBeforeYear y = 365 * y + ((y + 3) div 4 - (y + 99) div 100 + (y + 399) div 400)"

lemma multiples_Suc:
  assumes "0 < (k :: nat)"
  shows "(y + k) div k = (y + (k - 1)) div k + (if y mod k = 0 then 1 else 0)"
proof -
  have y: "y = k * (y div k) + y mod k" by simp
  show ?thesis
  proof (cases "y mod k")
    case 0
    with y have "y + (k - 1) = (k - 1) + k * (y div k)" by simp
    then have "(y + (k - 1)) div k = y div k" using assms by (simp only: div_mult_self2 [OF less_imp_neq [THEN not_sym]]) simp
    with 0 assms show ?thesis by (simp add: div_add_self2)
  next
    case (Suc r)
    with y have "y + (k - 1) = r + k * (y div k + 1)" using assms by simp
    moreover have "r < k" using Suc assms mod_less_divisor [of k y] by simp
    moreover have "(r + k * (y div k + 1)) div k = y div k + 1 + r div k"
      using assms by (intro div_mult_self2) simp
    ultimately have "(y + (k - 1)) div k = y div k + 1" by (simp only: div_less)
    with Suc assms show ?thesis by (simp add: div_add_self2)
  qed
qed

lemma daysBeforeYear_Suc: "daysBeforeYear (Suc y) = daysBeforeYear y + (if leapYear y then 366 else 365)"
proof -
  define a b c where abc: "a = (y + 3) div 4" "b = (y + 99) div 100" "c = (y + 399) div 400"
  have next_year: "(Suc y + 3) div 4 = a + (if y mod 4 = 0 then 1 else 0)"
    "(Suc y + 99) div 100 = b + (if y mod 100 = 0 then 1 else 0)"
    "(Suc y + 399) div 400 = c + (if y mod 400 = 0 then 1 else 0)"
    using multiples_Suc [of 4 y] multiples_Suc [of 100 y] multiples_Suc [of 400 y] by (simp_all add: abc add.commute)
  have "b \<le> a"
  proof (rule ccontr)
    assume "\<not> b \<le> a"
    then have "a + 1 \<le> b" by simp
    moreover have "100 * b \<le> y + 99" unfolding abc by (rule times_div_less_eq_dividend)
    moreover have "y + 3 < 4 * a + 4" using dividend_less_times_div [of 4 "y + 3"] unfolding abc by simp
    ultimately show False by simp
  qed
  moreover have "y mod 100 = 0 \<Longrightarrow> y mod 4 = 0" "y mod 400 = 0 \<Longrightarrow> y mod 100 = 0"
    using dvd_trans [of 4 100 y] dvd_trans [of 100 400 y] by (simp_all add: mod_eq_0_iff_dvd)
  ultimately show ?thesis
    unfolding daysBeforeYear_def next_year leapYear_def abc [symmetric] by auto
qed

lemma daysBeforeYear_0 [simp]: "daysBeforeYear 0 = 0"
  by (simp add: daysBeforeYear_def)

lemma daysBeforeYear_bounds: "365 * y \<le> daysBeforeYear y" "daysBeforeYear y \<le> 366 * y"
  by (induction y) (simp_all add: daysBeforeYear_Suc)

function yearFrom :: "nat \<Rightarrow> nat \<Rightarrow> nat" where
  "yearFrom d y = (if daysBeforeYear (Suc y) \<le> d then yearFrom d (Suc y) else y)"
  by pat_completeness auto
termination
proof (relation "measure (\<lambda>(d, y). d - y)")
  fix d y
  assume "daysBeforeYear (Suc y) \<le> d"
  with daysBeforeYear_bounds(1) [of "Suc y"] show "((d, Suc y), d, y) \<in> measure (\<lambda>(d, y). d - y)" by simp
qed simp

declare yearFrom.simps [simp del]

definition yearOfDay :: "nat \<Rightarrow> nat" where
  "yearOfDay d = yearFrom d (d div 366)"

lemma yearFrom_bounds: "daysBeforeYear y \<le> d \<Longrightarrow>
    daysBeforeYear (yearFrom d y) \<le> d \<and> d < daysBeforeYear (Suc (yearFrom d y))"
proof (induction d y rule: yearFrom.induct)
  case (1 d y)
  then show ?case by (cases "daysBeforeYear (Suc y) \<le> d") (simp_all add: yearFrom.simps [of d y])
qed

lemma yearOfDay_bounds: "daysBeforeYear (yearOfDay d) \<le> d" "d < daysBeforeYear (Suc (yearOfDay d))"
proof -
  have "daysBeforeYear (d div 366) \<le> d" using daysBeforeYear_bounds(2) [of "d div 366"] by linarith
  from yearFrom_bounds [OF this] show "daysBeforeYear (yearOfDay d) \<le> d" "d < daysBeforeYear (Suc (yearOfDay d))"
    by (simp_all add: yearOfDay_def)
qed

lemma daysBeforeYear_mono: "y \<le> z \<Longrightarrow> daysBeforeYear y \<le> daysBeforeYear z"
  by (induction z rule: dec_induct) (simp_all add: daysBeforeYear_Suc)

lemma yearOfDay_eq:
  assumes "daysBeforeYear y \<le> d" "d < daysBeforeYear (Suc y)"
  shows "yearOfDay d = y"
proof (rule linorder_cases [of "yearOfDay d" y])
  assume "yearOfDay d < y"
  with daysBeforeYear_mono [of "Suc (yearOfDay d)" y] yearOfDay_bounds(2) [of d] assms show ?thesis by simp
next
  assume "y < yearOfDay d"
  with daysBeforeYear_mono [of "Suc y" "yearOfDay d"] yearOfDay_bounds(1) [of d] assms show ?thesis by simp
qed

definition monthDays :: "nat \<Rightarrow> nat list" where
  "monthDays y = [31, if leapYear y then 29 else 28, 31, 30, 31, 30, 31, 31, 30, 31, 30, 31]"

text \<open>In which of consecutive spans a day lies, and how far into it.\<close>

fun spanOf :: "nat list \<Rightarrow> nat \<Rightarrow> nat \<times> nat" where
  "spanOf [] d = (0, d)"
| "spanOf (m # ms) d = (if d < m then (0, d) else (Suc (fst (spanOf ms (d - m))), snd (spanOf ms (d - m))))"

lemma spanOf_bounds: "d < sum_list ms \<Longrightarrow> fst (spanOf ms d) < length ms \<and> snd (spanOf ms d) < ms ! fst (spanOf ms d)
    \<and> sum_list (take (fst (spanOf ms d)) ms) + snd (spanOf ms d) = d"
proof (induction ms d rule: spanOf.induct)
  case (2 m ms d)
  show ?case
  proof (cases "d < m")
    case False
    with 2 have "d - m < sum_list ms" by simp
    from 2(1) [OF False this] False show ?thesis by auto
  qed simp
qed simp

text \<open>A point in time as the calendar shows it: months and days count from 1.\<close>

record civil =
  cvYear :: nat
  cvMonth :: nat
  cvDay :: nat
  cvSecond :: nat

definition civilOf :: "nat \<Rightarrow> civil" where
  "civilOf s =
     (let d = s div 86400; y = yearOfDay d; md = spanOf (monthDays y) (d - daysBeforeYear y) in
      \<lparr>cvYear = y, cvMonth = Suc (fst md), cvDay = Suc (snd md), cvSecond = s mod 86400\<rparr>)"

definition secondsOf :: "nat \<Rightarrow> nat \<Rightarrow> nat \<Rightarrow> nat \<Rightarrow> nat" where
  "secondsOf y m d s = (daysBeforeYear y + sum_list (take (m - 1) (monthDays y)) + (d - 1)) * 86400 + s"

lemma civilOf_valid:
  fixes s :: nat
  defines "c \<equiv> civilOf s"
  shows "1 \<le> cvMonth c" "cvMonth c \<le> 12" "1 \<le> cvDay c" "cvDay c \<le> monthDays (cvYear c) ! (cvMonth c - 1)"
    "cvSecond c < 86400" "secondsOf (cvYear c) (cvMonth c) (cvDay c) (cvSecond c) = s"
proof -
  let ?d = "s div 86400"
  let ?y = "yearOfDay ?d"
  let ?r = "?d - daysBeforeYear ?y"
  have len: "length (monthDays ?y) = 12" by (simp add: monthDays_def)
  have "sum_list (monthDays ?y) = (if leapYear ?y then 366 else 365)" by (simp add: monthDays_def)
  then have "?r < sum_list (monthDays ?y)"
    using yearOfDay_bounds [of ?d] by (simp add: daysBeforeYear_Suc split: if_splits)
  from spanOf_bounds [OF this] have b: "fst (spanOf (monthDays ?y) ?r) < 12"
    "snd (spanOf (monthDays ?y) ?r) < monthDays ?y ! fst (spanOf (monthDays ?y) ?r)"
    "sum_list (take (fst (spanOf (monthDays ?y) ?r)) (monthDays ?y)) + snd (spanOf (monthDays ?y) ?r) = ?r"
    by (simp_all add: len)
  show "1 \<le> cvMonth c" "cvMonth c \<le> 12" "1 \<le> cvDay c" "cvDay c \<le> monthDays (cvYear c) ! (cvMonth c - 1)"
    "cvSecond c < 86400"
    using b(1,2) by (simp_all add: c_def civilOf_def Let_def Suc_le_eq)
  have "daysBeforeYear ?y + (sum_list (take (fst (spanOf (monthDays ?y) ?r)) (monthDays ?y))
      + snd (spanOf (monthDays ?y) ?r)) = ?d"
    unfolding b(3) by (rule le_add_diff_inverse [OF yearOfDay_bounds(1)])
  then show "secondsOf (cvYear c) (cvMonth c) (cvDay c) (cvSecond c) = s"
    by (simp add: c_def civilOf_def Let_def secondsOf_def add.assoc)
qed

section \<open>Writing\<close>

text \<open>Decimal text of a fixed width.\<close>

fun padded :: "nat \<Rightarrow> nat \<Rightarrow> string" where
  "padded 0 n = []"
| "padded (Suc w) n = padded w (n div 10) @ [digit_char (n mod 10)]"

lemma padded_numeral: "padded (numeral w) n = padded (pred_numeral w) (n div 10) @ [digit_char (n mod 10)]"
  by (simp only: numeral_eq_Suc [of w] padded.simps)

lemma digit_chars:
  "digit_char 0 = CHR ''0''" "digit_char (Suc 0) = CHR ''1''" "digit_char 1 = CHR ''1''" "digit_char 2 = CHR ''2''"
  "digit_char 3 = CHR ''3''" "digit_char 4 = CHR ''4''" "digit_char 5 = CHR ''5''" "digit_char 6 = CHR ''6''"
  "digit_char 7 = CHR ''7''" "digit_char 8 = CHR ''8''" "digit_char 9 = CHR ''9''"
  by code_simp+

definition nanosText :: "nat \<Rightarrow> string" where
  "nanosText n = (if n = 0 then [] else CHR ''.'' # rev (dropWhile (\<lambda>c. c = CHR ''0'') (rev (padded 9 n))))"

text \<open>The offset of the zone in seconds, shown in minutes.\<close>

definition zoneText :: "int \<Rightarrow> string" where
  "zoneText off =
     (if off = 0 then ''Z''
      else (if off \<le> - 60 then ''-'' else ''+'') @
        padded 2 (nat \<bar>off\<bar> div 3600) @ '':'' @ padded 2 (nat \<bar>off\<bar> div 60 mod 60))"

definition unixToYear0 :: int where
  "unixToYear0 = 62167219200"

definition civilText :: "civil \<Rightarrow> string" where
  "civilText c = padded 4 (cvYear c) @ ''-'' @ padded 2 (cvMonth c) @ ''-'' @ padded 2 (cvDay c) @ ''T''
     @ padded 2 (cvSecond c div 3600) @ '':'' @ padded 2 (cvSecond c div 60 mod 60) @ '':'' @ padded 2 (cvSecond c mod 60)"

text \<open>
  \<^verbatim>\<open>Time.MarshalJSON\<close> without the quotes, in a zone with the given offset: an error for years that do not have
  four digits and for offsets of a day or more.
\<close>

definition timeText :: "int \<Rightarrow> time \<Rightarrow> string option" where
  "timeText off t =
     (let s = t div 1000000000 + off + unixToYear0; c = civilOf (nat s) in
      if s < 0 \<or> 9999 < cvYear c \<or> 86400 \<le> \<bar>off\<bar> then None
      else Some (civilText c @ nanosText (nat (t mod 1000000000)) @ zoneText off))"

section \<open>Reading\<close>

definition parseUint :: "nat \<Rightarrow> nat \<Rightarrow> string \<Rightarrow> nat option" where
  "parseUint lo hi s = (if list_all is_digit s \<and> lo \<le> digits_val s \<and> digits_val s \<le> hi then Some (digits_val s) else None)"

definition sub :: "nat \<Rightarrow> nat \<Rightarrow> string \<Rightarrow> string" where
  "sub i j s = take (j - i) (drop i s)"

text \<open>The fraction of a second; digits after the ninth are dropped.\<close>

definition splitNanos :: "string \<Rightarrow> nat \<times> string" where
  "splitNanos s =
     (case s of c # d # r \<Rightarrow>
        if c = CHR ''.'' \<and> is_digit d then
          let ds = takeWhile is_digit (d # r); n = take 9 ds in (digits_val n * 10 ^ (9 - length n), dropWhile is_digit (d # r))
        else (0, s)
      | _ \<Rightarrow> (0, s))"

definition parseZone :: "string \<Rightarrow> int option" where
  "parseZone s =
     (if s = ''Z'' then Some 0
      else if length s \<noteq> 6 then None
      else (case (parseUint 0 23 (sub 1 3 s), parseUint 0 59 (sub 4 6 s)) of
          (Some hr, Some mm) \<Rightarrow>
            if (s ! 0 = CHR ''-'' \<or> s ! 0 = CHR ''+'') \<and> s ! 3 = CHR '':'' then
              Some ((if s ! 0 = CHR ''-'' then -1 else 1) * int ((hr * 60 + mm) * 60))
            else None
        | _ \<Rightarrow> None))"

definition parseDate :: "string \<Rightarrow> (nat \<times> nat \<times> nat) option" where
  "parseDate s =
     (case (parseUint 0 9999 (sub 0 4 s), parseUint 1 12 (sub 5 7 s)) of
        (Some y, Some m) \<Rightarrow> (case parseUint 1 (monthDays y ! (m - 1)) (sub 8 10 s) of
            Some d \<Rightarrow> if s ! 4 = CHR ''-'' \<and> s ! 7 = CHR ''-'' then Some (y, m, d) else None
          | None \<Rightarrow> None)
      | _ \<Rightarrow> None)"

definition parseClock :: "string \<Rightarrow> nat option" where
  "parseClock s =
     (case (parseUint 0 23 (sub 11 13 s), parseUint 0 59 (sub 14 16 s), parseUint 0 59 (sub 17 19 s)) of
        (Some h, Some mi, Some sec) \<Rightarrow>
          if s ! 10 = CHR ''T'' \<and> s ! 13 = CHR '':'' \<and> s ! 16 = CHR '':'' then Some (h * 3600 + mi * 60 + sec) else None
      | _ \<Rightarrow> None)"

definition parseRFC3339 :: "string \<Rightarrow> time option" where
  "parseRFC3339 s =
     (if length s < 19 then None
      else (case (parseDate s, parseClock s) of
          (Some (y, m, d), Some sec) \<Rightarrow>
            (case parseZone (snd (splitNanos (drop 19 s))) of
               Some off \<Rightarrow>
                 Some ((int (secondsOf y m d sec) - unixToYear0 - off) * 1000000000 + int (fst (splitNanos (drop 19 s))))
             | None \<Rightarrow> None)
        | _ \<Rightarrow> None))"

text \<open>
  \<^verbatim>\<open>Time.UnmarshalJSON\<close> looks at the text of the JSON value. What the strict parser refuses goes to the general
  \<^verbatim>\<open>time.Parse\<close>, which is a parameter: it accepts a few more spellings.
\<close>

definition decTime :: "(string \<Rightarrow> time option) \<Rightarrow> time dec" where
  "decTime lax old raw j =
     (if raw = ''null'' then Some old
      else if length raw < 2 \<or> hd raw \<noteq> quote_char \<or> last raw \<noteq> quote_char then None
      else (case parseRFC3339 (butlast (tl raw)) of Some t \<Rightarrow> Some t | None \<Rightarrow> lax (butlast (tl raw))))"


section \<open>Reading what was written\<close>

lemma digits_val_append: "digits_val (u @ v) = digits_val u * 10 ^ length v + digits_val v"
proof -
  define g where "g = (\<lambda>(n :: nat) c :: char. 10 * n + (byte_val c - 48))"
  have step: "foldl g k v = k * 10 ^ length v + foldl g 0 v" for k
  proof (induction v arbitrary: k)
    case (Cons c v)
    have "foldl g k (c # v) = g k c * 10 ^ length v + foldl g 0 v" by (simp add: Cons.IH [of "g k c"])
    also have "g k c = 10 * k + g 0 c" by (simp add: g_def)
    also have "(10 * k + g 0 c) * 10 ^ length v + foldl g 0 v = k * 10 ^ length (c # v) + (g 0 c * 10 ^ length v + foldl g 0 v)"
      by (simp add: algebra_simps)
    also have "g 0 c * 10 ^ length v + foldl g 0 v = foldl g 0 (c # v)" by (simp add: Cons.IH [of "g 0 c"])
    finally show ?case .
  qed simp
  have "digits_val w = foldl g 0 w" for w by (simp add: digits_val_def g_def)
  then show ?thesis using step [of "foldl g 0 u"] by simp
qed

lemma padded_digits [simp]: "length (padded w n) = w" "list_all is_digit (padded w n)" "digits_val (padded w n) = n mod 10 ^ w"
proof -
  show "length (padded w n) = w" "list_all is_digit (padded w n)" by (induction w arbitrary: n) simp_all
  show "digits_val (padded w n) = n mod 10 ^ w"
  proof (induction w arbitrary: n)
    case 0
    then show ?case by (simp add: digits_val_def)
  next
    case (Suc w)
    have "digits_val [digit_char (n mod 10)] = n mod 10" by (simp add: digits_val_def)
    moreover have "n mod (10 * 10 ^ w) = 10 * (n div 10 mod 10 ^ w) + n mod 10" by (rule mod_mult2_eq)
    ultimately show ?case using Suc [of "n div 10"] by (simp add: digits_val_append)
  qed
qed

lemma parseUint_padded [simp]: "n < 10 ^ w \<Longrightarrow> parseUint lo hi (padded w n) = (if lo \<le> n \<and> n \<le> hi then Some n else None)"
  by (auto simp: parseUint_def)

lemma sub_skip [simp]: "length u \<le> i \<Longrightarrow> sub i j (u @ v) = sub (i - length u) (j - length u) v"
  by (simp add: sub_def)

lemma sub_here [simp]: "length u = j \<Longrightarrow> sub 0 j (u @ v) = u"
  by (simp add: sub_def)

lemma sub_whole [simp]: "length u = j \<Longrightarrow> sub 0 j u = u"
  by (simp add: sub_def)

lemma sub_Cons [simp]: "0 < i \<Longrightarrow> sub i j (c # v) = sub (i - 1) (j - 1) v"
  by (cases i; cases j) (simp_all add: sub_def)

declare padded.simps [simp del]

lemma civilText_length [simp]: "length (civilText c) = 19"
  by (simp add: civilText_def)

lemma parseDate_civilText:
  assumes "cvYear c \<le> 9999" "1 \<le> cvMonth c" "cvMonth c \<le> 12" "1 \<le> cvDay c" "cvDay c \<le> monthDays (cvYear c) ! (cvMonth c - 1)"
  shows "parseDate (civilText c @ t) = Some (cvYear c, cvMonth c, cvDay c)"
proof -
  have "monthDays (cvYear c) ! (cvMonth c - 1) \<in> set (monthDays (cvYear c))"
    using assms(2,3) by (intro nth_mem) (simp add: monthDays_def)
  then have "cvDay c \<le> 31" using assms(5) by (auto simp: monthDays_def split: if_splits)
  with assms show ?thesis by (simp add: parseDate_def civilText_def nth_append)
qed

lemma parseClock_civilText:
  assumes "cvSecond c < 86400"
  shows "parseClock (civilText c @ t) = Some (cvSecond c)"
proof -
  have "cvSecond c div 3600 < 24" using assms by simp
  moreover have "cvSecond c div 60 mod 60 \<le> 59" "cvSecond c mod 60 \<le> 59"
    using mod_less_divisor [of 60 "cvSecond c div 60"] mod_less_divisor [of 60 "cvSecond c"] by linarith+
  moreover have "cvSecond c div 3600 * 3600 + cvSecond c div 60 mod 60 * 60 + cvSecond c mod 60 = cvSecond c"
  proof -
    have "cvSecond c div 3600 = cvSecond c div 60 div 60" by (simp add: div_mult2_eq [symmetric])
    then have "cvSecond c div 3600 * 60 + cvSecond c div 60 mod 60 = cvSecond c div 60" by simp
    then have "(cvSecond c div 3600 * 60 + cvSecond c div 60 mod 60) * 60 + cvSecond c mod 60 = cvSecond c" by simp
    then show ?thesis by simp
  qed
  ultimately show ?thesis by (simp add: parseClock_def civilText_def nth_append less_Suc_eq_le)
qed

lemma splitNanos_text:
  assumes "n < 1000000000" "no_digit z" "hasPrefix z ''.'' = False"
  shows "splitNanos (nanosText n @ z) = (n, z)"
proof (cases "n = 0")
  case True
  with assms(3) show ?thesis by (cases z; cases "tl z") (auto simp: splitNanos_def nanosText_def hasPrefix_def)
next
  case False
  define ds where "ds = rev (dropWhile (\<lambda>c. c = CHR ''0'') (rev (padded 9 n)))"
  obtain zs where zs: "padded 9 n = ds @ zs" "set zs \<subseteq> {CHR ''0''}"
  proof
    let ?z = "rev (takeWhile (\<lambda>c. c = CHR ''0'') (rev (padded 9 n)))"
    have "rev (rev (padded 9 n)) = ds @ ?z" unfolding ds_def rev_append [symmetric] takeWhile_dropWhile_id by simp
    then show "padded 9 n = ds @ ?z" by simp
    show "set ?z \<subseteq> {CHR ''0''}" by (auto dest: set_takeWhileD)
  qed
  have zeros: "digits_val u = 0" if "set u \<subseteq> {CHR ''0''}" for u
    using that by (induction u rule: rev_induct) (simp_all add: digits_val_def)
  have len: "length ds + length zs = 9" using arg_cong [OF zs(1), of length] by simp
  have val: "digits_val ds * 10 ^ length zs = n"
    using arg_cong [OF zs(1), of digits_val] zeros [OF zs(2)] assms(1) by (simp add: digits_val_append)
  have digits: "list_all is_digit ds" using padded_digits(2) [of 9 n] unfolding zs(1) by simp
  have "ds \<noteq> []" using val False by (auto simp: digits_val_def)
  then obtain d r where ds: "ds = d # r" by (cases ds) auto
  have tw: "takeWhile is_digit (ds @ z) = ds" "dropWhile is_digit (ds @ z) = z"
    using takeWhile_no_digit [OF digits assms(2)] by simp_all
  have "nanosText n @ z = CHR ''.'' # ds @ z" using False by (simp add: nanosText_def ds_def)
  moreover have "9 - length ds = length zs" "take 9 ds = ds" using len by simp_all
  ultimately show ?thesis
    using tw val digits unfolding splitNanos_def ds by simp
qed

lemma parseZone_text:
  assumes "\<bar>off\<bar> < 86400" "off mod 60 = 0"
  shows "parseZone (zoneText off) = Some off"
proof (cases "off = 0")
  case False
  define m where "m = nat \<bar>off\<bar> div 60"
  have "\<bar>off\<bar> mod 60 = 0" using assms(2) by (simp add: mod_eq_0_iff_dvd)
  then have off: "\<bar>off\<bar> = int m * 60" using div_mult_mod_eq [of "\<bar>off\<bar>" 60] by (simp add: m_def nat_div_distrib zdiv_int)
  have hours: "nat \<bar>off\<bar> div 3600 = m div 60" by (simp add: m_def div_mult2_eq [symmetric])
  have m: "m div 60 < 24" using assms(1) off by linarith
  have sign: "off \<le> - 60 \<longleftrightarrow> off < 0" using off by (cases m) (auto simp: abs_if split: if_splits)
  have minutes: "m mod 60 \<le> 59" "m div 60 * 60 + m mod 60 = m" using mod_less_divisor [of 60 m] by simp_all
  show ?thesis
    using m minutes False off unfolding zoneText_def hours m_def [symmetric] sign
    by (cases "off < 0") (auto simp: parseZone_def nth_append)
qed (simp add: parseZone_def zoneText_def)

theorem parse_timeText:
  assumes "timeText off t = Some s" "off mod 60 = 0"
  shows "parseRFC3339 s = Some t"
proof -
  let ?s = "t div 1000000000 + off + unixToYear0"
  let ?c = "civilOf (nat ?s)"
  have s: "s = civilText ?c @ nanosText (nat (t mod 1000000000)) @ zoneText off"
    and pos: "0 \<le> ?s" and year: "cvYear ?c \<le> 9999" and off: "\<bar>off\<bar> < 86400"
    using assms(1) by (auto simp: timeText_def Let_def split: if_splits)
  note c = civilOf_valid [of "nat ?s"]
  have "parseDate s = Some (cvYear ?c, cvMonth ?c, cvDay ?c)" unfolding s by (rule parseDate_civilText [OF year c(1-4)])
  moreover have "parseClock s = Some (cvSecond ?c)" unfolding s by (rule parseClock_civilText [OF c(5)])
  moreover have "splitNanos (drop 19 s) = (nat (t mod 1000000000), zoneText off)"
  proof -
    have "no_digit (zoneText off)" "hasPrefix (zoneText off) ''.'' = False"
      by (simp_all add: zoneText_def no_digit_def is_digit_def in_byte_def hasPrefix_def)
    with splitNanos_text [of "nat (t mod 1000000000)" "zoneText off"] show ?thesis by (simp add: s nat_less_iff)
  qed
  moreover have "19 \<le> length s" by (simp add: s)
  moreover have "(?s - unixToYear0 - off) * 1000000000 + t mod 1000000000 = t" by simp
  ultimately show ?thesis
    using parseZone_text [OF off assms(2)] c(6) pos by (simp add: parseRFC3339_def)
qed

end
