(* ===== verification/Token_Store.thy ===== *)
theory Token_Store
  imports Indented_Json Time_Text
begin

text \<open>
  \<^verbatim>\<open>internal/auth/token_store.go\<close>: the credentials file. The file system maps paths to nodes; every system call
  of the code can fail, and \<^verbatim>\<open>Save\<close> and \<^verbatim>\<open>Delete\<close> leave the list of all states the file system went through, the
  latest first, for whoever looks at it meanwhile or after a crash.
\<close>

section \<open>Files\<close>

text \<open>A symbolic link holds the path it leads to; a device yields bytes.\<close>

datatype node = Directory nat | Regular nat string | Symlink string | Device string

type_synonym files = "string \<Rightarrow> node option"

type_synonym history = "files list"

datatype syscall = SysMkdirAll | SysLstat | SysChmod | SysCreateTemp | SysFchmod | SysWrite | SysFsync | SysClose
  | SysRename | SysOpenDirectory | SysSyncDirectory | SysRemove | SysOpen | SysRead

text \<open>The calls that fail, with their error and with how many bytes or directories they had got to.\<close>

type_synonym faults = "syscall \<Rightarrow> (go_error \<times> nat) option"

type_synonym io = "history \<Rightarrow> go_error option \<times> history"

definition sysCall :: "faults \<Rightarrow> syscall \<Rightarrow> (nat \<Rightarrow> files \<Rightarrow> files) \<Rightarrow> (files \<Rightarrow> go_error option \<times> files) \<Rightarrow> io" where
  "sysCall F c part f h =
     (case F c of
        Some (e, n) \<Rightarrow> (Some e, part n (hd h) # h)
      | None \<Rightarrow> (fst (f (hd h)), snd (f (hd h)) # h))"

definition unchanged :: "nat \<Rightarrow> files \<Rightarrow> files" where
  "unchanged n fs = fs"

definition andThen :: "io \<Rightarrow> io \<Rightarrow> io" where
  "andThen f g h = (case f h of (Some e, h1) \<Rightarrow> (Some e, h1) | (None, h1) \<Rightarrow> g h1)"

definition wrapping :: "string \<Rightarrow> io \<Rightarrow> io" where
  "wrapping p f h = (case f h of (Some e, h1) \<Rightarrow> (Some (ErrWrap p e), h1) | (None, h1) \<Rightarrow> (None, h1))"

text \<open>What happens when the function returns, whatever it returns.\<close>

definition deferred :: "io \<Rightarrow> io \<Rightarrow> io" where
  "deferred d f h = (case f h of (e, h1) \<Rightarrow> (e, snd (d h1)))"

section \<open>Paths\<close>

fun splitOn :: "char \<Rightarrow> string \<Rightarrow> string list" where
  "splitOn x [] = [[]]"
| "splitOn x (c # s) =
     (if c = x then [] # splitOn x s else (case splitOn x s of w # ws \<Rightarrow> (c # w) # ws | [] \<Rightarrow> [[c]]))"

text \<open>\<^verbatim>\<open>filepath.Clean\<close>: the names of the path that remain, last first.\<close>

fun cleanNames :: "bool \<Rightarrow> string list \<Rightarrow> string list \<Rightarrow> string list" where
  "cleanNames rooted kept [] = rev kept"
| "cleanNames rooted kept (w # ws) =
     (if w = [] \<or> w = ''.'' then cleanNames rooted kept ws
      else if w = ''..'' then
        (if kept \<noteq> [] \<and> hd kept \<noteq> ''..'' then cleanNames rooted (tl kept) ws
         else if rooted then cleanNames rooted kept ws
         else cleanNames rooted (w # kept) ws)
      else cleanNames rooted (w # kept) ws)"

definition cleanPath :: "string \<Rightarrow> string" where
  "cleanPath p =
     (let rooted = hasPrefix p ''/''; r = (if rooted then ''/'' else []) @ joinWith ''/'' (cleanNames rooted [] (splitOn (CHR ''/'') p)) in
      if r = [] then ''.'' else r)"

definition joinPath :: "string list \<Rightarrow> string" where
  "joinPath ws = (let us = filter (\<lambda>w. w \<noteq> []) ws in if us = [] then [] else cleanPath (joinWith ''/'' us))"

text \<open>\<^verbatim>\<open>filepath.Abs\<close>, given the working directory or why there is none.\<close>

definition absPath :: "string result \<Rightarrow> string \<Rightarrow> string result" where
  "absPath cwd p =
     (if hasPrefix p ''/'' then Inr (cleanPath p)
      else (case cwd of Inl e \<Rightarrow> Inl e | Inr d \<Rightarrow> Inr (joinPath [d, p])))"

definition dirOf :: "string \<Rightarrow> string" where
  "dirOf p = cleanPath (rev (dropWhile (\<lambda>c. c \<noteq> CHR ''/'') (rev p)))"

definition inDirectory :: "string \<Rightarrow> string \<Rightarrow> string" where
  "inDirectory d name = (if d \<noteq> [] \<and> last d = CHR ''/'' then d @ name else d @ ''/'' @ name)"

section \<open>System calls\<close>

text \<open>\<^verbatim>\<open>Stat\<close> follows at most 40 links.\<close>

fun follow :: "nat \<Rightarrow> files \<Rightarrow> string \<Rightarrow> node result" where
  "follow 0 fs p = Inl (OsError ''too many levels of symbolic links'')"
| "follow (Suc n) fs p =
     (case fs p of None \<Rightarrow> Inl OsNotExist | Some (Symlink q) \<Rightarrow> follow n fs q | Some x \<Rightarrow> Inr x)"

definition stat :: "files \<Rightarrow> string \<Rightarrow> node result" where
  "stat fs p = follow (Suc 40) fs p"

lemma stat_node: "stat fs p = (case fs p of None \<Rightarrow> Inl OsNotExist | Some (Symlink q) \<Rightarrow> follow 40 fs q | Some x \<Rightarrow> Inr x)"
  by (simp only: stat_def follow.simps)

text \<open>The directories a path goes through, itself the last.\<close>

definition ancestors :: "string \<Rightarrow> string list" where
  "ancestors p = map (\<lambda>i. take i p) (filter (\<lambda>i. p ! i = CHR ''/'') [1..<length p]) @ [p]"

definition isDirectory :: "node \<Rightarrow> bool" where
  "isDirectory x = (case x of Directory p \<Rightarrow> True | _ \<Rightarrow> False)"

fun makeDirectories :: "string list \<Rightarrow> files \<Rightarrow> go_error option \<times> files" where
  "makeDirectories [] fs = (None, fs)"
| "makeDirectories (d # ds) fs =
     (case stat fs d of
        Inr x \<Rightarrow> if isDirectory x then makeDirectories ds fs else (Some (OsError ''not a directory''), fs)
      | Inl e \<Rightarrow> if fs d = None then makeDirectories ds (fs(d \<mapsto> Directory 0x1C0)) else (Some (OsError ''file exists''), fs))"

definition mkdirAll :: "faults \<Rightarrow> string \<Rightarrow> io" where
  "mkdirAll F d = sysCall F SysMkdirAll (\<lambda>n fs. snd (makeDirectories (take n (ancestors d)) fs))
     (makeDirectories (ancestors d))"

definition lstat :: "faults \<Rightarrow> files \<Rightarrow> string \<Rightarrow> node result" where
  "lstat F fs p =
     (case F SysLstat of Some (e, n) \<Rightarrow> Inl e | None \<Rightarrow> (case fs p of None \<Rightarrow> Inl OsNotExist | Some x \<Rightarrow> Inr x))"

fun withMode :: "nat \<Rightarrow> node \<Rightarrow> node" where
  "withMode m (Directory p) = Directory m"
| "withMode m (Regular p b) = Regular m b"
| "withMode m x = x"

text \<open>A call on the node at a path, if there is one.\<close>

definition onNode :: "string \<Rightarrow> (node \<Rightarrow> node) \<Rightarrow> files \<Rightarrow> go_error option \<times> files" where
  "onNode p f fs = (case fs p of None \<Rightarrow> (Some OsNotExist, fs) | Some x \<Rightarrow> (None, fs(p \<mapsto> f x)))"

definition nothing :: "files \<Rightarrow> go_error option \<times> files" where
  "nothing fs = (None, fs)"

definition renameFile :: "string \<Rightarrow> string \<Rightarrow> files \<Rightarrow> go_error option \<times> files" where
  "renameFile old new fs =
     (case fs new of
        Some (Directory p) \<Rightarrow> (Some (OsError ''file exists''), fs)
      | _ \<Rightarrow> (None, fs(old := None, new := fs old)))"

text \<open>That a directory is not empty is one of the faults.\<close>

definition removeFile :: "string \<Rightarrow> files \<Rightarrow> go_error option \<times> files" where
  "removeFile p fs = (case fs p of None \<Rightarrow> (Some OsNotExist, fs) | Some x \<Rightarrow> (None, fs(p := None)))"

definition syncDirectory :: "faults \<Rightarrow> string \<Rightarrow> io" where
  "syncDirectory F d = andThen
     (sysCall F SysOpenDirectory unchanged (\<lambda>fs. (case stat fs d of Inl e \<Rightarrow> Some e | Inr x \<Rightarrow> None, fs)))
     (sysCall F SysSyncDirectory unchanged nothing)"

text \<open>\<^verbatim>\<open>CreateTemp\<close> tries random names until one is free, at most 10000 times.\<close>

definition tempName :: "string \<Rightarrow> string \<Rightarrow> string" where
  "tempName d r = inDirectory d (''.credentials-'' @ r @ ''.tmp'')"

definition createTemp :: "faults \<Rightarrow> string list \<Rightarrow> string \<Rightarrow> files \<Rightarrow> (string \<times> files) result" where
  "createTemp F rs d fs =
     (case F SysCreateTemp of
        Some (e, n) \<Rightarrow> Inl e
      | None \<Rightarrow> (case find (\<lambda>p. fs p = None) (map (tempName d) (take 10000 rs)) of
          None \<Rightarrow> Inl (OsError ''file exists'')
        | Some p \<Rightarrow> Inr (p, fs(p \<mapsto> Regular 0x180 []))))"

section \<open>The store\<close>

record Store =
  stPath :: string

definition NewStore :: "string result \<Rightarrow> string \<Rightarrow> Store result" where
  "NewStore cwd path =
     (if trimSpace path = [] then Inl (ErrNew ''create credential store: path is required'')
      else (case absPath cwd (trimSpace path) of
          Inl e \<Rightarrow> Inl (ErrWrap ''create credential store: '' e)
        | Inr p \<Rightarrow> Inr \<lparr>stPath = p\<rparr>))"

definition storePath :: "Store option \<Rightarrow> string" where
  "storePath store = (case store of None \<Rightarrow> [] | Some st \<Rightarrow> stPath st)"

definition maxCredentialBytes :: nat where
  "maxCredentialBytes = 1048576"

text \<open>The time of the file is read by the strict parser, or by the one that is a parameter.\<close>

definition decCredentials :: "(string \<Rightarrow> time option) \<Rightarrow> AuthCredentials dec" where
  "decCredentials lax = decStructKnown
     [field ''version'' decInt acVersion acVersion_update,
      field ''access_token'' decString acAccessToken acAccessToken_update,
      field ''refresh_token'' decString acRefreshToken acRefreshToken_update,
      field ''expires_at'' (decTime lax) acExpiresAt acExpiresAt_update,
      field ''chatgpt_account_id'' decString acAccountID acAccountID_update,
      field ''local_secret'' decString acLocalSecret acLocalSecret_update]"

definition octal4 :: "nat \<Rightarrow> string" where
  "octal4 p = map (\<lambda>k. digit_char (p div 8 ^ k mod 8)) [3, 2, 1, 0]"

definition readFile :: "faults \<Rightarrow> files \<Rightarrow> string \<Rightarrow> string result" where
  "readFile F fs p =
     (case (case F SysOpen of Some (e, n) \<Rightarrow> Inl e | None \<Rightarrow> stat fs p) of
        Inl e \<Rightarrow> Inl (ErrWrap ''open credentials: '' e)
      | Inr x \<Rightarrow>
          (case (case F SysRead of Some (e, n) \<Rightarrow> Inl e
                 | None \<Rightarrow> (case x of Regular m b \<Rightarrow> Inr b | Device b \<Rightarrow> Inr b | _ \<Rightarrow> Inl (OsError ''is a directory''))) of
             Inl e \<Rightarrow> Inl (ErrWrap ''read credentials: '' e)
           | Inr b \<Rightarrow> Inr (take (maxCredentialBytes + 1) b)))"

definition decodeCredentials :: "(string \<Rightarrow> time option) \<Rightarrow> string \<Rightarrow> AuthCredentials result" where
  "decodeCredentials lax body =
     (case decodeStream zeroAuthCredentials (decCredentials lax) body IoEOF of
        Inl e \<Rightarrow> Inl (ErrWrap ''decode credentials: '' e)
      | Inr (c, rest) \<Rightarrow>
          if \<not> streamEnds rest IoEOF then Inl (ErrNew ''decode credentials: multiple JSON values'')
          else (case validateCredentials c of Some e \<Rightarrow> Inl e | None \<Rightarrow> Inr c))"

text \<open>The file system may change between the inspection and the opening of the file: there are two states.\<close>

definition Load :: "faults \<Rightarrow> (string \<Rightarrow> time option) \<Rightarrow> Store option \<Rightarrow> files \<Rightarrow> files \<Rightarrow> AuthCredentials result" where
  "Load F lax store fs1 fs2 =
     (case store of
        None \<Rightarrow> Inl (ErrNew ''load credentials: nil store'')
      | Some st \<Rightarrow> (case lstat F fs1 (stPath st) of
          Inl e \<Rightarrow> if errorsIs e OsNotExist then Inl ErrNotLoggedIn else Inl (ErrWrap ''inspect credentials: '' e)
        | Inr (Regular m b) \<Rightarrow>
            if m mod 64 \<noteq> 0 then Inl (ErrNew (''load credentials: insecure permissions '' @ octal4 m @ '', want 0600''))
            else (case readFile F fs2 (stPath st) of
                Inl e \<Rightarrow> Inl e
              | Inr body \<Rightarrow>
                  if maxCredentialBytes < length body then Inl (ErrNew ''read credentials: file exceeds 1 MiB'')
                  else decodeCredentials lax body)
        | Inr x \<Rightarrow> Inl (ErrNew ''load credentials: file is not a regular file'')))"

text \<open>The body of the file, given the offset of the local zone at the time of expiry.\<close>

definition credentialsBody :: "(time \<Rightarrow> int) \<Rightarrow> AuthCredentials \<Rightarrow> string option" where
  "credentialsBody zone c =
     map_option (\<lambda>t. indentObject
         [(''version'', show_int (acVersion c)),
          (''access_token'', enc_string (acAccessToken c)),
          (''refresh_token'', enc_string (acRefreshToken c)),
          (''expires_at'', quote_char # t @ [quote_char]),
          (''chatgpt_account_id'', enc_string (acAccountID c)),
          (''local_secret'', enc_string (acLocalSecret c))] @ [LF])
       (timeText (zone (acExpiresAt c)) (acExpiresAt c))"

definition protectDirectory :: "faults \<Rightarrow> string \<Rightarrow> io" where
  "protectDirectory F d h =
     (case lstat F (hd h) d of
        Inl e \<Rightarrow> (Some (ErrWrap ''inspect credential directory: '' e), h)
      | Inr x \<Rightarrow>
          if \<not> isDirectory x then (Some (ErrNew ''credential directory is not a regular directory''), h)
          else wrapping ''protect credential directory: '' (sysCall F SysChmod unchanged (onNode d (withMode 0x1C0))) h)"

definition ensurePrivateDirectory :: "faults \<Rightarrow> string \<Rightarrow> io" where
  "ensurePrivateDirectory F d = andThen (wrapping ''create credential directory: '' (mkdirAll F d)) (protectDirectory F d)"

definition writeTo :: "string \<Rightarrow> node \<Rightarrow> node" where
  "writeTo b x = (case x of Regular m c \<Rightarrow> Regular m (c @ b) | _ \<Rightarrow> x)"

text \<open>From the created temporary file to the renamed one.\<close>

definition fillTemporary :: "faults \<Rightarrow> string \<Rightarrow> string \<Rightarrow> string \<Rightarrow> io" where
  "fillTemporary F body tmp path =
     andThen (wrapping ''protect temporary credentials: '' (sysCall F SysFchmod unchanged (onNode tmp (withMode 0x180))))
     (andThen (wrapping ''write temporary credentials: ''
        (sysCall F SysWrite (\<lambda>n fs. snd (onNode tmp (writeTo (take n body)) fs)) (onNode tmp (writeTo body))))
     (andThen (wrapping ''sync temporary credentials: '' (sysCall F SysFsync unchanged nothing))
     (andThen (wrapping ''close temporary credentials: '' (sysCall F SysClose unchanged nothing))
       (wrapping ''replace credentials atomically: '' (sysCall F SysRename unchanged (renameFile tmp path))))))"

definition Save :: "faults \<Rightarrow> (time \<Rightarrow> int) \<Rightarrow> string list \<Rightarrow> Store option \<Rightarrow> AuthCredentials \<Rightarrow> io" where
  "Save F zone rs store c h =
     (case store of
        None \<Rightarrow> (Some (ErrNew ''save credentials: nil store''), h)
      | Some st \<Rightarrow> (case validateCredentials c of
          Some e \<Rightarrow> (Some e, h)
        | None \<Rightarrow> andThen (ensurePrivateDirectory F (dirOf (stPath st)))
            (\<lambda>h1. case credentialsBody zone c of
               None \<Rightarrow> (Some (ErrWrap ''encode credentials: '' ErrJson), h1)
             | Some body \<Rightarrow> (case createTemp F rs (dirOf (stPath st)) (hd h1) of
                 Inl e \<Rightarrow> (Some (ErrWrap ''create temporary credentials: '' e), h1)
               | Inr (tmp, fs) \<Rightarrow>
                   deferred (sysCall F SysRemove unchanged (removeFile tmp))
                     (andThen (fillTemporary F body tmp (stPath st))
                       (wrapping ''sync credential directory: '' (syncDirectory F (dirOf (stPath st))))) (fs # h1))) h))"

definition Delete :: "faults \<Rightarrow> Store option \<Rightarrow> io" where
  "Delete F store h =
     (case store of
        None \<Rightarrow> (Some (ErrNew ''delete credentials: nil store''), h)
      | Some st \<Rightarrow> (case sysCall F SysRemove unchanged (removeFile (stPath st)) h of
          (None, h1) \<Rightarrow> wrapping ''sync credential directory: '' (syncDirectory F (dirOf (stPath st))) h1
        | (Some e, h1) \<Rightarrow> if errorsIs e OsNotExist then (None, h1) else (Some (ErrWrap ''delete credentials: '' e), h1)))"

end
