(* ===== verification/Url_Query.thy ===== *)
theory Url_Query
  imports Token_Store
begin

text \<open>
  The part of \<^verbatim>\<open>net/url\<close> the login uses: query strings, written and parsed, and that parsing undoes writing.
\<close>

section \<open>Query strings\<close>

definition unreserved :: "char \<Rightarrow> bool" where
  "unreserved c \<longleftrightarrow> is_digit c \<or> in_byte 0x41 0x5A c \<or> in_byte 0x61 0x7A c \<or> c \<in> set ''-_.~''"

definition upperHex :: "nat \<Rightarrow> char" where
  "upperHex n = (if n < 10 then char_of (48 + n) else char_of (55 + n))"

definition escapeQueryByte :: "char \<Rightarrow> string" where
  "escapeQueryByte c =
     (if c = CHR '' '' then ''+''
      else if unreserved c then [c]
      else [CHR ''%'', upperHex (byte_val c div 16), upperHex (byte_val c mod 16)])"

definition queryEscape :: "string \<Rightarrow> string" where
  "queryEscape s = concat (map escapeQueryByte s)"

fun queryUnescape :: "string \<Rightarrow> string option" where
  "queryUnescape [] = Some []"
| "queryUnescape (c # s) =
     (if c = CHR ''%'' then
        (case s of
           a # b # r \<Rightarrow> (case (hex_val a, hex_val b) of
               (Some x, Some y) \<Rightarrow> map_option (Cons (char_of (16 * x + y))) (queryUnescape r)
             | _ \<Rightarrow> None)
         | _ \<Rightarrow> None)
      else map_option (Cons (if c = CHR ''+'' then CHR '' '' else c)) (queryUnescape s))"

text \<open>\<^verbatim>\<open>url.Values\<close>: keys with their values; \<^verbatim>\<open>Encode\<close> sorts the keys.\<close>

type_synonym urlValues = "(string \<times> string list) list"

definition valuesGet :: "string \<Rightarrow> urlValues \<Rightarrow> string" where
  "valuesGet k vs = (case map_of vs k of Some (v # r) \<Rightarrow> v | _ \<Rightarrow> [])"

definition valuesPut :: "string \<Rightarrow> string list \<Rightarrow> urlValues \<Rightarrow> urlValues" where
  "valuesPut k ws vs = filter (\<lambda>e. fst e \<noteq> k) vs @ [(k, ws)]"

definition valuesSet :: "string \<Rightarrow> string \<Rightarrow> urlValues \<Rightarrow> urlValues" where
  "valuesSet k v vs = valuesPut k [v] vs"

definition valuePairs :: "urlValues \<Rightarrow> (string \<times> string) list" where
  "valuePairs vs = concat (map (\<lambda>e. map (Pair (fst e)) (snd e)) vs)"

definition encodePair :: "string \<times> string \<Rightarrow> string" where
  "encodePair p = queryEscape (fst p) @ ''='' @ queryEscape (snd p)"

definition encodeValues :: "urlValues \<Rightarrow> string" where
  "encodeValues vs = joinWith ''&'' (map encodePair (valuePairs (sort_key fst vs)))"

text \<open>\<^verbatim>\<open>URL.Query\<close> skips what it cannot decode.\<close>

definition parsePair :: "string \<Rightarrow> (string \<times> string) option" where
  "parsePair p =
     (if p = [] \<or> CHR '';'' \<in> set p then None
      else (case (queryUnescape (takeWhile (\<lambda>c. c \<noteq> CHR ''='') p), queryUnescape (drop 1 (dropWhile (\<lambda>c. c \<noteq> CHR ''='') p))) of
          (Some k, Some v) \<Rightarrow> Some (k, v)
        | _ \<Rightarrow> None))"

fun addValue :: "string \<times> string \<Rightarrow> urlValues \<Rightarrow> urlValues" where
  "addValue (k, v) [] = [(k, [v])]"
| "addValue (k, v) ((j, ws) # vs) = (if j = k then (j, ws @ [v]) # vs else (j, ws) # addValue (k, v) vs)"

definition parseQuery :: "string \<Rightarrow> urlValues" where
  "parseQuery q = fold addValue (List.map_filter parsePair (splitOn (CHR ''&'') q)) []"

lemma hex_val_upperHex [simp]: "n < 16 \<Longrightarrow> hex_val (upperHex n) = Some n"
  by (auto simp: hex_val_def upperHex_def in_byte_def)

lemma byte_halves [simp]: "byte_val c div 16 < 16" "16 * (byte_val c div 16) + byte_val c mod 16 = byte_val c"
proof -
  show "byte_val c div 16 < 16" using nat_of_char_less_256 [of c] by linarith
  show "16 * (byte_val c div 16) + byte_val c mod 16 = byte_val c" by simp
qed

lemma unescape_hex:
  "x < 16 \<Longrightarrow> y < 16 \<Longrightarrow>
    queryUnescape (CHR ''%'' # upperHex x # upperHex y # t) = map_option (Cons (char_of (16 * x + y))) (queryUnescape t)"
  by simp

lemma unescape_plain: "c \<noteq> CHR ''%'' \<Longrightarrow> c \<noteq> CHR ''+'' \<Longrightarrow> queryUnescape (c # t) = map_option (Cons c) (queryUnescape t)"
  by simp

declare queryUnescape.simps(2) [simp del]

lemma unescape_byte: "queryUnescape (escapeQueryByte c @ t) = map_option (Cons c) (queryUnescape t)"
proof -
  have p: "\<not> unreserved (CHR ''%'')" "\<not> unreserved (CHR ''+'')" by code_simp+
  consider "c = CHR '' ''" | "c \<noteq> CHR '' ''" "unreserved c" | "c \<noteq> CHR '' ''" "\<not> unreserved c" by blast
  then show ?thesis
  proof cases
    case 1
    then show ?thesis by (simp add: escapeQueryByte_def queryUnescape.simps(2))
  next
    case 2
    with p have "c \<noteq> CHR ''%''" "c \<noteq> CHR ''+''" by auto
    with 2 show ?thesis by (simp add: escapeQueryByte_def unescape_plain)
  next
    case 3
    then have "escapeQueryByte c = [CHR ''%'', upperHex (byte_val c div 16), upperHex (byte_val c mod 16)]"
      by (simp only: escapeQueryByte_def if_False)
    then show ?thesis using unescape_hex [of "byte_val c div 16" "byte_val c mod 16" t]
      by (simp only: append.simps byte_halves mod_less_divisor zero_less_numeral char_of_char)
  qed
qed

lemma queryUnescape_escape: "queryUnescape (queryEscape s) = Some s"
  by (induction s) (simp_all add: queryEscape_def unescape_byte)

definition queryByte :: "char \<Rightarrow> bool" where
  "queryByte c \<longleftrightarrow> unreserved c \<or> c = CHR ''+'' \<or> c = CHR ''%''"

lemma upperHex_queryByte: "n < 16 \<Longrightarrow> queryByte (upperHex n)"
  by (simp add: queryByte_def unreserved_def upperHex_def is_digit_def in_byte_def)

lemma queryEscape_bytes: "list_all queryByte (queryEscape s)"
  by (induction s) (auto simp: queryEscape_def escapeQueryByte_def upperHex_queryByte, auto simp: queryByte_def)

lemma queryByte_other: "\<not> queryByte (CHR ''&'')" "\<not> queryByte (CHR ''='')" "\<not> queryByte (CHR '';'')"
  by code_simp+

lemma splitOn_joinWith: "ws \<noteq> [] \<Longrightarrow> list_all (\<lambda>w. x \<notin> set w) ws \<Longrightarrow> splitOn x (joinWith [x] ws) = ws"
proof (induction "[x]" ws rule: joinWith.induct)
  case (2 w)
  then show ?case by (induction w) auto
next
  case (3 w v ws)
  have "splitOn x (u @ x # t) = u # splitOn x t" if "x \<notin> set u" for u t
    using that by (induction u) auto
  with 3 show ?case by simp
qed simp

lemma parsePair_encode: "parsePair (encodePair p) = Some p"
proof -
  have eq: "list_all (\<lambda>c. c \<noteq> CHR ''='') (queryEscape (fst p))" "CHR '';'' \<notin> set (encodePair p)"
    using queryEscape_bytes [of "fst p"] queryEscape_bytes [of "snd p"] queryByte_other
    by (auto simp: list_all_iff encodePair_def)
  have "takeWhile (\<lambda>c. c \<noteq> CHR ''='') (u @ CHR ''='' # t) = u \<and> dropWhile (\<lambda>c. c \<noteq> CHR ''='') (u @ CHR ''='' # t) = CHR ''='' # t"
    if "list_all (\<lambda>c. c \<noteq> CHR ''='') u" for u t
    using that by (induction u) auto
  from this [OF eq(1)] eq(2) show ?thesis
    by (simp add: parsePair_def queryUnescape_escape) (simp add: encodePair_def queryUnescape_escape)
qed

lemma query_pairs: "List.map_filter parsePair (splitOn (CHR ''&'') (encodeValues vs)) = valuePairs (sort_key fst vs)"
proof (cases "valuePairs (sort_key fst vs) = []")
  case True
  then show ?thesis by (simp add: encodeValues_def map_filter_simps parsePair_def)
next
  case False
  have "list_all (\<lambda>w. CHR ''&'' \<notin> set w) (map encodePair ps)" for ps
    using queryEscape_bytes queryByte_other by (auto simp: list_all_iff encodePair_def)
  with False have "splitOn (CHR ''&'') (encodeValues vs) = map encodePair (valuePairs (sort_key fst vs))"
    unfolding encodeValues_def by (intro splitOn_joinWith) auto
  then show ?thesis by (simp add: map_filter_def comp_def parsePair_encode)
qed

text \<open>What a query says: the values of each key.\<close>

definition valuesOf :: "urlValues \<Rightarrow> string \<Rightarrow> string list" where
  "valuesOf vs k = (case map_of vs k of None \<Rightarrow> [] | Some ws \<Rightarrow> ws)"

lemma valuesGet_of: "valuesGet k vs = (case valuesOf vs k of [] \<Rightarrow> [] | v # r \<Rightarrow> v)"
  by (simp add: valuesGet_def valuesOf_def split: option.split list.split)

lemma addValue_of: "valuesOf (addValue p vs) k = valuesOf vs k @ (if k = fst p then [snd p] else [])"
proof (induction p vs rule: addValue.induct)
  case (2 k' v j ws vs)
  then show ?case by (auto simp: valuesOf_def)
qed (simp add: valuesOf_def)

lemma fold_addValue: "valuesOf (fold addValue ps vs) k = valuesOf vs k @ map snd (filter (\<lambda>p. fst p = k) ps)"
  by (induction ps arbitrary: vs) (auto simp: addValue_of)

lemma pairs_none: "k \<notin> fst ` set vs \<Longrightarrow> filter (\<lambda>p. fst p = k) (valuePairs vs) = []"
  by (auto simp: valuePairs_def filter_empty_conv)

lemma pairs_of: "distinct (map fst vs) \<Longrightarrow> map snd (filter (\<lambda>p. fst p = k) (valuePairs vs)) = valuesOf vs k"
proof (induction vs)
  case (Cons e vs)
  have rest: "filter (\<lambda>p. fst p = k) (valuePairs vs) = []" if "fst e = k"
    using Cons.prems that by (intro pairs_none) auto
  have mine: "filter (\<lambda>p. fst p = k) (map (Pair (fst e)) (snd e)) = (if fst e = k then map (Pair (fst e)) (snd e) else [])"
    by (induction "snd e") (auto simp: filter_map comp_def)
  show ?case
    using Cons rest by (auto simp: valuePairs_def mine comp_def valuesOf_def)
qed (simp add: valuePairs_def valuesOf_def)

lemma sorted_of: "distinct (map fst vs) \<Longrightarrow> valuesOf (sort_key fst vs) = valuesOf vs"
proof -
  assume d: "distinct (map fst vs)"
  have ds: "distinct (map fst (sort_key fst vs))" using d by (simp add: distinct_map)
  have "map_of (sort_key fst vs) = map_of vs"
    using d ds by (intro map_of_eqI) auto
  then show ?thesis by (simp add: valuesOf_def fun_eq_iff)
qed

theorem parseQuery_encode:
  assumes "distinct (map fst vs)"
  shows "valuesOf (parseQuery (encodeValues vs)) = valuesOf vs"
proof
  fix k
  have "distinct (map fst (sort_key fst vs))" using assms by (simp add: distinct_map)
  then have "valuesOf (parseQuery (encodeValues vs)) k = valuesOf (sort_key fst vs) k"
    by (simp add: parseQuery_def query_pairs fold_addValue pairs_of) (simp add: valuesOf_def)
  then show "valuesOf (parseQuery (encodeValues vs)) k = valuesOf vs k" by (simp add: sorted_of [OF assms])
qed

lemma valuesPut_of: "valuesOf (valuesPut k ws vs) = (valuesOf vs)(k := ws)"
proof
  fix j
  have "map_of (filter (\<lambda>e. fst e \<noteq> k) vs) j = (if j = k then None else map_of vs j)" by (induction vs) auto
  then show "valuesOf (valuesPut k ws vs) j = ((valuesOf vs)(k := ws)) j"
    by (auto simp: valuesOf_def valuesPut_def map_add_def split: option.split)
qed

lemma valuesPut_distinct: "distinct (map fst vs) \<Longrightarrow> distinct (map fst (valuesPut k ws vs))"
  by (auto simp: valuesPut_def distinct_map_filter)

lemma addValue_keys: "fst ` set (addValue p vs) = insert (fst p) (fst ` set vs)"
  by (induction p vs rule: addValue.induct) auto

lemma addValue_distinct: "distinct (map fst vs) \<Longrightarrow> distinct (map fst (addValue p vs))"
proof (induction p vs rule: addValue.induct)
  case (2 k v j ws vs)
  then show ?case using addValue_keys [of "(k, v)" vs] by auto
qed simp

lemma parseQuery_distinct: "distinct (map fst (parseQuery q))"
proof -
  have "distinct (map fst vs) \<Longrightarrow> distinct (map fst (fold addValue ps vs))" for ps vs
    by (induction ps arbitrary: vs) (auto simp: addValue_distinct)
  then show ?thesis by (simp add: parseQuery_def)
qed

end
