(* ===== verification/Base64_Url.thy ===== *)
theory Base64_Url
  imports Json_Text Json_Encode
begin

text \<open>
  \<^verbatim>\<open>base64.RawURLEncoding\<close>: the URL alphabet without padding. Decoding skips line breaks and does not look at the
  spare bits of the last digit.
\<close>

definition b64Digit :: "nat \<Rightarrow> char" where
  "b64Digit n = (if n < 26 then char_of (65 + n) else if n < 52 then char_of (71 + n) else if n < 62 then char_of (n - 4)
     else if n = 62 then CHR ''-'' else CHR ''_'')"

definition b64Value :: "char \<Rightarrow> nat option" where
  "b64Value c = (if in_byte 0x41 0x5A c then Some (byte_val c - 65) else if in_byte 0x61 0x7A c then Some (byte_val c - 71)
     else if is_digit c then Some (byte_val c + 4) else if c = CHR ''-'' then Some 62 else if c = CHR ''_'' then Some 63 else None)"

fun sextets :: "string \<Rightarrow> nat list" where
  "sextets [] = []"
| "sextets [a] = [byte_val a div 4, byte_val a mod 4 * 16]"
| "sextets [a, b] = [byte_val a div 4, byte_val a mod 4 * 16 + byte_val b div 16, byte_val b mod 16 * 4]"
| "sextets (a # b # c # r) =
     [byte_val a div 4, byte_val a mod 4 * 16 + byte_val b div 16, byte_val b mod 16 * 4 + byte_val c div 64, byte_val c mod 64]
       @ sextets r"

fun fromSextets :: "nat list \<Rightarrow> string option" where
  "fromSextets [] = Some []"
| "fromSextets [x] = None"
| "fromSextets [x, y] = Some [char_of (x * 4 + y div 16)]"
| "fromSextets [x, y, z] = Some [char_of (x * 4 + y div 16), char_of (y mod 16 * 16 + z div 4)]"
| "fromSextets (x # y # z # w # r) =
     map_option (\<lambda>t. [char_of (x * 4 + y div 16), char_of (y mod 16 * 16 + z div 4), char_of (z mod 4 * 64 + w)] @ t)
       (fromSextets r)"

definition base64Encode :: "string \<Rightarrow> string" where
  "base64Encode s = map b64Digit (sextets s)"

definition base64Decode :: "string \<Rightarrow> string option" where
  "base64Decode s =
     (let t = filter (\<lambda>c. c \<noteq> CHR 0x0A \<and> c \<noteq> CHR 0x0D) s; vs = map b64Value t in
      if None \<in> set vs then None else fromSextets (map the vs))"

lemma char_of_eq: "n = byte_val c \<Longrightarrow> char_of n = c"
  by simp

lemma first_byte: "byte_val a div 4 * 4 + (byte_val a mod 4 * 16 + k) div 16 = byte_val a" if "k < 16"
  using that by (simp add: div_add1_eq)

lemma fromSextets_sextets: "fromSextets (sextets s) = Some s"
proof (induction s rule: sextets.induct)
  case (2 a)
  show ?case using first_byte [of 0 a] by (simp add: char_of_eq)
next
  case (3 a b)
  have "byte_val b div 16 < 16" using nat_of_char_less_256 [of b] by linarith
  moreover have "(byte_val a mod 4 * 16 + byte_val b div 16) mod 16 * 16 + byte_val b mod 16 * 4 div 4 = byte_val b"
    using calculation by simp
  ultimately show ?case using first_byte [of "byte_val b div 16" a] by (simp add: char_of_eq)
next
  case (4 a b c r)
  have b: "byte_val b div 16 < 16" using nat_of_char_less_256 [of b] by linarith
  have c: "byte_val c div 64 < 4" using nat_of_char_less_256 [of c] by linarith
  have "(byte_val a mod 4 * 16 + byte_val b div 16) mod 16 * 16 + (byte_val b mod 16 * 4 + byte_val c div 64) div 4 = byte_val b"
    using b c by simp
  moreover have "(byte_val b mod 16 * 4 + byte_val c div 64) mod 4 * 64 + byte_val c mod 64 = byte_val c"
    using c by simp
  ultimately show ?case using first_byte [OF b, of a] 4 by (simp add: char_of_eq)
qed simp

lemma quarter_byte: "byte_val a div 4 < 64"
  using nat_of_char_less_256 [of a] by linarith

lemma middle_sextets: "byte_val a mod 4 * 16 + byte_val b div 16 < 64" "byte_val b mod 16 * 4 + byte_val c div 64 < 64"
  using nat_of_char_less_256 [of b] nat_of_char_less_256 [of c] by linarith+

lemma sextets_small: "n \<in> set (sextets s) \<Longrightarrow> n < 64"
proof (induction s rule: sextets.induct)
  case (2 a)
  then show ?case using quarter_byte [of a] by auto
next
  case (3 a b)
  then show ?case using quarter_byte [of a] middle_sextets(1) [of a b] by auto
next
  case (4 a b c r)
  then show ?case using quarter_byte [of a] middle_sextets [of a b] middle_sextets(2) [of b c] by auto
qed simp

lemma b64Value_digit: "n < 64 \<Longrightarrow> b64Value (b64Digit n) = Some n"
proof -
  assume n: "n < 64"
  have "62 \<le> n \<Longrightarrow> n = 62 \<or> n = 63" using n by linarith
  then show ?thesis
    using n by (auto simp: b64Value_def b64Digit_def in_byte_def is_digit_def)
qed

lemma b64Digit_plain: "n < 64 \<Longrightarrow> b64Digit n \<noteq> CHR 0x0A \<and> b64Digit n \<noteq> CHR 0x0D \<and> b64Digit n \<noteq> CHR ''.''"
proof -
  assume "n < 64"
  then have "b64Value (b64Digit n) = Some n" by (rule b64Value_digit)
  moreover have "b64Value (CHR 0x0A) = None" "b64Value (CHR 0x0D) = None" "b64Value (CHR ''.'') = None" by code_simp+
  ultimately show ?thesis by auto
qed

theorem base64Decode_encode: "base64Decode (base64Encode s) = Some s"
proof -
  have "filter (\<lambda>c. c \<noteq> CHR 0x0A \<and> c \<noteq> CHR 0x0D) (base64Encode s) = base64Encode s"
    using b64Digit_plain sextets_small by (auto simp: base64Encode_def filter_id_conv)
  moreover have "map b64Value (base64Encode s) = map Some (sextets s)"
    using sextets_small by (auto simp: base64Encode_def b64Value_digit)
  moreover have "None \<notin> set (map Some (sextets s))" "map the (map Some (sextets s)) = sextets s" by auto
  ultimately show ?thesis unfolding base64Decode_def Let_def by (simp only: if_False fromSextets_sextets)
qed

lemma sextets_length: "length (sextets s) = (4 * length s + 2) div 3"
  by (induction s rule: sextets.induct) auto

lemma base64Encode_length: "length (base64Encode s) = (4 * length s + 2) div 3"
  by (simp add: base64Encode_def sextets_length)

lemma base64Encode_no_dot: "CHR ''.'' \<notin> set (base64Encode s)"
  using b64Digit_plain sextets_small by (fastforce simp: base64Encode_def)

end
