(* ===== verification/OAuth.thy ===== *)
theory OAuth
  imports Url_Query Base64_Url Codex_Client
begin

text \<open>
  \<^verbatim>\<open>internal/auth/oauth.go\<close>: the OAuth client, the authorization flow with PKCE, the two requests to the token
  endpoint, and the account in the payload of an ID token. \<^verbatim>\<open>url.Parse\<close>, the HTTP client and the random source are
  parameters.
\<close>

section \<open>Configuration\<close>

definition ClientID :: string where
  "ClientID = ''app_EMoamEEZ73f0CkXaXp7hrann''"

definition AuthorizeURL :: string where
  "AuthorizeURL = ''https://auth.openai.com/oauth/authorize''"

definition TokenURL :: string where
  "TokenURL = ''https://auth.openai.com/oauth/token''"

definition DefaultRedirectURI :: string where
  "DefaultRedirectURI = ''http://localhost:1455/auth/callback''"

definition DefaultScopes :: string where
  "DefaultScopes = ''openid profile email offline_access''"

definition RefreshScopes :: string where
  "RefreshScopes = ''openid profile email''"

definition maxTokenResponseBytes :: nat where
  "maxTokenResponseBytes = 1048576"

record OAuthConfig =
  oaClientID :: string
  oaAuthorizeURL :: string
  oaTokenURL :: string
  oaRedirectURI :: string
  oaScopes :: string
  oaRefreshScopes :: string

definition DefaultOAuthConfig :: OAuthConfig where
  "DefaultOAuthConfig = \<lparr>oaClientID = ClientID, oaAuthorizeURL = AuthorizeURL, oaTokenURL = TokenURL,
     oaRedirectURI = DefaultRedirectURI, oaScopes = DefaultScopes, oaRefreshScopes = RefreshScopes\<rparr>"

record OAuthClient =
  ocConfig :: OAuthConfig

record AuthorizationFlow =
  afState :: string
  afCodeVerifier :: string
  afCodeChallenge :: string
  afAuthorizationURL :: string

record TokenResponse =
  tkAccessToken :: string
  tkRefreshToken :: string
  tkIDToken :: string
  tkTokenType :: string
  tkExpiresIn :: int
  tkScope :: string

definition zeroTokenResponse :: TokenResponse where
  "zeroTokenResponse = \<lparr>tkAccessToken = [], tkRefreshToken = [], tkIDToken = [], tkTokenType = [], tkExpiresIn = 0, tkScope = []\<rparr>"

definition decTokenResponse :: "TokenResponse dec" where
  "decTokenResponse = decStruct
     [field ''access_token'' decString tkAccessToken tkAccessToken_update,
      field ''refresh_token'' decString tkRefreshToken tkRefreshToken_update,
      field ''id_token'' decString tkIDToken tkIDToken_update,
      field ''token_type'' decString tkTokenType tkTokenType_update,
      field ''expires_in'' decInt tkExpiresIn tkExpiresIn_update,
      field ''scope'' decString tkScope tkScope_update]"

text \<open>A parsed URL as the login needs it: also its path and query, and its text with another query.\<close>

record authURL = parsedURL +
  puPath :: string
  puRawQuery :: string
  puWithQuery :: "string \<Rightarrow> string"

definition orText :: "string \<Rightarrow> string \<Rightarrow> string" where
  "orText v d = (if isBlank v then d else v)"

definition withDefaults :: "OAuthConfig \<Rightarrow> OAuthConfig" where
  "withDefaults c = \<lparr>oaClientID = orText (oaClientID c) ClientID, oaAuthorizeURL = orText (oaAuthorizeURL c) AuthorizeURL,
     oaTokenURL = orText (oaTokenURL c) TokenURL, oaRedirectURI = orText (oaRedirectURI c) DefaultRedirectURI,
     oaScopes = orText (oaScopes c) DefaultScopes, oaRefreshScopes = orText (oaRefreshScopes c) RefreshScopes\<rparr>"

definition absoluteHTTP :: "authURL option \<Rightarrow> bool" where
  "absoluteHTTP p =
     (case p of
        None \<Rightarrow> False
      | Some u \<Rightarrow> puScheme u \<noteq> [] \<and> puHost u \<noteq> [] \<and> (puScheme u = ''http'' \<or> puScheme u = ''https'') \<and> \<not> puUser u)"

text \<open>The endpoints are checked in the order of iterating over a map, which is any: \<open>order\<close> is a permutation.\<close>

definition NewOAuthClient :: "((string \<times> string) list \<Rightarrow> (string \<times> string) list) \<Rightarrow> (string \<Rightarrow> authURL option) \<Rightarrow>
    OAuthConfig \<Rightarrow> OAuthClient result" where
  "NewOAuthClient order parse config =
     (let c = withDefaults config in
      (case find (\<lambda>e. \<not> absoluteHTTP (parse (snd e))) (order [(''authorize endpoint'', oaAuthorizeURL c),
           (''token endpoint'', oaTokenURL c), (''redirect URI'', oaRedirectURI c)]) of
         Some e \<Rightarrow> Inl (ErrNew (''create OAuth client: '' @ fst e @ '' must be an absolute HTTP(S) URL''))
       | None \<Rightarrow> Inr \<lparr>ocConfig = c\<rparr>))"

definition zeroOAuthConfig :: OAuthConfig where
  "zeroOAuthConfig = \<lparr>oaClientID = [], oaAuthorizeURL = [], oaTokenURL = [], oaRedirectURI = [], oaScopes = [], oaRefreshScopes = []\<rparr>"

definition clientConfig :: "OAuthClient option \<Rightarrow> OAuthConfig" where
  "clientConfig client = (case client of None \<Rightarrow> zeroOAuthConfig | Some c \<Rightarrow> ocConfig c)"

section \<open>Authorization\<close>

text \<open>A random source gives the wanted number of bytes, or fails.\<close>

type_synonym random = "nat \<Rightarrow> string result"

definition randomHex :: "random \<Rightarrow> nat \<Rightarrow> string result" where
  "randomHex rand n = (case rand n of Inl e \<Rightarrow> Inl e | Inr bs \<Rightarrow> Inr (hexString bs))"

definition newLocalSecret :: "random \<Rightarrow> string result" where
  "newLocalSecret rand = (case rand 32 of Inl e \<Rightarrow> Inl (ErrWrap ''generate local secret: '' e) | Inr bs \<Rightarrow> Inr (base64Encode bs))"

definition authorizationParameters :: "OAuthConfig \<Rightarrow> string \<Rightarrow> string \<Rightarrow> (string \<times> string) list" where
  "authorizationParameters c state challenge =
     [(''response_type'', ''code''), (''client_id'', oaClientID c), (''redirect_uri'', oaRedirectURI c),
      (''scope'', oaScopes c), (''state'', state), (''code_challenge'', challenge), (''code_challenge_method'', ''S256''),
      (''id_token_add_organizations'', ''true''), (''codex_cli_simplified_flow'', ''true'')]"

definition setAll :: "(string \<times> string) list \<Rightarrow> urlValues \<Rightarrow> urlValues" where
  "setAll ps vs = fold (\<lambda>p vs. valuesSet (fst p) (snd p) vs) ps vs"

definition BeginAuthorization :: "(string \<Rightarrow> authURL option) \<Rightarrow> random \<Rightarrow> random \<Rightarrow> OAuthClient option \<Rightarrow> AuthorizationFlow result" where
  "BeginAuthorization parse rand1 rand2 client =
     (case client of
        None \<Rightarrow> Inl (ErrNew ''begin OAuth authorization: nil client'')
      | Some cl \<Rightarrow>
     (case randomHex rand1 32 of
        Inl e \<Rightarrow> Inl (ErrWrap ''generate OAuth state: '' e)
      | Inr state \<Rightarrow>
     (case randomHex rand2 64 of
        Inl e \<Rightarrow> Inl (ErrWrap ''generate PKCE verifier: '' e)
      | Inr verifier \<Rightarrow>
          let challenge = base64Encode (sha256 verifier) in
          (case parse (oaAuthorizeURL (ocConfig cl)) of
             None \<Rightarrow> Inl (ErrWrap ''build OAuth authorization URL: '' (OsError ''parse''))
           | Some u \<Rightarrow> Inr \<lparr>afState = state, afCodeVerifier = verifier, afCodeChallenge = challenge,
               afAuthorizationURL = puWithQuery u (encodeValues
                 (setAll (authorizationParameters (ocConfig cl) state challenge) (parseQuery (puRawQuery u))))\<rparr>))))"

section \<open>The token endpoint\<close>

definition readLimited :: "nat \<Rightarrow> string \<Rightarrow> go_error \<Rightarrow> string result" where
  "readLimited n body e = (if n \<le> length body then Inr (take n body) else if e = IoEOF then Inr body else Inl e)"

text \<open>Letters, digits, underscore and hyphen.\<close>

definition codeByte :: "char \<Rightarrow> bool" where
  "codeByte c \<longleftrightarrow> in_byte 0x61 0x7A c \<or> in_byte 0x41 0x5A c \<or> is_digit c \<or> c = CHR ''_'' \<or> c = CHR ''-''"

text \<open>An error of \<^verbatim>\<open>Unmarshal\<close> is ignored, and what was decoded despite it kept: the last string of the key.\<close>

definition errorField :: "string \<Rightarrow> string" where
  "errorField body =
     (case json_parse body of
        Some (JObj ms) \<Rightarrow>
          fold (\<lambda>(k, raw, j) old. case (findField [(''error'', decString)] k, j) of (Some d, JStr s) \<Rightarrow> s | _ \<Rightarrow> old) ms []
      | _ \<Rightarrow> [])"

definition tokenEndpointError :: "int \<Rightarrow> string \<Rightarrow> go_error" where
  "tokenEndpointError status body =
     (let t = trimSpace (errorField body); code = (if list_all codeByte t then t else []) in
      if code = [] then ErrNew (''OAuth token endpoint returned HTTP '' @ show_int status)
      else ErrNew (''OAuth token endpoint returned HTTP '' @ show_int status @ '' ('' @ code @ '')''))"

definition checkToken :: "bool \<Rightarrow> string \<Rightarrow> TokenResponse result" where
  "checkToken requireRefresh body =
     (case decodeStream zeroTokenResponse decTokenResponse body IoEOF of
        Inl e \<Rightarrow> Inl (ErrWrap ''decode OAuth token response: '' e)
      | Inr (token, rest) \<Rightarrow>
          if \<not> streamEnds rest IoEOF then Inl (ErrNew ''decode OAuth token response: multiple JSON values'')
          else if isBlank (tkAccessToken token) \<or> tkExpiresIn token \<le> 0 then
            Inl (ErrNew ''decode OAuth token response: missing access_token or positive expires_in'')
          else if requireRefresh \<and> isBlank (tkRefreshToken token) then
            Inl (ErrNew ''decode OAuth token response: missing refresh_token'')
          else Inr token)"

definition tokenRequest :: "string \<Rightarrow> urlValues \<Rightarrow> HttpRequest" where
  "tokenRequest url form = \<lparr>hqMethod = ''POST'', hqURL = url,
     hqHeader = headerSet ''originator'' Originator (headerSet ''User-Agent'' UserAgent (headerSet ''Accept'' ''application/json''
       (headerSet ''Content-Type'' ''application/x-www-form-urlencoded'' []))),
     hqBody = encodeValues form\<rparr>"

definition postToken :: "(string \<Rightarrow> authURL option) \<Rightarrow> 'w transport \<Rightarrow> OAuthClient option \<Rightarrow> urlValues \<Rightarrow> bool \<Rightarrow> 'w \<Rightarrow>
    TokenResponse result \<times> 'w" where
  "postToken parse send client form requireRefresh w =
     (case client of
        None \<Rightarrow> (Inl (ErrNew ''request OAuth token: nil client''), w)
      | Some cl \<Rightarrow>
     (case parse (oaTokenURL (ocConfig cl)) of
        None \<Rightarrow> (Inl (ErrWrap ''create OAuth token request: '' (OsError ''parse'')), w)
      | Some u \<Rightarrow>
     (case send (tokenRequest (puString u) form) w of
        (Inl e, w1) \<Rightarrow> (Inl (ErrWrap ''request OAuth token: '' e), w1)
      | (Inr response, w1) \<Rightarrow>
          ((case readLimited (maxTokenResponseBytes + 1) (hrBody response) (hrEnd response) of
              Inl e \<Rightarrow> Inl (ErrWrap ''read OAuth token response: '' e)
            | Inr body \<Rightarrow>
                if maxTokenResponseBytes < length body then Inl (ErrNew ''read OAuth token response: body exceeds 1 MiB'')
                else if hrStatus response < 200 \<or> 300 \<le> hrStatus response then Inl (tokenEndpointError (hrStatus response) body)
                else checkToken requireRefresh body), w1))))"

definition ExchangeCode :: "(string \<Rightarrow> authURL option) \<Rightarrow> 'w transport \<Rightarrow> OAuthClient option \<Rightarrow> string \<Rightarrow> string \<Rightarrow> 'w \<Rightarrow>
    TokenResponse result \<times> 'w" where
  "ExchangeCode parse send client code verifier w =
     (case client of
        None \<Rightarrow> (Inl (ErrNew ''exchange OAuth code: nil client''), w)
      | Some cl \<Rightarrow>
          if isBlank code \<or> isBlank verifier then (Inl (ErrNew ''exchange OAuth code: code and verifier are required''), w)
          else postToken parse send client
            (setAll [(''grant_type'', ''authorization_code''), (''client_id'', oaClientID (ocConfig cl)), (''code'', code),
               (''redirect_uri'', oaRedirectURI (ocConfig cl)), (''code_verifier'', verifier)] []) True w)"

definition Refresh :: "(string \<Rightarrow> authURL option) \<Rightarrow> 'w transport \<Rightarrow> OAuthClient option \<Rightarrow> string \<Rightarrow> 'w \<Rightarrow> TokenResponse result \<times> 'w" where
  "Refresh parse send client refreshToken w =
     (case client of
        None \<Rightarrow> (Inl (ErrNew ''refresh OAuth token: nil client''), w)
      | Some cl \<Rightarrow>
          if isBlank refreshToken then (Inl (ErrNew ''refresh OAuth token: refresh token is required''), w)
          else postToken parse send client
            (setAll [(''grant_type'', ''refresh_token''), (''client_id'', oaClientID (ocConfig cl)),
               (''refresh_token'', refreshToken), (''scope'', oaRefreshScopes (ocConfig cl))] []) False w)"

section \<open>The ID token\<close>

record idClaims =
  icAccountID :: string

definition decClaims :: "idClaims dec" where
  "decClaims = decStruct [field ''https://api.openai.com/auth''
     (decStruct [field ''chatgpt_account_id'' decString icAccountID icAccountID_update]) (\<lambda>c. c) (\<lambda>f c. f c)]"

definition AccountIDFromIDToken :: "string \<Rightarrow> string result" where
  "AccountIDFromIDToken idToken =
     (case splitOn (CHR ''.'') idToken of
        [h, p, s] \<Rightarrow>
          (case base64Decode p of
             None \<Rightarrow> Inl (ErrWrap ''decode ID token payload: '' (OsError ''illegal base64 data''))
           | Some payload \<Rightarrow>
               (case unmarshal \<lparr>icAccountID = []\<rparr> decClaims payload of
                  None \<Rightarrow> Inl (ErrWrap ''decode ID token claims: '' ErrJson)
                | Some claims \<Rightarrow>
                    let accountID = trimSpace (icAccountID claims) in
                    if accountID = [] then Inl (ErrNew ''decode ID token claims: missing chatgpt_account_id'')
                    else Inr accountID))
      | _ \<Rightarrow> Inl (ErrNew ''decode ID token: expected three JWT parts''))"

end
