(* ===== verification/OAuth_Properties.thy ===== *)
theory OAuth_Properties
  imports OAuth
begin

text \<open>
  What the OAuth client guarantees: the authorization URL carries the flow, the token endpoint is asked once and
  only usable tokens are accepted, errors show nothing of a response but a code, and the account of an ID token is
  the one its payload names.
\<close>

section \<open>Queries and forms\<close>

lemma setAll_of: "valuesOf (setAll ps vs) = fold (\<lambda>p f. f(fst p := [snd p])) ps (valuesOf vs)"
  unfolding setAll_def
  by (induction ps arbitrary: vs) (simp_all add: valuesSet_def valuesPut_of)

lemma setAll_distinct: "distinct (map fst vs) \<Longrightarrow> distinct (map fst (setAll ps vs))"
  unfolding setAll_def
  by (induction ps arbitrary: vs) (simp_all add: valuesSet_def valuesPut_distinct)

lemma form_of: "valuesOf (parseQuery (encodeValues (setAll ps vs))) = fold (\<lambda>p f. f(fst p := [snd p])) ps (valuesOf vs)"
  if "distinct (map fst vs)"
  using that by (simp add: parseQuery_encode setAll_distinct setAll_of)

lemma fold_upd_other: "k \<notin> fst ` set ps \<Longrightarrow> fold (\<lambda>p f. f(fst p := [snd p])) ps f k = f k"
  by (induction ps arbitrary: f) auto

lemma fold_upd_mine: "(k, v) \<in> set ps \<Longrightarrow> distinct (map fst ps) \<Longrightarrow> fold (\<lambda>p f. f(fst p := [snd p])) ps f k = [v]"
proof (induction ps arbitrary: f)
  case (Cons p ps)
  show ?case
  proof (cases "p = (k, v)")
    case True
    with Cons.prems(2) have "k \<notin> fst ` set ps" by auto
    from fold_upd_other [OF this, of "f(k := [v])"] True show ?thesis
      by (simp only: fold_simps fst_conv snd_conv fun_upd_same)
  next
    case False
    with Cons show ?thesis by auto
  qed
qed simp

section \<open>The authorization flow\<close>

text \<open>
  What an authorization request with PKCE has to say, written out: the authorization code flow of the configured
  client, the state and the S256 challenge of the flow, and the two switches of the Codex login.
\<close>

definition flowParameters :: "OAuthConfig \<Rightarrow> AuthorizationFlow \<Rightarrow> (string \<times> string) list" where
  "flowParameters c flow =
     [(''client_id'', oaClientID c), (''response_type'', ''code''), (''scope'', oaScopes c),
      (''redirect_uri'', oaRedirectURI c), (''code_challenge_method'', ''S256''),
      (''code_challenge'', afCodeChallenge flow), (''state'', afState flow),
      (''codex_cli_simplified_flow'', ''true''), (''id_token_add_organizations'', ''true'')]"

text \<open>A random source that delivers as much as it is asked for.\<close>

definition fullRandom :: "random \<Rightarrow> bool" where
  "fullRandom rand \<longleftrightarrow> (\<forall>n bs. rand n = Inr bs \<longrightarrow> length bs = n)"

lemma parameters_distinct: "distinct (map fst (authorizationParameters c s t))"
  by (simp add: authorizationParameters_def)

lemma parameters_of_flow:
  "set (authorizationParameters c (afState flow) (afCodeChallenge flow)) = set (flowParameters c flow)"
  unfolding authorizationParameters_def flowParameters_def by auto

lemma BeginAuthorization_Inr:
  assumes "BeginAuthorization parse rand1 rand2 (Some cl) = Inr flow"
  obtains u b1 b2 where "parse (oaAuthorizeURL (ocConfig cl)) = Some u" "rand1 32 = Inr b1" "rand2 64 = Inr b2"
    "afState flow = hexString b1" "afCodeVerifier flow = hexString b2"
    "afCodeChallenge flow = base64Encode (sha256 (hexString b2))"
    "afAuthorizationURL flow = puWithQuery u (encodeValues (setAll (authorizationParameters (ocConfig cl) (afState flow) (afCodeChallenge flow))
       (parseQuery (puRawQuery u))))"
  using assms
  by (auto simp: BeginAuthorization_def randomHex_def Let_def split: option.splits sum.splits)

text \<open>
  C38: The authorization URL carries the flow. Its query reads back with exactly one value for each parameter of
  the flow, which are written out in flowParameters: the code flow of the configured client with its redirect URI
  and scopes, the state, the S256 challenge and the two Codex switches; in particular exactly one state, that of
  the flow, and exactly one challenge, of the method S256, that decodes to the SHA-256 digest of the verifier.
  Every other key reads back as in the query of the configured endpoint. The state has 64 and the verifier 128
  hexadecimal digits, and the challenge 43 characters.
\<close>

theorem authorization_carries_flow:
  assumes "BeginAuthorization parse rand1 rand2 (Some cl) = Inr flow" "fullRandom rand1" "fullRandom rand2"
  shows "\<exists>u q. parse (oaAuthorizeURL (ocConfig cl)) = Some u \<and> afAuthorizationURL flow = puWithQuery u q
     \<and> (\<forall>(k, v) \<in> set (flowParameters (ocConfig cl) flow). valuesOf (parseQuery q) k = [v])
     \<and> (\<forall>k. k \<notin> fst ` set (flowParameters (ocConfig cl) flow) \<longrightarrow>
         valuesOf (parseQuery q) k = valuesOf (parseQuery (puRawQuery u)) k)
     \<and> valuesOf (parseQuery q) ''state'' = [afState flow] \<and> valuesOf (parseQuery q) ''code_challenge_method'' = [''S256'']
     \<and> (\<exists>challenge. valuesOf (parseQuery q) ''code_challenge'' = [challenge]
          \<and> base64Decode challenge = Some (sha256 (afCodeVerifier flow)))
     \<and> length (afState flow) = 64 \<and> length (afCodeVerifier flow) = 128
     \<and> set (afState flow @ afCodeVerifier flow) \<subseteq> set ''0123456789abcdef''
     \<and> length (afCodeChallenge flow) = 43"
proof -
  obtain u b1 b2 where flow: "parse (oaAuthorizeURL (ocConfig cl)) = Some u" "rand1 32 = Inr b1" "rand2 64 = Inr b2"
    "afState flow = hexString b1" "afCodeVerifier flow = hexString b2"
    "afCodeChallenge flow = base64Encode (sha256 (hexString b2))"
    "afAuthorizationURL flow = puWithQuery u (encodeValues
       (setAll (authorizationParameters (ocConfig cl) (afState flow) (afCodeChallenge flow)) (parseQuery (puRawQuery u))))"
    using assms(1) by (rule BeginAuthorization_Inr)
  let ?ps = "authorizationParameters (ocConfig cl) (afState flow) (afCodeChallenge flow)"
  let ?q = "encodeValues (setAll ?ps (parseQuery (puRawQuery u)))"
  have of: "valuesOf (parseQuery ?q) = fold (\<lambda>p f. f(fst p := [snd p])) ?ps (valuesOf (parseQuery (puRawQuery u)))"
    by (rule form_of [OF parseQuery_distinct])
  have mine: "valuesOf (parseQuery ?q) k = [v]" if "(k, v) \<in> set (flowParameters (ocConfig cl) flow)" for k v
    using that unfolding of parameters_of_flow [symmetric] by (rule fold_upd_mine) (rule parameters_distinct)
  then have "\<forall>(k, v) \<in> set (flowParameters (ocConfig cl) flow). valuesOf (parseQuery ?q) k = [v]" by blast
  moreover have "\<forall>k. k \<notin> fst ` set (flowParameters (ocConfig cl) flow) \<longrightarrow>
      valuesOf (parseQuery ?q) k = valuesOf (parseQuery (puRawQuery u)) k"
    unfolding of parameters_of_flow [symmetric] by (intro allI impI fold_upd_other)
  moreover have "valuesOf (parseQuery ?q) ''state'' = [afState flow]"
    "valuesOf (parseQuery ?q) ''code_challenge_method'' = [''S256'']"
    "valuesOf (parseQuery ?q) ''code_challenge'' = [afCodeChallenge flow]"
    by (rule mine, simp add: flowParameters_def)+
  moreover have "length (afState flow) = 64" "length (afCodeVerifier flow) = 128" "length (afCodeChallenge flow) = 43"
  proof -
    have "length b1 = 32" "length b2 = 64" using assms(2,3) flow(2,3) unfolding fullRandom_def by blast+
    then show "length (afState flow) = 64" "length (afCodeVerifier flow) = 128"
      unfolding flow(4,5) length_hexString by simp_all
    show "length (afCodeChallenge flow) = 43" unfolding flow(6) base64Encode_length length_sha256 by simp
  qed
  moreover have "set (afState flow @ afCodeVerifier flow) \<subseteq> set ''0123456789abcdef''"
    using hexString_set [of b1] hexString_set [of b2] unfolding set_append flow(4,5) by blast
  moreover have "base64Decode (afCodeChallenge flow) = Some (sha256 (afCodeVerifier flow))"
    unfolding flow(5,6) by (rule base64Decode_encode)
  ultimately show ?thesis using flow(1,7) by blast
qed


text \<open>A parser for the witnesses: an absolute HTTPS URL, split at its question mark.\<close>

definition sampleParse :: "string \<Rightarrow> authURL option" where
  "sampleParse s = Some \<lparr>puScheme = ''https'', puHost = ''auth.openai.com'', puUser = False, puString = s,
     puPath = ''/auth/callback'', puRawQuery = drop 1 (dropWhile (\<lambda>c. c \<noteq> CHR ''?'') s),
     puWithQuery = (\<lambda>q. takeWhile (\<lambda>c. c \<noteq> CHR ''?'') s @ ''?'' @ q)\<rparr>"

definition sampleRandom :: random where
  "sampleRandom n = Inr (replicate n (CHR 0x07))"

definition sampleClient :: OAuthClient where
  "sampleClient = \<lparr>ocConfig = DefaultOAuthConfig\<rparr>"

lemma sample_flow: "\<exists>flow. BeginAuthorization sampleParse sampleRandom sampleRandom (Some sampleClient) = Inr flow"
  by (simp add: BeginAuthorization_def randomHex_def sampleRandom_def sampleParse_def Let_def)

lemma authorization_carries_flow_witness:
  "\<exists>flow. BeginAuthorization sampleParse sampleRandom sampleRandom (Some sampleClient) = Inr flow
     \<and> (\<exists>u q. sampleParse (oaAuthorizeURL (ocConfig sampleClient)) = Some u \<and> afAuthorizationURL flow = puWithQuery u q
          \<and> length (afCodeVerifier flow) = 128 \<and> valuesOf (parseQuery q) ''state'' = [afState flow])"
proof -
  obtain flow where flow: "BeginAuthorization sampleParse sampleRandom sampleRandom (Some sampleClient) = Inr flow"
    using sample_flow by blast
  have full: "fullRandom sampleRandom" by (simp add: fullRandom_def sampleRandom_def)
  from authorization_carries_flow [OF flow full full] flow show ?thesis by blast
qed

section \<open>The token endpoint\<close>

text \<open>A transport that keeps the requests it sent, the latest first.\<close>

definition logging :: "'w transport \<Rightarrow> (HttpRequest list \<times> 'w) transport" where
  "logging send r lw = (case send r (snd lw) of (x, w) \<Rightarrow> (x, (r # fst lw, w)))"

lemma checkToken_Inr: "checkToken b body = Inr t \<Longrightarrow>
    \<not> isBlank (tkAccessToken t) \<and> 0 < tkExpiresIn t \<and> (b \<longrightarrow> \<not> isBlank (tkRefreshToken t))"
  by (auto simp: checkToken_def split: sum.splits if_splits)

lemma postToken_log:
  assumes "postToken parse (logging send) (Some cl) form b (log, w) = (r, log1, w1)"
  shows "log1 = log \<or> (\<exists>u. parse (oaTokenURL (ocConfig cl)) = Some u \<and> log1 = tokenRequest (puString u) form # log)"
    and "r = Inr t \<Longrightarrow> \<not> isBlank (tkAccessToken t) \<and> 0 < tkExpiresIn t \<and> (b \<longrightarrow> \<not> isBlank (tkRefreshToken t))"
    and "r = Inr t \<Longrightarrow> log1 \<noteq> log"
  using assms
  by (auto simp: postToken_def logging_def dest!: checkToken_Inr split: option.splits prod.splits sum.splits if_splits)

text \<open>
  C39: The code is exchanged at most once per call, with one form POST to the token endpoint that reads back as
  exactly this code, verifier, client and redirect URI; and a token is only accepted with a non-blank access and
  refresh token and a positive lifetime.
\<close>

theorem code_exchanged_once:
  assumes "ExchangeCode parse (logging send) (Some cl) code verifier ([], w) = (r, log, w1)"
  shows "(log = [] \<or> (\<exists>q. log = [q] \<and> hqMethod q = ''POST'' \<and> parse (oaTokenURL (ocConfig cl)) \<noteq> None
          \<and> hqURL q = puString (the (parse (oaTokenURL (ocConfig cl))))
          \<and> headerGet ''content-type'' (hqHeader q) = ''application/x-www-form-urlencoded''
          \<and> valuesOf (parseQuery (hqBody q)) = (\<lambda>k. [])(''grant_type'' := [''authorization_code''],
              ''client_id'' := [oaClientID (ocConfig cl)], ''code'' := [code],
              ''redirect_uri'' := [oaRedirectURI (ocConfig cl)], ''code_verifier'' := [verifier])))
     \<and> (\<forall>t. r = Inr t \<longrightarrow> length log = 1 \<and> \<not> isBlank (tkAccessToken t) \<and> \<not> isBlank (tkRefreshToken t) \<and> 0 < tkExpiresIn t)"
proof (cases "isBlank code \<or> isBlank verifier")
  case True
  with assms show ?thesis by (auto simp: ExchangeCode_def)
next
  case False
  let ?form = "setAll [(''grant_type'', ''authorization_code''), (''client_id'', oaClientID (ocConfig cl)), (''code'', code),
               (''redirect_uri'', oaRedirectURI (ocConfig cl)), (''code_verifier'', verifier)] []"
  have post: "postToken parse (logging send) (Some cl) ?form True ([], w) = (r, log, w1)"
    using assms False by (simp add: ExchangeCode_def)
  have form: "valuesOf (parseQuery (encodeValues ?form)) = (\<lambda>k. [])(''grant_type'' := [''authorization_code''],
              ''client_id'' := [oaClientID (ocConfig cl)], ''code'' := [code],
              ''redirect_uri'' := [oaRedirectURI (ocConfig cl)], ''code_verifier'' := [verifier])"
  proof -
    have "valuesOf [] = (\<lambda>k. [])" by (simp add: valuesOf_def fun_eq_iff)
    then show ?thesis by (subst form_of) simp_all
  qed
  have header: "headerGet ''content-type'' (hqHeader (tokenRequest u f)) = ''application/x-www-form-urlencoded''" for u f
    unfolding tokenRequest_def HttpRequest.select_convs by code_simp
  have sent: "log = [] \<or> (\<exists>u. parse (oaTokenURL (ocConfig cl)) = Some u \<and> log = [tokenRequest (puString u) ?form])"
    using postToken_log(1) [OF post] .
  then have "log = [] \<or> (\<exists>q. log = [q] \<and> hqMethod q = ''POST'' \<and> parse (oaTokenURL (ocConfig cl)) \<noteq> None
          \<and> hqURL q = puString (the (parse (oaTokenURL (ocConfig cl))))
          \<and> headerGet ''content-type'' (hqHeader q) = ''application/x-www-form-urlencoded''
          \<and> hqBody q = encodeValues ?form)"
  proof (elim disjE exE conjE)
    fix u
    assume u: "parse (oaTokenURL (ocConfig cl)) = Some u" "log = [tokenRequest (puString u) ?form]"
    have "hqMethod (tokenRequest (puString u) ?form) = ''POST''" "hqURL (tokenRequest (puString u) ?form) = puString u"
      "hqBody (tokenRequest (puString u) ?form) = encodeValues ?form"
      by (simp_all add: tokenRequest_def)
    with u header [of "puString u" ?form] show ?thesis by (intro disjI2 exI [of _ "tokenRequest (puString u) ?form"]) simp
  qed simp
  then show ?thesis
    unfolding form [symmetric] using postToken_log(2,3) [OF post] sent by (auto simp del: fun_upd_apply)
qed


definition sampleTokenText :: string where
  \<open>sampleTokenText = ''{"access_token":"at","refresh_token":"rt","expires_in":3600}''\<close>

lemma code_exchanged_once_witness:
  "\<exists>q t. ExchangeCode sampleParse (logging (\<lambda>r w. (Inr \<lparr>hrStatus = 200, hrHeader = [], hrBody = sampleTokenText, hrEnd = IoEOF\<rparr>, w)))
      (Some sampleClient) ''c'' ''v'' ([], ()) = (Inr t, [q], ()) \<and> valuesOf (parseQuery (hqBody q)) ''code'' = [''c'']
      \<and> tkAccessToken t = ''at''"
proof -
  let ?send = "\<lambda>r w. (Inr \<lparr>hrStatus = 200, hrHeader = [], hrBody = sampleTokenText, hrEnd = IoEOF\<rparr>, w :: unit)"
  let ?t = "zeroTokenResponse\<lparr>tkAccessToken := ''at'', tkRefreshToken := ''rt'', tkExpiresIn := 3600\<rparr>"
  have "checkToken True sampleTokenText = Inr ?t" by code_simp
  moreover have "length sampleTokenText < 100" by code_simp
  moreover have "\<not> isBlank ''c'' \<and> \<not> isBlank ''v''" by code_simp
  ultimately obtain q where q: "ExchangeCode sampleParse (logging ?send) (Some sampleClient) ''c'' ''v'' ([], ()) = (Inr ?t, [q], ())"
    by (simp add: ExchangeCode_def postToken_def sampleParse_def logging_def readLimited_def maxTokenResponseBytes_def)
  have "valuesOf (parseQuery (hqBody q)) ''code'' = [''c'']"
    using code_exchanged_once [OF q] by (elim conjE disjE exE) simp_all
  with q show ?thesis by (intro exI [of _ q] exI [of _ ?t]) simp
qed

text \<open>
  An error of the token endpoint never shows what the response says, except for an error code made of
  letters, digits, underscores and hyphens.
\<close>

theorem endpoint_error_safe:
  "tokenEndpointError status body = ErrNew (''OAuth token endpoint returned HTTP '' @ show_int status)
   \<or> (\<exists>code. tokenEndpointError status body = ErrNew (''OAuth token endpoint returned HTTP '' @ show_int status @ '' ('' @ code @ '')'')
       \<and> code \<noteq> [] \<and> list_all codeByte code \<and> code = trimSpace (errorField body))"
  by (auto simp: tokenEndpointError_def Let_def)

section \<open>The account of an ID token\<close>

definition claimKey :: string where
  "claimKey = ''https://api.openai.com/auth''"

text \<open>The payload of a token with an account, after claims of other names with texts as values.\<close>

definition claimsText :: "(string \<times> string) list \<Rightarrow> string \<Rightarrow> string" where
  "claimsText others account =
     enc_object (map (\<lambda>(k, v). (k, enc_string v)) others
       @ [(claimKey, enc_object [(''chatgpt_account_id'', enc_string account)])])"

lemma decMembers_unknown:
  "(\<And>k raw j. (k, raw, j) \<in> set ms \<Longrightarrow> findField fs k = None) \<Longrightarrow> decMembers fs v (ms @ rest) = decMembers fs v rest"
proof (induction ms)
  case (Cons m ms)
  obtain k raw j where m: "m = (k, raw, j)" by (cases m) auto
  then have "findField fs k = None" using Cons.prems by auto
  with m Cons show ?case by auto
qed simp

lemma claims_decode:
  assumes "\<And>k v. (k, v) \<in> set others \<Longrightarrow> foldKey (to_utf8 k) \<noteq> foldKey claimKey" "utf8_valid account"
  shows "unmarshal \<lparr>icAccountID = []\<rparr> decClaims (claimsText others account) = Some \<lparr>icAccountID = account\<rparr>"
proof -
  let ?inner = "enc_object [(''chatgpt_account_id'', enc_string account)]"
  let ?os = "map (\<lambda>(k, v). (k, enc_string v)) others"
  let ?vs = "map (\<lambda>(k, v). JStr (to_utf8 v)) others"
  have "list_all2 (\<lambda>kw v. reads 0 (snd kw) v) [(''chatgpt_account_id'', enc_string account)] [JStr (to_utf8 account)]"
    by (simp add: reads_string)
  from reads_object [OF this] have inner: "reads 1 ?inner (JObj [member_val (''chatgpt_account_id'', enc_string account) (JStr account)])"
    using assms(2) by (simp add: to_utf8_id)
  have "list_all2 (\<lambda>kw v. reads 1 (snd kw) v) ?os ?vs"
    by (induction others) (auto simp: reads_string)
  with inner have "list_all2 (\<lambda>kw v. reads 1 (snd kw) v) (?os @ [(claimKey, ?inner)])
      (?vs @ [JObj [member_val (''chatgpt_account_id'', enc_string account) (JStr account)]])"
    by (simp add: list_all2_appendI)
  from reads_parse [OF reads_object [OF this]]
  have parse: "json_parse (claimsText others account) = Some (JObj (map2 member_val ?os ?vs
      @ [member_val (claimKey, ?inner) (JObj [member_val (''chatgpt_account_id'', enc_string account) (JStr account)])]))"
    by (simp add: claimsText_def max_nesting_def)
  have unknown: "findField [field claimKey d f g] k = None" if "(k, raw, j) \<in> set (map2 member_val ?os ?vs)"
    for k raw j d f and g :: "('b \<Rightarrow> 'b) \<Rightarrow> 'c \<Rightarrow> 'c"
  proof -
    from that obtain k0 v0 where "(k0, v0) \<in> set others" "k = to_utf8 k0"
      by (auto simp: set_zip member_val_def case_prod_beta) (metis nth_mem prod.collapse)
    with assms(1) [of k0 v0] show ?thesis by (auto simp: findField_def field_def)
  qed
  show ?thesis
    unfolding unmarshal_def parse option.case decClaims_def decStruct_def json.case claimKey_def [symmetric]
    by (subst decMembers_unknown, erule unknown)
      (simp add: member_val_def claimKey_def to_utf8_ascii findField_def field_def decStruct_def decString_def)
qed

lemma splitOn_three:
  assumes "x \<notin> set a" "x \<notin> set b" "x \<notin> set c"
  shows "splitOn x (a @ x # b @ x # c) = [a, b, c]"
  using splitOn_joinWith [of "[a, b, c]" x] assms by simp

lemma account_of_payload:
  assumes "CHR ''.'' \<notin> set header" "CHR ''.'' \<notin> set signature" "utf8_valid account"
    "\<And>k v. (k, v) \<in> set others \<Longrightarrow> foldKey (to_utf8 k) \<noteq> foldKey claimKey"
  shows "AccountIDFromIDToken (header @ ''.'' @ base64Encode (claimsText others account) @ ''.'' @ signature)
     = (if isBlank account then Inl (ErrNew ''decode ID token claims: missing chatgpt_account_id'') else Inr (trimSpace account))"
proof -
  have "splitOn (CHR ''.'') (header @ ''.'' @ base64Encode (claimsText others account) @ ''.'' @ signature)
      = [header, base64Encode (claimsText others account), signature]"
    using splitOn_three [OF assms(1) base64Encode_no_dot assms(2)] by simp
  then show ?thesis
    using claims_decode [OF assms(4,3)]
    by (simp add: AccountIDFromIDToken_def base64Decode_encode isBlank_def Let_def)
qed

text \<open>
  The account of an ID token is the one its payload names. Whatever the header, the signature and the other
  claims, if the payload is the base 64 text of claims with an account, that account is returned, without
  surrounding white space; when it is blank there is an error.
\<close>

theorem account_of_id_token:
  assumes "CHR ''.'' \<notin> set header" "CHR ''.'' \<notin> set signature" "utf8_valid account"
    "\<And>k v. (k, v) \<in> set others \<Longrightarrow> foldKey (to_utf8 k) \<noteq> foldKey claimKey"
  shows "AccountIDFromIDToken (header @ ''.'' @ base64Encode (claimsText others account) @ ''.'' @ signature)
     = (if isBlank account then Inl (ErrNew ''decode ID token claims: missing chatgpt_account_id'') else Inr (trimSpace account))"
  using assms by (rule account_of_payload)

lemma account_of_id_token_witness:
  "AccountIDFromIDToken (''e30'' @ ''.'' @ base64Encode (claimsText [(''sub'', ''u'')] ''acct-1'') @ ''.'' @ ''sig'') = Inr ''acct-1''"
proof -
  have "utf8_valid ''acct-1''" "foldKey (to_utf8 ''sub'') \<noteq> foldKey claimKey" "trimSpace ''acct-1'' = ''acct-1''" by code_simp+
  then show ?thesis using account_of_id_token [of "''e30''" "''sig''" "''acct-1''" "[(''sub'', ''u'')]"] by (simp add: isBlank_def)
qed

end
