(* ===== verification/Login_Callback.thy ===== *)
theory Login_Callback
  imports OAuth_Properties
begin

text \<open>
  \<^verbatim>\<open>internal/auth/callback.go\<close>: the one-shot server for the redirect of the browser. The requests it gets, the end
  of the context, the end of the server and the choice of \<^verbatim>\<open>select\<close> among what is ready come in any order: a run
  is a list of events.
\<close>

section \<open>One callback\<close>

definition safeOAuthErrorCode :: "string \<Rightarrow> string" where
  "safeOAuthErrorCode value =
     (let v = trimSpace value in if v = [] then [] else if list_all codeByte v then v else ''oauth_error'')"

text \<open>The code, or why there is none. The comparison in constant time is an equality.\<close>

definition validateCallback :: "string \<Rightarrow> string \<Rightarrow> string result" where
  "validateCallback rawQuery expectedState =
     (let query = parseQuery rawQuery; providerError = safeOAuthErrorCode (valuesGet ''error'' query);
          code = trimSpace (valuesGet ''code'' query) in
      if valuesGet ''state'' query \<noteq> expectedState then Inl (ErrNew ''OAuth callback state mismatch'')
      else if providerError \<noteq> [] then Inl (ErrNew (''OAuth provider returned '' @ providerError))
      else if code = [] then Inl (ErrNew ''OAuth callback did not contain an authorization code'')
      else Inr code)"

section \<open>The server\<close>

record callbackAnswer =
  caStatus :: int
  caHeader :: headers
  caBody :: string

text \<open>\<^verbatim>\<open>http.Error\<close>\<close>

definition errorAnswer :: "headers \<Rightarrow> int \<Rightarrow> string \<Rightarrow> callbackAnswer" where
  "errorAnswer h status message = \<lparr>caStatus = status,
     caHeader = headerSet ''X-Content-Type-Options'' ''nosniff'' (headerSet ''Content-Type'' ''text/plain; charset=utf-8'' h),
     caBody = message @ [LF]\<rparr>"

definition completePage :: string where
  "completePage = ''<!doctype html><title>Login complete</title><p>Login complete. You may close this window.</p>''"

datatype callbackEvent = CallbackRequest string string | ContextDone go_error | ServeEnded go_error
  | PickResult | PickContext | PickServe

record callbackServer =
  csConsumed :: bool
  csResult :: "string result option"
  csContext :: "go_error option"
  csServe :: "go_error option"
  csReturned :: "string result option"
  csAnswers :: "callbackAnswer list"

definition startServer :: callbackServer where
  "startServer = \<lparr>csConsumed = False, csResult = None, csContext = None, csServe = None, csReturned = None, csAnswers = []\<rparr>"

definition sendAnswer :: "callbackAnswer \<Rightarrow> callbackServer \<Rightarrow> callbackServer" where
  "sendAnswer a s = s\<lparr>csAnswers := a # csAnswers s\<rparr>"

text \<open>The handler. \<^verbatim>\<open>sync.Once\<close> lets one request through; the others wait for it.\<close>

definition serveCallback :: "string \<Rightarrow> string \<Rightarrow> string \<Rightarrow> callbackServer \<Rightarrow> callbackServer" where
  "serveCallback expectedState httpMethod rawQuery s =
     (if httpMethod \<noteq> ''GET'' then sendAnswer (errorAnswer (headerSet ''Allow'' ''GET'' []) 405 ''method not allowed'') s
      else if csConsumed s then sendAnswer (errorAnswer [] 410 ''OAuth callback already consumed'') s
      else
        (case validateCallback rawQuery expectedState of
           Inl e \<Rightarrow> (sendAnswer (errorAnswer [] 400 ''OAuth login failed. You may close this window.'') s)
             \<lparr>csConsumed := True, csResult := Some (Inl e)\<rparr>
         | Inr code \<Rightarrow> (sendAnswer \<lparr>caStatus = 200, caHeader = headerSet ''Content-Type'' ''text/html; charset=utf-8'' [],
               caBody = completePage\<rparr> s)\<lparr>csConsumed := True, csResult := Some (Inr code)\<rparr>))"

definition returning :: "string result \<Rightarrow> callbackServer \<Rightarrow> callbackServer" where
  "returning r s = (if csReturned s = None then s\<lparr>csReturned := Some r\<rparr> else s)"

definition serveError :: "go_error \<Rightarrow> go_error" where
  "serveError e =
     (if errorsIs e ServerClosed then ErrNew ''wait for OAuth callback: server closed before callback''
      else ErrWrap ''serve OAuth callback: '' e)"

fun callbackStep :: "string \<Rightarrow> callbackEvent \<Rightarrow> callbackServer \<Rightarrow> callbackServer" where
  "callbackStep expected (CallbackRequest httpMethod q) s = serveCallback expected httpMethod q s"
| "callbackStep expected (ContextDone e) s = (if csContext s = None then s\<lparr>csContext := Some e\<rparr> else s)"
| "callbackStep expected (ServeEnded e) s = (if csServe s = None then s\<lparr>csServe := Some e\<rparr> else s)"
| "callbackStep expected PickResult s = (case csResult s of None \<Rightarrow> s | Some r \<Rightarrow> returning r s)"
| "callbackStep expected PickContext s =
     (case csContext s of None \<Rightarrow> s | Some e \<Rightarrow> returning (Inl (ErrWrap ''wait for OAuth callback: '' e)) s)"
| "callbackStep expected PickServe s = (case csServe s of None \<Rightarrow> s | Some e \<Rightarrow> returning (Inl (serveError e)) s)"

definition runCallback :: "string \<Rightarrow> callbackEvent list \<Rightarrow> callbackServer" where
  "runCallback expected events = fold (callbackStep expected) events startServer"

text \<open>The result is \<open>None\<close> while nothing has been picked.\<close>

definition WaitForCallback :: "(string \<Rightarrow> authURL option) \<Rightarrow> bool \<Rightarrow> string \<Rightarrow> string \<Rightarrow> callbackEvent list \<Rightarrow> string result option" where
  "WaitForCallback parse listening redirectURI expectedState events =
     (if \<not> listening then Some (Inl (ErrNew ''wait for OAuth callback: nil listener''))
      else (case parse redirectURI of
          None \<Rightarrow> Some (Inl (ErrNew ''wait for OAuth callback: redirect URI has no valid path''))
        | Some u \<Rightarrow>
            if puPath u = [] then Some (Inl (ErrNew ''wait for OAuth callback: redirect URI has no valid path''))
            else if isBlank expectedState then Some (Inl (ErrNew ''wait for OAuth callback: expected state is required''))
            else csReturned (runCallback expectedState events)))"

section \<open>One attempt\<close>

text \<open>The query of the first \<^verbatim>\<open>GET\<close> of the callback.\<close>

fun firstGet :: "callbackEvent list \<Rightarrow> string option" where
  "firstGet [] = None"
| "firstGet (CallbackRequest httpMethod q # events) = (if httpMethod = ''GET'' then Some q else firstGet events)"
| "firstGet (e # events) = firstGet events"

lemma firstGet_append: "firstGet (u @ v) = (case firstGet u of None \<Rightarrow> firstGet v | Some q \<Rightarrow> Some q)"
  by (induction u rule: firstGet.induct) auto

definition attempted :: "string \<Rightarrow> callbackEvent list \<Rightarrow> callbackServer \<Rightarrow> bool" where
  "attempted expected events s \<longleftrightarrow>
     csResult s = map_option (\<lambda>q. validateCallback q expected) (firstGet events)
     \<and> csConsumed s = (firstGet events \<noteq> None)
     \<and> (\<forall>code. csReturned s = Some (Inr code) \<longrightarrow> csResult s = Some (Inr code))
     \<and> filter (\<lambda>a. caStatus a = 200) (csAnswers s) =
         (case csResult s of Some (Inr code) \<Rightarrow> [\<lparr>caStatus = 200, caHeader = headerSet ''Content-Type'' ''text/html; charset=utf-8'' [],
            caBody = completePage\<rparr>] | _ \<Rightarrow> [])"

lemma attempted_step: "attempted expected events s \<Longrightarrow> attempted expected (events @ [e]) (callbackStep expected e s)"
  by (cases e)
    (auto simp: attempted_def firstGet_append serveCallback_def sendAnswer_def errorAnswer_def returning_def
      split: option.split sum.split)

lemma runCallback_attempted: "attempted expected events (runCallback expected events)"
proof (induction events rule: rev_induct)
  case Nil
  show ?case by (simp add: attempted_def runCallback_def startServer_def)
next
  case (snoc e events)
  then show ?case using attempted_step [of expected events "runCallback expected events" e] by (simp add: runCallback_def)
qed

lemma callback_state:
  assumes "WaitForCallback parse listening redirectURI expectedState events = Some (Inr code)"
  shows "\<not> isBlank expectedState \<and> (\<exists>q. firstGet events = Some q \<and> valuesGet ''state'' (parseQuery q) = expectedState
     \<and> isBlank (valuesGet ''error'' (parseQuery q)) \<and> code = trimSpace (valuesGet ''code'' (parseQuery q)) \<and> code \<noteq> [])"
proof -
  have "csReturned (runCallback expectedState events) = Some (Inr code)" and blank: "\<not> isBlank expectedState"
    using assms by (auto simp: WaitForCallback_def split: if_splits option.splits)
  then obtain q where "firstGet events = Some q" "validateCallback q expectedState = Inr code"
    using runCallback_attempted [of expectedState events] by (auto simp: attempted_def)
  with blank show ?thesis by (auto simp: validateCallback_def safeOAuthErrorCode_def isBlank_def Let_def split: if_splits)
qed

text \<open>
  C37: The callback is consumed by one attempt. For every order of requests, cancellation, server end and choices,
  a code is only returned when the very first \<^verbatim>\<open>GET\<close> of the callback carries the expected state, no provider error
  and that code; so after a mismatch no later request can deliver one. At most one request is answered with
  success, and it is answered so exactly when the first one is valid.
\<close>

theorem callback_consumed_once:
  "(\<forall>code. WaitForCallback parse listening redirectURI expectedState events = Some (Inr code) \<longrightarrow>
      (\<exists>q. firstGet events = Some q \<and> valuesGet ''state'' (parseQuery q) = expectedState \<and> \<not> isBlank expectedState
         \<and> isBlank (valuesGet ''error'' (parseQuery q)) \<and> code = trimSpace (valuesGet ''code'' (parseQuery q)) \<and> code \<noteq> []))
   \<and> length (filter (\<lambda>a. caStatus a = 200) (csAnswers (runCallback expectedState events)))
       = (case firstGet events of None \<Rightarrow> 0 | Some q \<Rightarrow> (case validateCallback q expectedState of Inl e \<Rightarrow> 0 | Inr code \<Rightarrow> 1))"
proof (intro conjI allI impI)
  note att = runCallback_attempted [of expectedState events]
  show "length (filter (\<lambda>a. caStatus a = 200) (csAnswers (runCallback expectedState events)))
       = (case firstGet events of None \<Rightarrow> 0 | Some q \<Rightarrow> (case validateCallback q expectedState of Inl e \<Rightarrow> 0 | Inr code \<Rightarrow> 1))"
    using att by (auto simp: attempted_def split: option.split sum.split)
  fix code
  assume "WaitForCallback parse listening redirectURI expectedState events = Some (Inr code)"
  from callback_state [OF this] show "\<exists>q. firstGet events = Some q \<and> valuesGet ''state'' (parseQuery q) = expectedState \<and> \<not> isBlank expectedState
         \<and> isBlank (valuesGet ''error'' (parseQuery q)) \<and> code = trimSpace (valuesGet ''code'' (parseQuery q)) \<and> code \<noteq> []"
    by blast
qed

definition sampleRedirect :: string where
  "sampleRedirect = ''state=s&code=c''"

lemma callback_consumed_once_witness:
  "WaitForCallback sampleParse True DefaultRedirectURI ''s'' [CallbackRequest ''GET'' sampleRedirect, PickResult] = Some (Inr ''c'')
   \<and> firstGet [CallbackRequest ''GET'' sampleRedirect, PickResult] = Some sampleRedirect
   \<and> valuesGet ''state'' (parseQuery sampleRedirect) = ''s''"
proof -
  have "validateCallback sampleRedirect ''s'' = Inr ''c''" by code_simp
  moreover have "\<not> isBlank ''s''" by code_simp
  ultimately have w: "WaitForCallback sampleParse True DefaultRedirectURI ''s'' [CallbackRequest ''GET'' sampleRedirect, PickResult] = Some (Inr ''c'')"
    by (simp add: WaitForCallback_def sampleParse_def runCallback_def startServer_def serveCallback_def sendAnswer_def returning_def)
  with callback_consumed_once [of sampleParse True DefaultRedirectURI "''s''" "[CallbackRequest ''GET'' sampleRedirect, PickResult]"]
  show ?thesis by simp
qed

end
