(* ===== verification/Token_Store_Properties.thy ===== *)
theory Token_Store_Properties
  imports Token_Store
begin

text \<open>
  What the credentials file guarantees: saved credentials are loaded back as they were, and a save is atomic for
  every reader and after every failure or crash, keeps what it writes private, and leaves nothing behind.
\<close>

section \<open>The text of the file\<close>

lemma plain_digit: "is_digit c \<Longrightarrow> plain_byte c"
  by (auto simp: plain_byte_def is_digit_def in_byte_def)

lemma plain_padded: "list_all plain_byte (padded w n)"
  using padded_digits(2) [of w n] by (auto simp: list_all_iff intro: plain_digit)

lemma plain_nanos: "list_all plain_byte (nanosText n)"
  using plain_padded [of 9 n]
  by (auto simp: nanosText_def list_all_iff dest: set_dropWhileD) (simp add: plain_byte_def)

lemma plain_timeText: "timeText off t = Some s \<Longrightarrow> list_all plain_byte s"
  using plain_padded plain_nanos
  by (auto simp: timeText_def civilText_def zoneText_def Let_def split: if_splits) (simp_all add: plain_byte_def)

lemma parse_int_one: "parse_int (show_int 1) = Some 1"
  by code_simp

definition utf8Credentials :: "AuthCredentials \<Rightarrow> bool" where
  "utf8Credentials c \<longleftrightarrow> list_all utf8_valid [acAccessToken c, acRefreshToken c, acAccountID c, acLocalSecret c]"

lemma decode_body:
  assumes "credentialsBody zone c = Some body" "validateCredentials c = None" "utf8Credentials c"
    "zone (acExpiresAt c) mod 60 = 0"
  shows "decodeCredentials lax body = Inr c"
proof -
  obtain t where t: "timeText (zone (acExpiresAt c)) (acExpiresAt c) = Some t"
    using assms(1) by (auto simp: credentialsBody_def)
  define kws where "kws = [(''version'', show_int (acVersion c)), (''access_token'', enc_string (acAccessToken c)),
      (''refresh_token'', enc_string (acRefreshToken c)), (''expires_at'', quote_char # t @ [quote_char]),
      (''chatgpt_account_id'', enc_string (acAccountID c))]"
  define vs where "vs = [JNum (show_int (acVersion c)), JStr (to_utf8 (acAccessToken c)),
      JStr (to_utf8 (acRefreshToken c)), JStr (unquote t), JStr (to_utf8 (acAccountID c))]"
  have body: "body = indentObject (kws @ [(''local_secret'', enc_string (acLocalSecret c))]) @ [LF]"
    using assms(1) t by (simp add: credentialsBody_def kws_def)
  have "lit_text t" by (rule lit_text_plains [OF plain_timeText [OF t]])
  then have "list_all2 (\<lambda>kw v. reads 0 (snd kw) v) kws vs"
    by (simp add: kws_def vs_def reads_string reads_int reads_literal)
  from parse_indentObject [OF this closed_string, of "''local_secret''" "acLocalSecret c" "[LF]"]
  have parsed: "parse_prefix (skip_ws body) = Some (JObj (map2 member_val (kws @ [(''local_secret'', enc_string (acLocalSecret c))])
      (vs @ [JStr (to_utf8 (acLocalSecret c))])), [LF])" (is "_ = Some (JObj ?ms, _)")
    unfolding body by simp
  have nonempty: "skip_ws body \<noteq> []" unfolding body by (simp add: indentObject_def skip_ws_def json_space_def)
  have rt: "decTime lax x (quote_char # t @ [quote_char]) j = Some (acExpiresAt c)" for x j
    by (simp add: decTime_def parse_timeText [OF t assms(4)])
  have "acVersion c = 1" using assms(2) by (simp add: valid_iff CredentialsVersion_def)
  moreover have "to_utf8 (acAccessToken c) = acAccessToken c" "to_utf8 (acRefreshToken c) = acRefreshToken c"
    "to_utf8 (acAccountID c) = acAccountID c" "to_utf8 (acLocalSecret c) = acLocalSecret c"
    using assms(3) by (simp_all add: utf8Credentials_def to_utf8_id)
  ultimately have "decCredentials lax zeroAuthCredentials raw (JObj ?ms) = Some c" for raw
    by (simp add: decCredentials_def decStructKnown_def kws_def vs_def member_val_def to_utf8_ascii findField_def field_def
        decInt_def parse_int_one decString_def rt zeroAuthCredentials_def)
  with parsed nonempty assms(2) show ?thesis
    by (simp add: decodeCredentials_def decodeStream_def readValue_def scalar_def streamEnds_def skip_ws_def json_space_def)
qed


section \<open>Steps on the file system\<close>

text \<open>
  A call of the system started where \<open>P\<close> holds of the current state keeps \<open>I\<close> of the history at every step, also
  when it fails; where it succeeds \<open>Q\<close> holds.
\<close>

definition steps :: "(files \<Rightarrow> bool) \<Rightarrow> (history \<Rightarrow> bool) \<Rightarrow> io \<Rightarrow> (files \<Rightarrow> bool) \<Rightarrow> bool" where
  "steps P I f Q \<longleftrightarrow> (\<forall>h. h \<noteq> [] \<longrightarrow> P (hd h) \<longrightarrow> I h \<longrightarrow>
     snd (f h) \<noteq> [] \<and> I (snd (f h)) \<and> (fst (f h) = None \<longrightarrow> Q (hd (snd (f h)))))"

lemma stepsD:
  assumes "steps P I f Q" "h \<noteq> []" "P (hd h)" "I h"
  shows "snd (f h) \<noteq> []" "I (snd (f h))" "fst (f h) = None \<Longrightarrow> Q (hd (snd (f h)))"
  using assms by (simp_all add: steps_def)

lemma steps_call:
  assumes "\<And>n h. h \<noteq> [] \<Longrightarrow> P (hd h) \<Longrightarrow> I h \<Longrightarrow> I (part n (hd h) # h)"
    and "\<And>h. h \<noteq> [] \<Longrightarrow> P (hd h) \<Longrightarrow> I h \<Longrightarrow> I (snd (f (hd h)) # h)"
    and "\<And>s. P s \<Longrightarrow> fst (f s) = None \<Longrightarrow> Q (snd (f s))"
  shows "steps P I (sysCall F c part f) Q"
  using assms by (auto simp: steps_def sysCall_def split: option.split)

lemma stepsI:
  assumes "\<And>h. h \<noteq> [] \<Longrightarrow> P (hd h) \<Longrightarrow> I h \<Longrightarrow>
    snd (f h) \<noteq> [] \<and> I (snd (f h)) \<and> (fst (f h) = None \<longrightarrow> Q (hd (snd (f h))))"
  shows "steps P I f Q"
  using assms by (simp add: steps_def)

lemma steps_then [intro]:
  assumes f: "steps P I f Q" and g: "steps Q I g R"
  shows "steps P I (andThen f g) R"
proof (rule stepsI)
  fix h
  assume h: "h \<noteq> []" "P (hd h)" "I h"
  note f = stepsD [OF f h]
  show "snd (andThen f g h) \<noteq> [] \<and> I (snd (andThen f g h)) \<and> (fst (andThen f g h) = None \<longrightarrow> R (hd (snd (andThen f g h))))"
  proof (cases "fst (f h)")
    case None
    with stepsD [OF g f(1) f(3) f(2)] show ?thesis by (cases "f h") (simp add: andThen_def)
  next
    case (Some e)
    with f show ?thesis by (cases "f h") (simp add: andThen_def)
  qed
qed

lemma steps_wrapping [intro]: "steps P I f Q \<Longrightarrow> steps P I (wrapping p f) Q"
  by (simp add: steps_def wrapping_def split_beta split: option.split)

lemma steps_pre: "steps P I f Q \<Longrightarrow> (\<And>s. P1 s \<Longrightarrow> P s) \<Longrightarrow> steps P1 I f Q"
  by (simp add: steps_def)


section \<open>One save\<close>

text \<open>The node at a path changes once at most, from one value to another.\<close>

definition switched :: "string \<Rightarrow> node option \<Rightarrow> node option \<Rightarrow> history \<Rightarrow> bool" where
  "switched p old new h \<longleftrightarrow> (\<exists>ns os. h = ns @ os \<and> (\<forall>s\<in>set ns. s p = new) \<and> (\<forall>s\<in>set os. s p = old))"

lemma switched_start: "switched p (fs p) new [fs]"
  unfolding switched_def by (rule exI [of _ "[]"]) simp

lemma switched_same: "switched p old new h \<Longrightarrow> h \<noteq> [] \<Longrightarrow> s p = hd h p \<Longrightarrow> switched p old new (s # h)"
  unfolding switched_def
proof (elim exE conjE)
  fix ns os
  assume h: "h \<noteq> []" "s p = hd h p" "h = ns @ os" "\<forall>s\<in>set ns. s p = new" "\<forall>s\<in>set os. s p = old"
  show "\<exists>ns os. s # h = ns @ os \<and> (\<forall>s\<in>set ns. s p = new) \<and> (\<forall>s\<in>set os. s p = old)"
  proof (cases ns)
    case Nil
    with h have "s p = old" by (cases os) auto
    with h Nil show ?thesis by (intro exI [of _ "[]"] exI [of _ "s # os"]) simp
  next
    case (Cons n ns')
    with h have "s # h = (s # ns) @ os \<and> (\<forall>s\<in>set (s # ns). s p = new)" by simp
    with h(5) show ?thesis by blast
  qed
qed

lemma switched_new: "switched p old new h \<Longrightarrow> s p = new \<Longrightarrow> switched p old new (s # h)"
  unfolding switched_def
  by (elim exE conjE) (metis append_Cons set_ConsD)

text \<open>Every changed path is one of the given files, private and regular, or one of the given directories.\<close>

definition touched :: "string set \<Rightarrow> string set \<Rightarrow> files \<Rightarrow> files \<Rightarrow> bool" where
  "touched T D fs0 s \<longleftrightarrow> (\<forall>q. s q \<noteq> fs0 q \<longrightarrow>
     q \<in> T \<and> (\<exists>b. s q = Some (Regular 0x180 b)) \<or> q \<in> D \<and> s q = Some (Directory 0x1C0))"

lemma touched_refl: "touched T D fs fs"
  by (simp add: touched_def)

lemma touched_mono: "touched T D fs0 s \<Longrightarrow> T \<subseteq> U \<Longrightarrow> touched U D fs0 s"
  by (auto simp: touched_def)

lemma touched_file: "touched T D fs0 s \<Longrightarrow> q \<in> T \<Longrightarrow> touched T D fs0 (s(q \<mapsto> Regular 0x180 b))"
  and touched_directory: "touched T D fs0 s \<Longrightarrow> q \<in> D \<Longrightarrow> touched T D fs0 (s(q \<mapsto> Directory 0x1C0))"
  and touched_removed: "touched (insert q T) D fs0 s \<Longrightarrow> fs0 q = None \<Longrightarrow> touched T D fs0 (s(q := None))"
  by (auto simp: touched_def)

lemma touched_directories: "touched T D fs0 s \<Longrightarrow> set ds \<subseteq> D \<Longrightarrow> touched T D fs0 (snd (makeDirectories ds s))"
  by (induction ds arbitrary: s) (auto split: sum.splits intro: touched_directory)

lemma directories_other: "p \<notin> set ds \<Longrightarrow> snd (makeDirectories ds s) p = s p"
  by (induction ds arbitrary: s) (auto split: sum.splits)

text \<open>What holds of the history all along a save.\<close>

definition saving :: "string \<Rightarrow> node option \<Rightarrow> files \<Rightarrow> string set \<Rightarrow> history \<Rightarrow> bool" where
  "saving p new fs0 T h \<longleftrightarrow> switched p (fs0 p) new h
     \<and> (\<forall>s\<in>set h. touched T (set (ancestors (dirOf p))) fs0 s)"

lemma saving_same:
  assumes "saving p new fs0 T h" "h \<noteq> []" "s p = hd h p" "touched T (set (ancestors (dirOf p))) fs0 s"
  shows "saving p new fs0 T (s # h)"
  using assms by (simp add: saving_def switched_same)

lemma saving_new:
  assumes "saving p new fs0 T h" "s p = new" "touched T (set (ancestors (dirOf p))) fs0 s"
  shows "saving p new fs0 T (s # h)"
  using assms by (simp add: saving_def switched_new)

lemma saving_now: "saving p new fs0 T h \<Longrightarrow> h \<noteq> [] \<Longrightarrow> touched T (set (ancestors (dirOf p))) fs0 (hd h)"
  by (simp add: saving_def)

lemma saving_again: "saving p new fs0 T h \<Longrightarrow> h \<noteq> [] \<Longrightarrow> saving p new fs0 T (hd h # h)"
  by (rule saving_same [OF _ _ refl saving_now])

lemma steps_quiet: "steps P (saving p new fs0 T) (sysCall F c unchanged nothing) P"
  by (rule steps_call) (auto simp: unchanged_def nothing_def intro: saving_again)

lemma steps_protect:
  assumes "p \<notin> set (ancestors (dirOf p))"
  shows "steps (\<lambda>s. True) (saving p new fs0 T) (protectDirectory F (dirOf p)) (\<lambda>s. True)"
proof (rule stepsI)
  fix h
  assume h: "h \<noteq> []" "saving p new fs0 T h"
  let ?d = "dirOf p"
  have "?d \<in> set (ancestors ?d)" by (simp add: ancestors_def)
  then have chmod: "steps (\<lambda>s. \<exists>m. s ?d = Some (Directory m)) (saving p new fs0 T)
      (wrapping ''protect credential directory: '' (sysCall F SysChmod unchanged (onNode ?d (withMode 0x1C0)))) (\<lambda>s. True)"
    using assms
    by (intro steps_wrapping steps_call)
      (auto simp: unchanged_def onNode_def intro!: saving_again saving_same touched_directory saving_now)
  show "snd (protectDirectory F ?d h) \<noteq> [] \<and> saving p new fs0 T (snd (protectDirectory F ?d h))
      \<and> (fst (protectDirectory F ?d h) = None \<longrightarrow> True)"
    using h stepsD(1,2) [OF chmod h(1) _ h(2)]
    by (auto simp: protectDirectory_def lstat_def isDirectory_def split: option.splits node.splits)
qed

lemma steps_directory:
  assumes "p \<notin> set (ancestors (dirOf p))"
  shows "steps (\<lambda>s. True) (saving p new fs0 T) (ensurePrivateDirectory F (dirOf p)) (\<lambda>s. True)"
proof -
  let ?d = "dirOf p"
  have part: "set (take n (ancestors ?d)) \<subseteq> set (ancestors ?d)" "p \<notin> set (take n (ancestors ?d))" for n
    using assms by (auto dest: in_set_takeD)
  have "steps (\<lambda>s. True) (saving p new fs0 T) (mkdirAll F ?d) (\<lambda>s. True)"
    unfolding mkdirAll_def
    by (intro steps_call saving_same)
      (auto simp: directories_other part assms intro!: touched_directories part(1) saving_now)
  then show ?thesis
    unfolding ensurePrivateDirectory_def using steps_protect [OF assms] by (intro steps_then [OF steps_wrapping])
qed

lemma steps_rename:
  assumes "tmp \<noteq> p" "fs0 tmp = None"
  shows "steps (\<lambda>s. s tmp = Some (Regular 0x180 body)) (saving p (Some (Regular 0x180 body)) fs0 {tmp, p})
     (sysCall F SysRename unchanged (renameFile tmp p)) (\<lambda>s. s p = Some (Regular 0x180 body) \<and> s tmp = None)"
proof (rule steps_call)
  let ?I = "saving p (Some (Regular 0x180 body)) fs0 {tmp, p}"
  fix h :: history
  assume h: "h \<noteq> []" "hd h tmp = Some (Regular 0x180 body)" "?I h"
  have "touched {tmp, p} (set (ancestors (dirOf p))) fs0 ((hd h)(p \<mapsto> Regular 0x180 body))"
    using saving_now [OF h(3,1)] by (intro touched_file) simp_all
  then have "touched {tmp, p} (set (ancestors (dirOf p))) fs0 ((hd h)(p \<mapsto> Regular 0x180 body, tmp := None))"
    by (intro touched_removed assms(2)) simp
  then have "?I ((hd h)(tmp := None, p \<mapsto> Regular 0x180 body) # h)"
    using assms(1) by (intro saving_new [OF h(3)]) (simp_all add: fun_upd_twist)
  then show "?I (snd (renameFile tmp p (hd h)) # h)"
    using h saving_again [OF h(3,1)] by (auto simp: renameFile_def split: option.split node.split)
qed (use assms in \<open>auto simp: unchanged_def renameFile_def saving_again split: option.splits node.splits\<close>)

lemma steps_fill:
  assumes "tmp \<noteq> p" "fs0 tmp = None"
  shows "steps (\<lambda>s. s tmp = Some (Regular 0x180 [])) (saving p (Some (Regular 0x180 body)) fs0 {tmp, p})
     (fillTemporary F body tmp p) (\<lambda>s. s p = Some (Regular 0x180 body) \<and> s tmp = None)"
  unfolding fillTemporary_def
proof (intro steps_then steps_wrapping)
  let ?I = "saving p (Some (Regular 0x180 body)) fs0 {tmp, p}"
  have tmp: "?I (s # h)" if "?I h" "h \<noteq> []" "s = (hd h)(tmp \<mapsto> Regular 0x180 b)" for s h b
    using that assms by (intro saving_same) (auto intro!: touched_file saving_now)
  show "steps (\<lambda>s. s tmp = Some (Regular 0x180 [])) ?I (sysCall F SysFchmod unchanged (onNode tmp (withMode 0x180)))
      (\<lambda>s. s tmp = Some (Regular 0x180 []))"
    by (rule steps_call) (auto simp: unchanged_def onNode_def intro!: saving_again tmp)
  show "steps (\<lambda>s. s tmp = Some (Regular 0x180 [])) ?I (sysCall F SysWrite (\<lambda>n fs. snd (onNode tmp (writeTo (take n body)) fs))
      (onNode tmp (writeTo body))) (\<lambda>s. s tmp = Some (Regular 0x180 body))"
    by (rule steps_call) (auto simp: onNode_def writeTo_def intro!: tmp)
  show "steps (\<lambda>s. s tmp = Some (Regular 0x180 body)) ?I (sysCall F SysRename unchanged (renameFile tmp p))
      (\<lambda>s. s p = Some (Regular 0x180 body) \<and> s tmp = None)"
    using assms by (rule steps_rename)
qed (rule steps_quiet)+


text \<open>From the new temporary file to the end of the save.\<close>

lemma steps_replace:
  assumes "tmp \<noteq> p" "fs0 tmp = None"
  shows "steps (\<lambda>s. s tmp = Some (Regular 0x180 [])) (saving p (Some (Regular 0x180 body)) fs0 {tmp, p})
     (andThen (fillTemporary F body tmp p) (wrapping pre (syncDirectory F d)))
     (\<lambda>s. s p = Some (Regular 0x180 body) \<and> s tmp = None)"
  unfolding syncDirectory_def
  proof (rule steps_then)
  show "steps (\<lambda>s. s tmp = Some (Regular 0x180 [])) (saving p (Some (Regular 0x180 body)) fs0 {tmp, p})
      (fillTemporary F body tmp p) (\<lambda>s. s p = Some (Regular 0x180 body) \<and> s tmp = None)"
    using assms by (rule steps_fill)
qed (intro steps_wrapping steps_then steps_quiet; rule steps_call; auto simp: unchanged_def nothing_def intro: saving_again)

definition saved :: "string \<Rightarrow> node \<Rightarrow> files \<Rightarrow> faults \<Rightarrow> go_error option \<times> history \<Rightarrow> bool" where
  "saved p new fs0 F r \<longleftrightarrow> (\<exists>tmp. saving p (Some new) fs0 {tmp, p} (snd r)) \<and> snd r \<noteq> []
     \<and> (fst r = None \<longrightarrow> hd (snd r) p = Some new)
     \<and> (F SysRemove = None \<longrightarrow> touched {p} (set (ancestors (dirOf p))) fs0 (hd (snd r)))"

lemma saving_mono: "saving p new fs0 T h \<Longrightarrow> T \<subseteq> U \<Longrightarrow> saving p new fs0 U h"
  by (auto simp: saving_def intro: touched_mono)

lemma saved_early:
  assumes "saving p (Some new) fs0 {} h" "h \<noteq> []"
  shows "saved p new fs0 F (Some e, h)"
proof -
  have "saving p (Some new) fs0 {p, p} h" by (rule saving_mono [OF assms(1)]) simp
  moreover have "touched {p} (set (ancestors (dirOf p))) fs0 (hd h)" by (rule touched_mono [OF saving_now [OF assms]]) simp
  ultimately show ?thesis using assms(2) unfolding saved_def fst_conv snd_conv by blast
qed

lemma saved_late:
  assumes h: "saving p (Some (Regular 0x180 body)) fs0 {} h" "h \<noteq> []" and tmp: "hd h tmp = None" "tmp \<noteq> p"
  shows "saved p (Regular 0x180 body) fs0 F (deferred (sysCall F SysRemove unchanged (removeFile tmp))
     (andThen (fillTemporary F body tmp p) (wrapping pre (syncDirectory F d))) ((hd h)(tmp \<mapsto> Regular 0x180 []) # h))"
    (is "saved p ?new fs0 F (deferred ?rm ?f ?h)")
proof -
  let ?D = "set (ancestors (dirOf p))"
  have free: "fs0 tmp = None" using saving_now [OF h] tmp(1) unfolding touched_def by (metis empty_iff option.distinct(1))
  have "saving p (Some ?new) fs0 {tmp, p} ?h"
    using tmp h by (intro saving_same) (auto intro!: touched_file saving_now intro: saving_mono)
  from stepsD [OF steps_replace [of tmp p fs0, OF tmp(2) free] _ _ this]
  have r: "snd (?f ?h) \<noteq> []" "saving p (Some ?new) fs0 {tmp, p} (snd (?f ?h))"
    "fst (?f ?h) = None \<Longrightarrow> hd (snd (?f ?h)) p = Some ?new \<and> hd (snd (?f ?h)) tmp = None" by simp_all
  let ?h1 = "snd (?f ?h)"
  have now: "touched {tmp, p} ?D fs0 (hd ?h1)" by (rule saving_now [OF r(2,1)])
  have gone: "touched {tmp, p} ?D fs0 ((hd ?h1)(tmp := None))" "touched {p} ?D fs0 ((hd ?h1)(tmp := None))"
    using touched_removed [OF now free] by (auto intro: touched_mono)
  have absent: "touched {p} ?D fs0 (hd ?h1)" if "hd ?h1 tmp = None"
    using now that free by (auto simp: touched_def)
  have "saving p (Some ?new) fs0 {tmp, p} (snd (?rm ?h1))"
    using saving_again [OF r(2,1)] saving_same [OF r(2,1) _ gone(1)] tmp(2)
    by (auto simp: sysCall_def unchanged_def removeFile_def split: option.split)
  moreover have "F SysRemove = None \<Longrightarrow> touched {p} ?D fs0 (hd (snd (?rm ?h1)))"
    using gone(2) absent by (auto simp: sysCall_def removeFile_def split: option.split)
  moreover have "hd (snd (?rm ?h1)) p = hd ?h1 p"
    using tmp(2) by (auto simp: sysCall_def unchanged_def removeFile_def split: option.split)
  moreover have "snd (?rm ?h1) \<noteq> []" by (auto simp: sysCall_def split: option.split)
  ultimately show ?thesis
    using r(3) by (auto simp: saved_def deferred_def split: prod.split)
qed


section \<open>Where the file is\<close>

definition pathBytes :: "string list \<Rightarrow> nat" where
  "pathBytes ws = sum_list (map (\<lambda>w. Suc (length w)) ws)"

lemma cleanNames_bytes: "pathBytes (cleanNames r kept ws) \<le> pathBytes kept + pathBytes ws"
proof (induction r kept ws rule: cleanNames.induct)
  case (1 r kept)
  then show ?case by (simp add: pathBytes_def rev_map [symmetric])
next
  case (2 r kept w ws)
  have "pathBytes (tl kept) \<le> pathBytes kept" by (cases kept) (simp_all add: pathBytes_def)
  with 2 show ?case by (auto simp: pathBytes_def)
qed

lemma splitOn_nonempty [simp]: "splitOn x s \<noteq> []"
  by (cases s) (simp_all split: list.split)

lemma splitOn_bytes: "pathBytes (splitOn x s) = Suc (length s)"
proof (induction s)
  case (Cons c s)
  then show ?case by (cases "splitOn x s") (auto simp: pathBytes_def)
qed (simp add: pathBytes_def)

lemma joinWith_bytes: "length (joinWith [c] ws) = pathBytes ws - 1"
  by (induction "[c]" ws rule: joinWith.induct) (simp_all add: pathBytes_def)

lemma cleanPath_length:
  assumes "p \<noteq> []"
  shows "length (cleanPath p) \<le> length p"
proof (cases "hasPrefix p ''/''")
  case True
  then obtain q where p: "p = CHR ''/'' # q" by (auto simp: hasPrefix_iff)
  have "pathBytes (cleanNames True [] (splitOn (CHR ''/'') q)) \<le> Suc (length q)"
    using cleanNames_bytes [of True "[]" "splitOn (CHR ''/'') q"] splitOn_bytes [of "CHR ''/''" q] by (simp add: pathBytes_def)
  then show ?thesis by (simp add: cleanPath_def p joinWith_bytes hasPrefix_def Let_def)
next
  case False
  have "pathBytes (cleanNames False [] (splitOn (CHR ''/'') p)) \<le> Suc (length p)"
    using cleanNames_bytes [of False "[]" "splitOn (CHR ''/'') p"] splitOn_bytes [of "CHR ''/''" p] by (simp add: pathBytes_def)
  moreover have "1 \<le> length p" using assms by (cases p) auto
  ultimately show ?thesis using False by (simp add: cleanPath_def joinWith_bytes Let_def del: One_nat_def) linarith
qed

text \<open>Where the command line keeps the credentials, the file and its directories are apart, as are temporary files.\<close>

definition credentialsFile :: "string \<Rightarrow> bool" where
  "credentialsFile p \<longleftrightarrow> (\<exists>d. p = d @ ''/credentials.json'')"

lemma file_not_directory:
  assumes "credentialsFile p"
  shows "p \<notin> set (ancestors (dirOf p))"
proof
  assume "p \<in> set (ancestors (dirOf p))"
  then obtain i where "p = take i (dirOf p) \<or> p = dirOf p" by (auto simp: ancestors_def)
  then have "length p \<le> length (dirOf p)" by (metis length_take min.cobounded1 order_refl)
  moreover obtain d where p: "p = d @ ''/credentials.json''" using assms by (auto simp: credentialsFile_def)
  have "dirOf p = cleanPath (d @ ''/'')" by (simp add: dirOf_def p)
  with cleanPath_length [of "d @ ''/''"] have "length (dirOf p) < length p" by (simp add: p)
  ultimately show False by simp
qed

lemma file_not_temporary: "credentialsFile p \<Longrightarrow> tempName d r \<noteq> p"
proof
  assume "credentialsFile p" "tempName d r = p"
  then obtain e where "tempName d r = e @ ''/credentials.json''" by (auto simp: credentialsFile_def)
  from arg_cong [OF this, of last] show False by (simp add: tempName_def inDirectory_def split: if_splits)
qed

theorem save_steps:
  assumes "credentialsFile (stPath st)" "validateCredentials c = None" "credentialsBody zone c = Some body"
  shows "saved (stPath st) (Regular 0x180 body) fs F (Save F zone rs (Some st) c [fs])"
proof -
  let ?p = "stPath st" and ?new = "Regular 0x180 body"
  have start: "saving ?p (Some ?new) fs {} [fs]" by (simp add: saving_def switched_start touched_refl)
  let ?r = "ensurePrivateDirectory F (dirOf ?p) [fs]"
  note dir = stepsD [OF steps_directory [OF file_not_directory [OF assms(1)]] _ TrueI start]
  have r: "saving ?p (Some ?new) fs {} (snd ?r)" "snd ?r \<noteq> []" using dir [of F] by simp_all
  show ?thesis
  proof (cases "fst ?r")
    case (Some e)
    with saved_early [OF r] show ?thesis using assms by (cases ?r) (simp add: Save_def andThen_def)
  next
    case None
    show ?thesis
    proof (cases "createTemp F rs (dirOf ?p) (hd (snd ?r))")
      case (Inl e)
      with None saved_early [OF r] show ?thesis using assms by (cases ?r) (simp add: Save_def andThen_def)
    next
      case (Inr tf)
      then obtain tmp where tf: "tf = (tmp, (hd (snd ?r))(tmp \<mapsto> Regular 0x180 []))" "hd (snd ?r) tmp = None"
        and "tmp \<in> range (tempName (dirOf ?p))"
        by (auto simp: createTemp_def find_Some_iff split: option.splits)
      then have "tmp \<noteq> ?p" using file_not_temporary [OF assms(1)] by auto
      from saved_late [OF r tf(2) this] None Inr tf(1) show ?thesis
        using assms by (cases ?r) (simp add: Save_def andThen_def)
    qed
  qed
qed


section \<open>Reading during and after a save\<close>

abbreviation noFaults :: faults where
  "noFaults \<equiv> \<lambda>c. None"

text \<open>What \<^verbatim>\<open>Save\<close> writes and \<^verbatim>\<open>Load\<close> accepts again.\<close>

definition saveable :: "(time \<Rightarrow> int) \<Rightarrow> AuthCredentials \<Rightarrow> bool" where
  "saveable zone c \<longleftrightarrow> validateCredentials c = None \<and> utf8Credentials c \<and> zone (acExpiresAt c) mod 60 = 0
     \<and> (case credentialsBody zone c of None \<Rightarrow> False | Some b \<Rightarrow> length b \<le> maxCredentialBytes)"

lemma saveableD:
  assumes "saveable zone c"
  obtains body where "credentialsBody zone c = Some body" "validateCredentials c = None"
    "decodeCredentials lax body = Inr c" "length body \<le> maxCredentialBytes"
  using assms decode_body [of zone c] by (auto simp: saveable_def split: option.splits)

lemma load_regular:
  assumes "fs1 (stPath st) = Some (Regular m1 b1)" "m1 mod 64 = 0" "fs2 (stPath st) = Some (Regular m2 b2)"
    "length b2 \<le> maxCredentialBytes"
  shows "Load noFaults lax (Some st) fs1 fs2 = decodeCredentials lax b2"
  using assms by (simp add: Load_def lstat_def readFile_def stat_node)

lemma load_same:
  assumes "fs1 (stPath st) = fs (stPath st)" "fs2 (stPath st) = fs (stPath st)"
  shows "Load noFaults lax (Some st) fs1 fs2 = Load noFaults lax (Some st) fs fs"
  using assms
  by (simp add: Load_def lstat_def readFile_def stat_node split: option.split node.split)

lemma load_switching:
  assumes "fs1 (stPath st) = fs (stPath st)" "fs2 (stPath st) = Some (Regular m b)" "length b \<le> maxCredentialBytes"
  shows "Load noFaults lax (Some st) fs1 fs2 = Load noFaults lax (Some st) fs fs
    \<or> Load noFaults lax (Some st) fs1 fs2 = decodeCredentials lax b"
  using assms
  by (simp add: Load_def lstat_def readFile_def stat_node split: option.split node.split)

lemma switched_later:
  assumes "switched p old new h" "i \<le> j" "j < length h"
  shows "(h ! i) p = new \<and> ((h ! j) p = old \<or> (h ! j) p = new) \<or> (h ! i) p = old \<and> (h ! j) p = old"
proof -
  obtain ns os where h: "h = ns @ os" "\<forall>s\<in>set ns. s p = new" "\<forall>s\<in>set os. s p = old"
    using assms(1) by (auto simp: switched_def)
  then show ?thesis
    using assms(2,3) nth_mem [of "i - length ns" os] nth_mem [of "j - length ns" os] nth_mem [of i ns] nth_mem [of j ns]
    by (auto simp: nth_append)
qed

lemma load_during_save:
  assumes "switched (stPath st) (fs (stPath st)) (Some (Regular 0x180 b)) h" "i \<le> j" "j < length h"
    "length b \<le> maxCredentialBytes"
  shows "Load noFaults lax (Some st) (h ! j) (h ! i) = Load noFaults lax (Some st) fs fs
    \<or> Load noFaults lax (Some st) (h ! j) (h ! i) = decodeCredentials lax b"
  using switched_later [OF assms(1-3)]
proof (elim disjE conjE)
  assume "(h ! i) (stPath st) = Some (Regular 0x180 b)" "(h ! j) (stPath st) = fs (stPath st)"
  from load_switching [where ?fs1.0 = "h ! j" and ?fs2.0 = "h ! i" and st = st and fs = fs, OF this(2,1) assms(4)] show ?thesis .
next
  assume "(h ! i) (stPath st) = Some (Regular 0x180 b)" "(h ! j) (stPath st) = Some (Regular 0x180 b)"
  from load_regular [where ?fs1.0 = "h ! j" and ?fs2.0 = "h ! i" and st = st, OF this(2) _ this(1) assms(4)] show ?thesis by simp
next
  assume "(h ! i) (stPath st) = fs (stPath st)" "(h ! j) (stPath st) = fs (stPath st)"
  from load_same [where ?fs1.0 = "h ! j" and ?fs2.0 = "h ! i" and st = st and fs = fs, OF this(2,1)] show ?thesis by simp
qed

lemma save_outcome:
  fixes F :: faults and fs :: files and rs :: "string list"
  assumes "credentialsFile (stPath st)" "saveable zone c"
  defines "r \<equiv> Save F zone rs (Some st) c [fs]"
  shows "snd r \<noteq> []"
    and "i \<le> j \<Longrightarrow> j < length (snd r) \<Longrightarrow> Load noFaults lax (Some st) (snd r ! j) (snd r ! i) = Load noFaults lax (Some st) fs fs
      \<or> Load noFaults lax (Some st) (snd r ! j) (snd r ! i) = Inr c"
    and "fst r = None \<Longrightarrow> Load noFaults lax (Some st) (hd (snd r)) (hd (snd r)) = Inr c"
proof -
  obtain body where body: "credentialsBody zone c = Some body" "validateCredentials c = None"
    "decodeCredentials lax body = Inr c" "length body \<le> maxCredentialBytes"
    using saveableD [OF assms(2)] .
  have saved: "saved (stPath st) (Regular 0x180 body) fs F r"
    unfolding r_def by (rule save_steps [OF assms(1) body(2,1)])
  then have sw: "switched (stPath st) (fs (stPath st)) (Some (Regular 0x180 body)) (snd r)"
    by (auto simp: saved_def saving_def)
  show "snd r \<noteq> []" using saved by (simp add: saved_def)
  show "Load noFaults lax (Some st) (snd r ! j) (snd r ! i) = Load noFaults lax (Some st) fs fs
      \<or> Load noFaults lax (Some st) (snd r ! j) (snd r ! i) = Inr c" if "i \<le> j" "j < length (snd r)"
    using load_during_save [of st fs body "snd r" i j lax, OF sw that body(4)] body(3) by simp
  assume "fst r = None"
  then have "hd (snd r) (stPath st) = Some (Regular 0x180 body)" using saved by (simp add: saved_def)
  from load_regular [where lax = lax and ?fs1.0 = "hd (snd r)" and ?fs2.0 = "hd (snd r)" and ?b2.0 = body and st = st, OF this _ this body(4)] body(3)
  show "Load noFaults lax (Some st) (hd (snd r)) (hd (snd r)) = Inr c" by simp
qed

section \<open>The guarantees\<close>

text \<open>
  C32: A save is atomic. Whichever system calls fail, every \<^verbatim>\<open>Load\<close> that inspects the file in one state the save
  went through and opens it in the same or a later one, a crash at any point included, gives what it gave
  before the save or exactly the saved credentials; and after a save that returned no error it gives these.
\<close>

theorem save_atomic:
  assumes "credentialsFile (stPath st)" "saveable zone c"
  shows "let (err, h) = Save F zone rs (Some st) c [fs] in
     (\<forall>i j. i \<le> j \<and> j < length h \<longrightarrow>
        Load noFaults lax (Some st) (h ! j) (h ! i) \<in> {Load noFaults lax (Some st) fs fs, Inr c})
     \<and> (err = None \<longrightarrow> Load noFaults lax (Some st) (hd h) (hd h) = Inr c)"
  using save_outcome(2,3) [OF assms, where F = F and rs = rs and fs = fs and lax = lax]
  by (cases "Save F zone rs (Some st) c [fs]") force

definition sampleCredentials :: AuthCredentials where
  "sampleCredentials = \<lparr>acVersion = 1, acAccessToken = ''at'', acRefreshToken = ''rt'', acExpiresAt = 1767225600123000000,
     acAccountID = ''acct'', acLocalSecret = ''s''\<rparr>"

lemma sample_time: "timeText 7200 (acExpiresAt sampleCredentials) = Some ''2026-01-01T02:00:00.123+02:00''"
proof -
  have "yearOfDay 739982 = 2026" by (rule yearOfDay_eq) (simp_all add: daysBeforeYear_def)
  then have "civilOf 63934452000 = \<lparr>cvYear = 2026, cvMonth = 1, cvDay = 1, cvSecond = 7200\<rparr>"
    by (simp add: civilOf_def Let_def monthDays_def daysBeforeYear_def)
  then have "timeText 7200 1767225600123000000 = Some (civilText \<lparr>cvYear = 2026, cvMonth = 1, cvDay = 1, cvSecond = 7200\<rparr>
      @ nanosText 123000000 @ zoneText 7200)"
    by (simp add: timeText_def Let_def unixToYear0_def)
  then show ?thesis
    by (simp add: sampleCredentials_def civilText_def nanosText_def zoneText_def padded_numeral padded.simps digit_chars)
qed

lemma sample_saveable: "saveable (\<lambda>t. 7200) sampleCredentials"
proof -
  have "validateCredentials sampleCredentials = None" "utf8Credentials sampleCredentials" by code_simp+
  moreover have "case credentialsBody (\<lambda>t. 7200) sampleCredentials of None \<Rightarrow> False | Some b \<Rightarrow> length b \<le> 1000"
    unfolding credentialsBody_def sample_time option.map option.case by code_simp
  ultimately show ?thesis by (auto simp: saveable_def maxCredentialBytes_def split: option.splits)
qed

lemma save_atomic_witness:
  "let (err, h) = Save (\<lambda>c. if c = SysFsync then Some (OsError ''input/output error'', 0) else None) (\<lambda>t. 7200) [''1'']
      (Some \<lparr>stPath = ''/c/credentials.json''\<rparr>) sampleCredentials [Map.empty] in
     (\<forall>i j. i \<le> j \<and> j < length h \<longrightarrow>
        Load noFaults (\<lambda>s. None) (Some \<lparr>stPath = ''/c/credentials.json''\<rparr>) (h ! j) (h ! i)
          \<in> {Load noFaults (\<lambda>s. None) (Some \<lparr>stPath = ''/c/credentials.json''\<rparr>) Map.empty Map.empty, Inr sampleCredentials})
     \<and> (err = None \<longrightarrow> Load noFaults (\<lambda>s. None) (Some \<lparr>stPath = ''/c/credentials.json''\<rparr>) (hd h) (hd h) = Inr sampleCredentials)"
  using sample_saveable
proof (rule save_atomic [rotated])
  show "credentialsFile (stPath \<lparr>stPath = ''/c/credentials.json''\<rparr>)"
    unfolding credentialsFile_def by (rule exI [of _ "''/c''"]) simp
qed

text \<open>
  C33: What a save writes is private, and it leaves nothing behind. In every state it goes through, all files that
  differ from before are regular with mode 0600 and all such directories have mode 0700; when it returns, only
  the credentials file and its directories differ, unless the temporary file cannot be removed.
\<close>

theorem save_private:
  assumes "credentialsFile (stPath st)" "saveable zone c"
  shows "let (err, h) = Save F zone rs (Some st) c [fs] in
     (\<forall>s\<in>set h. \<forall>q. s q \<noteq> fs q \<longrightarrow> (\<exists>b. s q = Some (Regular 0x180 b)) \<or> s q = Some (Directory 0x1C0))
     \<and> (F SysRemove = None \<longrightarrow> (\<forall>q. hd h q \<noteq> fs q \<longrightarrow> q = stPath st \<or> q \<in> set (ancestors (dirOf (stPath st)))))"
proof -
  obtain body where body: "credentialsBody zone c = Some body" "validateCredentials c = None"
    using saveableD [OF assms(2)] .
  have "saved (stPath st) (Regular 0x180 body) fs F (Save F zone rs (Some st) c [fs])"
    by (rule save_steps [OF assms(1) body(2,1)])
  then show ?thesis
    by (auto simp: saved_def saving_def touched_def split: prod.split)
qed

lemma save_private_witness:
  "let (err, h) = Save noFaults (\<lambda>t. 7200) [''1''] (Some \<lparr>stPath = ''/c/credentials.json''\<rparr>) sampleCredentials [Map.empty] in
     (\<forall>s\<in>set h. \<forall>q. s q \<noteq> Map.empty q \<longrightarrow> (\<exists>b. s q = Some (Regular 0x180 b)) \<or> s q = Some (Directory 0x1C0))
     \<and> (noFaults SysRemove = None \<longrightarrow> (\<forall>q. hd h q \<noteq> Map.empty q \<longrightarrow> q = ''/c/credentials.json''
          \<or> q \<in> set (ancestors (dirOf ''/c/credentials.json''))))"
proof -
  have "credentialsFile (stPath \<lparr>stPath = ''/c/credentials.json''\<rparr>)"
    unfolding credentialsFile_def by (rule exI [of _ "''/c''"]) simp
  with sample_saveable show ?thesis
    using save_private [of "\<lparr>stPath = ''/c/credentials.json''\<rparr>" "\<lambda>t. 7200" sampleCredentials noFaults "[''1'']" Map.empty] by simp
qed

end
