(* ===== verification/Token_Manager.thy ===== *)
theory Token_Manager
  imports OAuth Token_Store_Properties
begin

text \<open>
  \<^verbatim>\<open>internal/auth/token_manager.go\<close>: valid access tokens for the upstream call, refreshed under a mutex. The
  manager acts on a world through the methods it holds; the steps of a refresh are named, so that concurrent
  callers can be interleaved between them.
\<close>

section \<open>The manager\<close>

definition RefreshBeforeExpiry :: int where
  "RefreshBeforeExpiry = 3 * 60 * 1000000000"

record 'w StoreMethods =
  smLoad :: "'w \<Rightarrow> AuthCredentials result \<times> 'w"
  smSave :: "AuthCredentials \<Rightarrow> 'w \<Rightarrow> go_error option \<times> 'w"

record 'w TokenManager =
  tmStore :: "'w StoreMethods"
  tmOAuth :: "string \<Rightarrow> 'w \<Rightarrow> TokenResponse result \<times> 'w"
  tmNow :: "'w \<Rightarrow> time \<times> 'w"

definition NewTokenManager :: "('w \<Rightarrow> time \<times> 'w) \<Rightarrow> 'w StoreMethods option \<Rightarrow>
    (string \<Rightarrow> 'w \<Rightarrow> TokenResponse result \<times> 'w) option \<Rightarrow> 'w TokenManager result" where
  "NewTokenManager now store oauth =
     (case (store, oauth) of
        (Some s, Some oa) \<Rightarrow> Inr \<lparr>tmStore = s, tmOAuth = oa, tmNow = now\<rparr>
      | _ \<Rightarrow> Inl (ErrNew ''create token manager: store and OAuth client are required''))"

definition outlives :: "AuthCredentials \<Rightarrow> time \<Rightarrow> bool" where
  "outlives c now \<longleftrightarrow> now + RefreshBeforeExpiry < acExpiresAt c"

text \<open>A duration of nanoseconds in 64 bits wraps around.\<close>

definition seconds :: "int \<Rightarrow> int" where
  "seconds n = i64 (n * 1000000000)"

definition refreshedCredentials :: "AuthCredentials \<Rightarrow> TokenResponse \<Rightarrow> time \<Rightarrow> AuthCredentials" where
  "refreshedCredentials c t now =
     c\<lparr>acAccessToken := tkAccessToken t, acExpiresAt := now + seconds (tkExpiresIn t),
       acRefreshToken := (let rotated = trimSpace (tkRefreshToken t) in if rotated \<noteq> [] then rotated else acRefreshToken c),
       acAccountID := (if isBlank (tkIDToken t) then acAccountID c
         else (case AccountIDFromIDToken (tkIDToken t) of Inr a \<Rightarrow> a | Inl e \<Rightarrow> acAccountID c))\<rparr>"

text \<open>The three parts of \<^verbatim>\<open>refresh\<close>: what is stored, the request to the endpoint, storing the answer.\<close>

definition lookAt :: "'w TokenManager \<Rightarrow> string \<Rightarrow> 'w \<Rightarrow> (Access result + AuthCredentials) \<times> 'w" where
  "lookAt m rejected w =
     (case smLoad (tmStore m) w of
        (Inl e, w1) \<Rightarrow> (Inl (Inl e), w1)
      | (Inr c, w1) \<Rightarrow>
          if rejected \<noteq> [] \<and> acAccessToken c \<noteq> rejected then (Inl (Inr (accessFromCredentials c)), w1)
          else (case (if rejected = [] then (let (t, w2) = tmNow m w1 in (outlives c t, w2)) else (False, w1)) of
              (usable, w2) \<Rightarrow>
                if usable then (Inl (Inr (accessFromCredentials c)), w2)
                else if isBlank (acRefreshToken c) then
                  (Inl (Inl (ErrNew ''refresh OAuth token: stored refresh token is missing'')), w2)
                else (Inr c, w2)))"

definition askEndpoint :: "'w TokenManager \<Rightarrow> AuthCredentials \<Rightarrow> 'w \<Rightarrow> (Access result + AuthCredentials) \<times> 'w" where
  "askEndpoint m c w =
     (case tmOAuth m (acRefreshToken c) w of
        (Inl e, w1) \<Rightarrow> (Inl (Inl e), w1)
      | (Inr t, w1) \<Rightarrow> (let (now, w2) = tmNow m w1 in (Inr (refreshedCredentials c t now), w2)))"

definition keepCredentials :: "'w TokenManager \<Rightarrow> AuthCredentials \<Rightarrow> 'w \<Rightarrow> Access result \<times> 'w" where
  "keepCredentials m c w =
     (case smSave (tmStore m) c w of
        (Some e, w1) \<Rightarrow> (Inl (ErrWrap ''persist refreshed OAuth token: '' e), w1)
      | (None, w1) \<Rightarrow> (Inr (accessFromCredentials c), w1))"

definition refresh :: "'w TokenManager \<Rightarrow> string \<Rightarrow> 'w \<Rightarrow> Access result \<times> 'w" where
  "refresh m rejected w =
     (case lookAt m rejected w of
        (Inl r, w1) \<Rightarrow> (r, w1)
      | (Inr c, w1) \<Rightarrow> (case askEndpoint m c w1 of
          (Inl r, w2) \<Rightarrow> (r, w2)
        | (Inr c1, w2) \<Rightarrow> keepCredentials m c1 w2))"

definition GetValidToken :: "'w TokenManager option \<Rightarrow> 'w \<Rightarrow> Access result \<times> 'w" where
  "GetValidToken manager w =
     (case manager of
        None \<Rightarrow> (Inl (ErrNew ''get valid token: nil manager''), w)
      | Some m \<Rightarrow> (case smLoad (tmStore m) w of
          (Inl e, w1) \<Rightarrow> (Inl e, w1)
        | (Inr c, w1) \<Rightarrow> (let (t, w2) = tmNow m w1 in
            if outlives c t then (Inr (accessFromCredentials c), w2) else refresh m [] w2)))"

definition ForceRefresh :: "'w TokenManager option \<Rightarrow> string \<Rightarrow> 'w \<Rightarrow> Access result \<times> 'w" where
  "ForceRefresh manager rejected w =
     (case manager of
        None \<Rightarrow> (Inl (ErrNew ''force token refresh: nil manager''), w)
      | Some m \<Rightarrow>
          if isBlank rejected then (Inl (ErrNew ''force token refresh: rejected access token is required''), w)
          else refresh m rejected w)"

section \<open>On a store that keeps its promises\<close>

text \<open>A store that only hands out and only accepts valid credentials: so does the manager.\<close>

locale checked_store =
  fixes m :: "'w TokenManager"
    and valid :: "AuthCredentials \<Rightarrow> bool"
  assumes load_valid: "smLoad (tmStore m) w = (Inr c, w1) \<Longrightarrow> valid c"
    and save_valid: "smSave (tmStore m) c w = (None, w1) \<Longrightarrow> valid c"
begin

lemma refresh_valid:
  assumes "refresh m rejected w = (Inr a, w1)"
  shows "\<exists>c. valid c \<and> a = accessFromCredentials c"
proof -
  obtain x v where look: "lookAt m rejected w = (x, v)" by (cases "lookAt m rejected w")
  show ?thesis
  proof (cases x)
    case (Inl r)
    then have "lookAt m rejected w = (Inl (Inr a), v)" using assms look by (simp add: refresh_def)
    then show ?thesis by (auto simp: lookAt_def dest: load_valid split: prod.splits sum.splits if_splits)
  next
    case (Inr c)
    obtain y u where ask: "askEndpoint m c v = (y, u)" by (cases "askEndpoint m c v")
    show ?thesis
    proof (cases y)
      case (Inl r)
      then have "askEndpoint m c v = (Inl (Inr a), u)" using assms look Inr ask by (simp add: refresh_def)
      then show ?thesis by (simp add: askEndpoint_def split: prod.splits sum.splits)
    next
      case (Inr c1)
      then have "keepCredentials m c1 u = (Inr a, w1)" using assms look \<open>x = Inr c\<close> ask by (simp add: refresh_def)
      then show ?thesis by (auto simp: keepCredentials_def dest: save_valid split: prod.splits option.splits)
    qed
  qed
qed

lemma GetValidToken_valid: "GetValidToken (Some m) w = (Inr a, w1) \<Longrightarrow> \<exists>c. valid c \<and> a = accessFromCredentials c"
  by (auto simp: GetValidToken_def dest: load_valid refresh_valid split: prod.splits sum.splits if_splits)

lemma ForceRefresh_valid: "ForceRefresh (Some m) t w = (Inr a, w1) \<Longrightarrow> \<exists>c. valid c \<and> a = accessFromCredentials c"
  by (auto simp: ForceRefresh_def dest: refresh_valid split: if_splits)

end

text \<open>
  What the manager relies on: a load reports what is stored or fails, and a save leaves the new credentials or
  the old ones, the new ones when it reports success. Only the endpoint's method sends requests; it and the
  clock do not touch the store.
\<close>

locale credential_store = checked_store m valid
  for m :: "'w TokenManager" and valid :: "AuthCredentials \<Rightarrow> bool" +
  fixes stored :: "'w \<Rightarrow> AuthCredentials result"
    and savable :: "AuthCredentials \<Rightarrow> bool"
    and requests :: "'w \<Rightarrow> nat"
  assumes load_stored: "smLoad (tmStore m) w = (r, w1) \<Longrightarrow> (r = stored w \<or> (\<exists>e. r = Inl e)) \<and> stored w1 = stored w \<and> requests w1 = requests w"
    and save_stored: "smSave (tmStore m) c w = (e, w1) \<Longrightarrow> savable c \<Longrightarrow>
      requests w1 = requests w \<and> (stored w1 = Inr c \<or> e \<noteq> None \<and> stored w1 = stored w)"
    and refresh_stored: "tmOAuth m tok w = (t, w1) \<Longrightarrow> stored w1 = stored w \<and> requests w1 \<le> Suc (requests w)"
    and now_stored: "tmNow m w = (n, w1) \<Longrightarrow> stored w1 = stored w \<and> requests w1 = requests w"
begin

lemma lookAt_stored:
  assumes "lookAt m rejected w = (x, w1)"
  shows "stored w1 = stored w" "requests w1 = requests w"
    and "x = Inl (Inr a) \<Longrightarrow> \<exists>c. stored w = Inr c \<and> a = accessFromCredentials c
      \<and> (if rejected = [] then \<exists>t. outlives c t else acAccessToken c \<noteq> rejected)"
    and "x = Inr c \<Longrightarrow> stored w = Inr c \<and> (rejected = [] \<or> acAccessToken c = rejected)"
  using assms load_stored now_stored
  by (auto simp: lookAt_def split: prod.splits sum.splits if_splits) (metis Inr_not_Inl sum.inject(2))+


definition asked :: "AuthCredentials \<Rightarrow> AuthCredentials \<Rightarrow> bool" where
  "asked c c1 \<longleftrightarrow> (\<exists>w w1. askEndpoint m c w = (Inr c1, w1))"

lemma askEndpoint_stored:
  assumes "askEndpoint m c w = (x, w1)"
  shows "stored w1 = stored w" "requests w1 \<le> Suc (requests w)" "x = Inr c1 \<Longrightarrow> asked c c1" "x \<noteq> Inl (Inr a)"
proof -
  show "stored w1 = stored w" "requests w1 \<le> Suc (requests w)" "x \<noteq> Inl (Inr a)"
    using assms refresh_stored [of "acRefreshToken c" w] now_stored
    by (auto simp: askEndpoint_def split: prod.splits sum.splits)
  show "x = Inr c1 \<Longrightarrow> asked c c1" using assms unfolding asked_def by blast
qed

lemma keepCredentials_stored:
  assumes "keepCredentials m c w = (r, w1)" "savable c"
  shows "requests w1 = requests w" "r = Inr a \<Longrightarrow> stored w1 = Inr c \<and> a = accessFromCredentials c"
    "stored w1 = Inr c \<or> stored w1 = stored w"
  using assms(1) save_stored [OF _ assms(2), of w]
  by (auto simp: keepCredentials_def split: prod.splits option.splits)

lemma refresh_outcome:
  assumes "refresh m rejected w = (r, w1)" "\<And>c c1. stored w = Inr c \<Longrightarrow> asked c c1 \<Longrightarrow> savable c1"
  shows "requests w1 \<le> Suc (requests w)"
    and "r = Inr a \<Longrightarrow> \<exists>c c1. stored w = Inr c \<and> stored w1 = Inr c1 \<and> a = accessFromCredentials c1 \<and>
      (c1 = c \<and> requests w1 = requests w \<and> (if rejected = [] then \<exists>t. outlives c t else acAccessToken c \<noteq> rejected)
       \<or> asked c c1 \<and> (rejected = [] \<or> acAccessToken c = rejected))"
    and "stored w1 = stored w \<or> (\<exists>c c1. stored w = Inr c \<and> asked c c1 \<and> stored w1 = Inr c1)"
    and "stored w = Inr c \<Longrightarrow> rejected \<noteq> [] \<Longrightarrow> acAccessToken c \<noteq> rejected \<Longrightarrow> requests w1 = requests w \<and> stored w1 = stored w"
proof -
  obtain x v where look: "lookAt m rejected w = (x, v)" by (cases "lookAt m rejected w")
  note look1 = lookAt_stored [OF look]
  have done_case: "r = y \<and> w1 = v" if "x = Inl y" for y using assms(1) look that by (simp add: refresh_def)
  have ask: "\<exists>y v1. askEndpoint m c v = (y, v1) \<and> stored v1 = stored w \<and> requests v1 \<le> Suc (requests w)
      \<and> (case y of Inl z \<Rightarrow> r = z \<and> w1 = v1 \<and> (\<forall>a. z \<noteq> Inr a)
          | Inr c1 \<Rightarrow> asked c c1 \<and> savable c1 \<and> keepCredentials m c1 v1 = (r, w1))" if "x = Inr c" for c
  proof -
    obtain y v1 where e: "askEndpoint m c v = (y, v1)" by (cases "askEndpoint m c v")
    have st: "stored w = Inr c" using look1(4) that by blast
    note e1 = askEndpoint_stored [OF e]
    show ?thesis
    proof (cases y)
      case (Inl z)
      with e look that assms(1) have "r = z" "w1 = v1" by (simp_all add: refresh_def)
      moreover have "\<forall>a. z \<noteq> Inr a" using e1(4) Inl by blast
      ultimately show ?thesis using e e1(1,2) look1(1,2) Inl by auto
    next
      case (Inr c1)
      then have "asked c c1" using e1(3) by blast
      moreover have "keepCredentials m c1 v1 = (r, w1)" using e look that assms(1) Inr by (simp add: refresh_def)
      ultimately show ?thesis using e e1(1,2) look1(1,2) Inr assms(2) [OF st] by auto
    qed
  qed
  show "requests w1 \<le> Suc (requests w)"
  proof (cases x)
    case (Inl y)
    then show ?thesis using done_case look1(2) by simp
  next
    case (Inr c)
    from ask [OF Inr] obtain y v1 where y: "requests v1 \<le> Suc (requests w)" "case y of Inl z \<Rightarrow> r = z \<and> w1 = v1 \<and> (\<forall>a. z \<noteq> Inr a)
        | Inr c1 \<Rightarrow> asked c c1 \<and> savable c1 \<and> keepCredentials m c1 v1 = (r, w1)" by blast
    then show ?thesis by (cases y) (auto dest: keepCredentials_stored(1))
  qed
  show "stored w1 = stored w \<or> (\<exists>c c1. stored w = Inr c \<and> asked c c1 \<and> stored w1 = Inr c1)"
  proof (cases x)
    case (Inl y)
    then show ?thesis using done_case look1(1) by simp
  next
    case (Inr c)
    with look1(4) have "stored w = Inr c" by blast
    from ask [OF Inr] obtain y v1 where y: "stored v1 = stored w" "case y of Inl z \<Rightarrow> r = z \<and> w1 = v1 \<and> (\<forall>a. z \<noteq> Inr a)
        | Inr c1 \<Rightarrow> asked c c1 \<and> savable c1 \<and> keepCredentials m c1 v1 = (r, w1)" by blast
    with \<open>stored w = Inr c\<close> show ?thesis by (cases y) (auto dest!: keepCredentials_stored(3))
  qed
  show "requests w1 = requests w \<and> stored w1 = stored w" if "stored w = Inr c" "rejected \<noteq> []" "acAccessToken c \<noteq> rejected"
  proof (cases x)
    case (Inl y)
    then show ?thesis using done_case look1(1,2) by simp
  next
    case (Inr d)
    with look1(4) [of d] that show ?thesis by simp
  qed
  show "\<exists>c c1. stored w = Inr c \<and> stored w1 = Inr c1 \<and> a = accessFromCredentials c1 \<and>
      (c1 = c \<and> requests w1 = requests w \<and> (if rejected = [] then \<exists>t. outlives c t else acAccessToken c \<noteq> rejected)
       \<or> asked c c1 \<and> (rejected = [] \<or> acAccessToken c = rejected))" if "r = Inr a"
  proof (cases x)
    case (Inl y)
    then have "y = Inr a" "w1 = v" using done_case that by auto
    with look1(1-3) Inl show ?thesis by fastforce
  next
    case (Inr c)
    then have st: "stored w = Inr c \<and> (rejected = [] \<or> acAccessToken c = rejected)" using look1(4) by blast
    from ask [OF Inr] obtain y v1 where y: "case y of Inl z \<Rightarrow> r = z \<and> w1 = v1 \<and> (\<forall>a. z \<noteq> Inr a)
        | Inr c1 \<Rightarrow> asked c c1 \<and> savable c1 \<and> keepCredentials m c1 v1 = (r, w1)" by blast
    with that obtain c1 where k: "asked c c1" "savable c1" "keepCredentials m c1 v1 = (Inr a, w1)" by (cases y) auto
    from keepCredentials_stored(2) [OF k(3,2) refl] k(1) st show ?thesis by blast
  qed
qed

end

end
