(* ===== verification/Token_Concurrency.thy ===== *)
theory Token_Concurrency
  imports Token_Manager
begin

text \<open>
  Concurrent callers of \<^verbatim>\<open>refresh\<close>: each stands at one point of its code, the mutex lets one into the locked part,
  and every step of any of them may come next. Whatever the interleaving, the outcome is the one of calls made
  one after the other; and callers that reject the same token cause one successful refresh.
\<close>

section \<open>Steps\<close>

datatype point = Waiting | Holding | Asking AuthCredentials | Keeping AuthCredentials | Returned "Access result"

record 'w callers =
  clWorld :: 'w
  clLock :: "nat option"
  clPoint :: "nat \<Rightarrow> point"

definition moved :: "nat \<Rightarrow> point \<Rightarrow> 'w \<Rightarrow> 'w callers \<Rightarrow> 'w callers" where
  "moved i p w s = s\<lparr>clWorld := w, clPoint := (clPoint s)(i := p)\<rparr>"

definition left :: "nat \<Rightarrow> Access result \<Rightarrow> 'w \<Rightarrow> 'w callers \<Rightarrow> 'w callers" where
  "left i r w s = (moved i (Returned r) w s)\<lparr>clLock := None\<rparr>"

inductive call_step :: "'w TokenManager \<Rightarrow> (nat \<Rightarrow> string) \<Rightarrow> 'w callers \<Rightarrow> 'w callers \<Rightarrow> bool"
  for m :: "'w TokenManager" and rejected :: "nat \<Rightarrow> string" where
  lock: "clPoint s i = Waiting \<Longrightarrow> clLock s = None \<Longrightarrow>
    call_step m rejected s ((moved i Holding (clWorld s) s)\<lparr>clLock := Some i\<rparr>)"
| found: "clPoint s i = Holding \<Longrightarrow> lookAt m (rejected i) (clWorld s) = (Inl r, w) \<Longrightarrow> call_step m rejected s (left i r w s)"
| stale: "clPoint s i = Holding \<Longrightarrow> lookAt m (rejected i) (clWorld s) = (Inr c, w) \<Longrightarrow>
    call_step m rejected s (moved i (Asking c) w s)"
| refused: "clPoint s i = Asking c \<Longrightarrow> askEndpoint m c (clWorld s) = (Inl r, w) \<Longrightarrow> call_step m rejected s (left i r w s)"
| answered: "clPoint s i = Asking c \<Longrightarrow> askEndpoint m c (clWorld s) = (Inr c1, w) \<Longrightarrow>
    call_step m rejected s (moved i (Keeping c1) w s)"
| kept: "clPoint s i = Keeping c \<Longrightarrow> keepCredentials m c (clWorld s) = (r, w) \<Longrightarrow> call_step m rejected s (left i r w s)"

inductive_cases call_stepE: "call_step m rejected s t"

inductive_simps call_step_simps: "call_step m rejected s t"

definition startCallers :: "'w \<Rightarrow> 'w callers" where
  "startCallers w = \<lparr>clWorld = w, clLock = None, clPoint = (\<lambda>i. Waiting)\<rparr>"

inductive reached :: "'w TokenManager \<Rightarrow> (nat \<Rightarrow> string) \<Rightarrow> 'w \<Rightarrow> 'w callers \<Rightarrow> bool"
  for m :: "'w TokenManager" and rejected :: "nat \<Rightarrow> string" and w :: 'w where
  start: "reached m rejected w (startCallers w)"
| more: "reached m rejected w s \<Longrightarrow> call_step m rejected s t \<Longrightarrow> reached m rejected w t"

section \<open>One after the other\<close>

text \<open>The calls in an order, each to its end: their results and the world after.\<close>

fun inOrder :: "'w TokenManager \<Rightarrow> (nat \<Rightarrow> string) \<Rightarrow> nat list \<Rightarrow> 'w \<Rightarrow> (nat \<times> Access result) list \<times> 'w" where
  "inOrder m rejected [] w = ([], w)"
| "inOrder m rejected (i # order) w =
     (case refresh m (rejected i) w of (r, w1) \<Rightarrow>
        (case inOrder m rejected order w1 of (rs, w2) \<Rightarrow> ((i, r) # rs, w2)))"

lemma inOrder_append: "inOrder m rejected (u @ v) w =
    (case inOrder m rejected u w of (rs, w1) \<Rightarrow> (case inOrder m rejected v w1 of (qs, w2) \<Rightarrow> (rs @ qs, w2)))"
  by (induction u arbitrary: w) (auto split: prod.splits)

lemma inOrder_fst: "map fst (fst (inOrder m rejected order w)) = order"
proof (induction order arbitrary: w)
  case (Cons i order)
  obtain r w1 where r: "refresh m (rejected i) w = (r, w1)" by (cases "refresh m (rejected i) w")
  show ?case using Cons [of w1] r by (cases "inOrder m rejected order w1") simp
qed simp

text \<open>
  How far the caller in the locked part has got: from the world \<open>w\<close> in which it locked the mutex to the present one.
\<close>

fun partWay :: "'w TokenManager \<Rightarrow> string \<Rightarrow> 'w \<Rightarrow> point \<Rightarrow> 'w \<Rightarrow> bool" where
  "partWay m t w Holding v \<longleftrightarrow> v = w"
| "partWay m t w (Asking c) v \<longleftrightarrow> lookAt m t w = (Inr c, v)"
| "partWay m t w (Keeping c1) v \<longleftrightarrow> (\<exists>c u. lookAt m t w = (Inr c, u) \<and> askEndpoint m c u = (Inr c1, v))"
| "partWay m t w p v \<longleftrightarrow> False"

definition serialised :: "'w TokenManager \<Rightarrow> (nat \<Rightarrow> string) \<Rightarrow> 'w \<Rightarrow> 'w callers \<Rightarrow> nat list \<Rightarrow> bool" where
  "serialised m rejected w s order \<longleftrightarrow>
     (case inOrder m rejected order w of (rs, v) \<Rightarrow>
        distinct order
        \<and> (\<forall>i r. clPoint s i = Returned r \<longleftrightarrow> (i, r) \<in> set rs)
        \<and> (\<forall>i. i \<notin> set order \<longrightarrow> clLock s \<noteq> Some i \<longrightarrow> clPoint s i = Waiting)
        \<and> (case clLock s of
             None \<Rightarrow> clWorld s = v
           | Some j \<Rightarrow> j \<notin> set order \<and> partWay m (rejected j) v (clPoint s j) (clWorld s)))"

lemma serialised_start: "serialised m rejected w (startCallers w) []"
  by (simp add: serialised_def startCallers_def)

lemma serialised_inside:
  assumes "serialised m rejected w s order" "clPoint s i = p" "p = Holding \<or> p = Asking c \<or> p = Keeping c"
  shows "clLock s = Some i"
proof (rule ccontr)
  assume l: "clLock s \<noteq> Some i"
  obtain rs v where io: "inOrder m rejected order w = (rs, v)" by (cases "inOrder m rejected order w")
  show False
  proof (cases "i \<in> set order")
    case True
    then have "i \<in> fst ` set rs" using inOrder_fst [of m rejected order w] io by (metis fst_conv list.set_map)
    then obtain r where "clPoint s i = Returned r" using assms(1) io by (auto simp: serialised_def)
    with assms show False by auto
  next
    case False
    with assms l io show False by (auto simp: serialised_def)
  qed
qed

lemma serialised_moved:
  assumes "serialised m rejected w s order" "clLock s = Some i" "partWay m (rejected i) (snd (inOrder m rejected order w)) p v"
  shows "serialised m rejected w (moved i p v s) order"
proof -
  obtain rs u where io: "inOrder m rejected order w = (rs, u)" by (cases "inOrder m rejected order w")
  have out: "i \<notin> set order" using assms(1,2) io by (simp add: serialised_def)
  then have "(i, r) \<notin> set rs" for r using inOrder_fst [of m rejected order w] io by force
  moreover have "p \<noteq> Returned r" for r using assms(3) by (cases p) auto
  ultimately show ?thesis using assms io out by (auto simp: serialised_def moved_def)
qed

lemma serialised_left:
  assumes "serialised m rejected w s order" "clLock s = Some i" "refresh m (rejected i) (snd (inOrder m rejected order w)) = (r, v)"
  shows "serialised m rejected w (left i r v s) (order @ [i])"
proof -
  obtain rs u where io: "inOrder m rejected order w = (rs, u)" by (cases "inOrder m rejected order w")
  have out: "i \<notin> set order" using assms(1,2) io by (simp add: serialised_def)
  then have "(i, q) \<notin> set rs" for q using inOrder_fst [of m rejected order w] io by force
  then show ?thesis using assms io out by (auto simp: serialised_def moved_def left_def inOrder_append)
qed

lemma serialised_step:
  assumes "serialised m rejected w s order" "call_step m rejected s t"
  shows "\<exists>order. serialised m rejected w t order"
proof -
  obtain rs v where io: "inOrder m rejected order w = (rs, v)" by (cases "inOrder m rejected order w")
  have part: "partWay m (rejected i) v (clPoint s i) (clWorld s)" if "clLock s = Some i" for i
    using assms(1) io that by (simp add: serialised_def)
  note inside = serialised_inside [OF assms(1)]
  from assms(2) show ?thesis
  proof (cases rule: call_step.cases)
    case (lock i)
    have "(i, r) \<notin> set rs" for r
    proof
      assume "(i, r) \<in> set rs"
      then have "clPoint s i = Returned r" using assms(1) io by (auto simp: serialised_def)
      with lock show False by simp
    qed
    moreover have "i \<notin> set order"
    proof
      assume "i \<in> set order"
      then have "i \<in> fst ` set rs" using inOrder_fst [of m rejected order w] io by (metis fst_conv list.set_map)
      with calculation show False by auto
    qed
    ultimately have "serialised m rejected w t order"
      using lock assms(1) io by (auto simp: serialised_def moved_def)
    then show ?thesis ..
  next
    case (found i r u)
    then have l: "clLock s = Some i" using inside by blast
    with part [OF this] found have "refresh m (rejected i) v = (r, u)" by (simp add: refresh_def)
    with serialised_left [OF assms(1) l, of r u] found io show ?thesis by auto
  next
    case (stale i c u)
    then have l: "clLock s = Some i" using inside by blast
    with part [OF this] stale have "partWay m (rejected i) v (Asking c) u" by simp
    with serialised_moved [OF assms(1) l, of "Asking c" u] stale io show ?thesis by auto
  next
    case (refused i c r u)
    then have l: "clLock s = Some i" using inside by blast
    with part [OF this] refused have "refresh m (rejected i) v = (r, u)" by (simp add: refresh_def)
    with serialised_left [OF assms(1) l, of r u] refused io show ?thesis by auto
  next
    case (answered i c c1 u)
    then have l: "clLock s = Some i" using inside by blast
    with part [OF this] answered have "partWay m (rejected i) v (Keeping c1) u" by auto
    with serialised_moved [OF assms(1) l, of "Keeping c1" u] answered io show ?thesis by auto
  next
    case (kept i c r u)
    then have l: "clLock s = Some i" using inside by blast
    with part [OF this] kept have "refresh m (rejected i) v = (r, u)" by (auto simp: refresh_def)
    with serialised_left [OF assms(1) l, of r u] kept io show ?thesis by auto
  qed
qed

lemma reached_serialised: "reached m rejected w s \<Longrightarrow> \<exists>order. serialised m rejected w s order"
  by (induction rule: reached.induct) (blast intro: serialised_start serialised_step)+


text \<open>Conversely, a caller that nobody disturbs gets from the mutex to its result, so that every order is reached.\<close>

lemma reached_alone:
  assumes "reached m rejected w s" "clLock s = None" "clPoint s i = Waiting" "refresh m (rejected i) (clWorld s) = (r, v)"
  shows "\<exists>t. reached m rejected w t \<and> clLock t = None \<and> clWorld t = v \<and> clPoint t = (clPoint s)(i := Returned r)"
proof -
  let ?h = "(moved i Holding (clWorld s) s)\<lparr>clLock := Some i\<rparr>"
  have h: "reached m rejected w ?h" by (rule reached.more [OF assms(1) call_step.lock [OF assms(3,2)]])
  have end1: "clLock (left i r v u) = None \<and> clWorld (left i r v u) = v \<and> clPoint (left i r v u) = (clPoint s)(i := Returned r)"
    if "\<forall>j. j \<noteq> i \<longrightarrow> clPoint u j = clPoint s j" for u using that by (auto simp: left_def moved_def fun_eq_iff)
  obtain x u where x: "lookAt m (rejected i) (clWorld s) = (x, u)" by (cases "lookAt m (rejected i) (clWorld s)")
  show ?thesis
  proof (cases x)
    case (Inl y)
    then have "y = r \<and> u = v" using x assms(4) by (simp add: refresh_def)
    then have "call_step m rejected ?h (left i r v ?h)" using x Inl by (intro call_step.found) (simp_all add: moved_def)
    from reached.more [OF h this] end1 [of ?h] show ?thesis by (auto simp: moved_def)
  next
    case (Inr c)
    let ?a = "moved i (Asking c) u ?h"
    have "call_step m rejected ?h ?a" using x Inr by (intro call_step.stale) (simp_all add: moved_def)
    then have a: "reached m rejected w ?a" by (rule reached.more [OF h])
    obtain y q where y: "askEndpoint m c u = (y, q)" by (cases "askEndpoint m c u")
    show ?thesis
    proof (cases y)
      case (Inl z)
      then have "z = r \<and> q = v" using x Inr y assms(4) by (simp add: refresh_def)
      then have "call_step m rejected ?a (left i r v ?a)" using y Inl by (intro call_step.refused) (simp_all add: moved_def)
      from reached.more [OF a this] end1 [of ?a] show ?thesis by (auto simp: moved_def)
    next
      case (Inr c1)
      let ?k = "moved i (Keeping c1) q ?a"
      have "call_step m rejected ?a ?k" using y Inr by (intro call_step.answered) (simp_all add: moved_def)
      then have k: "reached m rejected w ?k" by (rule reached.more [OF a])
      have "keepCredentials m c1 q = (r, v)" using x \<open>x = Inr c\<close> y Inr assms(4) by (simp add: refresh_def)
      then have "call_step m rejected ?k (left i r v ?k)" by (intro call_step.kept) (simp_all add: moved_def)
      from reached.more [OF k this] end1 [of ?k] show ?thesis by (auto simp: moved_def)
    qed
  qed
qed

section \<open>How many requests\<close>

definition failures :: "(nat \<times> Access result) list \<Rightarrow> nat" where
  "failures rs = length (filter (\<lambda>e. \<exists>x. snd e = Inl x) rs)"

lemma failures_Cons: "failures ((i, r) # rs) = (case r of Inl e \<Rightarrow> Suc (failures rs) | Inr a \<Rightarrow> failures rs)"
  by (cases r) (auto simp: failures_def)

context credential_store
begin

text \<open>Credentials that lead to such again, and never back to the token \<open>t\<close>.\<close>

definition renewing :: "string \<Rightarrow> (AuthCredentials \<Rightarrow> bool) \<Rightarrow> bool" where
  "renewing t G \<longleftrightarrow> (\<forall>c c1. G c \<longrightarrow> asked c c1 \<longrightarrow> G c1 \<and> savable c1 \<and> acAccessToken c1 \<noteq> t)"

lemma renewed_refresh:
  assumes "refresh m t w = (r, w1)" "stored w = Inr c" "acAccessToken c \<noteq> t" "t \<noteq> []" "renewing t G" "G c"
  shows "stored w1 = Inr c" "requests w1 = requests w" "r = Inr a \<Longrightarrow> a = accessFromCredentials c"
proof -
  have sv: "\<And>c c1. stored w = Inr c \<Longrightarrow> asked c c1 \<Longrightarrow> savable c1"
    using assms(2,5,6) by (auto simp: renewing_def)
  show "stored w1 = Inr c" "requests w1 = requests w"
    using refresh_outcome(4) [OF assms(1) sv assms(2,4,3)] assms(2) by simp_all
  show "a = accessFromCredentials c" if "r = Inr a"
    using refresh_outcome(2) [OF assms(1) sv that] assms(2-4) by auto
qed

lemma inOrder_renewed:
  assumes "inOrder m rejected order w = (rs, v)" "\<forall>i\<in>set order. rejected i = t" "t \<noteq> []" "renewing t G"
    "stored w = Inr c" "G c" "acAccessToken c \<noteq> t"
  shows "stored v = Inr c \<and> requests v = requests w \<and> (\<forall>i a. (i, Inr a) \<in> set rs \<longrightarrow> a = accessFromCredentials c)"
  using assms(1,2,5)
proof (induction order arbitrary: w rs)
  case (Cons i order)
  obtain r w1 where r: "refresh m t w = (r, w1)" by (cases "refresh m t w")
  obtain qs where q: "inOrder m rejected order w1 = (qs, v)" "rs = (i, r) # qs"
    using Cons.prems(1,2) r by (auto split: prod.splits)
  note one = renewed_refresh [OF r Cons.prems(3) assms(7,3,4,6)]
  have "stored v = Inr c \<and> requests v = requests w1 \<and> (\<forall>i a. (i, Inr a) \<in> set qs \<longrightarrow> a = accessFromCredentials c)"
    using Cons.prems(2) one(1) by (intro Cons.IH [OF q(1)]) auto
  with one(2,3) q(2) show ?case by auto
qed auto

lemma inOrder_requests:
  assumes "inOrder m rejected order w = (rs, v)" "\<forall>i\<in>set order. rejected i = t" "t \<noteq> []" "renewing t G"
    "stored w = Inr c" "G c"
  shows "requests v \<le> requests w + failures rs + 1
    \<and> (\<forall>i a. (i, Inr a) \<in> set rs \<longrightarrow> (\<exists>c1. stored v = Inr c1 \<and> a = accessFromCredentials c1 \<and> acAccessToken c1 \<noteq> t))"
  using assms(1,2,5,6)
proof (induction order arbitrary: w rs c)
  case (Cons i order)
  show ?case
  proof (cases "acAccessToken c = t")
    case False
    from inOrder_renewed [OF Cons.prems(1,2) assms(3,4) Cons.prems(3,4) this] False show ?thesis by auto
  next
    case True
    obtain r w1 where r: "refresh m t w = (r, w1)" by (cases "refresh m t w")
    obtain qs where q: "inOrder m rejected order w1 = (qs, v)" "rs = (i, r) # qs"
      using Cons.prems(1,2) r by (auto split: prod.splits)
    have sv: "\<And>c c1. stored w = Inr c \<Longrightarrow> asked c c1 \<Longrightarrow> savable c1"
      using Cons.prems(3,4) assms(4) by (auto simp: renewing_def)
    have more: "requests w1 \<le> Suc (requests w)" by (rule refresh_outcome(1) [OF r sv])
    have rest: "\<forall>i\<in>set order. rejected i = t" using Cons.prems(2) by simp
    have next1: "G c1 \<and> acAccessToken c1 \<noteq> t" if "asked c c1" for c1
      using that Cons.prems(4) assms(4) by (auto simp: renewing_def)
    show ?thesis
    proof (cases r)
      case (Inr a)
      have "\<exists>d c1. stored w = Inr d \<and> stored w1 = Inr c1 \<and> a = accessFromCredentials c1 \<and>
          (c1 = d \<and> requests w1 = requests w \<and> (if t = [] then \<exists>t. outlives d t else acAccessToken d \<noteq> t)
           \<or> asked d c1 \<and> (t = [] \<or> acAccessToken d = t))"
        by (rule refresh_outcome(2) [OF r sv Inr])
      with Cons.prems(3) True assms(3)
      obtain c1 where c1: "stored w1 = Inr c1" "a = accessFromCredentials c1" "asked c c1" by auto
      from inOrder_renewed [OF q(1) rest assms(3,4) c1(1) _ _] next1 [OF c1(3)]
      have "stored v = Inr c1 \<and> requests v = requests w1 \<and> (\<forall>i a. (i, Inr a) \<in> set qs \<longrightarrow> a = accessFromCredentials c1)"
        by blast
      with more q(2) c1(2) Inr next1 [OF c1(3)] show ?thesis by auto
    next
      case (Inl e)
      have "stored w1 = stored w \<or> (\<exists>d c1. stored w = Inr d \<and> asked d c1 \<and> stored w1 = Inr c1)"
        by (rule refresh_outcome(3) [OF r sv])
      with Cons.prems(3,4) next1 obtain c1 where c1: "stored w1 = Inr c1" "G c1" by auto
      from Cons.IH [OF q(1) rest c1] more q(2) Inl show ?thesis by (auto simp: failures_Cons)
    qed
  qed
qed (auto simp: failures_def)

end

end
