(* ===== verification/Token_Machine.thy ===== *)
theory Token_Machine
  imports Token_Concurrency OAuth_Properties Server_Handler
begin

text \<open>
  The token manager as the command line builds it, on the credentials file and the token endpoint: the machine it
  runs on, the promises of its store, and what follows for the tokens it hands out, for concurrent callers and
  for the upstream requests of the server.
\<close>

section \<open>The machine\<close>

text \<open>
  The files change; the failing system calls and the time depend on the number of the operation; the requests to the token
  endpoint are kept, the latest first; the rest of the network is a world of its own.
\<close>

record 'n machine =
  mcFiles :: files
  mcFaults :: "nat \<Rightarrow> faults"
  mcCount :: nat
  mcSent :: "HttpRequest list"
  mcNet :: 'n

text \<open>What does not change while the adapter runs. The credentials file has the name the configuration gives it.\<close>

record 'n host =
  hsDirectory :: string
  hsLaxTime :: "string \<Rightarrow> time option"
  hsClock :: "nat \<Rightarrow> time"
  hsZone :: "time \<Rightarrow> int"
  hsTempNames :: "string list"
  hsParse :: "string \<Rightarrow> authURL option"
  hsSend :: "'n transport"
  hsClient :: OAuthClient

definition hostStore :: "'n host \<Rightarrow> Store" where
  "hostStore host = \<lparr>stPath = hsDirectory host @ ''/credentials.json''\<rparr>"

definition tick :: "'n machine \<Rightarrow> 'n machine" where
  "tick w = w\<lparr>mcCount := Suc (mcCount w)\<rparr>"

definition machineStore :: "'n host \<Rightarrow> 'n machine StoreMethods" where
  "machineStore host = \<lparr>
     smLoad = (\<lambda>w. (Load (mcFaults w (mcCount w)) (hsLaxTime host) (Some (hostStore host)) (mcFiles w) (mcFiles w), tick w)),
     smSave = (\<lambda>c w. (case Save (mcFaults w (mcCount w)) (hsZone host) (hsTempNames host) (Some (hostStore host)) c [mcFiles w] of
       (e, h) \<Rightarrow> (e, (tick w)\<lparr>mcFiles := hd h\<rparr>)))\<rparr>"

definition machineRefresh :: "'n host \<Rightarrow> string \<Rightarrow> 'n machine \<Rightarrow> TokenResponse result \<times> 'n machine" where
  "machineRefresh host tok w =
     (case Refresh (hsParse host) (logging (hsSend host)) (Some (hsClient host)) tok (mcSent w, mcNet w) of
        (r, log, n) \<Rightarrow> (r, (tick w)\<lparr>mcSent := log, mcNet := n\<rparr>))"

definition machineNow :: "'n host \<Rightarrow> 'n machine \<Rightarrow> time \<times> 'n machine" where
  "machineNow host w = (hsClock host (mcCount w), tick w)"

definition machineManager :: "'n host \<Rightarrow> 'n machine TokenManager" where
  "machineManager host = \<lparr>tmStore = machineStore host, tmOAuth = machineRefresh host, tmNow = machineNow host\<rparr>"

definition storedCredentials :: "'n host \<Rightarrow> 'n machine \<Rightarrow> AuthCredentials result" where
  "storedCredentials host w = Load noFaults (hsLaxTime host) (Some (hostStore host)) (mcFiles w) (mcFiles w)"

section \<open>The promises of the store\<close>

lemma hostStore_file: "credentialsFile (stPath (hostStore host))"
  by (auto simp: hostStore_def credentialsFile_def)

lemma Load_valid: "Load F lax st fs1 fs2 = Inr c \<Longrightarrow> validateCredentials c = None"
  by (auto simp: Load_def decodeCredentials_def split: option.splits sum.splits node.splits prod.splits if_splits)

lemma Save_valid: "Save F zone rs st c h = (None, h1) \<Longrightarrow> validateCredentials c = None"
  by (auto simp: Save_def split: option.splits)

lemma Load_faults: "Load F lax st fs fs = Load noFaults lax st fs fs \<or> (\<exists>e. Load F lax st fs fs = Inl e)"
  by (auto simp: Load_def lstat_def readFile_def split: option.split node.split sum.split)

lemma Refresh_log:
  "Refresh parse (logging send) (Some cl) tok (log, n) = (r, log1, n1) \<Longrightarrow> length log1 \<le> Suc (length log)"
  by (auto simp: Refresh_def dest!: postToken_log(1) split: if_splits)

interpretation tokens: credential_store "machineManager host" "\<lambda>c. validateCredentials c = None"
  "storedCredentials host" "saveable (hsZone host)" "\<lambda>w. length (mcSent w)"
  for host :: "'n host"
proof
  fix w w1 :: "'n machine" and c r e tok t n
  show "smLoad (tmStore (machineManager host)) w = (Inr c, w1) \<Longrightarrow> validateCredentials c = None"
    by (auto simp: machineManager_def machineStore_def dest: Load_valid)
  show "smSave (tmStore (machineManager host)) c w = (None, w1) \<Longrightarrow> validateCredentials c = None"
    by (auto simp: machineManager_def machineStore_def dest: Save_valid split: prod.splits)
  show "smLoad (tmStore (machineManager host)) w = (r, w1) \<Longrightarrow> (r = storedCredentials host w \<or> (\<exists>e. r = Inl e))
      \<and> storedCredentials host w1 = storedCredentials host w \<and> length (mcSent w1) = length (mcSent w)"
    using Load_faults by (auto simp: machineManager_def machineStore_def storedCredentials_def tick_def)
  show "tmOAuth (machineManager host) tok w = (t, w1) \<Longrightarrow>
      storedCredentials host w1 = storedCredentials host w \<and> length (mcSent w1) \<le> Suc (length (mcSent w))"
    by (auto simp: machineManager_def machineRefresh_def storedCredentials_def tick_def dest: Refresh_log split: prod.splits)
  show "tmNow (machineManager host) w = (n, w1) \<Longrightarrow>
      storedCredentials host w1 = storedCredentials host w \<and> length (mcSent w1) = length (mcSent w)"
    by (auto simp: machineManager_def machineNow_def storedCredentials_def tick_def)
  assume save: "smSave (tmStore (machineManager host)) c w = (e, w1)" and ok: "saveable (hsZone host) c"
  obtain h where h: "Save (mcFaults w (mcCount w)) (hsZone host) (hsTempNames host) (Some (hostStore host)) c [mcFiles w] = (e, h)"
    "w1 = (tick w)\<lparr>mcFiles := hd h\<rparr>"
    using save by (auto simp: machineManager_def machineStore_def split: prod.splits)
  note out = save_outcome [OF hostStore_file [of host] ok, where F = "mcFaults w (mcCount w)" and rs = "hsTempNames host" and fs = "mcFiles w"]
  have "h \<noteq> []" using out(1) h(1) by simp
  then have "storedCredentials host w1 = storedCredentials host w \<or> storedCredentials host w1 = Inr c"
    using out(2) [where i = 0 and j = 0 and lax = "hsLaxTime host"] h by (simp add: storedCredentials_def tick_def hd_conv_nth)
  moreover have "e = None \<Longrightarrow> storedCredentials host w1 = Inr c"
    using out(3) [where lax = "hsLaxTime host"] h by (simp add: storedCredentials_def tick_def)
  ultimately show "length (mcSent w1) = length (mcSent w)
      \<and> (storedCredentials host w1 = Inr c \<or> e \<noteq> None \<and> storedCredentials host w1 = storedCredentials host w)"
    using h(2) by (auto simp: tick_def)
qed


section \<open>Tokens for the upstream\<close>

lemma valid_sendable:
  assumes "validateCredentials c = None"
  shows "\<exists>h1. applyHeaders h (upstreamCredentials (accessFromCredentials c)) = Inr h1"
proof -
  have "\<not> invalidHeaderValue (trimSpace v)" if "controlFree v" for v
  proof -
    have "set (trimSpace v) \<subseteq> set v"
      using trimRight_prefix [of space_runes "trimLeft space_runes v"] trimLeft_suffix [of space_runes v]
      by (auto simp: trimSpace_def dest: set_mono_prefix set_mono_suffix)
    with that show ?thesis by (auto simp: invalidHeaderValue_def controlFree_def list_ex_iff)
  qed
  with assms show ?thesis
    by (auto simp: valid_iff requiredFields_def isBlank_def applyHeaders_def upstreamCredentials_def accessFromCredentials_def Let_def)
qed

text \<open>
  Every token the manager hands out, stored or refreshed, can be sent upstream: whatever fails, an access that
  \<^verbatim>\<open>GetValidToken\<close> or \<^verbatim>\<open>ForceRefresh\<close> returns without error is accepted by the headers of the upstream request.
\<close>

theorem tokens_sendable:
  assumes "GetValidToken (Some (machineManager host)) w = (Inr a, w1)
    \<or> ForceRefresh (Some (machineManager host)) t w = (Inr a, w1)"
  shows "\<exists>h1. applyHeaders h (upstreamCredentials a) = Inr h1"
proof -
  obtain c where "validateCredentials c = None" "a = accessFromCredentials c"
    using assms tokens.GetValidToken_valid tokens.ForceRefresh_valid by metis
  then show ?thesis using valid_sendable by simp
qed

definition askedOf :: "'n host \<Rightarrow> AuthCredentials \<Rightarrow> AuthCredentials \<Rightarrow> bool" where
  "askedOf host c c1 \<longleftrightarrow> (\<exists>w w1. askEndpoint (machineManager host) c w = (Inr c1, w1))"

lemma asked_askedOf: "credential_store.asked (machineManager host) = askedOf host"
  by (simp add: fun_eq_iff askedOf_def tokens.asked_def)

lemma askedOf_refreshed:
  assumes "askedOf host c c1"
  obtains t now where "c1 = refreshedCredentials c t now"
proof -
  obtain w w1 where ask: "askEndpoint (machineManager host) c w = (Inr c1, w1)" using assms unfolding askedOf_def by blast
  obtain x v where x: "tmOAuth (machineManager host) (acRefreshToken c) w = (x, v)"
    by (cases "tmOAuth (machineManager host) (acRefreshToken c) w")
  obtain n u where n: "tmNow (machineManager host) v = (n, u)" by (cases "tmNow (machineManager host) v")
  show thesis using ask x n that by (cases x) (auto simp: askEndpoint_def)
qed

text \<open>
  A forced refresh replaces the rejected token. Whichever system calls and network operations fail, it sends
  at most one request, none when the stored token is another one already; an access it returns is the one then
  stored and not the rejected one; and the store holds the old credentials or the endpoint's answer to them, with
  the same local secret. This is for endpoints that issue tokens the store can keep and never the rejected one.
\<close>

theorem force_refresh_replaces:
  assumes "ForceRefresh (Some (machineManager host)) t w = (r, w1)" "storedCredentials host w = Inr c"
    "\<forall>c1. askedOf host c c1 \<longrightarrow> saveable (hsZone host) c1 \<and> acAccessToken c1 \<noteq> t"
  shows "length (mcSent w1) \<le> Suc (length (mcSent w))
     \<and> (acAccessToken c \<noteq> t \<longrightarrow> length (mcSent w1) = length (mcSent w) \<and> storedCredentials host w1 = Inr c)
     \<and> (\<exists>c1. storedCredentials host w1 = Inr c1 \<and> acLocalSecret c1 = acLocalSecret c \<and> (c1 = c \<or> askedOf host c c1)
          \<and> (\<forall>a. r = Inr a \<longrightarrow> a = accessFromCredentials c1 \<and> axAccessToken a \<noteq> t))"
proof (cases "isBlank t")
  case True
  with assms show ?thesis by (auto simp: ForceRefresh_def)
next
  case False
  then have t: "t \<noteq> []" by auto
  have ref: "refresh (machineManager host) t w = (r, w1)" using assms(1) False by (simp add: ForceRefresh_def)
  have sv: "\<And>d c1. storedCredentials host w = Inr d \<Longrightarrow> credential_store.asked (machineManager host) d c1 \<Longrightarrow> saveable (hsZone host) c1"
    using assms(2,3) by (simp add: asked_askedOf)
  have secret: "acLocalSecret c1 = acLocalSecret c" if "askedOf host c c1" for c1
    using that by (rule askedOf_refreshed) (simp add: refreshedCredentials_def)
  have one: "length (mcSent w1) \<le> Suc (length (mcSent w))" by (rule tokens.refresh_outcome(1) [OF ref sv])
  have other: "acAccessToken c \<noteq> t \<longrightarrow> length (mcSent w1) = length (mcSent w) \<and> storedCredentials host w1 = Inr c"
    using tokens.refresh_outcome(4) [OF ref sv assms(2) t] assms(2) by auto
  have kept: "storedCredentials host w1 = storedCredentials host w
      \<or> (\<exists>d c1. storedCredentials host w = Inr d \<and> credential_store.asked (machineManager host) d c1 \<and> storedCredentials host w1 = Inr c1)"
    by (rule tokens.refresh_outcome(3) [OF ref sv])
  show ?thesis
  proof (cases r)
    case (Inl e)
    from kept assms(2) obtain c1 where "storedCredentials host w1 = Inr c1" "c1 = c \<or> askedOf host c c1"
      by (auto simp: asked_askedOf)
    with one other secret Inl show ?thesis by auto
  next
    case (Inr a)
    have "\<exists>d c1. storedCredentials host w = Inr d \<and> storedCredentials host w1 = Inr c1 \<and> a = accessFromCredentials c1 \<and>
        (c1 = d \<and> length (mcSent w1) = length (mcSent w) \<and> (if t = [] then \<exists>t. outlives d t else acAccessToken d \<noteq> t)
         \<or> credential_store.asked (machineManager host) d c1 \<and> (t = [] \<or> acAccessToken d = t))"
      by (rule tokens.refresh_outcome(2) [OF ref sv Inr])
    with assms(2) t obtain c1 where c1: "storedCredentials host w1 = Inr c1" "a = accessFromCredentials c1"
      "c1 = c \<and> acAccessToken c \<noteq> t \<or> askedOf host c c1" by (auto simp: asked_askedOf)
    moreover have "axAccessToken a \<noteq> t" using c1(2,3) assms(3) by (auto simp: accessFromCredentials_def)
    ultimately show ?thesis using one other secret Inr by auto
  qed
qed

section \<open>Concurrent callers\<close>

text \<open>
  C34: Concurrent refreshes behave as if each ran alone. From any interleaving of the steps of any number of
  callers, the calls that have returned gave what they give when they are made one after the other in some
  order, and while no call is in the locked part the machine is as it is after these.
\<close>

theorem concurrent_refreshes_serialise:
  assumes "reached (machineManager host) rejected w s"
  shows "\<exists>order rs v. distinct order \<and> inOrder (machineManager host) rejected order w = (rs, v)
     \<and> (\<forall>i r. clPoint s i = Returned r \<longleftrightarrow> (i, r) \<in> set rs)
     \<and> (clLock s = None \<longrightarrow> clWorld s = v \<and> (\<forall>i. i \<notin> set order \<longrightarrow> clPoint s i = Waiting))"
proof -
  obtain order where o: "serialised (machineManager host) rejected w s order"
    using reached_serialised [OF assms] by blast
  obtain rs v where io: "inOrder (machineManager host) rejected order w = (rs, v)"
    by (cases "inOrder (machineManager host) rejected order w")
  show ?thesis using o io by (intro exI [of _ order] exI [of _ rs] exI [of _ v]) (auto simp: serialised_def)
qed

text \<open>
  C35: One rejected token costs one refresh. However many callers force a refresh of the same token at once, when
  none is in the locked part at most one request more has been sent than calls have failed; and all calls that
  succeeded returned the access that is stored, which is not the rejected one.
\<close>

theorem concurrent_refreshes_once:
  assumes "reached (machineManager host) (\<lambda>i. t) w s" "clLock s = None" "t \<noteq> []"
    "storedCredentials host w = Inr c" "G c"
    "\<forall>c c1. G c \<longrightarrow> askedOf host c c1 \<longrightarrow> G c1 \<and> saveable (hsZone host) c1 \<and> acAccessToken c1 \<noteq> t"
  shows "\<exists>failed. (\<forall>i. i \<in> failed \<longleftrightarrow> (\<exists>e. clPoint s i = Returned (Inl e))) \<and> finite failed
     \<and> length (mcSent (clWorld s)) \<le> length (mcSent w) + card failed + 1
     \<and> (\<forall>i a. clPoint s i = Returned (Inr a) \<longrightarrow> (\<exists>c1. storedCredentials host (clWorld s) = Inr c1
          \<and> a = accessFromCredentials c1 \<and> axAccessToken a \<noteq> t))"
proof -
  let ?m = "machineManager host"
  obtain order where o: "serialised ?m (\<lambda>i. t) w s order" using reached_serialised [OF assms(1)] by blast
  obtain rs v where io: "inOrder ?m (\<lambda>i. t) order w = (rs, v)" by (cases "inOrder ?m (\<lambda>i. t) order w")
  have s: "\<And>i r. clPoint s i = Returned r \<longleftrightarrow> (i, r) \<in> set rs" "clWorld s = v" "distinct order"
    using o io assms(2) by (auto simp: serialised_def)
  have ren: "tokens.renewing TYPE(_) host t G" using assms(6) by (simp add: tokens.renewing_def asked_askedOf)
  have bound: "length (mcSent v) \<le> length (mcSent w) + failures rs + 1
    \<and> (\<forall>i a. (i, Inr a) \<in> set rs \<longrightarrow> (\<exists>c1. storedCredentials host v = Inr c1 \<and> a = accessFromCredentials c1 \<and> acAccessToken c1 \<noteq> t))"
    by (rule tokens.inOrder_requests [OF io _ assms(3) ren assms(4,5)]) simp
  let ?failed = "fst ` set (filter (\<lambda>e. \<exists>x. snd e = Inl x) rs)"
  have "map fst rs = order" using inOrder_fst [of ?m "\<lambda>i. t" order w] io by simp
  then have d: "distinct (map fst rs)" using s(3) by simp
  have "distinct (map fst (filter (\<lambda>e. \<exists>x. snd e = Inl x) rs))" by (rule distinct_map_filter [OF d])
  then have "card ?failed = failures rs" using distinct_card unfolding failures_def by fastforce
  moreover have "\<forall>i. i \<in> ?failed \<longleftrightarrow> (\<exists>e. clPoint s i = Returned (Inl e))" unfolding s(1) by force
  moreover have "\<exists>c1. storedCredentials host (clWorld s) = Inr c1 \<and> a = accessFromCredentials c1 \<and> axAccessToken a \<noteq> t"
    if ret: "clPoint s i = Returned (Inr a)" for i a
  proof -
    obtain c1 where "storedCredentials host v = Inr c1" "a = accessFromCredentials c1" "acAccessToken c1 \<noteq> t"
      using bound ret unfolding s(1) by blast
    then show ?thesis by (auto simp: s(2) accessFromCredentials_def)
  qed
  ultimately show ?thesis using bound s(2) by (intro exI [of _ ?failed]) simp
qed


section \<open>A sample machine\<close>

definition sampleHost :: "unit host" where
  "sampleHost = \<lparr>hsDirectory = ''/c'', hsLaxTime = (\<lambda>s. None), hsClock = (\<lambda>n. 1767222000123000000), hsZone = (\<lambda>t. 7200),
     hsTempNames = [''1''], hsParse = sampleParse,
     hsSend = (\<lambda>r w. (Inr \<lparr>hrStatus = 200, hrHeader = [], hrBody = sampleTokenText, hrEnd = IoEOF\<rparr>, w)), hsClient = sampleClient\<rparr>"

definition oldCredentials :: AuthCredentials where
  "oldCredentials = sampleCredentials\<lparr>acAccessToken := ''old''\<rparr>"

definition sampleMachine :: "unit machine" where
  "sampleMachine = \<lparr>mcFiles = [''/c/credentials.json'' \<mapsto> Regular 0x180 (the (credentialsBody (\<lambda>t. 7200) oldCredentials))],
     mcFaults = (\<lambda>n. noFaults), mcCount = 0, mcSent = [], mcNet = ()\<rparr>"

lemma old_saveable: "saveable (\<lambda>t. 7200) oldCredentials"
proof -
  have t: "timeText 7200 (acExpiresAt oldCredentials) = Some ''2026-01-01T02:00:00.123+02:00''"
    using sample_time by (simp add: oldCredentials_def)
  have "validateCredentials oldCredentials = None" "utf8Credentials oldCredentials" by code_simp+
  moreover have "case credentialsBody (\<lambda>t. 7200) oldCredentials of None \<Rightarrow> False | Some b \<Rightarrow> length b \<le> 1000"
    unfolding credentialsBody_def t option.map option.case by code_simp
  ultimately show ?thesis by (auto simp: saveable_def maxCredentialBytes_def split: option.splits)
qed

lemma sample_stored: "storedCredentials sampleHost sampleMachine = Inr oldCredentials"
proof -
  obtain b where b: "credentialsBody (\<lambda>t. 7200) oldCredentials = Some b" "length b \<le> maxCredentialBytes"
    "decodeCredentials (\<lambda>s. None) b = Inr oldCredentials"
    using saveableD [OF old_saveable] .
  have "mcFiles sampleMachine (stPath (hostStore sampleHost)) = Some (Regular 0x180 b)"
    by (simp add: sampleMachine_def hostStore_def sampleHost_def b(1))
  from load_regular [where ?fs1.0 = "mcFiles sampleMachine" and ?fs2.0 = "mcFiles sampleMachine" and st = "hostStore sampleHost",
      OF this _ this b(2)] b(3)
  show ?thesis by (simp add: storedCredentials_def sampleHost_def)
qed

lemma sample_asked:
  assumes "askedOf sampleHost c c1" "c = oldCredentials \<or> c = sampleCredentials"
  shows "c1 = sampleCredentials"
proof -
  let ?t = "zeroTokenResponse\<lparr>tkAccessToken := ''at'', tkRefreshToken := ''rt'', tkExpiresIn := 3600\<rparr>"
  have check: "checkToken False sampleTokenText = Inr ?t" by code_simp
  have len: "length sampleTokenText < 100" by code_simp
  have rt: "acRefreshToken c = ''rt''" using assms(2) by (auto simp: oldCredentials_def sampleCredentials_def)
  have "\<not> isBlank ''rt''" "trimSpace ''rt'' = ''rt''" by code_simp+
  then have "refreshedCredentials c ?t 1767222000123000000 = sampleCredentials"
    using assms(2)
    by (auto simp: refreshedCredentials_def zeroTokenResponse_def seconds_def in_i64_def oldCredentials_def sampleCredentials_def)
  moreover obtain w w1 where "askEndpoint (machineManager sampleHost) c w = (Inr c1, w1)"
    using assms(1) unfolding askedOf_def by blast
  then have "c1 = refreshedCredentials c ?t 1767222000123000000"
    using check len rt \<open>\<not> isBlank ''rt''\<close>
    by (simp add: askEndpoint_def machineManager_def machineRefresh_def machineNow_def Refresh_def postToken_def logging_def
        readLimited_def maxTokenResponseBytes_def sampleHost_def sampleParse_def sampleClient_def)
  ultimately show ?thesis by simp
qed

lemma sample_renewing:
  assumes "askedOf sampleHost c c1" "c = oldCredentials \<or> c = sampleCredentials"
  shows "c1 = sampleCredentials \<and> saveable (hsZone sampleHost) c1 \<and> acAccessToken c1 \<noteq> ''old''"
proof -
  have "hsZone sampleHost = (\<lambda>t. 7200)" "acAccessToken sampleCredentials \<noteq> ''old''"
    by (simp_all add: sampleHost_def sampleCredentials_def)
  with sample_asked [OF assms] sample_saveable show ?thesis by simp
qed

lemma sample_token:
  "GetValidToken (Some (machineManager sampleHost)) sampleMachine
     = (Inr (accessFromCredentials oldCredentials), tick (tick sampleMachine))"
proof -
  have "smLoad (machineStore sampleHost) sampleMachine = (Inr oldCredentials, tick sampleMachine)"
    using sample_stored by (simp add: machineStore_def storedCredentials_def) (simp add: sampleMachine_def)
  moreover have "outlives oldCredentials 1767222000123000000"
    by (simp add: outlives_def oldCredentials_def sampleCredentials_def RefreshBeforeExpiry_def)
  ultimately show ?thesis by (simp add: GetValidToken_def machineManager_def machineNow_def sampleHost_def Let_def)
qed

lemma tokens_sendable_witness:
  "\<exists>a w1. GetValidToken (Some (machineManager sampleHost)) sampleMachine = (Inr a, w1) \<and>
     (\<exists>h1. applyHeaders [] (upstreamCredentials a) = Inr h1)"
  using tokens_sendable [OF disjI1 [OF sample_token]] sample_token by blast

lemma force_refresh_replaces_witness:
  "\<exists>r w1 c1. ForceRefresh (Some (machineManager sampleHost)) ''old'' sampleMachine = (r, w1)
     \<and> storedCredentials sampleHost w1 = Inr c1 \<and> acLocalSecret c1 = ''s'' \<and> length (mcSent w1) \<le> 1"
proof -
  obtain r w1 where f: "ForceRefresh (Some (machineManager sampleHost)) ''old'' sampleMachine = (r, w1)"
    by (cases "ForceRefresh (Some (machineManager sampleHost)) ''old'' sampleMachine")
  have "\<forall>c1. askedOf sampleHost oldCredentials c1 \<longrightarrow> saveable (hsZone sampleHost) c1 \<and> acAccessToken c1 \<noteq> ''old''"
    using sample_renewing by blast
  from force_refresh_replaces [OF f sample_stored this] f show ?thesis
    by (auto simp: sampleMachine_def oldCredentials_def sampleCredentials_def)
qed

lemma sample_save:
  "\<exists>h. Save noFaults (\<lambda>t. 7200) [''1''] (Some \<lparr>stPath = ''/c/credentials.json''\<rparr>) sampleCredentials
     [[''/c/credentials.json'' \<mapsto> Regular m b]] = (None, h)"
proof -
  obtain body where b: "credentialsBody (\<lambda>t. 7200) sampleCredentials = Some body" "validateCredentials sampleCredentials = None"
    using saveableD [OF sample_saveable] .
  have d: "dirOf ''/c/credentials.json'' = ''/c''" "ancestors ''/c'' = [''/c'']" "tempName ''/c'' ''1'' = ''/c/.credentials-1.tmp''"
    by code_simp+
  show ?thesis
    by (simp add: Save_def b d ensurePrivateDirectory_def protectDirectory_def mkdirAll_def sysCall_def andThen_def wrapping_def
        stat_node lstat_def isDirectory_def onNode_def createTemp_def fillTemporary_def deferred_def removeFile_def
        renameFile_def nothing_def unchanged_def syncDirectory_def writeTo_def)
qed

lemma sampleHost_sel: "hsParse sampleHost = sampleParse" "hsClient sampleHost = sampleClient" "hsClock sampleHost = (\<lambda>n. 1767222000123000000)"
  "hsZone sampleHost = (\<lambda>t. 7200)" "hsTempNames sampleHost = [''1'']" "hostStore sampleHost = \<lparr>stPath = ''/c/credentials.json''\<rparr>"
  by (simp_all add: sampleHost_def hostStore_def)

text \<open>A refresh of the sample machine: the rejected token is stored, the endpoint answers, the answer is stored.\<close>

lemma sample_refresh:
  obtains v where "refresh (machineManager sampleHost) ''old'' sampleMachine = (Inr (accessFromCredentials sampleCredentials), v)"
    "mcSent v \<noteq> []"
proof -
  have load: "smLoad (machineStore sampleHost) sampleMachine = (Inr oldCredentials, tick sampleMachine)"
    using sample_stored by (simp add: machineStore_def storedCredentials_def) (simp add: sampleMachine_def)
  have c: "acAccessToken oldCredentials = ''old''" "acRefreshToken oldCredentials = ''rt''" "\<not> isBlank ''rt''"
    by (simp_all add: oldCredentials_def sampleCredentials_def) code_simp
  have look: "lookAt (machineManager sampleHost) ''old'' sampleMachine = (Inr oldCredentials, tick sampleMachine)"
    using load c by (simp add: lookAt_def machineManager_def)
  obtain c1 u where ask: "askEndpoint (machineManager sampleHost) oldCredentials (tick sampleMachine) = (Inr c1, u)"
    "mcSent u \<noteq> []" "mcFiles u = mcFiles sampleMachine" "mcFaults u = mcFaults sampleMachine"
  proof -
    have check: "checkToken False sampleTokenText = Inr (zeroTokenResponse\<lparr>tkAccessToken := ''at'', tkRefreshToken := ''rt'', tkExpiresIn := 3600\<rparr>)"
      by code_simp
    have len: "length sampleTokenText < 100" by code_simp
    show thesis
      using that check len c
      by (simp add: askEndpoint_def machineManager_def machineRefresh_def machineNow_def Refresh_def postToken_def logging_def
          readLimited_def maxTokenResponseBytes_def sampleHost_def sampleParse_def sampleClient_def tick_def)
  qed
  have c1: "c1 = sampleCredentials"
    by (rule sample_asked [of oldCredentials]) (use ask(1) in \<open>auto simp: askedOf_def\<close>)
  obtain h where h: "Save noFaults (\<lambda>t. 7200) [''1''] (Some \<lparr>stPath = ''/c/credentials.json''\<rparr>) sampleCredentials [mcFiles sampleMachine] = (None, h)"
    using sample_save unfolding sampleMachine_def machine.select_convs by blast
  have "mcFaults u n = noFaults" for n using ask(4) by (simp add: sampleMachine_def)
  then have "keepCredentials (machineManager sampleHost) c1 u = (Inr (accessFromCredentials sampleCredentials), (tick u)\<lparr>mcFiles := hd h\<rparr>)"
    using h c1 ask(3) by (simp add: keepCredentials_def machineManager_def machineStore_def sampleHost_sel)
  then have "refresh (machineManager sampleHost) ''old'' sampleMachine
      = (Inr (accessFromCredentials sampleCredentials), (tick u)\<lparr>mcFiles := hd h\<rparr>)"
    using look ask(1) by (simp add: refresh_def)
  then show thesis by (rule that) (use ask(2) in \<open>simp add: tick_def\<close>)
qed

text \<open>One caller has returned, the others have not begun.\<close>

lemma sample_reached:
  obtains s where "reached (machineManager sampleHost) (\<lambda>i. ''old'') sampleMachine s" "clLock s = None"
    "clPoint s = (\<lambda>i. Waiting)(0 := Returned (Inr (accessFromCredentials sampleCredentials)))" "mcSent (clWorld s) \<noteq> []"
proof -
  obtain v where v: "refresh (machineManager sampleHost) ''old'' sampleMachine = (Inr (accessFromCredentials sampleCredentials), v)"
    "mcSent v \<noteq> []" using sample_refresh .
  have "reached (machineManager sampleHost) (\<lambda>i. ''old'') sampleMachine (startCallers sampleMachine)" by (rule reached.start)
  from reached_alone [OF this, of 0 "Inr (accessFromCredentials sampleCredentials)" v] v that show thesis
    by (auto simp: startCallers_def)
qed

lemma concurrent_refreshes_serialise_witness:
  "\<exists>s order rs v. reached (machineManager sampleHost) (\<lambda>i. ''old'') sampleMachine s
     \<and> clPoint s 0 = Returned (Inr (accessFromCredentials sampleCredentials))
     \<and> inOrder (machineManager sampleHost) (\<lambda>i. ''old'') order sampleMachine = (rs, v) \<and> clWorld s = v
     \<and> (0, Inr (accessFromCredentials sampleCredentials)) \<in> set rs"
proof -
  obtain s where s: "reached (machineManager sampleHost) (\<lambda>i. ''old'') sampleMachine s" "clLock s = None"
    "clPoint s = (\<lambda>i. Waiting)(0 := Returned (Inr (accessFromCredentials sampleCredentials)))" "mcSent (clWorld s) \<noteq> []"
    using sample_reached .
  then have p: "clPoint s 0 = Returned (Inr (accessFromCredentials sampleCredentials))" by simp
  from concurrent_refreshes_serialise [OF s(1)] s(2) obtain order rs v where
    "inOrder (machineManager sampleHost) (\<lambda>i. ''old'') order sampleMachine = (rs, v)" "clWorld s = v"
    "\<forall>i r. clPoint s i = Returned r \<longleftrightarrow> (i, r) \<in> set rs" by blast
  with s(1) p show ?thesis by blast
qed

lemma concurrent_refreshes_once_witness:
  "\<exists>s :: unit machine callers. clPoint s 0 = Returned (Inr (accessFromCredentials sampleCredentials)) \<and> length (mcSent (clWorld s)) = 1
     \<and> storedCredentials sampleHost (clWorld s) \<noteq> Inr oldCredentials"
proof -
  obtain s where s: "reached (machineManager sampleHost) (\<lambda>i. ''old'') sampleMachine s" "clLock s = None"
    "clPoint s = (\<lambda>i. Waiting)(0 := Returned (Inr (accessFromCredentials sampleCredentials)))" "mcSent (clWorld s) \<noteq> []"
    using sample_reached .
  have ren: "\<forall>c c1. c = oldCredentials \<or> c = sampleCredentials \<longrightarrow> askedOf sampleHost c c1 \<longrightarrow>
      (c1 = oldCredentials \<or> c1 = sampleCredentials) \<and> saveable (hsZone sampleHost) c1 \<and> acAccessToken c1 \<noteq> ''old''"
    using sample_renewing by blast
  have p: "clPoint s 0 = Returned (Inr (accessFromCredentials sampleCredentials))" using s(3) by simp
  obtain failed where f: "\<forall>i. i \<in> failed \<longleftrightarrow> (\<exists>e. clPoint s i = Returned (Inl e))"
    "length (mcSent (clWorld s)) \<le> length (mcSent sampleMachine) + card failed + 1"
    "\<forall>i a. clPoint s i = Returned (Inr a) \<longrightarrow> (\<exists>c1. storedCredentials sampleHost (clWorld s) = Inr c1
        \<and> a = accessFromCredentials c1 \<and> axAccessToken a \<noteq> ''old'')"
    using concurrent_refreshes_once [OF s(1,2) _ sample_stored _ ren] by blast
  have "failed = {}" using f(1) s(3) by (auto split: if_splits)
  then have "length (mcSent (clWorld s)) = 1" using f(2) s(4) by (cases "mcSent (clWorld s)") (auto simp: sampleMachine_def)
  moreover have "storedCredentials sampleHost (clWorld s) \<noteq> Inr oldCredentials"
  proof
    assume "storedCredentials sampleHost (clWorld s) = Inr oldCredentials"
    moreover obtain c1 where "storedCredentials sampleHost (clWorld s) = Inr c1" "axAccessToken (accessFromCredentials c1) \<noteq> ''old''"
      using f(3) p by metis
    ultimately show False by (simp add: accessFromCredentials_def oldCredentials_def)
  qed
  ultimately show ?thesis using p by blast
qed

end
