(* ===== verification/Login.thy ===== *)
theory Login
  imports Login_Callback Token_Machine
begin

text \<open>
  \<^verbatim>\<open>internal/auth/login.go\<close>: the login command's work, from the authorization URL to the stored credentials.
\<close>

section \<open>The browser\<close>

definition browserCommand :: "string \<Rightarrow> string \<Rightarrow> string list" where
  "browserCommand goos target =
     (if goos = ''darwin'' then [''open'', target]
      else if goos = ''windows'' then [''rundll32'', ''url.dll,FileProtocolHandler'', target]
      else [''xdg-open'', target])"

definition OpenBrowser :: "string \<Rightarrow> (string list \<Rightarrow> 'w \<Rightarrow> go_error option \<times> 'w) \<Rightarrow> string \<Rightarrow> 'w \<Rightarrow> go_error option \<times> 'w" where
  "OpenBrowser goos run target w =
     (if isBlank target then (Some (ErrNew ''open browser: URL is required''), w)
      else (case run (browserCommand goos target) w of
          (None, w1) \<Rightarrow> (None, w1)
        | (Some e, w1) \<Rightarrow> (Some (ErrWrap ''open browser: '' e), w1)))"

section \<open>Login\<close>

definition DefaultLoginTimeout :: int where
  "DefaultLoginTimeout = 5 * 60 * 1000000000"

text \<open>
  A listener is given or opened, which can fail. \<^verbatim>\<open>OpenURL\<close> and \<^verbatim>\<open>Now\<close> are the functions after the defaults
  (\<open>OpenBrowser\<close>, \<^verbatim>\<open>time.Now\<close>) have been filled in. The events of the callback server include the end of its
  context, which ends with the caller's or after the timeout.
\<close>

record 'w LoginOptions =
  loOAuth :: "OAuthClient option"
  loStore :: "'w StoreMethods option"
  loListener :: bool
  loListen :: "go_error option"
  loOpenURL :: "string \<Rightarrow> 'w \<Rightarrow> go_error option \<times> 'w"
  loTimeout :: int
  loNow :: "'w \<Rightarrow> time \<times> 'w"

definition loginTimeout :: "'w LoginOptions \<Rightarrow> int" where
  "loginTimeout options = (if loTimeout options \<le> 0 then DefaultLoginTimeout else loTimeout options)"

definition manualPrompt :: "string \<Rightarrow> string" where
  "manualPrompt url = ''Open this URL to continue login:'' @ [LF] @ url @ [LF]"

text \<open>The local secret of existing credentials is kept, so that configured clients stay configured.\<close>

definition localSecretFor :: "random \<Rightarrow> AuthCredentials result \<Rightarrow> string result" where
  "localSecretFor rand loaded =
     (case loaded of
        Inr existing \<Rightarrow> Inr (acLocalSecret existing)
      | Inl e \<Rightarrow> if errorsIs e ErrNotLoggedIn then newLocalSecret rand
          else Inl (ErrWrap ''load existing credentials: '' e))"

definition newCredentials :: "TokenResponse \<Rightarrow> string \<Rightarrow> string \<Rightarrow> time \<Rightarrow> AuthCredentials" where
  "newCredentials t accountID localSecret now =
     \<lparr>acVersion = CredentialsVersion, acAccessToken = tkAccessToken t, acRefreshToken = tkRefreshToken t,
      acExpiresAt = now + seconds (tkExpiresIn t), acAccountID = accountID, acLocalSecret = localSecret\<rparr>"

text \<open>After the code has arrived.\<close>

definition finishLogin :: "(string \<Rightarrow> authURL option) \<Rightarrow> 'w transport \<Rightarrow> random \<Rightarrow> 'w LoginOptions \<Rightarrow> OAuthClient \<Rightarrow>
    'w StoreMethods \<Rightarrow> string \<Rightarrow> string \<Rightarrow> 'w \<Rightarrow> AuthCredentials result \<times> 'w" where
  "finishLogin parse send rand options oauth store code verifier w =
     (case ExchangeCode parse send (Some oauth) code verifier w of
        (Inl e, w1) \<Rightarrow> (Inl e, w1)
      | (Inr token, w1) \<Rightarrow>
     (case AccountIDFromIDToken (tkIDToken token) of
        Inl e \<Rightarrow> (Inl (ErrWrap ''complete login: '' e), w1)
      | Inr accountID \<Rightarrow>
     (case smLoad store w1 of
        (loaded, w2) \<Rightarrow>
     (case localSecretFor rand loaded of
        Inl e \<Rightarrow> (Inl e, w2)
      | Inr localSecret \<Rightarrow>
     (case loNow options w2 of
        (now, w3) \<Rightarrow>
     (case smSave store (newCredentials token accountID localSecret now) w3 of
        (Some e, w4) \<Rightarrow> (Inl e, w4)
      | (None, w4) \<Rightarrow> (Inr (newCredentials token accountID localSecret now), w4)))))))"

text \<open>The result, what is written to the output, and the world; \<open>None\<close> while waiting for the callback.\<close>

definition Login :: "(string \<Rightarrow> authURL option) \<Rightarrow> 'w transport \<Rightarrow> random \<Rightarrow> random \<Rightarrow> random \<Rightarrow> 'w LoginOptions \<Rightarrow>
    callbackEvent list \<Rightarrow> 'w \<Rightarrow> (AuthCredentials result \<times> string \<times> 'w) option" where
  "Login parse send rand1 rand2 rand3 options events w =
     (case (loOAuth options, loStore options) of
        (Some oauth, Some store) \<Rightarrow>
     (case (if loListener options then None else loListen options) of
        Some e \<Rightarrow> Some (Inl (ErrWrap ''listen for OAuth callback: '' e), [], w)
      | None \<Rightarrow>
     (case BeginAuthorization parse rand1 rand2 (Some oauth) of
        Inl e \<Rightarrow> Some (Inl e, [], w)
      | Inr flow \<Rightarrow>
     (case loOpenURL options (afAuthorizationURL flow) w of
        (opened, w1) \<Rightarrow>
          let output = (if opened = None then [] else manualPrompt (afAuthorizationURL flow)) in
     (case WaitForCallback parse True (oaRedirectURI (clientConfig (Some oauth))) (afState flow) events of
        None \<Rightarrow> None
      | Some (Inl e) \<Rightarrow> Some (Inl e, output, w1)
      | Some (Inr code) \<Rightarrow>
          (case finishLogin parse send rand3 options oauth store code (afCodeVerifier flow) w1 of
             (r, w2) \<Rightarrow> Some (r, output, w2))))))
      | _ \<Rightarrow> Some (Inl (ErrNew ''login: OAuth client and credential store are required''), [], w))"

section \<open>What a login stores\<close>

text \<open>The options of a login on the machine, with the browser command and a listener on the default address.\<close>

definition machineSend :: "'n host \<Rightarrow> 'n machine transport" where
  "machineSend host r w =
     (case logging (hsSend host) r (mcSent w, mcNet w) of (x, log, n) \<Rightarrow> (x, w\<lparr>mcSent := log, mcNet := n\<rparr>))"

definition machineLogin :: "'n host \<Rightarrow> (string \<Rightarrow> go_error option) \<Rightarrow> go_error option \<Rightarrow> 'n machine LoginOptions" where
  "machineLogin host browser listen = \<lparr>loOAuth = Some (hsClient host), loStore = Some (machineStore host), loListener = False,
     loListen = listen, loOpenURL = (\<lambda>url w. (browser url, w)), loTimeout = 0, loNow = machineNow host\<rparr>"

text \<open>The steps of a login that succeeds.\<close>

record 'w loginTrail =
  ltFlow :: AuthorizationFlow
  ltCode :: string
  ltToken :: TokenResponse
  ltAccount :: string
  ltLoaded :: "AuthCredentials result"
  ltOpened :: "go_error option \<times> 'w"
  ltExchanged :: 'w
  ltRead :: 'w
  ltNow :: "time \<times> 'w"

definition trailOf :: "(string \<Rightarrow> authURL option) \<Rightarrow> 'w transport \<Rightarrow> random \<Rightarrow> random \<Rightarrow> random \<Rightarrow> 'w LoginOptions \<Rightarrow>
    callbackEvent list \<Rightarrow> 'w \<Rightarrow> AuthCredentials \<Rightarrow> 'w \<Rightarrow> OAuthClient \<Rightarrow> 'w StoreMethods \<Rightarrow> 'w loginTrail \<Rightarrow> bool" where
  "trailOf parse send rand1 rand2 rand3 options events w c w1 oauth store l \<longleftrightarrow>
     loOAuth options = Some oauth \<and> loStore options = Some store
     \<and> BeginAuthorization parse rand1 rand2 (Some oauth) = Inr (ltFlow l)
     \<and> loOpenURL options (afAuthorizationURL (ltFlow l)) w = ltOpened l
     \<and> WaitForCallback parse True (oaRedirectURI (ocConfig oauth)) (afState (ltFlow l)) events = Some (Inr (ltCode l))
     \<and> ExchangeCode parse send (Some oauth) (ltCode l) (afCodeVerifier (ltFlow l)) (snd (ltOpened l)) = (Inr (ltToken l), ltExchanged l)
     \<and> AccountIDFromIDToken (tkIDToken (ltToken l)) = Inr (ltAccount l)
     \<and> smLoad store (ltExchanged l) = (ltLoaded l, ltRead l)
     \<and> localSecretFor rand3 (ltLoaded l) = Inr (acLocalSecret c) \<and> loNow options (ltRead l) = ltNow l
     \<and> c = newCredentials (ltToken l) (ltAccount l) (acLocalSecret c) (fst (ltNow l))
     \<and> smSave store c (snd (ltNow l)) = (None, w1)"

lemma finish_steps:
  assumes "finishLogin parse send rand options oauth store code verifier w = (Inr c, w1)"
  obtains token account loaded u v now where
    "ExchangeCode parse send (Some oauth) code verifier w = (Inr token, u)"
    "AccountIDFromIDToken (tkIDToken token) = Inr account" "smLoad store u = (loaded, v)"
    "localSecretFor rand loaded = Inr (acLocalSecret c)" "loNow options v = now"
    "c = newCredentials token account (acLocalSecret c) (fst now)" "smSave store c (snd now) = (None, w1)"
proof -
  obtain x u where x: "ExchangeCode parse send (Some oauth) code verifier w = (x, u)"
    by (cases "ExchangeCode parse send (Some oauth) code verifier w")
  then obtain token where token: "x = Inr token" using assms by (cases x) (auto simp: finishLogin_def)
  then obtain account where account: "AccountIDFromIDToken (tkIDToken token) = Inr account"
    using assms x by (cases "AccountIDFromIDToken (tkIDToken token)") (auto simp: finishLogin_def)
  obtain loaded v where loaded: "smLoad store u = (loaded, v)" by (cases "smLoad store u")
  then obtain secret where secret: "localSecretFor rand loaded = Inr secret"
    using assms x token account by (cases "localSecretFor rand loaded") (auto simp: finishLogin_def)
  obtain n z where now: "loNow options v = (n, z)" by (cases "loNow options v")
  obtain e y where save: "smSave store (newCredentials token account secret n) z = (e, y)"
    by (cases "smSave store (newCredentials token account secret n) z")
  have "e = None \<and> y = w1 \<and> c = newCredentials token account secret n"
    using assms x token account loaded secret now save by (cases e) (auto simp: finishLogin_def)
  moreover from this have "acLocalSecret c = secret" by (simp add: newCredentials_def)
  ultimately show thesis using that x token account loaded secret now save by auto
qed

lemma login_trail:
  assumes "Login parse send rand1 rand2 rand3 options events w = Some (Inr c, output, w1)"
  obtains oauth store l where "trailOf parse send rand1 rand2 rand3 options events w c w1 oauth store l"
proof -
  obtain oauth store where o: "loOAuth options = Some oauth" "loStore options = Some store"
    using assms by (cases "loOAuth options"; cases "loStore options") (auto simp: Login_def)
  obtain flow where flow: "BeginAuthorization parse rand1 rand2 (Some oauth) = Inr flow"
    using assms o by (cases "BeginAuthorization parse rand1 rand2 (Some oauth)") (auto simp: Login_def split: option.splits if_splits)
  obtain opened w0 where opened: "loOpenURL options (afAuthorizationURL flow) w = (opened, w0)"
    by (cases "loOpenURL options (afAuthorizationURL flow) w")
  obtain x where wait: "WaitForCallback parse True (oaRedirectURI (ocConfig oauth)) (afState flow) events = Some x"
    using assms o flow opened
    by (cases "WaitForCallback parse True (oaRedirectURI (ocConfig oauth)) (afState flow) events")
      (auto simp: Login_def clientConfig_def Let_def split: option.splits if_splits)
  then obtain code where code: "x = Inr code"
    using assms o flow opened by (cases x) (auto simp: Login_def clientConfig_def Let_def split: option.splits if_splits)
  have "finishLogin parse send rand3 options oauth store code (afCodeVerifier flow) w0 = (Inr c, w1)"
    using assms o flow opened wait code
    by (auto simp: Login_def clientConfig_def Let_def split: option.splits if_splits prod.splits)
  then obtain token account loaded u v now where
    "ExchangeCode parse send (Some oauth) code (afCodeVerifier flow) w0 = (Inr token, u)"
    "AccountIDFromIDToken (tkIDToken token) = Inr account" "smLoad store u = (loaded, v)"
    "localSecretFor rand3 loaded = Inr (acLocalSecret c)" "loNow options v = now"
    "c = newCredentials token account (acLocalSecret c) (fst now)" "smSave store c (snd now) = (None, w1)"
    by (rule finish_steps)
  with o flow opened wait code that [of oauth store "\<lparr>ltFlow = flow, ltCode = code, ltToken = token, ltAccount = account,
      ltLoaded = loaded, ltOpened = (opened, w0), ltExchanged = u, ltRead = v, ltNow = now\<rparr>"]
  show thesis by (simp add: trailOf_def)
qed


text \<open>Failing system calls that do not claim that the file is absent.\<close>

definition honestFaults :: "faults \<Rightarrow> bool" where
  "honestFaults F \<longleftrightarrow> (\<forall>c e n. F c = Some (e, n) \<longrightarrow> \<not> errorsIs e OsNotExist \<and> \<not> errorsIs e ErrNotLoggedIn)"

lemma honestD: "honestFaults F \<Longrightarrow> F c = Some (e, n) \<Longrightarrow> \<not> errorsIs e OsNotExist \<and> \<not> errorsIs e ErrNotLoggedIn"
  by (auto simp: honestFaults_def)

lemma readValue_present: "readValue s IoEOF = Inl e \<Longrightarrow> \<not> errorsIs e ErrNotLoggedIn"
  by (auto simp: readValue_def split: option.splits if_splits)

lemma decode_present:
  assumes "decodeCredentials lax body = Inl e"
  shows "\<not> errorsIs e ErrNotLoggedIn"
proof -
  have "\<not> errorsIs d ErrNotLoggedIn" if "decodeStream zeroAuthCredentials (decCredentials lax) body IoEOF = Inl d" for d
    using that readValue_present by (auto simp: decodeStream_def split: sum.splits option.splits)
  moreover have "\<not> errorsIs d ErrNotLoggedIn" if "validateCredentials c = Some d" for c d
    using that by (auto simp: validateCredentials_def split: if_splits)
  ultimately show ?thesis
    using assms by (auto simp: decodeCredentials_def split: sum.splits option.splits if_splits prod.splits)
qed

lemma readFile_present:
  assumes "readFile F fs p = Inl e" "honestFaults F" "fs p = Some (Regular m b)"
  shows "\<not> errorsIs e ErrNotLoggedIn"
  using assms(1,3) honestD [OF assms(2)] by (auto simp: readFile_def stat_node split: option.splits)

lemma load_absent:
  assumes "Load F lax (Some st) fs fs = Inl e" "errorsIs e ErrNotLoggedIn" "honestFaults F"
  shows "Load noFaults lax (Some st) fs fs = Inl ErrNotLoggedIn"
proof (cases "F SysLstat")
  case (Some f)
  then obtain d n where "F SysLstat = Some (d, n)" by (cases f) auto
  with assms(1,2) honestD [OF assms(3)] have False by (auto simp: Load_def lstat_def)
  then show ?thesis ..
next
  case None
  show ?thesis
  proof (cases "fs (stPath st)")
    case None
    then show ?thesis by (simp add: Load_def lstat_def)
  next
    case (Some x)
    show ?thesis
    proof (cases x)
      case (Regular m b)
      with \<open>F SysLstat = None\<close> Some assms(1,2) readFile_present [OF _ assms(3), of fs "stPath st"] decode_present
      have False by (auto simp: Load_def lstat_def split: sum.splits if_splits)
      then show ?thesis ..
    qed (use \<open>F SysLstat = None\<close> Some assms(1,2) in \<open>auto simp: Load_def lstat_def\<close>)
  qed
qed

lemma postToken_machine:
  "postToken parse (machineSend host) cl form b w =
     (case postToken parse (logging (hsSend host)) cl form b (mcSent w, mcNet w) of
        (r, log, n) \<Rightarrow> (r, w\<lparr>mcSent := log, mcNet := n\<rparr>))"
  by (cases "hsSend host (tokenRequest (puString (the (parse (oaTokenURL (ocConfig (the cl)))))) form) (mcNet w)")
    (auto simp: postToken_def machineSend_def logging_def split: option.split sum.split)

lemma ExchangeCode_machine:
  assumes "ExchangeCode parse (machineSend host) (Some cl) code verifier w = (Inr t, u)"
  shows "\<exists>log n. u = w\<lparr>mcSent := log, mcNet := n\<rparr> \<and> length log = Suc (length (mcSent w))"
proof -
  obtain form where post: "postToken parse (machineSend host) (Some cl) form True w = (Inr t, u)"
    using assms by (auto simp: ExchangeCode_def split: if_splits)
  obtain r log n where log: "postToken parse (logging (hsSend host)) (Some cl) form True (mcSent w, mcNet w) = (r, log, n)"
    by (cases "postToken parse (logging (hsSend host)) (Some cl) form True (mcSent w, mcNet w)") auto
  then have r: "r = Inr t" "u = w\<lparr>mcSent := log, mcNet := n\<rparr>" using post by (simp_all add: postToken_machine)
  have "length log = Suc (length (mcSent w))" using postToken_log(1,3) [OF log] r(1) by auto
  with r(2) show ?thesis by blast
qed

lemma login_valid:
  assumes "Login (hsParse host) (machineSend host) rand1 rand2 rand3 (machineLogin host browser listen) events w
      = Some (Inr c, output, w1)"
  shows "validateCredentials c = None"
proof -
  obtain oauth store l where t: "trailOf (hsParse host) (machineSend host) rand1 rand2 rand3 (machineLogin host browser listen)
      events w c w1 oauth store l"
    using login_trail [OF assms(1)] by blast
  then have "smSave (tmStore (machineManager host)) c (snd (ltNow l)) = (None, w1)"
    by (auto simp: trailOf_def machineLogin_def machineManager_def)
  then show ?thesis by (rule tokens.save_valid)
qed

lemma login_outcome:
  assumes "Login (hsParse host) (machineSend host) rand1 rand2 rand3 (machineLogin host browser listen) events w
      = Some (Inr c, output, w1)"
    "saveable (hsZone host) c" "\<forall>n. honestFaults (mcFaults w n)"
  shows "storedCredentials host w1 = Inr c \<and> validateCredentials c = None \<and> length (mcSent w1) = Suc (length (mcSent w))
     \<and> (\<exists>flow q. BeginAuthorization (hsParse host) rand1 rand2 (Some (hsClient host)) = Inr flow \<and> firstGet events = Some q
          \<and> valuesGet ''state'' (parseQuery q) = afState flow)
     \<and> (\<forall>old. storedCredentials host w = Inr old \<longrightarrow> acLocalSecret c = acLocalSecret old)
     \<and> (storedCredentials host w = Inl ErrNotLoggedIn \<longrightarrow> (\<exists>bs. rand3 32 = Inr bs \<and> acLocalSecret c = base64Encode bs))"
proof -
  let ?m = "machineManager host"
  obtain oauth store l where t: "trailOf (hsParse host) (machineSend host) rand1 rand2 rand3 (machineLogin host browser listen)
      events w c w1 oauth store l"
    using login_trail [OF assms(1)] by blast
  have o: "oauth = hsClient host" "store = machineStore host" "snd (ltOpened l) = w"
    using t by (auto simp: trailOf_def machineLogin_def prod_eq_iff)
  define u v z where uvz: "u = ltExchanged l" "v = ltRead l" "z = snd (ltNow l)"
  have "ExchangeCode (hsParse host) (machineSend host) (Some (hsClient host)) (ltCode l) (afCodeVerifier (ltFlow l)) w
      = (Inr (ltToken l), u)"
    using t o uvz by (simp add: trailOf_def)
  then obtain log n where ex: "u = w\<lparr>mcSent := log, mcNet := n\<rparr>" "length log = Suc (length (mcSent w))"
    using ExchangeCode_machine by blast
  have load: "smLoad (tmStore ?m) u = (ltLoaded l, v)" and now: "tmNow ?m v = ltNow l" and save: "smSave (tmStore ?m) c z = (None, w1)"
    using t o by (simp_all add: trailOf_def machineManager_def machineLogin_def uvz)
  have u: "storedCredentials host u = storedCredentials host w" "mcFaults u = mcFaults w" "length (mcSent u) = Suc (length (mcSent w))"
    using ex by (simp_all add: storedCredentials_def)
  note ld = tokens.load_stored [OF load]
  have z: "length (mcSent z) = length (mcSent v)" using tokens.now_stored [of host v "fst (ltNow l)" z] now by (simp add: uvz)
  note sv = tokens.save_stored [OF save assms(2)]
  have secret: "localSecretFor rand3 (ltLoaded l) = Inr (acLocalSecret c)" using t by (simp add: trailOf_def)
  have wait: "WaitForCallback (hsParse host) True (oaRedirectURI (ocConfig oauth)) (afState (ltFlow l)) events = Some (Inr (ltCode l))"
    "BeginAuthorization (hsParse host) rand1 rand2 (Some (hsClient host)) = Inr (ltFlow l)"
    using t o by (simp_all add: trailOf_def)
  obtain q where q: "firstGet events = Some q" "valuesGet ''state'' (parseQuery q) = afState (ltFlow l)"
    using callback_state [OF wait(1)] by blast
  have loaded: "ltLoaded l = Load (mcFaults w (mcCount u)) (hsLaxTime host) (Some (hostStore host)) (mcFiles u) (mcFiles u)"
    using load u(2) by (simp add: machineManager_def machineStore_def)
  have old: "acLocalSecret c = acLocalSecret k" if "storedCredentials host w = Inr k" for k
  proof (cases "ltLoaded l")
    case (Inl e)
    then have "errorsIs e ErrNotLoggedIn" using secret by (auto simp: localSecretFor_def split: if_splits)
    from load_absent [OF loaded [symmetric, unfolded Inl] this] assms(3) that u(1) show ?thesis
      by (simp add: storedCredentials_def)
  next
    case (Inr d)
    with ld u(1) that have "d = k" by auto
    with secret Inr show ?thesis by (simp add: localSecretFor_def)
  qed
  have fresh: "\<exists>bs. rand3 32 = Inr bs \<and> acLocalSecret c = base64Encode bs" if "storedCredentials host w = Inl ErrNotLoggedIn"
  proof (cases "ltLoaded l")
    case (Inl e)
    then show ?thesis using secret by (auto simp: localSecretFor_def newLocalSecret_def split: if_splits sum.splits)
  next
    case (Inr d)
    with ld u(1) that show ?thesis by auto
  qed
  have "storedCredentials host w1 = Inr c" using sv by simp
  moreover have "validateCredentials c = None" by (rule tokens.save_valid [OF save])
  moreover have "length (mcSent w1) = Suc (length (mcSent w))" using sv z ld u(3) by simp
  ultimately show ?thesis using wait(2) q old fresh by blast
qed

text \<open>
  C36: What a login stores. A login that reports success has sent one request more, for a callback whose first \<^verbatim>\<open>GET\<close>
  carried the state of its own flow; the returned credentials are valid and are what is stored; and the local
  secret is the one of the credentials stored before, or 32 fresh random bytes if there were none. This holds
  for every order of the callback's events and every failing system call that does not feign absence.
\<close>

theorem login_stores:
  assumes "Login (hsParse host) (machineSend host) rand1 rand2 rand3 (machineLogin host browser listen) events w
      = Some (Inr c, output, w1)"
    "saveable (hsZone host) c" "\<forall>n. honestFaults (mcFaults w n)"
  shows "storedCredentials host w1 = Inr c \<and> validateCredentials c = None \<and> length (mcSent w1) = Suc (length (mcSent w))
     \<and> (\<exists>flow q. BeginAuthorization (hsParse host) rand1 rand2 (Some (hsClient host)) = Inr flow \<and> firstGet events = Some q
          \<and> valuesGet ''state'' (parseQuery q) = afState flow)
     \<and> (\<forall>old. storedCredentials host w = Inr old \<longrightarrow> acLocalSecret c = acLocalSecret old)
     \<and> (storedCredentials host w = Inl ErrNotLoggedIn \<longrightarrow> (\<exists>bs. rand3 32 = Inr bs \<and> acLocalSecret c = base64Encode bs))"
  by (rule login_outcome [OF assms])


section \<open>A sample login\<close>

definition loginText :: string where
  \<open>loginText = ''{"access_token":"at","refresh_token":"rt","expires_in":3600,"id_token":"e30.eyJodHRwczovL2FwaS5vcGVuYWkuY29tL2F1dGgiOnsiY2hhdGdwdF9hY2NvdW50X2lkIjoiYWNjdCJ9fQ.s"}''\<close>

definition loginHost :: "unit host" where
  "loginHost = sampleHost\<lparr>hsSend := (\<lambda>r w. (Inr \<lparr>hrStatus = 200, hrHeader = [], hrBody = loginText, hrEnd = IoEOF\<rparr>, w))\<rparr>"

definition loginEvents :: "callbackEvent list" where
  "loginEvents = [CallbackRequest ''GET'' (''state='' @ hexString (replicate 32 (CHR 0x07)) @ ''&code=c''), PickResult]"

definition loginToken :: TokenResponse where
  "loginToken = \<lparr>tkAccessToken = ''at'', tkRefreshToken = ''rt'', tkIDToken = ''e30.eyJodHRwczovL2FwaS5vcGVuYWkuY29tL2F1dGgiOnsiY2hhdGdwdF9hY2NvdW50X2lkIjoiYWNjdCJ9fQ.s'',
     tkTokenType = [], tkExpiresIn = 3600, tkScope = []\<rparr>"

lemma login_token: "checkToken True loginText = Inr loginToken"
  by code_simp

lemma login_length: "length loginText < 1000"
  by code_simp

lemma login_account: "AccountIDFromIDToken (tkIDToken loginToken) = Inr ''acct''"
proof -
  have "tkIDToken loginToken = ''e30'' @ ''.'' @ base64Encode (claimsText [] ''acct'') @ ''.'' @ ''s''"
    "trimSpace ''acct'' = ''acct''" "utf8_valid ''acct''" by code_simp+
  then show ?thesis using account_of_payload [of "''e30''" "''s''" "''acct''" "[]"] by (simp add: isBlank_def)
qed

lemma loginHost_sel: "hsParse loginHost = sampleParse" "hsClient loginHost = sampleClient" "hsClock loginHost = (\<lambda>n. 1767222000123000000)"
  "hsZone loginHost = (\<lambda>t. 7200)" "hsTempNames loginHost = [''1'']" "hsLaxTime loginHost = (\<lambda>s. None)"
  "hostStore loginHost = \<lparr>stPath = ''/c/credentials.json''\<rparr>"
  by (simp_all add: loginHost_def sampleHost_def hostStore_def)

lemma callback_direct:
  assumes "validateCallback q expected = Inr code" "\<not> isBlank expected"
  shows "WaitForCallback sampleParse True uri expected [CallbackRequest ''GET'' q, PickResult] = Some (Inr code)"
  using assms
  by (simp add: WaitForCallback_def sampleParse_def runCallback_def startServer_def serveCallback_def sendAnswer_def returning_def)

lemma login_callback: "WaitForCallback sampleParse True uri (hexString (replicate 32 (CHR 0x07))) loginEvents = Some (Inr ''c'')"
  unfolding loginEvents_def by (rule callback_direct) code_simp+

lemma login_flow:
  obtains url challenge where "BeginAuthorization sampleParse sampleRandom sampleRandom (Some sampleClient)
     = Inr \<lparr>afState = hexString (replicate 32 (CHR 0x07)), afCodeVerifier = hexString (replicate 64 (CHR 0x07)),
         afCodeChallenge = challenge, afAuthorizationURL = url\<rparr>"
  by (simp add: BeginAuthorization_def randomHex_def sampleRandom_def sampleParse_def Let_def)

lemma login_exchange:
  fixes w :: "unit machine"
  obtains log where "ExchangeCode sampleParse (machineSend loginHost) (Some sampleClient) ''c'' (hexString (replicate 64 (CHR 0x07))) w
     = (Inr loginToken, w\<lparr>mcSent := log\<rparr>)"
proof -
  have "\<not> isBlank ''c''" "\<not> isBlank (hexString (replicate 64 (CHR 0x07)))" by code_simp+
  then have "\<exists>log. ExchangeCode sampleParse (machineSend loginHost) (Some sampleClient) ''c'' (hexString (replicate 64 (CHR 0x07))) w
     = (Inr loginToken, w\<lparr>mcSent := log, mcNet := ()\<rparr>)"
    using login_token login_length
    by (simp add: ExchangeCode_def postToken_def sampleParse_def machineSend_def logging_def loginHost_def readLimited_def
        maxTokenResponseBytes_def) blast
  moreover have "w\<lparr>mcSent := log, mcNet := ()\<rparr> = w\<lparr>mcSent := log\<rparr>" for log by (cases w) simp
  ultimately show thesis using that by metis
qed

lemma login_succeeds:
  "\<exists>w1. Login (hsParse loginHost) (machineSend loginHost) sampleRandom sampleRandom sampleRandom
     (machineLogin loginHost (\<lambda>url. None) None) loginEvents sampleMachine = Some (Inr sampleCredentials, [], w1)"
proof -
  obtain url challenge where flow: "BeginAuthorization sampleParse sampleRandom sampleRandom (Some sampleClient)
     = Inr \<lparr>afState = hexString (replicate 32 (CHR 0x07)), afCodeVerifier = hexString (replicate 64 (CHR 0x07)),
         afCodeChallenge = challenge, afAuthorizationURL = url\<rparr>"
    using login_flow .
  obtain log where exchange: "ExchangeCode sampleParse (machineSend loginHost) (Some sampleClient) ''c''
      (hexString (replicate 64 (CHR 0x07))) sampleMachine = (Inr loginToken, sampleMachine\<lparr>mcSent := log\<rparr>)"
    using login_exchange .
  let ?u = "sampleMachine\<lparr>mcSent := log\<rparr>"
  have load: "smLoad (machineStore loginHost) ?u = (Inr oldCredentials, tick ?u)"
    using sample_stored
    by (simp add: machineStore_def storedCredentials_def loginHost_sel) (simp add: sampleMachine_def sampleHost_def hostStore_def)
  have c: "newCredentials loginToken ''acct'' ''s'' 1767222000123000000 = sampleCredentials"
    by (simp add: newCredentials_def loginToken_def CredentialsVersion_def seconds_def in_i64_def sampleCredentials_def)
  have secret: "localSecretFor sampleRandom (Inr oldCredentials) = Inr ''s''"
    by (simp add: localSecretFor_def oldCredentials_def sampleCredentials_def)
  obtain h where save: "Save noFaults (\<lambda>t. 7200) [''1''] (Some \<lparr>stPath = ''/c/credentials.json''\<rparr>) sampleCredentials
     [mcFiles sampleMachine] = (None, h)"
    using sample_save unfolding sampleMachine_def machine.select_convs by blast
  have "finishLogin sampleParse (machineSend loginHost) sampleRandom (machineLogin loginHost (\<lambda>url. None) None) sampleClient
      (machineStore loginHost) ''c'' (hexString (replicate 64 (CHR 0x07))) sampleMachine
      = (Inr sampleCredentials, (tick (tick (tick ?u)))\<lparr>mcFiles := hd h\<rparr>)"
    using save
    by (simp add: finishLogin_def exchange login_account load secret machineLogin_def machineNow_def loginHost_sel c)
      (simp add: machineStore_def loginHost_sel tick_def sampleMachine_def c)
  then show ?thesis
    using flow login_callback
    by (simp add: Login_def machineLogin_def loginHost_sel clientConfig_def)
qed

lemma login_stores_witness:
  "\<exists>w1. Login (hsParse loginHost) (machineSend loginHost) sampleRandom sampleRandom sampleRandom
     (machineLogin loginHost (\<lambda>url. None) None) loginEvents sampleMachine = Some (Inr sampleCredentials, [], w1)
     \<and> storedCredentials loginHost w1 = Inr sampleCredentials \<and> length (mcSent w1) = 1"
proof -
  obtain w1 where l: "Login (hsParse loginHost) (machineSend loginHost) sampleRandom sampleRandom sampleRandom
     (machineLogin loginHost (\<lambda>url. None) None) loginEvents sampleMachine = Some (Inr sampleCredentials, [], w1)"
    using login_succeeds by blast
  have "saveable (hsZone loginHost) sampleCredentials" using sample_saveable by (simp add: loginHost_def sampleHost_def)
  moreover have "\<forall>n. honestFaults (mcFaults sampleMachine n)" by (simp add: honestFaults_def sampleMachine_def)
  ultimately have "storedCredentials loginHost w1 = Inr sampleCredentials \<and> length (mcSent w1) = Suc (length (mcSent sampleMachine))"
    using login_stores [OF l] by blast
  with l show ?thesis by (auto simp: sampleMachine_def)
qed

end
