(* ===== verification/Adapter_Main.thy ===== *)
theory Adapter_Main
  imports Login Server_Routes
begin

text \<open>
  \<^verbatim>\<open>internal/config/config.go\<close> and the commands of \<^verbatim>\<open>cmd/cc-gpt-adapter/main.go\<close>: where the credentials are, and how
  the commands put the other parts together.
\<close>

section \<open>Configuration\<close>

definition DefaultUpstreamModel :: string where
  "DefaultUpstreamModel = ''gpt-5.6-sol''"

definition ConfigDirEnvironment :: string where
  "ConfigDirEnvironment = ''CC_GPT_ADAPTER_CONFIG_DIR''"

definition CredentialsFilename :: string where
  "CredentialsFilename = ''credentials.json''"

record Config =
  cfListenAddress :: string
  cfUpstreamModel :: string

definition Default :: Config where
  "Default = \<lparr>cfListenAddress = DefaultListenAddress, cfUpstreamModel = DefaultUpstreamModel\<rparr>"

text \<open>The environment and the user's configuration directory are arguments.\<close>

definition CredentialsPath :: "(string \<Rightarrow> string) \<Rightarrow> string result \<Rightarrow> string result" where
  "CredentialsPath env userConfigDir =
     (let override = trimSpace (env ConfigDirEnvironment) in
      if override \<noteq> [] then Inr (joinPath [override, CredentialsFilename])
      else (case userConfigDir of
          Inl e \<Rightarrow> Inl e
        | Inr base \<Rightarrow>
            if isBlank base then Inl (ErrNew ''user configuration directory is empty'')
            else Inr (joinPath [base, ''cc-gpt-adapter'', CredentialsFilename])))"

section \<open>Times for the user\<close>

definition yearText :: "int \<Rightarrow> string" where
  "yearText y = (if y < 0 then ''-'' else []) @ (if \<bar>y\<bar> < 10000 then padded 4 (nat \<bar>y\<bar>) else show_nat (nat \<bar>y\<bar>))"

text \<open>The calendar repeats every 400 years; years before 0 are shifted by as many cycles as needed.\<close>

definition cycleSeconds :: int where
  "cycleSeconds = 146097 * 86400"

definition formatUTC :: "time \<Rightarrow> string" where
  "formatUTC t =
     (let s = t div 1000000000 + unixToYear0; k = (if s < 0 then - s div cycleSeconds + 1 else 0);
          c = civilOf (nat (s + k * cycleSeconds)) in
      yearText (int (cvYear c) - 400 * k) @ drop 4 (civilText (c\<lparr>cvYear := 0\<rparr>)) @ ''Z'')"

section \<open>The commands\<close>

text \<open>What the commands find outside of the adapter; the callback's events and the browser belong to a login.\<close>

record 'n setting =
  sgEnv :: "string \<Rightarrow> string"
  sgConfigDir :: "string result"
  sgWorkingDir :: "string result"
  sgHost :: "'n host"
  sgOrder :: "(string \<times> string) list \<Rightarrow> (string \<times> string) list"
  sgRandom :: "random \<times> random \<times> random"
  sgBrowser :: "string \<Rightarrow> go_error option"
  sgListenCallback :: "go_error option"
  sgEvents :: "callbackEvent list"
  sgUpstream :: "'n transport"
  sgListen :: "string \<Rightarrow> go_error option"
  sgAccept :: "(Client \<times> 'n machine) Handler HTTPServer \<Rightarrow> go_error"
  sgQuote :: "string \<Rightarrow> string"

type_synonym 'n outcome = "go_error option \<times> string \<times> 'n machine"

text \<open>The host with the store and the OAuth client the command has made.\<close>

definition hostWith :: "Store \<Rightarrow> OAuthClient \<Rightarrow> 'n setting \<Rightarrow> 'n host" where
  "hostWith store client setting = (sgHost setting)\<lparr>hsClient := client,
     hsDirectory := take (length (stPath store) - length ''/credentials.json'') (stPath store)\<rparr>"

definition loadNow :: "'n setting \<Rightarrow> Store \<Rightarrow> 'n machine \<Rightarrow> AuthCredentials result" where
  "loadNow setting store w =
     Load (mcFaults w (mcCount w)) (hsLaxTime (sgHost setting)) (Some store) (mcFiles w) (mcFiles w)"

definition newClient :: "'n setting \<Rightarrow> OAuthClient result" where
  "newClient setting = NewOAuthClient (sgOrder setting) (hsParse (sgHost setting)) DefaultOAuthConfig"

definition runLogin :: "'n setting \<Rightarrow> Store \<Rightarrow> 'n machine \<Rightarrow> 'n outcome option" where
  "runLogin setting store w =
     (case newClient setting of
        Inl e \<Rightarrow> Some (Some e, [], w)
      | Inr client \<Rightarrow>
          let host = hostWith store client setting; (r1, r2, r3) = sgRandom setting in
          (case Login (hsParse host) (machineSend host) r1 r2 r3 (machineLogin host (sgBrowser setting) (sgListenCallback setting))
             (sgEvents setting) w of
             None \<Rightarrow> None
           | Some (Inl e, out, w1) \<Rightarrow> Some (Some e, out, w1)
           | Some (Inr c, out, w1) \<Rightarrow>
               Some (None, out @ ''Login complete for account '' @ acAccountID c @ ''.'' @ [LF], w1)))"

definition runStatus :: "'n setting \<Rightarrow> Store \<Rightarrow> 'n machine \<Rightarrow> 'n outcome" where
  "runStatus setting store w =
     (case loadNow setting store w of
        Inl e \<Rightarrow> if errorsIs e ErrNotLoggedIn then (None, ''Not logged in.'' @ [LF], tick w) else (Some e, [], tick w)
      | Inr c \<Rightarrow> (None, ''Logged in as '' @ acAccountID c @ ''. Token expires at '' @ formatUTC (acExpiresAt c) @ ''.'' @ [LF], tick w))"

definition runLogout :: "Store \<Rightarrow> 'n machine \<Rightarrow> 'n outcome" where
  "runLogout store w =
     (case Delete (mcFaults w (mcCount w)) (Some store) [mcFiles w] of
        (e, h) \<Rightarrow> (e, if e = None then ''Logged out; local credentials removed.'' @ [LF] else [], (tick w)\<lparr>mcFiles := hd h\<rparr>))"

text \<open>The token manager and the upstream client as the server holds them, each acting on its part of the world.\<close>

definition serveTokens :: "'n machine TokenManager \<Rightarrow> (Client \<times> 'n machine) TokenProvider" where
  "serveTokens manager = \<lparr>
     tpGetValidToken = (\<lambda>(cl, w). case GetValidToken (Some manager) w of (r, w1) \<Rightarrow> (r, (cl, w1))),
     tpForceRefresh = (\<lambda>t (cl, w). case ForceRefresh (Some manager) t w of (r, w1) \<Rightarrow> (r, (cl, w1)))\<rparr>"

definition serveUpstream :: "'n host \<Rightarrow> 'n transport \<Rightarrow> (Client \<times> 'n machine) Upstream" where
  "serveUpstream host send body credentials session s =
     (let now = hsClock host (mcCount (snd s)) in
      Do (\<lambda>r w. case send r (mcNet w) of (x, n) \<Rightarrow> (x, w\<lparr>mcNet := n\<rparr>)) now now body credentials session s)"

definition serveHandler :: "'n setting \<Rightarrow> Store \<Rightarrow> AuthCredentials \<Rightarrow> ((Client \<times> 'n machine) Handler \<times> Client) result" where
  "serveHandler setting store c =
     (case newClient setting of
        Inl e \<Rightarrow> Inl e
      | Inr oauth \<Rightarrow>
          let host = hostWith store oauth setting in
     (case NewTokenManager (machineNow host) (Some (machineStore host)) (Some (machineRefresh host)) of
        Inl e \<Rightarrow> Inl e
      | Inr manager \<Rightarrow>
     (case NewClient (\<lambda>s. map_option parsedURL.truncate (hsParse host s)) DefaultEndpoint None of
        Inl e \<Rightarrow> Inl e
      | Inr client \<Rightarrow>
     (case NewHandler \<lparr>scLocalSecret = acLocalSecret c, scTokens = Some (serveTokens manager),
         scUpstream = Some (serveUpstream host (sgUpstream setting)), scMaxRequestBytes = 0, scSSEIdleTimeout = 0,
         scMaxSSEEventBytes = 0\<rparr> of
        Inl e \<Rightarrow> Inl e
      | Inr handler \<Rightarrow> Inr (handler, client)))))"

definition runServe :: "'n setting \<Rightarrow> Store \<Rightarrow> 'n machine \<Rightarrow> 'n outcome" where
  "runServe setting store w =
     (case loadNow setting store w of
        Inl e \<Rightarrow> (Some (ErrWrap ''load credentials for serve: '' e), [], tick w)
      | Inr c \<Rightarrow> (case serveHandler setting store c of
          Inl e \<Rightarrow> (Some e, [], tick w)
        | Inr (handler, client) \<Rightarrow>
            (Serve (sgListen setting) (sgAccept setting) DefaultListenAddress (Some handler),
             ''Listening on http://'' @ DefaultListenAddress @ [LF], tick w)))"

definition usageText :: string where
  "usageText = ''usage: cc-gpt-adapter <login|serve|status|logout>''"

text \<open>\<^verbatim>\<open>None\<close> while a login waits for its callback. The world a serving adapter goes through is not followed here.\<close>

definition run :: "'n setting \<Rightarrow> string list \<Rightarrow> 'n machine \<Rightarrow> 'n outcome option" where
  "run setting arguments w =
     (case arguments of
        [command] \<Rightarrow>
          (case CredentialsPath (sgEnv setting) (sgConfigDir setting) of
             Inl e \<Rightarrow> Some (Some (ErrWrap ''resolve credential path: '' e), [], w)
           | Inr path \<Rightarrow> (case NewStore (sgWorkingDir setting) path of
               Inl e \<Rightarrow> Some (Some e, [], w)
             | Inr store \<Rightarrow>
                 if command = ''login'' then runLogin setting store w
                 else if command = ''status'' then Some (runStatus setting store w)
                 else if command = ''logout'' then Some (runLogout store w)
                 else if command = ''serve'' then Some (runServe setting store w)
                 else Some (Some (ErrNew (''unknown command '' @ sgQuote setting command @ ''; '' @ usageText)), [], w)))
      | _ \<Rightarrow> Some (Some (ErrNew usageText), [], w))"

text \<open>The exit status, what is written to standard output and to standard error; \<open>opaque\<close> gives the texts of library errors.\<close>

definition mainProgram :: "(go_error \<Rightarrow> string) \<Rightarrow> 'n setting \<Rightarrow> string list \<Rightarrow> 'n machine \<Rightarrow>
    (nat \<times> string \<times> string \<times> 'n machine) option" where
  "mainProgram opaque setting arguments w =
     (case run setting arguments w of
        None \<Rightarrow> None
      | Some (None, output, w1) \<Rightarrow> Some (0, output, [], w1)
      | Some (Some e, output, w1) \<Rightarrow>
          Some (1, output, ''cc-gpt-adapter: '' @ errorText (sgQuote setting) opaque e @ [LF], w1))"

end
