(* ===== verification/Commands.thy ===== *)
theory Commands
  imports Adapter_Main Handler_Properties
begin

text \<open>
  What the commands promise to each other: a login can be followed by a status and a serve command, which find its
  credentials, and a logout ends that.
\<close>

section \<open>The path of the credentials\<close>

lemma splitOn_last: "x \<notin> set n \<Longrightarrow> splitOn x (p @ x # n) = splitOn x p @ [n]"
proof -
  assume n: "x \<notin> set n"
  have one: "splitOn x n = [n]" using n by (induction n) auto
  have "splitOn x (p @ x # n) = splitOn x p @ [n] \<and> splitOn x p \<noteq> []"
    using one by (induction p) (auto split: list.split)
  then show ?thesis ..
qed

lemma splitOn_single: "x \<notin> set n \<Longrightarrow> splitOn x n = [n]"
  by (induction n) auto

lemma cleanNames_last: "n \<notin> {[], ''.'', ''..''} \<Longrightarrow> cleanNames rooted kept (ws @ [n]) = cleanNames rooted kept ws @ [n]"
  by (induction rooted kept ws rule: cleanNames.induct) (auto simp del: char.simps)

lemma joinWith_last: "joinWith sep (ws @ [n]) = (if ws = [] then n else joinWith sep ws @ sep @ n)"
  by (induction sep ws rule: joinWith.induct) auto

text \<open>Paths that end in the given name.\<close>

definition endsIn :: "string \<Rightarrow> string \<Rightarrow> bool" where
  "endsIn n p \<longleftrightarrow> p = n \<or> (\<exists>d. p = d @ ''/'' @ n)"

definition plainName :: "string \<Rightarrow> bool" where
  "plainName n \<longleftrightarrow> CHR ''/'' \<notin> set n \<and> n \<notin> {[], ''.'', ''..''}"

lemma endsIn_split: "plainName n \<Longrightarrow> endsIn n p \<Longrightarrow> \<exists>ws. splitOn (CHR ''/'') p = ws @ [n]"
  using splitOn_single splitOn_last by (fastforce simp: endsIn_def plainName_def)

lemma endsIn_clean:
  assumes "plainName n" "endsIn n p"
  shows "endsIn n (cleanPath p)" "hasPrefix p ''/'' \<Longrightarrow> \<exists>d. cleanPath p = d @ ''/'' @ n"
proof -
  obtain ws where "splitOn (CHR ''/'') p = ws @ [n]" using endsIn_split [OF assms] by blast
  then have c: "cleanPath p = (if hasPrefix p ''/'' then ''/'' else []) @
      (let vs = cleanNames (hasPrefix p ''/'') [] ws in if vs = [] then n else joinWith ''/'' vs @ ''/'' @ n)"
    using assms(1) by (simp add: cleanPath_def cleanNames_last plainName_def joinWith_last Let_def)
  show "endsIn n (cleanPath p)" unfolding c endsIn_def Let_def by simp
  show "hasPrefix p ''/'' \<Longrightarrow> \<exists>d. cleanPath p = d @ ''/'' @ n" unfolding c Let_def by auto
qed

lemma endsIn_join:
  assumes "plainName n" "d \<noteq> []" "endsIn n p"
  shows "endsIn n (joinPath [d, p])" "hasPrefix d ''/'' \<Longrightarrow> \<exists>q. joinPath [d, p] = q @ ''/'' @ n"
proof -
  have p: "p \<noteq> []" using assms(1,3) by (auto simp: endsIn_def plainName_def)
  have j: "joinPath [d, p] = cleanPath (d @ ''/'' @ p)" using assms(2) p by (simp add: joinPath_def)
  have "endsIn n (d @ ''/'' @ p)" using assms(3) unfolding endsIn_def by (metis append.assoc)
  note c = endsIn_clean [OF assms(1) this]
  show "endsIn n (joinPath [d, p])" unfolding j by (rule c(1))
  assume "hasPrefix d ''/''"
  then have "hasPrefix (d @ ''/'' @ p) ''/''" by (rule hasPrefix_mono)
  from c(2) [OF this] show "\<exists>q. joinPath [d, p] = q @ ''/'' @ n" unfolding j .
qed

lemma stripOne_short:
  "stripOne ws (q @ r) = Some t \<Longrightarrow> r \<noteq> [] \<Longrightarrow> \<forall>w\<in>set ws. hd r \<notin> set w \<Longrightarrow> \<exists>u. t = u @ r \<and> length u < length q"
proof (induction ws)
  case (Cons w ws)
  show ?case
  proof (cases "w \<noteq> [] \<and> hasPrefix (q @ r) w")
    case True
    then have t: "t = drop (length w) (q @ r)" using Cons.prems(1) by simp
    have "length w \<le> length q"
    proof (rule ccontr)
      assume "\<not> length w \<le> length q"
      moreover obtain z where "q @ r = w @ z" using True by (auto simp: hasPrefix_iff)
      ultimately have "(q @ r) ! length q \<in> set w" by (metis not_le nth_append nth_mem)
      then show False using Cons.prems(2,3) by (simp add: hd_conv_nth nth_append)
    qed
    then have "t = drop (length w) q @ r" using t by simp
    moreover have "length (drop (length w) q) < length q" using True \<open>length w \<le> length q\<close> by (cases w) auto
    ultimately show ?thesis by blast
  next
    case False
    then have "stripOne ws (q @ r) = Some t" using Cons.prems(1) by (auto split: if_splits)
    then show ?thesis using Cons.IH Cons.prems(2,3) by simp
  qed
qed simp

lemma trimLeft_stops: "r \<noteq> [] \<Longrightarrow> \<forall>w\<in>set ws. hd r \<notin> set w \<Longrightarrow> \<exists>u. trimLeft ws (q @ r) = u @ r"
proof (induction "length q" arbitrary: q rule: less_induct)
  case less
  show ?case
  proof (cases "stripOne ws (q @ r)")
    case None
    then show ?thesis by auto
  next
    case (Some t)
    then obtain u where "t = u @ r" "length u < length q" using stripOne_short less.prems by blast
    then show ?thesis using Some less.hyps [of u] less.prems by simp
  qed
qed

lemma endsIn_trim:
  assumes "endsIn ''credentials.json'' p"
  shows "endsIn ''credentials.json'' (trimSpace p)"
proof -
  let ?n = "''credentials.json''"
  have ascii: "\<forall>w\<in>set space_runes. CHR ''/'' \<notin> set w \<and> CHR ''c'' \<notin> set w"
    "\<forall>w\<in>set (map rev space_runes). CHR ''n'' \<notin> set w" by code_simp+
  have "\<exists>u. trimLeft space_runes p = u @ ?n \<and> (u = [] \<or> (\<exists>d. u = d @ ''/''))"
    using assms
  proof (unfold endsIn_def, elim disjE exE)
    assume p: "p = ?n"
    have "\<exists>u. trimLeft space_runes ([] @ ?n) = u @ ?n" by (rule trimLeft_stops) (use ascii in auto)
    then obtain u where u: "trimLeft space_runes p = u @ ?n" using p by auto
    moreover have "length (trimLeft space_runes p) \<le> length p" by (rule suffix_length_le [OF trimLeft_suffix])
    ultimately show ?thesis using p by simp
  next
    fix d assume p: "p = d @ ''/'' @ ?n"
    have "\<exists>u. trimLeft space_runes (d @ (''/'' @ ?n)) = u @ ''/'' @ ?n" by (rule trimLeft_stops) (use ascii in auto)
    then show ?thesis using p by auto
  qed
  then obtain u where u: "trimLeft space_runes p = u @ ?n" "u = [] \<or> (\<exists>d. u = d @ ''/'')" by blast
  have "\<exists>v. trimLeft (map rev space_runes) ([] @ rev (u @ ?n)) = v @ rev (u @ ?n)"
    by (rule trimLeft_stops) (use ascii(2) in auto)
  then obtain v where v: "trimLeft (map rev space_runes) (rev (u @ ?n)) = v @ rev (u @ ?n)" by auto
  then have "v = []" using suffix_length_le [OF trimLeft_suffix [of "map rev space_runes" "rev (u @ ?n)"]] by simp
  then have "trimSpace p = u @ ?n" using u(1) v by (simp add: trimSpace_def trimRight_def)
  then show ?thesis using u(2) unfolding endsIn_def by (metis append.assoc append_Nil)
qed

text \<open>The store of the configuration is on a file of the expected name.\<close>

definition configuredStore :: "'n setting \<Rightarrow> Store result" where
  "configuredStore setting =
     (case CredentialsPath (sgEnv setting) (sgConfigDir setting) of
        Inl e \<Rightarrow> Inl (ErrWrap ''resolve credential path: '' e)
      | Inr path \<Rightarrow> NewStore (sgWorkingDir setting) path)"

lemma run_command:
  "run setting [command] w =
     (case configuredStore setting of
        Inl e \<Rightarrow> Some (Some e, [], w)
      | Inr store \<Rightarrow>
          if command = ''login'' then runLogin setting store w
          else if command = ''status'' then Some (runStatus setting store w)
          else if command = ''logout'' then Some (runLogout store w)
          else if command = ''serve'' then Some (runServe setting store w)
          else Some (Some (ErrNew (''unknown command '' @ sgQuote setting command @ ''; '' @ usageText)), [], w))"
  by (simp add: run_def configuredStore_def split: sum.split)

lemma credentials_plain: "plainName ''credentials.json''"
  by (simp add: plainName_def)

lemma CredentialsPath_endsIn:
  assumes "CredentialsPath env dir = Inr p"
  shows "endsIn ''credentials.json'' p"
proof -
  have n: "endsIn ''credentials.json'' ''credentials.json''" by (simp add: endsIn_def)
  have two: "joinPath [a, b, c] = joinPath [a, b @ ''/'' @ c]" if "b \<noteq> []" "c \<noteq> []" for a b c
    using that by (simp add: joinPath_def)
  show ?thesis
  proof (cases "trimSpace (env ConfigDirEnvironment) = []")
    case False
    then have "p = joinPath [trimSpace (env ConfigDirEnvironment), ''credentials.json'']"
      using assms by (simp add: CredentialsPath_def CredentialsFilename_def Let_def)
    with endsIn_join(1) [OF credentials_plain False n] show ?thesis by simp
  next
    case True
    then obtain base where base: "\<not> isBlank base" "p = joinPath [base, ''cc-gpt-adapter'' @ ''/'' @ ''credentials.json'']"
      using assms two [of "''cc-gpt-adapter''" "''credentials.json''" "_"]
      by (auto simp: CredentialsPath_def CredentialsFilename_def Let_def split: sum.splits if_splits)
    have "endsIn ''credentials.json'' (''cc-gpt-adapter'' @ ''/'' @ ''credentials.json'')" unfolding endsIn_def by blast
    moreover have "base \<noteq> []" using base(1) by auto
    ultimately show ?thesis unfolding base(2) using endsIn_join(1) credentials_plain by blast
  qed
qed

lemma configured_file:
  assumes "configuredStore setting = Inr store" "\<forall>d. sgWorkingDir setting = Inr d \<longrightarrow> hasPrefix d ''/''"
  shows "credentialsFile (stPath store)"
proof -
  obtain p where p: "CredentialsPath (sgEnv setting) (sgConfigDir setting) = Inr p" "NewStore (sgWorkingDir setting) p = Inr store"
    using assms(1) by (auto simp: configuredStore_def split: sum.splits)
  let ?t = "trimSpace p"
  have n: "endsIn ''credentials.json'' ?t" by (rule endsIn_trim [OF CredentialsPath_endsIn [OF p(1)]])
  have abs: "absPath (sgWorkingDir setting) ?t = Inr (stPath store)"
    using p(2) by (auto simp: NewStore_def split: sum.splits if_splits)
  have "\<exists>d. stPath store = d @ ''/'' @ ''credentials.json''"
  proof (cases "hasPrefix ?t ''/''")
    case True
    then show ?thesis using abs endsIn_clean(2) [OF credentials_plain n True] by (simp add: absPath_def)
  next
    case False
    then obtain d where d: "sgWorkingDir setting = Inr d" "stPath store = joinPath [d, ?t]"
      using abs by (auto simp: absPath_def split: sum.splits)
    then have "hasPrefix d ''/''" using assms(2) by blast
    moreover from this have "d \<noteq> []" by (auto simp: hasPrefix_def)
    ultimately show ?thesis unfolding d(2) using endsIn_join(2) [OF credentials_plain _ n] by blast
  qed
  then show ?thesis by (auto simp: credentialsFile_def)
qed

lemma hostWith_store: "credentialsFile (stPath store) \<Longrightarrow> hostStore (hostWith store client setting) = store"
  by (auto simp: hostStore_def hostWith_def credentialsFile_def)

section \<open>Login, status and serve\<close>

lemma runLogin_steps:
  assumes "runLogin setting store w = Some (None, out, w1)" "credentialsFile (stPath store)"
    "\<forall>n. honestFaults (mcFaults w n)"
  obtains c text1 where "out = text1 @ ''Login complete for account '' @ acAccountID c @ ''.'' @ [LF]" "validateCredentials c = None"
    "saveable (hsZone (sgHost setting)) c \<longrightarrow>
       Load noFaults (hsLaxTime (sgHost setting)) (Some store) (mcFiles w1) (mcFiles w1) = Inr c
       \<and> length (mcSent w1) = Suc (length (mcSent w))
       \<and> (\<forall>old. Load noFaults (hsLaxTime (sgHost setting)) (Some store) (mcFiles w) (mcFiles w) = Inr old \<longrightarrow>
            acLocalSecret c = acLocalSecret old)"
proof -
  obtain client where client: "newClient setting = Inr client"
    using assms(1) by (auto simp: runLogin_def split: sum.splits)
  let ?host = "hostWith store client setting"
  obtain r1 r2 r3 where r: "sgRandom setting = (r1, r2, r3)" by (cases "sgRandom setting")
  obtain c text1 where l: "Login (hsParse ?host) (machineSend ?host) r1 r2 r3 (machineLogin ?host (sgBrowser setting) (sgListenCallback setting))
      (sgEvents setting) w = Some (Inr c, text1, w1)" "out = text1 @ ''Login complete for account '' @ acAccountID c @ ''.'' @ [LF]"
    using assms(1) client r by (auto simp: runLogin_def Let_def split: option.splits sum.splits prod.splits)
  have host: "hostStore ?host = store" "hsZone ?host = hsZone (sgHost setting)" "hsLaxTime ?host = hsLaxTime (sgHost setting)"
    using hostWith_store [OF assms(2)] by (simp_all add: hostWith_def)
  show thesis
  proof (rule that [OF l(2)])
    show "validateCredentials c = None" by (rule login_valid [OF l(1)])
    show "saveable (hsZone (sgHost setting)) c \<longrightarrow>
       Load noFaults (hsLaxTime (sgHost setting)) (Some store) (mcFiles w1) (mcFiles w1) = Inr c
       \<and> length (mcSent w1) = Suc (length (mcSent w))
       \<and> (\<forall>old. Load noFaults (hsLaxTime (sgHost setting)) (Some store) (mcFiles w) (mcFiles w) = Inr old \<longrightarrow>
            acLocalSecret c = acLocalSecret old)"
      using login_outcome [OF l(1) _ assms(3)] host by (simp add: storedCredentials_def)
  qed
qed

text \<open>
  C31: What a login promises to the commands after it. After a successful login command, whose credentials the
  file can hold, and while the file stays as it is: the status command shows the account and the expiry of
  exactly these credentials; the serve command, if its system calls succeed, loads them; and the handler it
  creates accepts exactly the requests that carry their local secret, which is the one of the credentials
  stored before, if there were any, so that configured clients keep working.
\<close>

theorem login_then_serve:
  assumes "run setting [''login''] w = Some (None, out, w1)" "\<forall>n. honestFaults (mcFaults w n)"
    "\<forall>d. sgWorkingDir setting = Inr d \<longrightarrow> hasPrefix d ''/''"
  shows "\<exists>store c text1. configuredStore setting = Inr store \<and> validateCredentials c = None
     \<and> out = text1 @ ''Login complete for account '' @ acAccountID c @ ''.'' @ [LF]
     \<and> (saveable (hsZone (sgHost setting)) c \<longrightarrow>
          length (mcSent w1) = Suc (length (mcSent w))
        \<and> (\<forall>w2. mcFiles w2 = mcFiles w1 \<and> mcFaults w2 (mcCount w2) = noFaults \<longrightarrow>
             loadNow setting store w2 = Inr c
           \<and> run setting [''status''] w2 = Some (None, ''Logged in as '' @ acAccountID c @ ''. Token expires at ''
               @ formatUTC (acExpiresAt c) @ ''.'' @ [LF], tick w2))
        \<and> (\<forall>handler client request. serveHandler setting store c = Inr (handler, client) \<longrightarrow>
             authenticated handler request = carriesSecret (acLocalSecret c) (sqHeader request))
        \<and> (\<forall>old. Load noFaults (hsLaxTime (sgHost setting)) (Some store) (mcFiles w) (mcFiles w) = Inr old \<longrightarrow>
             acLocalSecret c = acLocalSecret old))"
proof -
  obtain store where store: "configuredStore setting = Inr store" "runLogin setting store w = Some (None, out, w1)"
    using assms(1) by (auto simp: run_command split: sum.splits)
  obtain c text1 where c: "out = text1 @ ''Login complete for account '' @ acAccountID c @ ''.'' @ [LF]"
    "validateCredentials c = None"
    "saveable (hsZone (sgHost setting)) c \<longrightarrow>
       Load noFaults (hsLaxTime (sgHost setting)) (Some store) (mcFiles w1) (mcFiles w1) = Inr c
       \<and> length (mcSent w1) = Suc (length (mcSent w))
       \<and> (\<forall>old. Load noFaults (hsLaxTime (sgHost setting)) (Some store) (mcFiles w) (mcFiles w) = Inr old \<longrightarrow>
            acLocalSecret c = acLocalSecret old)"
    using runLogin_steps [OF store(2) configured_file [OF store(1) assms(3)] assms(2)] by blast
  have status: "loadNow setting store w2 = Inr c
      \<and> run setting [''status''] w2 = Some (None, ''Logged in as '' @ acAccountID c @ ''. Token expires at ''
          @ formatUTC (acExpiresAt c) @ ''.'' @ [LF], tick w2)"
    if "saveable (hsZone (sgHost setting)) c" "mcFiles w2 = mcFiles w1" "mcFaults w2 (mcCount w2) = noFaults" for w2
    using that c(3) store(1) by (simp add: run_command runStatus_def loadNow_def)
  have handler: "authenticated h request = carriesSecret (acLocalSecret c) (sqHeader request)"
    if "serveHandler setting store c = Inr (h, client)" for h client request
    using that by (auto simp: serveHandler_def Let_def authenticated_iff dest: newHandler_secret split: sum.splits)
  show ?thesis using store(1) c status handler by blast
qed

section \<open>Logout\<close>

lemma Delete_done:
  assumes "Delete F (Some st) [fs] = (None, h)" "honestFaults F"
  shows "hd h = fs(stPath st := None)"
  using assms(1) honestD [OF assms(2)]
  by (auto simp: Delete_def sysCall_def removeFile_def unchanged_def wrapping_def syncDirectory_def andThen_def nothing_def
      split: option.splits prod.splits if_splits)

text \<open>
  C40: A logout ends the session. After a logout command that reports success, the credentials file is gone, no
  other file has changed and nothing was sent; and as long as the files stay as they are, the status command
  says that nobody is logged in and the serve command refuses to start.
\<close>

theorem logout_ends_session:
  assumes "run setting [''logout''] w = Some (None, out, w1)" "honestFaults (mcFaults w (mcCount w))"
    "mcFiles w2 = mcFiles w1" "mcFaults w2 (mcCount w2) SysLstat = None"
  shows "(\<exists>store. configuredStore setting = Inr store \<and> mcFiles w1 = (mcFiles w)(stPath store := None))
     \<and> mcSent w1 = mcSent w \<and> mcNet w1 = mcNet w
     \<and> run setting [''status''] w2 = Some (None, ''Not logged in.'' @ [LF], tick w2)
     \<and> run setting [''serve''] w2 = Some (Some (ErrWrap ''load credentials for serve: '' ErrNotLoggedIn), [], tick w2)"
proof -
  obtain store where store: "configuredStore setting = Inr store" "runLogout store w = (None, out, w1)"
    using assms(1) by (auto simp: run_command split: sum.splits)
  obtain h where h: "Delete (mcFaults w (mcCount w)) (Some store) [mcFiles w] = (None, h)" "w1 = (tick w)\<lparr>mcFiles := hd h\<rparr>"
    using store(2) by (auto simp: runLogout_def split: prod.splits)
  have files: "mcFiles w1 = (mcFiles w)(stPath store := None)" using Delete_done [OF h(1) assms(2)] h(2) by simp
  have "loadNow setting store w2 = Inl ErrNotLoggedIn"
    using assms(3,4) files by (simp add: loadNow_def Load_def lstat_def)
  then show ?thesis using store(1) files h(2)
    by (simp add: run_command runStatus_def runServe_def tick_def)
qed

section \<open>A sample setting\<close>

definition sampleSetting :: "unit setting" where
  "sampleSetting = \<lparr>sgEnv = (\<lambda>k. ''/c''), sgConfigDir = Inl (ErrNew ''no home''), sgWorkingDir = Inr ''/'', sgHost = loginHost,
     sgOrder = (\<lambda>xs. xs), sgRandom = (sampleRandom, sampleRandom, sampleRandom), sgBrowser = (\<lambda>url. None),
     sgListenCallback = None, sgEvents = loginEvents, sgUpstream = (\<lambda>r w. (Inl IoEOF, w)), sgListen = (\<lambda>a. None),
     sgAccept = (\<lambda>s. IoEOF), sgQuote = (\<lambda>s. s)\<rparr>"

lemma sample_configured: "configuredStore sampleSetting = Inr \<lparr>stPath = ''/c/credentials.json''\<rparr>"
proof -
  have "trimSpace ''/c'' = ''/c''" "joinPath [''/c'', ''credentials.json''] = ''/c/credentials.json''"
    "trimSpace ''/c/credentials.json'' = ''/c/credentials.json''" "cleanPath ''/c/credentials.json'' = ''/c/credentials.json''"
    by code_simp+
  then show ?thesis
    by (simp add: configuredStore_def CredentialsPath_def CredentialsFilename_def sampleSetting_def NewStore_def absPath_def
        hasPrefix_def)
qed

lemma sample_newClient: "newClient sampleSetting = Inr sampleClient"
proof -
  have "withDefaults DefaultOAuthConfig = DefaultOAuthConfig" by code_simp
  then show ?thesis
    by (simp add: newClient_def NewOAuthClient_def sampleSetting_def sampleClient_def loginHost_sel sampleParse_def absoluteHTTP_def)
qed

lemma sample_host: "hostWith \<lparr>stPath = ''/c/credentials.json''\<rparr> sampleClient sampleSetting = loginHost"
  by (simp add: hostWith_def sampleSetting_def loginHost_def sampleHost_def)

lemma sample_login:
  obtains w1 where "run sampleSetting [''login''] sampleMachine = Some (None, ''Login complete for account acct.'' @ [LF], w1)"
proof -
  obtain w1 where l: "Login (hsParse loginHost) (machineSend loginHost) sampleRandom sampleRandom sampleRandom
     (machineLogin loginHost (\<lambda>url. None) None) loginEvents sampleMachine = Some (Inr sampleCredentials, [], w1)"
    using login_succeeds by blast
  have s: "sgRandom sampleSetting = (sampleRandom, sampleRandom, sampleRandom)" "sgBrowser sampleSetting = (\<lambda>url. None)"
    "sgListenCallback sampleSetting = None" "sgEvents sampleSetting = loginEvents" by (simp_all add: sampleSetting_def)
  have "run sampleSetting [''login''] sampleMachine = Some (None, ''Login complete for account '' @ ''acct'' @ ''.'' @ [LF], w1)"
    unfolding run_command sample_configured
    by (simp add: runLogin_def sample_newClient sample_host s l Let_def) (simp add: sampleCredentials_def)
  then show thesis using that by simp
qed

theorem login_then_serve_witness:
  "\<exists>w1 c. run sampleSetting [''login''] sampleMachine = Some (None, ''Login complete for account acct.'' @ [LF], w1)
     \<and> acAccountID c = ''acct'' \<and> validateCredentials c = None"
proof -
  obtain w1 where r: "run sampleSetting [''login''] sampleMachine = Some (None, ''Login complete for account acct.'' @ [LF], w1)"
    using sample_login .
  have f: "\<forall>n. honestFaults (mcFaults sampleMachine n)" by (simp add: honestFaults_def sampleMachine_def)
  have d: "\<forall>d. sgWorkingDir sampleSetting = Inr d \<longrightarrow> hasPrefix d ''/''" by (simp add: sampleSetting_def hasPrefix_def)
  from login_then_serve [OF r f d] obtain c text1 where "validateCredentials c = None"
    "''Login complete for account acct.'' @ [LF] = text1 @ ''Login complete for account '' @ acAccountID c @ ''.'' @ [LF]"
    by blast
  then have "acAccountID c = ''acct''" by (cases text1) (auto simp: append_eq_Cons_conv dest: arg_cong [where f = "\<lambda>s. CHR ''L'' \<in> set s"])
  with r \<open>validateCredentials c = None\<close> show ?thesis by blast
qed

definition loggedIn :: "unit machine" where
  "loggedIn = sampleMachine\<lparr>mcFiles := (mcFiles sampleMachine)(''/c'' \<mapsto> Directory 0x1C0)\<rparr>"

lemma sample_logout:
  "run sampleSetting [''logout''] loggedIn = Some (None, ''Logged out; local credentials removed.'' @ [LF],
     (tick loggedIn)\<lparr>mcFiles := [''/c'' \<mapsto> Directory 0x1C0]\<rparr>)"
proof -
  have d: "dirOf ''/c/credentials.json'' = ''/c''" by code_simp
  show ?thesis unfolding run_command sample_configured
    by (simp add: runLogout_def loggedIn_def sampleMachine_def tick_def Delete_def sysCall_def removeFile_def wrapping_def
        syncDirectory_def andThen_def nothing_def d stat_node)
qed

theorem logout_ends_session_witness:
  "\<exists>w1. run sampleSetting [''logout''] loggedIn = Some (None, ''Logged out; local credentials removed.'' @ [LF], w1)
     \<and> mcFiles w1 ''/c/credentials.json'' = None \<and> run sampleSetting [''status''] w1 = Some (None, ''Not logged in.'' @ [LF], tick w1)"
proof -
  have h: "honestFaults (mcFaults loggedIn (mcCount loggedIn))" by (simp add: honestFaults_def loggedIn_def sampleMachine_def)
  have n: "mcFaults w1 (mcCount w1) SysLstat = None" if "w1 = (tick loggedIn)\<lparr>mcFiles := [''/c'' \<mapsto> Directory 0x1C0]\<rparr>" for w1
    by (simp add: that loggedIn_def sampleMachine_def tick_def)
  from logout_ends_session [OF sample_logout h refl n [OF refl]] sample_logout show ?thesis by simp
qed

end
