(* ===== verification/Serving.thy ===== *)
theory Serving
  imports Commands
begin

text \<open>
  The server on the token manager, the credentials file and the upstream client, as the serve command builds it:
  which credentials one request can send upstream, and what it leaves in the file.
\<close>

section \<open>Tokens\<close>

text \<open>Credentials the endpoint's answers can make of others, in any number of refreshes.\<close>

definition renewedFrom :: "'n host \<Rightarrow> AuthCredentials \<Rightarrow> AuthCredentials \<Rightarrow> bool" where
  "renewedFrom host = (askedOf host)\<^sup>*\<^sup>*"

lemma renewed_refl: "renewedFrom host c c"
  by (simp add: renewedFrom_def)

lemma renewed_step: "renewedFrom host c d \<Longrightarrow> askedOf host d e \<Longrightarrow> renewedFrom host c e"
  by (simp add: renewedFrom_def)

lemma renewed_secret: "renewedFrom host c d \<Longrightarrow> acLocalSecret d = acLocalSecret c"
  unfolding renewedFrom_def
  by (induction rule: rtranclp_induct) (auto simp: refreshedCredentials_def elim!: askedOf_refreshed)

text \<open>What is stored, and how often the token endpoint has been asked, after some calls of the manager.\<close>

definition holds :: "'n host \<Rightarrow> AuthCredentials \<Rightarrow> nat \<Rightarrow> 'n machine \<Rightarrow> bool" where
  "holds host c n w \<longleftrightarrow> length (mcSent w) \<le> n \<and> (\<exists>d. renewedFrom host c d \<and> storedCredentials host w = Inr d)"

definition renewable :: "'n host \<Rightarrow> AuthCredentials \<Rightarrow> bool" where
  "renewable host c \<longleftrightarrow> (\<forall>d e. renewedFrom host c d \<and> askedOf host d e \<longrightarrow> saveable (hsZone host) e)"

lemma refresh_holds:
  assumes "refresh (machineManager host) t w = (r, w1)" "holds host c n w" "renewable host c"
  shows "holds host c (Suc n) w1" "r = Inr a \<Longrightarrow> \<exists>d. renewedFrom host c d \<and> a = accessFromCredentials d"
proof -
  obtain d where d: "renewedFrom host c d" "storedCredentials host w = Inr d" and n: "length (mcSent w) \<le> n"
    using assms(2) by (auto simp: holds_def)
  have sv: "\<And>x y. storedCredentials host w = Inr x \<Longrightarrow> credential_store.asked (machineManager host) x y \<Longrightarrow> saveable (hsZone host) y"
    using assms(3) d by (auto simp: renewable_def asked_askedOf)
  have "length (mcSent w1) \<le> Suc (length (mcSent w))" by (rule tokens.refresh_outcome(1) [OF assms(1) sv])
  then have "length (mcSent w1) \<le> Suc n" using n by simp
  moreover have "storedCredentials host w1 = storedCredentials host w
      \<or> (\<exists>x y. storedCredentials host w = Inr x \<and> credential_store.asked (machineManager host) x y \<and> storedCredentials host w1 = Inr y)"
    by (rule tokens.refresh_outcome(3) [OF assms(1) sv])
  then have "storedCredentials host w1 = Inr d \<or> (\<exists>e. askedOf host d e \<and> storedCredentials host w1 = Inr e)"
    using d(2) by (auto simp: asked_askedOf)
  ultimately show "holds host c (Suc n) w1" using d(1) renewed_step unfolding holds_def by blast
  show "\<exists>d. renewedFrom host c d \<and> a = accessFromCredentials d" if "r = Inr a"
  proof -
    have "\<exists>x y. storedCredentials host w = Inr x \<and> storedCredentials host w1 = Inr y \<and> a = accessFromCredentials y \<and>
        (y = x \<and> length (mcSent w1) = length (mcSent w) \<and> (if t = [] then \<exists>t. outlives x t else acAccessToken x \<noteq> t)
         \<or> credential_store.asked (machineManager host) x y \<and> (t = [] \<or> acAccessToken x = t))"
      by (rule tokens.refresh_outcome(2) [OF assms(1) sv that])
    then obtain y where "a = accessFromCredentials y" "y = d \<or> askedOf host d y" using d(2) by (auto simp: asked_askedOf)
    then show ?thesis using d(1) renewed_step by blast
  qed
qed

lemma GetValidToken_holds:
  assumes "GetValidToken (Some (machineManager host)) w = (r, w1)" "holds host c n w" "renewable host c"
  shows "holds host c (Suc n) w1" "r = Inr a \<Longrightarrow> \<exists>d. renewedFrom host c d \<and> a = accessFromCredentials d"
proof -
  let ?m = "machineManager host"
  obtain l u where load: "smLoad (tmStore ?m) w = (l, u)" by (cases "smLoad (tmStore ?m) w")
  obtain t v where now: "tmNow ?m u = (t, v)" by (cases "tmNow ?m u")
  note ls = tokens.load_stored [OF load] and ns = tokens.now_stored [OF now]
  have hu: "holds host c n u" "holds host c n v" using ls ns assms(2) by (auto simp: holds_def)
  have stored: "\<exists>d. renewedFrom host c d \<and> storedCredentials host w = Inr d" using assms(2) by (auto simp: holds_def)
  have more: "holds host c (Suc n) x" if "holds host c n x" for x using that by (auto simp: holds_def)
  consider (err) e where "l = Inl e" "r = Inl e" "w1 = u"
    | (fresh) d where "l = Inr d" "r = Inr (accessFromCredentials d)" "w1 = v"
    | (old) d where "l = Inr d" "refresh ?m [] v = (r, w1)"
  proof (cases l)
    case (Inl e)
    then show ?thesis using assms(1) load err by (simp add: GetValidToken_def)
  next
    case (Inr d)
    then show ?thesis using assms(1) load now fresh [of d] old [of d]
      by (cases "outlives d t") (simp_all add: GetValidToken_def)
  qed
  then have "holds host c (Suc n) w1 \<and> (\<forall>a. r = Inr a \<longrightarrow> (\<exists>d. renewedFrom host c d \<and> a = accessFromCredentials d))"
  proof cases
    case err
    then show ?thesis using hu more by simp
  next
    case fresh
    then show ?thesis using hu more stored ls by auto
  next
    case old
    with refresh_holds [OF old(2) hu(2) assms(3)] show ?thesis by blast
  qed
  then show "holds host c (Suc n) w1" "r = Inr a \<Longrightarrow> \<exists>d. renewedFrom host c d \<and> a = accessFromCredentials d" by blast+
qed

lemma ForceRefresh_holds:
  assumes "ForceRefresh (Some (machineManager host)) t w = (r, w1)" "holds host c n w" "renewable host c"
  shows "holds host c (Suc n) w1" "r = Inr a \<Longrightarrow> \<exists>d. renewedFrom host c d \<and> a = accessFromCredentials d"
  using assms refresh_holds [of host t w r w1 c n] by (auto simp: ForceRefresh_def holds_def split: if_splits)

section \<open>Requests\<close>

lemma serveUpstream_files:
  assumes "serveUpstream host send body cr session (client, w) = (r, client1, w1)"
  shows "mcFiles w1 = mcFiles w \<and> mcSent w1 = mcSent w"
  using assms by (auto simp: serveUpstream_def Do_def Let_def split: sum.splits prod.splits)

lemma serveUpstream_holds:
  "serveUpstream host send body cr session (client, w) = (r, client1, w1) \<Longrightarrow> holds host c n w \<Longrightarrow> holds host c n w1"
  by (drule serveUpstream_files) (simp add: holds_def storedCredentials_def)

definition sentFrom :: "'n host \<Rightarrow> AuthCredentials \<Rightarrow> call list \<Rightarrow> bool" where
  "sentFrom host c calls \<longleftrightarrow> (\<forall>b cr t status. Sent b cr t status \<in> set calls \<longrightarrow>
     (\<exists>d. renewedFrom host c d \<and> cr = upstreamCredentials (accessFromCredentials d)))"

lemma callUpstream_serving:
  assumes h: "hdTokens handler = serveTokens (machineManager host)" "hdUpstream handler = serveUpstream host send"
    and c: "callUpstream (watched handler) body session ((client, w), []) = (r, (client1, w1), calls)"
    and w: "holds host c n w" "renewable host c"
  shows "holds host c (Suc (Suc n)) w1 \<and> sentFrom host c calls"
proof -
  have more: "holds host c (Suc k) x" if "holds host c k x" for x k using that by (auto simp: holds_def)
  obtain g u where g: "GetValidToken (Some (machineManager host)) w = (g, u)" by (cases "GetValidToken (Some (machineManager host)) w")
  note gh = GetValidToken_holds [OF g w]
  show ?thesis
  proof (cases g)
    case (Inl e)
    then have "w1 = u \<and> calls = [GotToken]" using c g h by (simp add: callUpstream_def watched_def serveTokens_def)
    then show ?thesis using gh(1) more by (simp add: sentFrom_def)
  next
    case (Inr a)
    obtain q cl v where q: "serveUpstream host send body (upstreamCredentials a) session (client, u) = (q, cl, v)"
      by (metis surj_pair)
    have hv: "holds host c (Suc n) v" by (rule serveUpstream_holds [OF q gh(1)])
    obtain d where d: "renewedFrom host c d" "a = accessFromCredentials d" using gh(2) [OF Inr] by blast
    show ?thesis
    proof (cases "statusOf q = Some 401")
      case False
      then have "w1 = v \<and> calls = [GotToken, Sent body (upstreamCredentials a) session (statusOf q)]"
        using c g h Inr q by (cases q) (auto simp: callUpstream_def watched_def serveTokens_def statusOf_def)
      then show ?thesis using hv more d by (auto simp: sentFrom_def)
    next
      case True
      then obtain response where resp: "q = Inr response" "hrStatus response = 401" by (cases q) (auto simp: statusOf_def)
      obtain f x where f: "ForceRefresh (Some (machineManager host)) (axAccessToken a) v = (f, x)"
        by (cases "ForceRefresh (Some (machineManager host)) (axAccessToken a) v")
      note fh = ForceRefresh_holds [OF f hv w(2)]
      show ?thesis
      proof (cases f)
        case (Inl e)
        then have "w1 = x \<and> calls = [GotToken, Sent body (upstreamCredentials a) session (statusOf q), Forced (axAccessToken a)]"
          using c g h Inr q resp f by (simp add: callUpstream_def watched_def serveTokens_def)
        then show ?thesis using fh(1) d by (auto simp: sentFrom_def)
      next
        case (Inr b)
        obtain z cl1 y where z: "serveUpstream host send body (upstreamCredentials b) session (cl, x) = (z, cl1, y)"
          by (metis surj_pair)
        have "w1 = y \<and> calls = [GotToken, Sent body (upstreamCredentials a) session (statusOf q), Forced (axAccessToken a),
            Sent body (upstreamCredentials b) session (statusOf z)]"
          using c g h \<open>g = Inr a\<close> q resp f Inr z by (auto simp: callUpstream_def watched_def serveTokens_def)
        moreover obtain e where "renewedFrom host c e" "b = accessFromCredentials e" using fh(2) [OF Inr] by blast
        ultimately show ?thesis using serveUpstream_holds [OF z fh(1)] d by (auto simp: sentFrom_def)
      qed
    qed
  qed
qed

text \<open>
  C30: What serving one request can send and store. Let the serve command's handler serve any request, in any world
  with credentials in the file, however the upstream, the token endpoint and the files behave. Then every
  upstream request carries the stored credentials or ones the token endpoint made of them; the endpoint is asked
  at most twice; the file ends up with such credentials, which have the same local secret; and nothing is called
  at all unless the request carries the secret the handler was created with. This is for endpoints whose answers the file can hold.
\<close>

theorem served_with_stored_credentials:
  assumes "serveHandler setting store c0 = Inr (handler, client0)" "newClient setting = Inr oauth"
    "host = hostWith store oauth setting" "svHandler s = watched handler"
    "ServeHTTP s request ended wakes w ((client, world), []) = (result, (client1, world1), calls)"
    "storedCredentials host world = Inr c"
    "\<forall>d e. renewedFrom host c d \<and> askedOf host d e \<longrightarrow> saveable (hsZone host) e"
  shows "(\<forall>b cr t status. Sent b cr t status \<in> set calls \<longrightarrow>
       (\<exists>d. renewedFrom host c d \<and> cr = upstreamCredentials (accessFromCredentials d)))
     \<and> length (mcSent world1) \<le> length (mcSent world) + 2
     \<and> (\<exists>d. storedCredentials host world1 = Inr d \<and> renewedFrom host c d \<and> acLocalSecret d = acLocalSecret c)
     \<and> (calls \<noteq> [] \<longrightarrow> carriesSecret (acLocalSecret c0) (sqHeader request))"
proof -
  have new: "hdTokens handler = serveTokens (machineManager host)" "hdUpstream handler = serveUpstream host (sgUpstream setting)"
    "hdLocalSecret handler = acLocalSecret c0"
    using assms(1-3) by (auto simp: serveHandler_def NewTokenManager_def machineManager_def NewHandler_def Let_def
        split: sum.splits if_splits)
  have start: "holds host c (length (mcSent world)) world" "renewable host c"
    using assms(6,7) renewed_refl by (auto simp: holds_def renewable_def)
  have idle: ?thesis if "calls = []" "world1 = world"
    using that assms(6) renewed_refl by auto
  show ?thesis
  proof (cases "calls = [] \<and> world1 = world")
    case False
    then have auth: "authenticated (watched handler) request"
      "messages (svQuote s) (svOpaque s) (watched handler) request ended wakes (nosniff w) ((client, world), [])
        = (result, (client1, world1), calls)"
      using assms(4,5) by (auto simp: ServeHTTP_def requireAuthentication_def nosniff_def Let_def split: if_splits)
    obtain body session r where c: "callUpstream (watched handler) body session ((client, world), []) = (r, (client1, world1), calls)"
      using auth(2) False unfolding messages_def by (auto split: sum.splits option.splits prod.splits)
    have after: "holds host c (Suc (Suc (length (mcSent world)))) world1" "sentFrom host c calls"
      using callUpstream_serving [OF new(1,2) c start] by blast+
    have "carriesSecret (acLocalSecret c0) (sqHeader request)"
      using auth(1) new(3) by (simp add: authenticated_iff watched_def)
    with after renewed_secret show ?thesis by (fastforce simp: holds_def sentFrom_def)
  qed (use idle in blast)
qed

section \<open>A sample request\<close>

definition servingSetting :: "unit setting" where
  "servingSetting = sampleSetting\<lparr>sgHost := sampleHost\<rparr>"

lemma serving_client: "newClient servingSetting = Inr sampleClient"
  using sample_newClient by (simp add: newClient_def servingSetting_def sampleSetting_def sampleHost_sel loginHost_sel)

lemma serving_host: "hostWith \<lparr>stPath = ''/c/credentials.json''\<rparr> sampleClient servingSetting = sampleHost"
  by (simp add: hostWith_def servingSetting_def sampleSetting_def sampleHost_def)

lemma serving_renewed: "renewedFrom sampleHost oldCredentials d \<Longrightarrow> d = oldCredentials \<or> d = sampleCredentials"
  unfolding renewedFrom_def by (induction rule: rtranclp_induct) (auto dest: sample_asked)

lemma serving_handler:
  obtains handler client where "serveHandler servingSetting \<lparr>stPath = ''/c/credentials.json''\<rparr> oldCredentials = Inr (handler, client)"
    "hdTokens handler = serveTokens (machineManager sampleHost)" "hdUpstream handler = serveUpstream sampleHost (\<lambda>r w. (Inl IoEOF, w))"
    "hdLocalSecret handler = ''s''" "1000 \<le> hdMaxRequestBytes handler"
proof -
  have "\<not> isBlank ''s''" by code_simp
  then have "\<exists>handler client. serveHandler servingSetting \<lparr>stPath = ''/c/credentials.json''\<rparr> oldCredentials = Inr (handler, client)
      \<and> hdTokens handler = serveTokens (machineManager sampleHost) \<and> hdUpstream handler = serveUpstream sampleHost (\<lambda>r w. (Inl IoEOF, w))
      \<and> hdLocalSecret handler = ''s'' \<and> 1000 \<le> hdMaxRequestBytes handler"
    by (simp add: serveHandler_def serving_client serving_host NewTokenManager_def NewClient_def NewHandler_def machineManager_def
        sampleHost_sel sampleParse_def parsedURL.truncate_def orDefault_def DefaultMaxRequestBytes_def Let_def)
      (simp add: oldCredentials_def sampleCredentials_def servingSetting_def sampleSetting_def)
  then show thesis using that by blast
qed

lemma serving_decodes: "1000 \<le> hdMaxRequestBytes h \<Longrightarrow> decodeRequest h sampleServerRequest w = Inr sampleReq"
proof -
  assume "1000 \<le> hdMaxRequestBytes h"
  moreover have "length sampleText \<le> 1000" by code_simp
  ultimately show ?thesis
    using sample_stream
    by (simp add: decodeRequest_def sampleServerRequest_def maxBytesReader_def streamEnds_def skip_ws_def)
qed

lemma serving_calls:
  assumes "hdTokens handler = serveTokens (machineManager sampleHost)" "hdUpstream handler = serveUpstream sampleHost (\<lambda>r w. (Inl IoEOF, w))"
    "1000 \<le> hdMaxRequestBytes handler"
  shows "\<exists>result s1 b t. messages quote opaque (watched handler) sampleServerRequest False wakes w ((client, sampleMachine), [])
     = (result, s1, [GotToken, Sent b (upstreamCredentials (accessFromCredentials oldCredentials)) t None])"
proof -
  obtain r where r: "AnthropicToResponses (Some sampleReq) = Inr r" "marshal (outRequest r) = Some (enc (outRequest r))"
    by (rule sample_translation)
  have fails: "\<exists>e s1. serveUpstream sampleHost (\<lambda>r w. (Inl IoEOF, w)) b cr t s = (Inl e, s1)" for b cr t s
    by (cases s) (auto simp: serveUpstream_def Do_def Let_def split: sum.split prod.split)
  let ?cr = "upstreamCredentials (accessFromCredentials oldCredentials)"
  let ?t = "ResolveSession (sqHeader sampleServerRequest) sampleReq"
  obtain e s1 where e: "serveUpstream sampleHost (\<lambda>r w. (Inl IoEOF, w)) (enc (outRequest r)) ?cr ?t (client, tick (tick sampleMachine)) = (Inl e, s1)"
    using fails by blast
  have "callUpstream (watched handler) (enc (outRequest r)) ?t ((client, sampleMachine), [])
      = (Inl e, s1, [GotToken, Sent (enc (outRequest r)) ?cr ?t None])"
    using assms(1,2) e by (simp add: callUpstream_def watched_def serveTokens_def sample_token statusOf_def)
  then show ?thesis using r serving_decodes [OF assms(3)] by (simp add: messages_def sample_valid)
qed

theorem served_with_stored_credentials_witness:
  "\<exists>handler client result s1 b t calls.
     serveHandler servingSetting \<lparr>stPath = ''/c/credentials.json''\<rparr> oldCredentials = Inr (handler, client)
     \<and> ServeHTTP \<lparr>svQuote = (\<lambda>s. s), svOpaque = (\<lambda>e. []), svCJK = (\<lambda>r. False), svOther = (\<lambda>request w. w), svHandler = watched handler\<rparr>
         sampleServerRequest False [] (newWriter None) ((client, sampleMachine), []) = (result, s1, calls)
     \<and> Sent b (upstreamCredentials (accessFromCredentials oldCredentials)) t None \<in> set calls
     \<and> length (mcSent (snd s1)) \<le> 2 \<and> carriesSecret ''s'' (sqHeader sampleServerRequest)"
proof -
  obtain handler client where h: "serveHandler servingSetting \<lparr>stPath = ''/c/credentials.json''\<rparr> oldCredentials = Inr (handler, client)"
    "hdTokens handler = serveTokens (machineManager sampleHost)" "hdUpstream handler = serveUpstream sampleHost (\<lambda>r w. (Inl IoEOF, w))"
    "hdLocalSecret handler = ''s''" "1000 \<le> hdMaxRequestBytes handler"
    by (rule serving_handler)
  let ?s = "\<lparr>svQuote = (\<lambda>s. s), svOpaque = (\<lambda>e. []), svCJK = (\<lambda>r. False), svOther = (\<lambda>request w. w), svHandler = watched handler\<rparr>"
  obtain result s1 b t where m: "messages (\<lambda>s. s) (\<lambda>e. []) (watched handler) sampleServerRequest False [] (nosniff (newWriter None)) ((client, sampleMachine), [])
     = (result, s1, [GotToken, Sent b (upstreamCredentials (accessFromCredentials oldCredentials)) t None])"
    using serving_calls [OF h(2,3,5)] by blast
  obtain cl w1 where s1: "s1 = (cl, w1)" by (cases s1)
  have "trimSpace (headerGet ''x-api-key'' (sqHeader sampleServerRequest)) = ''s''" by code_simp
  then have "carriesSecret ''s'' (sqHeader sampleServerRequest)" by (simp add: carriesSecret_def)
  then have "authenticated (watched handler) sampleServerRequest" using h(4) by (simp add: authenticated_iff watched_def)
  then have r: "ServeHTTP ?s sampleServerRequest False [] (newWriter None) ((client, sampleMachine), [])
      = (result, (cl, w1), [GotToken, Sent b (upstreamCredentials (accessFromCredentials oldCredentials)) t None])"
    using m s1 by (simp add: ServeHTTP_def requireAuthentication_def nosniff_def sampleServerRequest_def)
  have ren: "\<forall>d e. renewedFrom sampleHost oldCredentials d \<and> askedOf sampleHost d e \<longrightarrow> saveable (hsZone sampleHost) e"
    using serving_renewed sample_renewing by blast
  from served_with_stored_credentials [OF h(1) serving_client serving_host [symmetric] _ r sample_stored ren]
  have "length (mcSent w1) \<le> length (mcSent sampleMachine) + 2 \<and> carriesSecret (acLocalSecret oldCredentials) (sqHeader sampleServerRequest)"
    by simp
  then have "length (mcSent w1) \<le> 2" "carriesSecret ''s'' (sqHeader sampleServerRequest)"
    by (simp_all add: sampleMachine_def oldCredentials_def sampleCredentials_def)
  with h(1) r s1 show ?thesis by fastforce
qed

end
