(* ===== verification/Deviations.thy ===== *)
theory Deviations
  imports Serving Stream_Properties
begin

text \<open>
  Where the code does something else than its documentation or its purpose suggests, on concrete inputs.
\<close>

section \<open>Unfinished tool calls\<close>

text \<open>
  The README says that malformed tool arguments never give a successful message. They do when the response is
  completed before the arguments are: the block is closed as it is, and the run counts as successful.
\<close>

definition brokenCall :: "ResponsesStreamEvent list" where
  "brokenCall =
     [zeroResponsesStreamEvent\<lparr>evType := ''response.output_item.added'',
        evItem := Some (zeroResponsesOutput\<lparr>roType := ''function_call'', roCallID := ''c'', roName := ''f''\<rparr>)\<rparr>,
      zeroResponsesStreamEvent\<lparr>evType := ''response.function_call_arguments.delta'', evDelta := ''{''\<rparr>,
      zeroResponsesStreamEvent\<lparr>evType := ''response.completed''\<rparr>]"

lemma malformed_arguments_complete:
  "case processAll (NewResponsesStreamConverter ''m'') brokenCall of (c, out, err) \<Rightarrow>
     err = None \<and> converterFinalize c = None \<and> seType (last out) = ''message_stop''"
  by code_simp

text \<open>In the same way the input of a custom tool, which is held back until it is done, is lost.\<close>

definition unfinishedCustomCall :: "ResponsesStreamEvent list" where
  "unfinishedCustomCall =
     [zeroResponsesStreamEvent\<lparr>evType := ''response.output_item.added'',
        evItem := Some (zeroResponsesOutput\<lparr>roType := ''custom_tool_call'', roCallID := ''c'', roName := ''f''\<rparr>)\<rparr>,
      zeroResponsesStreamEvent\<lparr>evType := ''response.custom_tool_call_input.delta'', evDelta := ''x''\<rparr>,
      zeroResponsesStreamEvent\<lparr>evType := ''response.completed''\<rparr>]"

lemma custom_input_lost:
  "case processAll (NewResponsesStreamConverter ''m'') unfinishedCustomCall of (c, out, err) \<Rightarrow>
     err = None \<and> converterFinalize c = None \<and> map seType out = [''message_start'', ''content_block_start'',
       ''content_block_stop'', ''message_delta'', ''message_stop'']"
  by code_simp

section \<open>Where the two ways to serve a response differ\<close>

text \<open>
  A reasoning item with neither a summary nor an encrypted content is an empty thinking block when the response is
  streamed, and nothing when it is served as a whole.
\<close>

definition emptyReasoning :: "ResponsesStreamEvent list" where
  "emptyReasoning =
     [zeroResponsesStreamEvent\<lparr>evType := ''response.output_item.added'',
        evItem := Some (zeroResponsesOutput\<lparr>roType := ''reasoning''\<rparr>)\<rparr>,
      zeroResponsesStreamEvent\<lparr>evType := ''response.output_item.done'',
        evItem := Some (zeroResponsesOutput\<lparr>roType := ''reasoning''\<rparr>)\<rparr>,
      zeroResponsesStreamEvent\<lparr>evType := ''response.completed''\<rparr>]"

lemma empty_reasoning_streamed:
  "case processAll (NewResponsesStreamConverter ''m'') emptyReasoning of (c, out, err) \<Rightarrow>
     err = None \<and> map seType out = [''message_start'', ''content_block_start'', ''content_block_stop'',
       ''message_delta'', ''message_stop'']"
  by code_simp

lemma empty_reasoning_whole:
  "case feed accStep NewResponseAccumulator emptyReasoning of
     None \<Rightarrow> False
   | Some a \<Rightarrow> (case accFinalize a of
       Inl err \<Rightarrow> False
     | Inr r \<Rightarrow> (case ResponsesToAnthropic (Some r) ''m'' of
         Inl err \<Rightarrow> False
       | Inr m \<Rightarrow> map cbType (rmContent m) = [''text''] \<and> map cbText (rmContent m) = [[]]))"
  by code_simp

section \<open>Secrets and times\<close>

text \<open>A local secret with surrounding white space is accepted, and then no API key is.\<close>

lemma padded_secret_locks_out:
  assumes "NewHandler config = Inr h" "trimSpace (scLocalSecret config) \<noteq> scLocalSecret config"
    "headerGet ''Authorization'' (sqHeader request) = []"
  shows "\<not> authenticated h request"
proof -
  have "fieldsOf [] = []" by (simp add: fieldsOf.simps)
  moreover have "trimSpace (headerGet ''x-api-key'' (sqHeader request)) \<noteq> scLocalSecret config"
    using assms(2) by (metis trimSpace_idem)
  ultimately show ?thesis
    using newHandler_secret [OF assms(1)] assms(3) by (simp add: authenticated_iff carriesSecret_def)
qed

text \<open>A lifetime of more than about 292 years overflows to a time in the past.\<close>

lemma long_lifetime_expired: "seconds 10000000000 < 0"
  by (simp add: seconds_def i64_def)

end
