(* ===== verification/Spec2Isabelle.thy ===== *)
theory Spec2Isabelle
  imports Stream_Equivalence Request_Properties Sse_Codec Codex_Properties Server_Bounds Deviations
begin

text \<open>
  The adapter lets a client of the Anthropic Messages API (Claude Code) talk to the Codex endpoint of the OpenAI
  Responses API under the user's ChatGPT account. This development models its whole Go code
  and states what makes each part and their composition correct.
\<close>

section \<open>The program and its model\<close>

text \<open>
  A request comes in at the local HTTP server (\<^verbatim>\<open>internal/server\<close>), which checks the local secret, decodes the
  Messages request, translates it (\<^verbatim>\<open>internal/protocol\<close>), asks the token manager (\<^verbatim>\<open>internal/auth\<close>) for an access
  token and calls the upstream client (\<^verbatim>\<open>internal/upstream/codex\<close>), which normalises the body, adds session and
  headers and sends it. The answer is a stream of server-sent events. Either each event is converted and written
  on at once, or all are accumulated into one response that is converted as a whole. The command line
  (\<^verbatim>\<open>cmd/cc-gpt-adapter\<close>) logs the user in, stores the credentials and starts the server.

  Go's functions and methods are definitions of the same names. A method that changes its receiver takes it and
  returns the new one; an \<^verbatim>\<open>error\<close> result is a sum (\<^verbatim>\<open>Inl\<close> the error) or an option; a run-time panic is a value
  of its own. Strings are byte strings, so that UTF-8 is explicit where the code sees it. An \<^verbatim>\<open>int\<close> is a HOL integer
  that the operations which can overflow wrap at 64 bits (\<open>i64\<close>); SHA-256 works on 32 bit words. A loop over a
  channel, a socket or a schedule is a recursive function of the list of what arrives, with the result \<open>None\<close> (or
  no result yet) while the list is exhausted and the code would wait.

  \<^item> \<^bold>\<open>Go and its library.\<close> \<^verbatim>\<open>Go_Prelude\<close> (strings, UTF-8, 64 bit integers, errors, panics) and \<^verbatim>\<open>Http\<close> (headers) are used
    everywhere. \<^verbatim>\<open>Json_Text\<close>, \<^verbatim>\<open>Json_Encode\<close>, \<^verbatim>\<open>Json_Decode\<close>, \<^verbatim>\<open>Json_Marshal\<close>, \<^verbatim>\<open>Json_Any\<close>, \<^verbatim>\<open>Json_Stream\<close> and
    \<^verbatim>\<open>Indented_Json\<close> model \<^verbatim>\<open>encoding/json\<close> as far as the code uses it: the grammar with its nesting limit, struct
    decoding with case folding and repeated keys, \<^verbatim>\<open>omitempty\<close>, HTML escaping, \<^verbatim>\<open>RawMessage\<close>, maps in key order,
    \<^verbatim>\<open>Decoder\<close> with the text after a value, and indentation; \<^verbatim>\<open>Json_Reads\<close> proves that what is written parses back.
    \<^verbatim>\<open>Sha256\<close>, \<^verbatim>\<open>Base64_Url\<close>, \<^verbatim>\<open>Url_Query\<close> and \<^verbatim>\<open>Time_Text\<close> (calendar, RFC 3339) model those packages, each with its
    round trip where there is one.
  \<^item> \<^bold>\<open>Protocol.\<close> \<^verbatim>\<open>Wire_Types\<close> is \<^verbatim>\<open>types.go\<close>, one record per struct. \<^verbatim>\<open>Request_Translator\<close> is
    \<^verbatim>\<open>anthropic_to_responses.go\<close>; \<^verbatim>\<open>Response_Blocks\<close> (whole responses) and \<^verbatim>\<open>Stream_Converter\<close> (the state machine over
    events) are \<^verbatim>\<open>responses_to_anthropic.go\<close>; \<^verbatim>\<open>Accumulator\<close> is \<^verbatim>\<open>accumulator.go\<close>; \<^verbatim>\<open>Sse\<close> and \<^verbatim>\<open>Sse_Codec\<close> are \<^verbatim>\<open>sse.go\<close> over
    the buffered reader.
  \<^item> \<^bold>\<open>Upstream.\<close> \<^verbatim>\<open>Codex_Transform\<close>, \<^verbatim>\<open>Codex_Session\<close>, \<^verbatim>\<open>Turn_State\<close> and \<^verbatim>\<open>Codex_Client\<close> are \<^verbatim>\<open>transform.go\<close>,
    \<^verbatim>\<open>session.go\<close>, \<^verbatim>\<open>turn_state.go\<close> and \<^verbatim>\<open>client.go\<close>.
  \<^item> \<^bold>\<open>Server.\<close> \<^verbatim>\<open>Server_Response\<close>, \<^verbatim>\<open>Server_Handler\<close> and \<^verbatim>\<open>Server_Routes\<close> are \<^verbatim>\<open>handler.go\<close> and \<^verbatim>\<open>serve.go\<close>,
    \<^verbatim>\<open>Server_Stream\<close> is \<^verbatim>\<open>stream.go\<close>, \<^verbatim>\<open>Token_Count\<close> is \<^verbatim>\<open>token_count.go\<close>. What the \<^verbatim>\<open>select\<close> of \<^verbatim>\<open>nextFrame\<close> sees is a
    list of wake-ups (a frame, the end of the client's request, the idle timer) in any order.
  \<^item> \<^bold>\<open>Authentication.\<close> \<^verbatim>\<open>Token_Types\<close> and \<^verbatim>\<open>Token_Store\<close> are \<^verbatim>\<open>token_store.go\<close> on a map from paths to nodes, where every
    system call can fail and each leaves one more state in a history; \<^verbatim>\<open>Token_Manager\<close> is \<^verbatim>\<open>token_manager.go\<close>, with
    the locked part cut into the steps that \<^verbatim>\<open>Token_Concurrency\<close> interleaves; \<^verbatim>\<open>OAuth\<close>, \<^verbatim>\<open>Login_Callback\<close> and \<^verbatim>\<open>Login\<close> are
    \<^verbatim>\<open>oauth.go\<close>, \<^verbatim>\<open>callback.go\<close> and \<^verbatim>\<open>login.go\<close>. \<^verbatim>\<open>Token_Machine\<close> puts them on one machine: files, failing calls,
    clock and network.
  \<^item> \<^bold>\<open>Command line.\<close> \<^verbatim>\<open>Adapter_Main\<close> is \<^verbatim>\<open>config.go\<close> and the commands of \<^verbatim>\<open>main.go\<close>, built from the parts above.
\<close>

section \<open>What is shown\<close>

text \<open>
  \<^item> \<^verbatim>\<open>Stream_Protocol\<close> and \<^verbatim>\<open>Stream_Properties\<close>: the converter refines an acceptor of well-formed message streams, for
    every list of upstream events; success is announced exactly when \<^verbatim>\<open>Finalize\<close> agrees. \<^verbatim>\<open>Stream_Fidelity\<close>: the
    exact output for each kind of item. \<^verbatim>\<open>Accumulator_Laws\<close>: the accumulated output depends on each index's own
    events only, unless the terminal event brings one; the exact condition of its panic. \<^verbatim>\<open>Upstream_Response\<close> is the
    specification of what the Responses API streams for one response; \<^verbatim>\<open>Accumulated_Items\<close> and
    \<^verbatim>\<open>Stream_Equivalence\<close>: for every such stream, the message a client builds from the converted events is the one the
    other path returns. \<^verbatim>\<open>Stream_Machine\<close> is the interface of both for the server.
  \<^item> \<^verbatim>\<open>Request_Properties\<close>: tool calls and results keep ids and order, and which requests are refused.
    \<^verbatim>\<open>Transform_Properties\<close>: forced and removed fields, input items that keep their place and fields, call ids that fit
    and still pair, a tool choice among the tools sent, idempotence. \<^verbatim>\<open>Codex_Properties\<close> and \<^verbatim>\<open>Turn_State\<close>: sessions
    are stable over turns, requests carry exactly the
    intended headers, a continuation state stays with its session, and the store refines an unexpired last write.
  \<^item> \<^verbatim>\<open>Sse_Codec\<close>: round trip, size bound and end of the decoder. \<^verbatim>\<open>Server_Events\<close>, \<^verbatim>\<open>Server_Loops\<close> and
    \<^verbatim>\<open>Server_Properties\<close>: whatever the upstream sends and however cancellation, timers and frames interleave, what the
    two loops write (an incomplete stream ends in one error unless the client is gone), what a client reads from it,
    and that they return. \<^verbatim>\<open>Handler_Properties\<close>: nothing happens
    without the local secret, at most two upstream requests, and a valid request is served the upstream's message.
    \<^verbatim>\<open>Server_Bounds\<close>: the token estimate and the listening address.
  \<^item> \<^verbatim>\<open>Token_Store_Properties\<close>: a save is atomic and private whatever fails. \<^verbatim>\<open>Token_Machine\<close>: the manager on this
    store, alone and with any number of concurrent callers. \<^verbatim>\<open>OAuth_Properties\<close>, \<^verbatim>\<open>Login_Callback\<close>, \<^verbatim>\<open>Login\<close>: one
    flow, one callback, one exchange, and what is stored. \<^verbatim>\<open>Commands\<close>: login, then status and serve; logout, then
    neither. \<^verbatim>\<open>Serving\<close>: the server on top of all this sends the stored credentials or renewed ones and nothing else.
  \<^item> \<^verbatim>\<open>Deviations\<close> (with \<open>acc_panics_iff\<close> and \<open>blank_tool_name_lost\<close>): where the code does not do what it means to.

  Interfaces are locales: \<open>stream_machine\<close> (interpreted on the converter and the accumulator), \<open>sse_payload\<close> (on the
  encoder and on upstream streams), \<open>continuation_store\<close> (on the turn states), \<open>checked_store\<close> and
  \<open>credential_store\<close> (on the manager over the credentials file).
\<close>

section \<open>Parameters, bounds and what is not modelled\<close>

text \<open>
  Arguments of the definitions stand for what is outside of the repository: the HTTP transport (any function of
  the request and of a world), \<^verbatim>\<open>url.Parse\<close>, the random source, the clock and the offset of the time zone, the
  lenient part of Go's time parser, the Unicode tables of scripts, \<^verbatim>\<open>%q\<close> quoting, the working directory and the
  environment, which system calls fail and how, the order in which Go iterates over a map, and what \<^verbatim>\<open>ServeMux\<close>
  answers to a path without a route. Theorems hold for all of them or name what they need; \<open>saveable\<close> (valid
  credentials in UTF-8, a year of four digits, a zone of whole minutes, at most 1 MiB) and \<open>honestFaults\<close> (a failing call does not claim that the file is absent) are the only
  hypotheses on the credentials file besides its name, which \<open>configured_file\<close> proves of the configured path.

  Fuel appears in the JSON parser, which starts with more than twice the length of its input and never runs out of
  it (\<open>parse_fuel_enough\<close>); Go's limit of 10000 nested values is a part of the model. Symbolic links are followed at
  most 40 times, as by the system, and a temporary name is tried at most 10000 times, as by \<^verbatim>\<open>CreateTemp\<close>. All other recursion is structural or
  has a proved measure.

  Not modelled: the signals that end \<^verbatim>\<open>main\<close>'s context (the end of a login's context is an event of the callback server); the timeouts and redirect policy of the HTTP
  clients and the headers \<^verbatim>\<open>net/http\<close> adds on its own; the accept loop and the draining of open connections when the server shuts down; the world
  of a serving adapter is followed per request and not across its lifetime; the preemption of goroutines inside one
  operation under a mutex, which is one step except for the token refresh, whose steps are interleaved; the content
  of the error texts of the Go library. \<^verbatim>\<open>LoginOptions.Output\<close> is the text a login returns. The \<^verbatim>\<open>doc.go\<close> files hold no code.
\<close>

end
